(* ===== verification/Js_Prelude.thy ===== *)
theory Js_Prelude
  imports Complex_Main "HOL-Library.AList" "HOL-Library.List_Lexorder" "HOL-Library.Char_ord" "HOL-Library.Multiset"
begin

text \<open>
  The part of ECMAScript the modelled sources use, shared by every component:
  \<^item> strings are lists of code units; the alphabet is the code units 0 to 255, on which
    \<open>trim\<close> and \<open>toLowerCase\<close> are closed;
  \<^item> numbers are exact rationals with the three non-finite values, so the multiplications and
    divisions by powers of 1024 the sources perform are exact, as they are on doubles;
  \<^item> values of type \<open>unknown\<close> that come out of \<open>JSON.parse\<close> or of an HTTP response are
    \<open>json\<close>; an object is the list of its entries in \<open>Object.entries\<close> order and a missing
    property (\<open>undefined\<close>) is \<open>None\<close>;
  \<^item> a \<open>Map\<close> is an association list in insertion order, a \<open>Set\<close> a list without
    repetition in insertion order;
  \<^item> what the language leaves to the host (collation, the text of a number) is a field of
    the record \<open>js_host\<close>, an argument of every definition that depends on it.
\<close>

named_theorems js_simps \<open>evaluation rules of the ECMAScript fragment\<close>

section \<open>Values\<close>

datatype js_number = Fin rat | PInf | NInf | NaN

datatype json =
    JNull
  | JBool bool
  | JNum js_number
  | JStr string
  | JArr "json list"
  | JObj "(string \<times> json) list"

type_synonym jrec = "(string \<times> json) list"

record js_host =
  localeCompare :: "string \<Rightarrow> string \<Rightarrow> int"
  numToString :: "js_number \<Rightarrow> string"
  toLocaleString :: "rat \<Rightarrow> string"

text \<open>Property access, \<open>a ?? b\<close>, truthiness and \<open>String(value)\<close>.\<close>

definition jprop :: "jrec \<Rightarrow> string \<Rightarrow> json option" where
  "jprop r k = map_of r k"

fun coalesce :: "json option \<Rightarrow> json option \<Rightarrow> json option" where
  "coalesce None b = b"
| "coalesce (Some JNull) b = b"
| "coalesce (Some v) b = Some v"

fun truthy :: "json option \<Rightarrow> bool" where
  "truthy None = False"
| "truthy (Some JNull) = False"
| "truthy (Some (JBool b)) = b"
| "truthy (Some (JNum n)) = (n \<noteq> Fin 0 \<and> n \<noteq> NaN)"
| "truthy (Some (JStr s)) = (s \<noteq> [])"
| "truthy (Some (JArr _)) = True"
| "truthy (Some (JObj _)) = True"

fun nullish :: "json option \<Rightarrow> bool" where
  "nullish None = True"
| "nullish (Some JNull) = True"
| "nullish (Some _) = False"

text \<open>\<open>xs.join(sep)\<close>.\<close>

fun join :: "string \<Rightarrow> string list \<Rightarrow> string" where
  "join sep [] = []"
| "join sep [x] = x"
| "join sep (x # y # xs) = x @ sep @ join sep (y # xs)"

fun js_String :: "js_host \<Rightarrow> json \<Rightarrow> string"
and js_element_String :: "js_host \<Rightarrow> json \<Rightarrow> string" where
  "js_String h JNull = ''null''"
| "js_String h (JBool b) = (if b then ''true'' else ''false'')"
| "js_String h (JNum n) = numToString h n"
| "js_String h (JStr s) = s"
| "js_String h (JArr vs) = join '','' (map (js_element_String h) vs)"
| "js_String h (JObj _) = ''[object Object]''"
| "js_element_String h v = (if v = JNull then [] else js_String h v)"

section \<open>Strings\<close>

definition is_space :: "char \<Rightarrow> bool" where
  "is_space c \<longleftrightarrow> (of_char c :: nat) \<in> {9, 10, 11, 12, 13, 32, 160}"

definition trim :: "string \<Rightarrow> string" where
  "trim s = rev (dropWhile is_space (rev (dropWhile is_space s)))"

definition lower_char :: "char \<Rightarrow> char" where
  "lower_char c = (let n = (of_char c :: nat) in
     if (65 \<le> n \<and> n \<le> 90) \<or> (192 \<le> n \<and> n \<le> 222 \<and> n \<noteq> 215) then char_of (n + 32) else c)"

definition toLowerCase :: "string \<Rightarrow> string" where
  "toLowerCase s = map lower_char s"

text \<open>
  \<open>toUpperCase\<close> is used on HTTP method names only. Sharp s becomes two letters; the two code
  units whose capital lies outside the alphabet (181 and 255) are left as they are.
\<close>

definition upper_char :: "char \<Rightarrow> string" where
  "upper_char c = (let n = (of_char c :: nat) in
     if n = 223 then ''SS''
     else if (97 \<le> n \<and> n \<le> 122) \<or> (224 \<le> n \<and> n \<le> 254 \<and> n \<noteq> 247) then [char_of (n - 32)]
     else [c])"

definition toUpperCase :: "string \<Rightarrow> string" where
  "toUpperCase s = concat (map upper_char s)"

fun startsWith :: "string \<Rightarrow> string \<Rightarrow> bool" where
  "startsWith s [] = True"
| "startsWith [] (p # ps) = False"
| "startsWith (c # cs) (p # ps) = (c = p \<and> startsWith cs ps)"

definition endsWith :: "string \<Rightarrow> string \<Rightarrow> bool" where
  "endsWith s p = startsWith (rev s) (rev p)"

text \<open>\<open>s.indexOf(p)\<close>; \<open>None\<close> is \<open>-1\<close>.\<close>

fun indexOf :: "string \<Rightarrow> string \<Rightarrow> nat option" where
  "indexOf [] p = (if p = [] then Some 0 else None)"
| "indexOf (c # cs) p =
     (if startsWith (c # cs) p then Some 0 else map_option Suc (indexOf cs p))"

text \<open>Splitting at single characters (\<open>s.split(/[...]/)\<close>).\<close>

fun split_on :: "(char \<Rightarrow> bool) \<Rightarrow> string \<Rightarrow> string list" where
  "split_on p [] = [[]]"
| "split_on p (c # cs) =
     (if p c then [] # split_on p cs
      else (case split_on p cs of [] \<Rightarrow> [[c]] | w # ws \<Rightarrow> (c # w) # ws))"

text \<open>The decimal text of a natural number.\<close>

fun nat_string :: "nat \<Rightarrow> string" where
  "nat_string n = (if n < 10 then [char_of (48 + n)]
     else nat_string (n div 10) @ [char_of (48 + n mod 10)])"

declare nat_string.simps [simp del]

definition int_string :: "int \<Rightarrow> string" where
  "int_string i = (if i < 0 then CHR ''-'' # nat_string (nat (- i)) else nat_string (nat i))"

text \<open>A host with integer texts and code unit collation, for evaluating concrete inputs.\<close>

definition plain_host :: js_host where
  "plain_host = \<lparr>localeCompare = (\<lambda>a b. if a < b then - 1 else if a = b then 0 else 1),
     numToString = (\<lambda>n. case n of Fin q \<Rightarrow> int_string \<lfloor>q\<rfloor> | PInf \<Rightarrow> ''Infinity''
       | NInf \<Rightarrow> ''-Infinity'' | NaN \<Rightarrow> ''NaN''),
     toLocaleString = (\<lambda>q. int_string \<lfloor>q\<rfloor>)\<rparr>"

section \<open>Arrays, maps and sets\<close>

text \<open>\<open>xs.findIndex(p)\<close>; \<open>None\<close> is \<open>-1\<close>.\<close>

fun findIndex :: "('a \<Rightarrow> bool) \<Rightarrow> 'a list \<Rightarrow> nat option" where
  "findIndex p [] = None"
| "findIndex p (x # xs) = (if p x then Some 0 else map_option Suc (findIndex p xs))"

text \<open>\<open>new Set(xs)\<close>: the first occurrence of every element.\<close>

definition js_set :: "'a list \<Rightarrow> 'a list" where
  "js_set xs = rev (remdups (rev xs))"

text \<open>\<open>xs.sort(cmp)\<close> is a stable sort.\<close>

fun js_insert :: "('a \<Rightarrow> 'a \<Rightarrow> int) \<Rightarrow> 'a \<Rightarrow> 'a list \<Rightarrow> 'a list" where
  "js_insert cmp x [] = [x]"
| "js_insert cmp x (y # ys) = (if cmp x y \<le> 0 then x # y # ys else y # js_insert cmp x ys)"

definition js_sort :: "('a \<Rightarrow> 'a \<Rightarrow> int) \<Rightarrow> 'a list \<Rightarrow> 'a list" where
  "js_sort cmp xs = foldr (js_insert cmp) xs []"

section \<open>Lemmas on strings\<close>

lemma trim_Nil [simp]: "trim [] = []"
  by (simp add: trim_def)

lemma trim_unspaced:
  assumes "s \<noteq> []" and "\<not> is_space (hd s)" and "\<not> is_space (last s)"
  shows "trim s = s"
proof -
  have "dropWhile is_space s = s"
    using assms by (cases s) auto
  moreover have "dropWhile is_space (rev s) = rev s"
    using assms by (cases s rule: rev_cases) auto
  ultimately show ?thesis by (simp add: trim_def)
qed

lemma last_dropWhile: "dropWhile p s \<noteq> [] \<Longrightarrow> last (dropWhile p s) = last s"
  by (induction s) (auto split: if_splits)

lemma trim_ends:
  assumes "trim s \<noteq> []"
  shows "\<not> is_space (hd (trim s))" and "\<not> is_space (last (trim s))"
proof -
  let ?t = "dropWhile is_space s"
  let ?u = "dropWhile is_space (rev ?t)"
  have u: "?u \<noteq> []" using assms by (simp add: trim_def)
  then have t: "?t \<noteq> []" by (metis dropWhile.simps(1) rev.simps(1))
  have "last (trim s) = hd ?u" by (simp add: trim_def last_rev)
  then show "\<not> is_space (last (trim s))" using hd_dropWhile [OF u] by simp
  have "hd (trim s) = last ?u" by (simp add: trim_def hd_rev)
  also have "\<dots> = hd ?t" using last_dropWhile [OF u] t by (simp add: last_rev)
  finally show "\<not> is_space (hd (trim s))" using hd_dropWhile [OF t] by simp
qed

lemma trim_trim [simp]: "trim (trim s) = trim s"
  using trim_unspaced [of "trim s"] trim_ends [of s] by (cases "trim s = []") auto

lemma toLowerCase_Nil_iff [simp]: "toLowerCase s = [] \<longleftrightarrow> s = []"
  by (simp add: toLowerCase_def)

lemma lower_char_image:
  "(of_char (lower_char c) :: nat) =
     (let n = of_char c in
      if (65 \<le> n \<and> n \<le> 90) \<or> (192 \<le> n \<and> n \<le> 222 \<and> n \<noteq> 215) then n + 32 else n)"
  by (auto simp: lower_char_def Let_def)

lemma is_space_lower_char [simp]: "is_space (lower_char c) = is_space c"
  by (auto simp: is_space_def lower_char_image Let_def split: if_splits)

lemma lower_char_lower_char [simp]: "lower_char (lower_char c) = lower_char c"
proof -
  have "(of_char (lower_char (lower_char c)) :: nat) = of_char (lower_char c)"
    by (simp only: lower_char_image Let_def) (auto split: if_splits)
  then show ?thesis by (simp only: of_char_eq_iff)
qed

lemma toLowerCase_toLowerCase [simp]: "toLowerCase (toLowerCase s) = toLowerCase s"
  by (simp add: toLowerCase_def)

lemma dropWhile_map_space: "dropWhile is_space (map lower_char s) = map lower_char (dropWhile is_space s)"
  by (induction s) auto

lemma trim_toLowerCase: "trim (toLowerCase s) = toLowerCase (trim s)"
  by (simp add: trim_def toLowerCase_def rev_map dropWhile_map_space)

lemma startsWith_append [simp]: "startsWith (p @ s) p"
  by (induction p) auto

lemma startsWith_iff: "startsWith s p \<longleftrightarrow> (\<exists>t. s = p @ t)"
  by (induction s p rule: startsWith.induct) auto

lemma startsWith_single: "startsWith s [c] \<longleftrightarrow> (case s of [] \<Rightarrow> False | d # _ \<Rightarrow> d = c)"
  by (cases s) auto

text \<open>Searching a one-character separator.\<close>

lemma indexOf_single_None: "c \<notin> set s \<Longrightarrow> indexOf s [c] = None"
  by (induction s) auto

lemma indexOf_single_Some: "c \<notin> set a \<Longrightarrow> indexOf (a @ c # b) [c] = Some (length a)"
  by (induction a) auto

lemma split_on_ne [simp]: "split_on p s \<noteq> []"
  by (induction s) (auto split: list.splits)

lemma split_join:
  "xs \<noteq> [] \<Longrightarrow> list_all (\<lambda>x. s \<notin> set x) xs \<Longrightarrow> split_on (\<lambda>c. c = s) (join [s] xs) = xs"
proof (induction xs rule: induct_list012)
  case (2 x)
  then show ?case by (induction x) auto
next
  case (3 x y zs)
  have "split_on (\<lambda>c. c = s) (x @ s # t) = x # split_on (\<lambda>c. c = s) t" for t
    using 3(4) by (induction x) auto
  with 3 show ?case by simp
qed simp

section \<open>Lemmas on arrays, maps and sets\<close>

lemma findIndex_None: "findIndex p xs = None \<longleftrightarrow> (\<forall>x \<in> set xs. \<not> p x)"
  by (induction xs) auto

lemma findIndex_SomeD:
  "findIndex p xs = Some i \<Longrightarrow> i < length xs \<and> p (xs ! i) \<and> (\<forall>j < i. \<not> p (xs ! j))"
proof (induction xs arbitrary: i)
  case (Cons x xs)
  show ?case
  proof (cases "p x")
    case False
    with Cons.prems obtain j where j: "findIndex p xs = Some j" "i = Suc j" by auto
    from Cons.IH [OF j(1)] False j(2) show ?thesis
      by (auto simp: nth_Cons split: nat.splits)
  qed (use Cons.prems in auto)
qed simp

lemma findIndex_less: "findIndex p xs = Some i \<Longrightarrow> i < length xs"
  by (simp add: findIndex_SomeD)

lemma findIndex_sat: "findIndex p xs = Some i \<Longrightarrow> p (xs ! i)"
  by (simp add: findIndex_SomeD)

lemma findIndex_ex: "x \<in> set xs \<Longrightarrow> p x \<Longrightarrow> \<exists>i. findIndex p xs = Some i"
  by (induction xs) auto

lemma findIndex_append:
  "findIndex p (xs @ ys) =
     (case findIndex p xs of
        Some i \<Rightarrow> Some i
      | None \<Rightarrow> map_option (\<lambda>j. j + length xs) (findIndex p ys))"
  by (induction xs) (auto split: option.splits simp: option.map_comp comp_def option.map_ident)

lemma findIndex_update:
  assumes "findIndex p xs = Some i" and "p y"
  shows "findIndex p (xs[i := y]) = Some i"
  using assms by (induction xs arbitrary: i) (auto split: if_splits)

lemma set_js_set [simp]: "set (js_set xs) = set xs"
  by (simp add: js_set_def)

lemma distinct_js_set [simp]: "distinct (js_set xs)"
  by (simp add: js_set_def)

lemma js_set_Nil_iff [simp]: "js_set xs = [] \<longleftrightarrow> xs = []"
  by (simp add: js_set_def)

lemma mset_js_insert [simp]: "mset (js_insert cmp x xs) = add_mset x (mset xs)"
  by (induction xs) auto

lemma mset_js_sort [simp]: "mset (js_sort cmp xs) = mset xs"
  by (induction xs) (auto simp: js_sort_def)

lemma set_js_sort [simp]: "set (js_sort cmp xs) = set xs"
  by (metis mset_js_sort set_mset_mset)

lemma length_js_sort [simp]: "length (js_sort cmp xs) = length xs"
  by (metis mset_js_sort size_mset)

lemma js_sort_Nil [simp]: "js_sort cmp [] = []"
  by (simp add: js_sort_def)

lemma js_sort_sorted: "sorted_wrt (\<lambda>a b. cmp a b \<le> 0) xs \<Longrightarrow> js_sort cmp xs = xs"
proof (induction xs)
  case (Cons x xs)
  then show ?case by (cases xs) (auto simp: js_sort_def)
qed simp

lemma jprop_update [simp]: "jprop (AList.update k v r) k' = (if k' = k then Some v else jprop r k')"
  by (simp add: jprop_def update_conv)

lemma jprop_Nil [simp]: "jprop [] k = None"
  by (simp add: jprop_def)

lemma jprop_Cons [simp]: "jprop ((k, v) # r) k' = (if k' = k then Some v else jprop r k')"
  by (simp add: jprop_def)

lemma AList_update_map_of [simp]:
  "map_of (AList.update k v r) k' = (if k' = k then Some v else map_of r k')"
  by (simp add: update_conv)

lemmas string_defs [js_simps] =
  trim_def is_space_def toLowerCase_def lower_char_def toUpperCase_def upper_char_def
  endsWith_def Let_def js_set_def jprop_def

end
