(* ===== verification/Json_Text.thy ===== *)
theory Json_Text
  imports Js_Prelude
begin

text \<open>
  \<open>JSON.stringify\<close> (compact and with an indent of two), \<open>JSON.parse\<close> and \<open>Number(text)\<close> as the
  modelled sources use them. \<open>JSON.parse\<close> is a recursive descent reader with fuel; the top level
  gives it one unit more than the length of the text, and \<open>json_parse_any_fuel\<close> (in
  \<open>Json_Roundtrip\<close>) shows that a text read with any amount of fuel is read with this one. Decimal literals are read exactly.
\<close>

section \<open>Printing\<close>

definition hex_digit :: "nat \<Rightarrow> char" where
  "hex_digit n = (if n < 10 then char_of (48 + n) else char_of (87 + n))"

definition json_escape :: "char \<Rightarrow> string" where
  "json_escape c = (let n = (of_char c :: nat) in
     if n = 34 then [CHR 0x5C, CHR 0x22]
     else if n = 92 then [CHR 0x5C, CHR 0x5C]
     else if n = 8 then [CHR 0x5C, CHR ''b'']
     else if n = 9 then [CHR 0x5C, CHR ''t'']
     else if n = 10 then [CHR 0x5C, CHR ''n'']
     else if n = 12 then [CHR 0x5C, CHR ''f'']
     else if n = 13 then [CHR 0x5C, CHR ''r'']
     else if n < 32 then [CHR 0x5C, CHR ''u'', CHR ''0'', CHR ''0'', hex_digit (n div 16), hex_digit (n mod 16)]
     else [c])"

definition dquote :: string where
  "dquote = [CHR 0x22]"

definition newline :: string where
  "newline = [CHR 0x0A]"

definition json_quote :: "string \<Rightarrow> string" where
  "json_quote s = dquote @ concat (map json_escape s) @ dquote"

definition json_number :: "js_host \<Rightarrow> js_number \<Rightarrow> string" where
  "json_number h n = (case n of Fin _ \<Rightarrow> numToString h n | _ \<Rightarrow> ''null'')"

fun stringify :: "js_host \<Rightarrow> json \<Rightarrow> string"
and stringify_elems :: "js_host \<Rightarrow> json list \<Rightarrow> string list"
and stringify_members :: "js_host \<Rightarrow> (string \<times> json) list \<Rightarrow> string list" where
  "stringify h JNull = ''null''"
| "stringify h (JBool b) = (if b then ''true'' else ''false'')"
| "stringify h (JNum n) = json_number h n"
| "stringify h (JStr s) = json_quote s"
| "stringify h (JArr vs) = ''['' @ join '','' (stringify_elems h vs) @ '']''"
| "stringify h (JObj r) = ''{'' @ join '','' (stringify_members h r) @ ''}''"
| "stringify_elems h [] = []"
| "stringify_elems h (v # vs) = stringify h v # stringify_elems h vs"
| "stringify_members h [] = []"
| "stringify_members h ((k, v) # r) = (json_quote k @ '':'' @ stringify h v) # stringify_members h r"

text \<open>\<open>JSON.stringify(value, null, 2)\<close>; the first argument is the current indentation.\<close>

fun stringify2 :: "js_host \<Rightarrow> string \<Rightarrow> json \<Rightarrow> string"
and stringify2_elems :: "js_host \<Rightarrow> string \<Rightarrow> json list \<Rightarrow> string list"
and stringify2_members :: "js_host \<Rightarrow> string \<Rightarrow> (string \<times> json) list \<Rightarrow> string list" where
  "stringify2 h i (JArr vs) = (if vs = [] then ''[]'' else
     ''['' @ newline @ join ('','' @ newline) (stringify2_elems h (i @ ''  '') vs) @ newline @ i @ '']'')"
| "stringify2 h i (JObj r) = (if r = [] then ''{}'' else
     ''{'' @ newline @ join ('','' @ newline) (stringify2_members h (i @ ''  '') r) @ newline @ i @ ''}'')"
| "stringify2 h i v = stringify h v"
| "stringify2_elems h i [] = []"
| "stringify2_elems h i (v # vs) = (i @ stringify2 h i v) # stringify2_elems h i vs"
| "stringify2_members h i [] = []"
| "stringify2_members h i ((k, v) # r) =
     (i @ json_quote k @ '': '' @ stringify2 h i v) # stringify2_members h i r"

section \<open>Reading\<close>

definition json_ws :: "char \<Rightarrow> bool" where
  "json_ws c \<longleftrightarrow> (of_char c :: nat) \<in> {9, 10, 13, 32}"

definition skip_ws :: "string \<Rightarrow> string" where
  "skip_ws s = dropWhile json_ws s"

definition is_digit :: "char \<Rightarrow> bool" where
  "is_digit c \<longleftrightarrow> 48 \<le> (of_char c :: nat) \<and> (of_char c :: nat) \<le> 57"

definition digit_val :: "char \<Rightarrow> nat" where
  "digit_val c = of_char c - 48"

definition digits_val :: "string \<Rightarrow> nat" where
  "digits_val ds = foldl (\<lambda>n c. 10 * n + digit_val c) 0 ds"

definition hex_val :: "char \<Rightarrow> nat option" where
  "hex_val c = (let n = (of_char c :: nat) in
     if 48 \<le> n \<and> n \<le> 57 then Some (n - 48)
     else if 97 \<le> n \<and> n \<le> 102 then Some (n - 87)
     else if 65 \<le> n \<and> n \<le> 70 then Some (n - 55)
     else None)"

definition expect :: "char \<Rightarrow> string \<Rightarrow> string option" where
  "expect x s = (case s of [] \<Rightarrow> None | c # cs \<Rightarrow> if c = x then Some cs else None)"

text \<open>The optional fraction and exponent of a decimal literal, and the value of the literal.\<close>

definition read_frac :: "string \<Rightarrow> (string \<times> string) option" where
  "read_frac s = (case expect (CHR ''.'') s of
     None \<Rightarrow> Some ([], s)
   | Some t \<Rightarrow> (let ds = takeWhile is_digit t in
       if ds = [] then None else Some (ds, dropWhile is_digit t)))"

definition read_exp :: "string \<Rightarrow> (int \<times> string) option" where
  "read_exp s = (case s of [] \<Rightarrow> Some (0, s) | e # t \<Rightarrow>
     if e = CHR ''e'' \<or> e = CHR ''E'' then
       (let (sg, u) = (case t of [] \<Rightarrow> (1, t) | c # u \<Rightarrow>
                         if c = CHR ''-'' then (- 1, u) else if c = CHR ''+'' then (1, u) else (1, t));
            ds = takeWhile is_digit u in
        if ds = [] then None else Some (sg * int (digits_val ds), dropWhile is_digit u))
     else Some (0, s))"

definition pow10 :: "int \<Rightarrow> rat" where
  "pow10 e = (if e < 0 then 1 / 10 ^ nat (- e) else 10 ^ nat e)"

definition decimal :: "bool \<Rightarrow> string \<Rightarrow> string \<Rightarrow> int \<Rightarrow> rat" where
  "decimal neg ip fp e =
     (if neg then - 1 else 1) * of_nat (digits_val (ip @ fp)) * pow10 (e - int (length fp))"

definition read_number :: "string \<Rightarrow> (js_number \<times> string) option" where
  "read_number s =
     (let (neg, t) = (case expect (CHR ''-'') s of Some t \<Rightarrow> (True, t) | None \<Rightarrow> (False, s));
          ip = takeWhile is_digit t; u = dropWhile is_digit t in
      if ip = [] \<or> (hd ip = CHR ''0'' \<and> 1 < length ip) then None
      else Option.bind (read_frac u) (\<lambda>(fp, v).
             Option.bind (read_exp v) (\<lambda>(e, w).
               Some (Fin (decimal neg ip fp e), w))))"

definition simple_escape :: "char \<Rightarrow> char option" where
  "simple_escape e = (let n = (of_char e :: nat) in
     if n = 34 \<or> n = 92 \<or> n = 47 then Some e
     else if e = CHR ''b'' then Some (CHR 0x08)
     else if e = CHR ''f'' then Some (CHR 0x0C)
     else if e = CHR ''n'' then Some (CHR 0x0A)
     else if e = CHR ''r'' then Some (CHR 0x0D)
     else if e = CHR ''t'' then Some (CHR 0x09)
     else None)"

text \<open>The characters of a string literal, from after its opening quote.\<close>

definition read_unicode :: "char \<Rightarrow> char \<Rightarrow> char \<Rightarrow> char \<Rightarrow> char option" where
  "read_unicode a b c d = Option.bind (hex_val a) (\<lambda>w. Option.bind (hex_val b) (\<lambda>x.
     Option.bind (hex_val c) (\<lambda>y. Option.bind (hex_val d) (\<lambda>z.
       if w = 0 \<and> x = 0 then Some (char_of (16 * y + z)) else None))))"

fun read_chars :: "string \<Rightarrow> (string \<times> string) option" where
  "read_chars [] = None"
| "read_chars (c # cs) =
     (if c = CHR 0x22 then Some ([], cs)
      else if c = CHR 0x5C then
        (case cs of
           [] \<Rightarrow> None
         | e # ds \<Rightarrow>
             (if e = CHR ''u'' then
                (case ds of
                   w # x # y # z # es \<Rightarrow>
                     Option.bind (read_unicode w x y z) (\<lambda>k.
                       map_option (apfst ((#) k)) (read_chars es))
                 | _ \<Rightarrow> None)
              else Option.bind (simple_escape e) (\<lambda>k.
                     map_option (apfst ((#) k)) (read_chars ds))))
      else if (of_char c :: nat) < 32 then None
      else map_option (apfst ((#) c)) (read_chars cs))"

definition read_literal :: "string \<Rightarrow> json \<Rightarrow> string \<Rightarrow> (json \<times> string) option" where
  "read_literal l v s = (if startsWith s l then Some (v, drop (length l) s) else None)"

fun parse_value :: "nat \<Rightarrow> string \<Rightarrow> (json \<times> string) option"
and parse_elems :: "nat \<Rightarrow> string \<Rightarrow> (json list \<times> string) option"
and parse_members :: "nat \<Rightarrow> jrec \<Rightarrow> string \<Rightarrow> (jrec \<times> string) option" where
  "parse_value 0 s = None"
| "parse_value (Suc n) [] = None"
| "parse_value (Suc n) (c # cs) =
     (if c = CHR 0x22 then map_option (apfst JStr) (read_chars cs)
      else if c = CHR ''['' then
        (case expect (CHR '']'') (skip_ws cs) of
           Some r \<Rightarrow> Some (JArr [], r)
         | None \<Rightarrow> map_option (apfst JArr) (parse_elems n (skip_ws cs)))
      else if c = CHR ''{'' then
        (case expect (CHR ''}'') (skip_ws cs) of
           Some r \<Rightarrow> Some (JObj [], r)
         | None \<Rightarrow> map_option (apfst JObj) (parse_members n [] (skip_ws cs)))
      else if c = CHR ''n'' then read_literal ''null'' JNull (c # cs)
      else if c = CHR ''t'' then read_literal ''true'' (JBool True) (c # cs)
      else if c = CHR ''f'' then read_literal ''false'' (JBool False) (c # cs)
      else map_option (apfst JNum) (read_number (c # cs)))"
| "parse_elems 0 s = None"
| "parse_elems (Suc n) s =
     Option.bind (parse_value n s) (\<lambda>(v, r).
       case expect (CHR '']'') (skip_ws r) of
         Some t \<Rightarrow> Some ([v], t)
       | None \<Rightarrow> Option.bind (expect (CHR '','') (skip_ws r)) (\<lambda>t.
                   map_option (apfst ((#) v)) (parse_elems n (skip_ws t))))"
| "parse_members 0 acc s = None"
| "parse_members (Suc n) acc s =
     Option.bind (expect (CHR 0x22) s) (\<lambda>s1.
     Option.bind (read_chars s1) (\<lambda>(k, s2).
     Option.bind (expect (CHR '':'') (skip_ws s2)) (\<lambda>s3.
     Option.bind (parse_value n (skip_ws s3)) (\<lambda>(v, r).
       case expect (CHR ''}'') (skip_ws r) of
         Some t \<Rightarrow> Some (AList.update k v acc, t)
       | None \<Rightarrow> Option.bind (expect (CHR '','') (skip_ws r)) (\<lambda>t.
                   parse_members n (AList.update k v acc) (skip_ws t))))))"

text \<open>\<open>JSON.parse(text)\<close>; \<open>None\<close> is the thrown \<open>SyntaxError\<close>.\<close>

definition json_parse :: "string \<Rightarrow> json option" where
  "json_parse s =
     (case parse_value (Suc (length s)) (skip_ws s) of
        Some (v, r) \<Rightarrow> if skip_ws r = [] then Some v else None
      | None \<Rightarrow> None)"

text \<open>
  \<open>Number(text)\<close>: the empty text, signed decimal literals and \<open>Infinity\<close>, and unsigned
  hexadecimal, octal and binary literals.
\<close>

definition read_radix :: "nat \<Rightarrow> string \<Rightarrow> js_number" where
  "read_radix b ds =
     (if ds \<noteq> [] \<and> (\<forall>c \<in> set ds. case hex_val c of Some d \<Rightarrow> d < b | None \<Rightarrow> False)
      then Fin (of_nat (foldl (\<lambda>n c. b * n + (case hex_val c of Some d \<Rightarrow> d | None \<Rightarrow> 0)) 0 ds))
      else NaN)"

definition read_unsigned :: "bool \<Rightarrow> string \<Rightarrow> js_number" where
  "read_unsigned neg s =
     (let ip = takeWhile is_digit s; u = dropWhile is_digit s;
          (fp, v) = (case expect (CHR ''.'') u of
                       Some t \<Rightarrow> (takeWhile is_digit t, dropWhile is_digit t)
                     | None \<Rightarrow> ([], u)) in
      if s = ''Infinity'' then (if neg then NInf else PInf)
      else if ip @ fp = [] then NaN
      else (case read_exp v of Some (e, []) \<Rightarrow> Fin (decimal neg ip fp e) | _ \<Rightarrow> NaN))"

definition js_Number :: "string \<Rightarrow> js_number" where
  "js_Number raw = (let s = trim raw in
     if s = [] then Fin 0
     else if hd s = CHR ''-'' then read_unsigned True (tl s)
     else if hd s = CHR ''+'' then read_unsigned False (tl s)
     else if startsWith (toLowerCase s) ''0x'' then read_radix 16 (drop 2 s)
     else if startsWith (toLowerCase s) ''0o'' then read_radix 8 (drop 2 s)
     else if startsWith (toLowerCase s) ''0b'' then read_radix 2 (drop 2 s)
     else read_unsigned False s)"

section \<open>Digits\<close>

lemma digits_val_snoc: "digits_val (ds @ [c]) = 10 * digits_val ds + digit_val c"
  by (simp add: digits_val_def)

lemma nat_string_digits: "nat_string n \<noteq> []" "list_all is_digit (nat_string n)" "digits_val (nat_string n) = n"
proof -
  have "nat_string n \<noteq> [] \<and> list_all is_digit (nat_string n) \<and> digits_val (nat_string n) = n"
  proof (induction n rule: nat_string.induct)
    case (1 n)
    show ?case
    proof (cases "n < 10")
      case True
      then show ?thesis by (simp add: nat_string.simps [of n] is_digit_def digits_val_def digit_val_def)
    next
      case False
      then have "nat_string n = nat_string (n div 10) @ [char_of (48 + n mod 10)]"
        by (simp add: nat_string.simps [of n])
      then show ?thesis
        using 1 [OF False] by (simp add: digits_val_snoc is_digit_def digit_val_def)
    qed
  qed
  then show "nat_string n \<noteq> []" "list_all is_digit (nat_string n)" "digits_val (nat_string n) = n" by simp_all
qed

end
