(* ===== verification/Json_Parsers.thy ===== *)
theory Json_Parsers
  imports Json_Text
begin

text \<open>
  \<open>frontend/src/features/cephAdmin/bucketJsonParsers.ts\<close>: the canonical text of a JSON value, the
  readers of the bulk form's text areas, and the merge and deletion of notification
  configurations. A reader returns \<open>Inl error\<close> where the source returns an object with an
  \<open>error\<close> property; the \<open>catch\<close> blocks are the \<open>None\<close> case of \<open>json_parse\<close>.
\<close>

section \<open>Canonical text\<close>

definition isJsonObject :: "json \<Rightarrow> bool" where
  "isJsonObject v = (case v of JObj _ \<Rightarrow> True | _ \<Rightarrow> False)"

definition as_rec :: "json \<Rightarrow> jrec" where
  "as_rec v = (case v of JObj r \<Rightarrow> r | _ \<Rightarrow> [])"

text \<open>
  The source sorts the entries and then prints them; here every entry is printed next to its key
  and the pairs are sorted by key, which is the same list since the order only looks at keys.
\<close>

fun stableStringify :: "js_host \<Rightarrow> json \<Rightarrow> string"
and stable_elems :: "js_host \<Rightarrow> json list \<Rightarrow> string list"
and stable_entries :: "js_host \<Rightarrow> jrec \<Rightarrow> (string \<times> string) list" where
  "stableStringify h JNull = ''null''"
| "stableStringify h (JBool b) = stringify h (JBool b)"
| "stableStringify h (JNum n) = stringify h (JNum n)"
| "stableStringify h (JStr s) = stringify h (JStr s)"
| "stableStringify h (JArr vs) = ''['' @ join '','' (stable_elems h vs) @ '']''"
| "stableStringify h (JObj r) =
     ''{'' @ join '','' (map (\<lambda>(k, t). json_quote k @ '':'' @ t)
        (js_sort (\<lambda>a b. localeCompare h (fst a) (fst b)) (stable_entries h r))) @ ''}''"
| "stable_elems h [] = []"
| "stable_elems h (v # vs) = stableStringify h v # stable_elems h vs"
| "stable_entries h [] = []"
| "stable_entries h ((k, v) # r) = (k, stableStringify h v) # stable_entries h r"

section \<open>Readers of the text areas\<close>

definition parseLifecycleRules :: "string \<Rightarrow> string + jrec list" where
  "parseLifecycleRules raw =
     (let trimmed = trim raw in
      if trimmed = [] then Inl ''Provide lifecycle rules in JSON format.''
      else case json_parse trimmed of
        None \<Rightarrow> Inl ''Invalid JSON.''
      | Some (JArr vs) \<Rightarrow>
          if vs = [] then Inl ''Provide at least one lifecycle rule.''
          else (case findIndex (\<lambda>v. \<not> isJsonObject v) vs of
              Some i \<Rightarrow> Inl (''Lifecycle rule at index '' @ nat_string i @ '' must be a JSON object.'')
            | None \<Rightarrow> Inr (map as_rec vs))
      | Some (JObj r) \<Rightarrow> Inr [r]
      | Some _ \<Rightarrow> Inl ''Lifecycle rules must be a JSON object or array.'')"

definition parseCorsRules :: "string \<Rightarrow> string + jrec list" where
  "parseCorsRules raw =
     (let trimmed = trim raw in
      if trimmed = [] then Inl ''Provide CORS rules in JSON format.''
      else case json_parse trimmed of
        None \<Rightarrow> Inl ''Invalid JSON.''
      | Some (JArr vs) \<Rightarrow>
          if vs = [] then Inl ''Provide at least one CORS rule.''
          else (case findIndex (\<lambda>v. \<not> isJsonObject v) vs of
              Some i \<Rightarrow> Inl (''CORS rule at index '' @ nat_string i @ '' must be a JSON object.'')
            | None \<Rightarrow> Inr (map as_rec vs))
      | Some (JObj r) \<Rightarrow> Inr [r]
      | Some _ \<Rightarrow> Inl ''CORS rules must be a JSON object or array.'')"

text \<open>The result is the policy document and its statements.\<close>

definition parsePolicyStatements :: "string \<Rightarrow> string + (jrec \<times> jrec list)" where
  "parsePolicyStatements raw =
     (let trimmed = trim raw;
          bad = (\<lambda>i. ''Policy statement at index '' @ nat_string i @ '' must be a JSON object.'') in
      if trimmed = [] then Inl ''Provide a policy in JSON format.''
      else case json_parse trimmed of
        None \<Rightarrow> Inl ''Invalid JSON.''
      | Some (JArr vs) \<Rightarrow>
          if vs = [] then Inl ''Provide at least one policy statement.''
          else (case findIndex (\<lambda>v. \<not> isJsonObject v) vs of
              Some i \<Rightarrow> Inl (bad i)
            | None \<Rightarrow> Inr ([(''Statement'', JArr vs)], map as_rec vs))
      | Some (JObj r) \<Rightarrow>
          (case jprop r ''Statement'' of
             Some (JArr vs) \<Rightarrow>
               if vs = [] then Inl ''Provide at least one policy statement.''
               else (case findIndex (\<lambda>v. \<not> isJsonObject v) vs of
                   Some i \<Rightarrow> Inl (bad i)
                 | None \<Rightarrow> Inr (r, map as_rec vs))
           | Some (JObj st) \<Rightarrow> Inr (AList.update ''Statement'' (JArr [JObj st]) r, [st])
           | _ \<Rightarrow> Inr ([(''Statement'', JArr [JObj r])], [r]))
      | Some _ \<Rightarrow> Inl ''Policy must be a JSON object or array.'')"

definition rule_id_text :: "js_host \<Rightarrow> json \<Rightarrow> string" where
  "rule_id_text h v = (case v of
     JStr s \<Rightarrow> trim s
   | JNum n \<Rightarrow> trim (numToString h n)
   | _ \<Rightarrow> [])"

definition parseRuleIds :: "js_host \<Rightarrow> string \<Rightarrow> string list" where
  "parseRuleIds h raw =
     (let trimmed = trim raw;
          listed = filter (\<lambda>s. s \<noteq> [])
            (map trim (split_on (\<lambda>c. c = CHR ''\<newline>'' \<or> c = CHR '','') trimmed)) in
      if trimmed = [] then []
      else if startsWith trimmed ''['' \<and> endsWith trimmed '']'' then
        (case json_parse trimmed of
           None \<Rightarrow> []
         | Some (JArr vs) \<Rightarrow> filter (\<lambda>s. s \<noteq> []) (map (rule_id_text h) vs)
         | Some _ \<Rightarrow> listed)
      else listed)"

section \<open>Notification configurations\<close>

datatype NotificationConfigurationTypeKey = Topic | Queue | Lambda | Eventbridge

definition notification_key :: "NotificationConfigurationTypeKey \<Rightarrow> string" where
  "notification_key t = (case t of
     Topic \<Rightarrow> ''TopicConfigurations''
   | Queue \<Rightarrow> ''QueueConfigurations''
   | Lambda \<Rightarrow> ''LambdaFunctionConfigurations''
   | Eventbridge \<Rightarrow> ''EventBridgeConfiguration'')"

definition NOTIFICATION_ARRAY_TYPES :: "NotificationConfigurationTypeKey list" where
  "NOTIFICATION_ARRAY_TYPES = [Topic, Queue, Lambda]"

datatype change_action = Replace | Add | Remove

record notification_change =
  nc_type :: NotificationConfigurationTypeKey
  nc_action :: change_action
  nc_index :: "nat option"
  nc_before :: "jrec option"
  nc_after :: "jrec option"

definition getNotificationConfigurationId :: "js_host \<Rightarrow> jrec \<Rightarrow> string option" where
  "getNotificationConfigurationId h c =
     (case coalesce (coalesce (jprop c ''Id'') (jprop c ''ID'')) (jprop c ''id'') of
        Some (JStr s) \<Rightarrow> (if trim s = [] then None else Some (trim s))
      | Some (JNum n) \<Rightarrow> Some (numToString h n)
      | _ \<Rightarrow> None)"

definition normalize_array_type :: "jrec \<Rightarrow> NotificationConfigurationTypeKey \<Rightarrow> jrec \<Rightarrow> jrec" where
  "normalize_array_type c t normalized =
     (case jprop c (notification_key t) of
        Some (JArr vs) \<Rightarrow>
          (let entries = filter isJsonObject vs in
           if entries \<noteq> [] then AList.update (notification_key t) (JArr entries) normalized
           else normalized)
      | _ \<Rightarrow> normalized)"

definition normalizeNotificationConfigurationForBulk :: "json \<Rightarrow> jrec" where
  "normalizeNotificationConfigurationForBulk v =
     (case v of
        JObj c \<Rightarrow>
          (let n = fold (normalize_array_type c) NOTIFICATION_ARRAY_TYPES [] in
           case jprop c (notification_key Eventbridge) of
             Some (JObj e) \<Rightarrow> AList.update (notification_key Eventbridge) (JObj e) n
           | _ \<Rightarrow> n)
      | _ \<Rightarrow> [])"

definition array_entries :: "jrec \<Rightarrow> NotificationConfigurationTypeKey \<Rightarrow> jrec list" where
  "array_entries c t =
     (case jprop c (notification_key t) of Some (JArr vs) \<Rightarrow> map as_rec vs | _ \<Rightarrow> [])"

definition isNotificationConfigurationEmpty :: "json \<Rightarrow> bool" where
  "isNotificationConfigurationEmpty v =
     (let n = normalizeNotificationConfigurationForBulk v in
      \<not> (\<exists>t \<in> set NOTIFICATION_ARRAY_TYPES. array_entries n t \<noteq> [])
      \<and> jprop n (notification_key Eventbridge) = None)"

text \<open>The checks of one array-valued key: \<open>None\<close> when it passes.\<close>

definition notification_key_error :: "jrec \<Rightarrow> NotificationConfigurationTypeKey \<Rightarrow> string option" where
  "notification_key_error c t =
     (case jprop c (notification_key t) of
        None \<Rightarrow> None
      | Some (JArr vs) \<Rightarrow>
          map_option (\<lambda>i. notification_key t @ '' entry at index '' @ nat_string i
                          @ '' must be a JSON object.'')
            (findIndex (\<lambda>v. \<not> isJsonObject v) vs)
      | Some _ \<Rightarrow> Some (notification_key t @ '' must be an array.''))"

fun first_error :: "('a \<Rightarrow> string option) \<Rightarrow> 'a list \<Rightarrow> string option" where
  "first_error f [] = None"
| "first_error f (x # xs) = (case f x of Some e \<Rightarrow> Some e | None \<Rightarrow> first_error f xs)"

definition parseNotificationConfiguration :: "string \<Rightarrow> string + jrec" where
  "parseNotificationConfiguration raw =
     (let trimmed = trim raw in
      if trimmed = [] then Inl ''Provide notification configuration in JSON format.''
      else case json_parse trimmed of
        None \<Rightarrow> Inl ''Invalid JSON.''
      | Some (JObj c) \<Rightarrow>
          (case first_error (notification_key_error c) NOTIFICATION_ARRAY_TYPES of
             Some e \<Rightarrow> Inl e
           | None \<Rightarrow>
               (if jprop c (notification_key Eventbridge) \<noteq> None
                   \<and> \<not> isJsonObject (the (jprop c (notification_key Eventbridge)))
                then Inl (notification_key Eventbridge @ '' must be a JSON object.'')
                else let configuration = normalizeNotificationConfigurationForBulk (JObj c) in
                  if isNotificationConfigurationEmpty (JObj configuration)
                  then Inl ''Provide at least one notification configuration.''
                  else Inr configuration))
      | Some _ \<Rightarrow> Inl ''Notification configuration must be a JSON object.'')"

text \<open>
  One incoming entry against the entries collected so far; the pair is \<open>nextEntries\<close> and
  \<open>changes\<close>.
\<close>

definition merge_notification_entry ::
  "js_host \<Rightarrow> NotificationConfigurationTypeKey \<Rightarrow> jrec \<Rightarrow>
   jrec list \<times> notification_change list \<Rightarrow> jrec list \<times> notification_change list" where
  "merge_notification_entry h t incoming st =
     (case st of (nxt, changes) \<Rightarrow>
       (let serialize = (\<lambda>r. stableStringify h (JObj r));
            by_content =
              (if \<exists>e \<in> set nxt. serialize e = serialize incoming then (nxt, changes)
               else (nxt @ [incoming],
                     changes @ [\<lparr>nc_type = t, nc_action = Add, nc_index = Some (length nxt),
                                 nc_before = None, nc_after = Some incoming\<rparr>])) in
        case getNotificationConfigurationId h incoming of
          None \<Rightarrow> by_content
        | Some i \<Rightarrow>
            (case findIndex (\<lambda>e. getNotificationConfigurationId h e = Some i) nxt of
               None \<Rightarrow> by_content
             | Some m \<Rightarrow>
                 (if serialize (nxt ! m) \<noteq> serialize incoming
                  then (nxt[m := incoming],
                        changes @ [\<lparr>nc_type = t, nc_action = Replace, nc_index = Some m,
                                    nc_before = Some (nxt ! m), nc_after = Some incoming\<rparr>])
                  else (nxt, changes)))))"

definition merge_notification_type ::
  "js_host \<Rightarrow> jrec \<Rightarrow> jrec \<Rightarrow> NotificationConfigurationTypeKey \<Rightarrow>
   jrec \<times> notification_change list \<Rightarrow> jrec \<times> notification_change list" where
  "merge_notification_type h existing incoming t st =
     (case st of (nxt, changes) \<Rightarrow>
       (case fold (merge_notification_entry h t) (array_entries incoming t)
               (array_entries existing t, changes) of
          (entries, changes') \<Rightarrow>
            (if entries \<noteq> [] then AList.update (notification_key t) (JArr (map JObj entries)) nxt
             else nxt, changes')))"

definition mergeNotificationConfigurations ::
  "js_host \<Rightarrow> json \<Rightarrow> json \<Rightarrow> jrec \<times> notification_change list" where
  "mergeNotificationConfigurations h existingConfiguration incomingConfiguration =
     (let existing = normalizeNotificationConfigurationForBulk existingConfiguration;
          incoming = normalizeNotificationConfigurationForBulk incomingConfiguration;
          eb = notification_key Eventbridge;
          (nxt, changes) = fold (merge_notification_type h existing incoming)
            NOTIFICATION_ARRAY_TYPES ([], []);
          nxt1 = (case jprop existing eb of Some e \<Rightarrow> AList.update eb e nxt | None \<Rightarrow> nxt) in
      case jprop incoming eb of
        None \<Rightarrow> (nxt1, changes)
      | Some i \<Rightarrow>
          (AList.update eb i nxt1,
           (case jprop existing eb of
              Some e \<Rightarrow>
                (if stableStringify h e \<noteq> stableStringify h i
                 then changes @ [\<lparr>nc_type = Eventbridge, nc_action = Replace, nc_index = None,
                                  nc_before = Some (as_rec e), nc_after = Some (as_rec i)\<rparr>]
                 else changes)
            | None \<Rightarrow>
                changes @ [\<lparr>nc_type = Eventbridge, nc_action = Add, nc_index = None,
                            nc_before = None, nc_after = Some (as_rec i)\<rparr>])))"

text \<open>Deleting by identifier or by whole type.\<close>

definition notification_removed ::
  "js_host \<Rightarrow> string list \<Rightarrow> NotificationConfigurationTypeKey list \<Rightarrow>
   NotificationConfigurationTypeKey \<Rightarrow> jrec \<Rightarrow> bool" where
  "notification_removed h deleteIds deleteTypes t entry =
     (t \<in> set deleteTypes \<or>
      (case getNotificationConfigurationId h entry of
         Some i \<Rightarrow> i \<in> set deleteIds
       | None \<Rightarrow> False))"

definition delete_notification_type ::
  "js_host \<Rightarrow> jrec \<Rightarrow> string list \<Rightarrow> NotificationConfigurationTypeKey list \<Rightarrow>
   NotificationConfigurationTypeKey \<Rightarrow> jrec \<times> notification_change list \<Rightarrow>
   jrec \<times> notification_change list" where
  "delete_notification_type h existing deleteIds deleteTypes t st =
     (case st of (nxt, changes) \<Rightarrow>
       (let removed = notification_removed h deleteIds deleteTypes t;
            es = array_entries existing t;
            kept = filter (\<lambda>e. \<not> removed e) es;
            gone = map (\<lambda>(i, e). \<lparr>nc_type = t, nc_action = Remove, nc_index = Some i,
                                   nc_before = Some e, nc_after = None\<rparr>)
                     (filter (\<lambda>(i, e). removed e) (enumerate 0 es)) in
        (if kept \<noteq> [] then AList.update (notification_key t) (JArr (map JObj kept)) nxt else nxt,
         changes @ gone)))"

definition deleteNotificationConfigurations ::
  "js_host \<Rightarrow> json \<Rightarrow> string list \<Rightarrow> NotificationConfigurationTypeKey list \<Rightarrow>
   jrec \<times> notification_change list" where
  "deleteNotificationConfigurations h existingConfiguration deleteIds deleteTypes =
     (let existing = normalizeNotificationConfigurationForBulk existingConfiguration;
          eb = notification_key Eventbridge;
          (nxt, changes) = fold (delete_notification_type h existing deleteIds deleteTypes)
            NOTIFICATION_ARRAY_TYPES ([], []) in
      case jprop existing eb of
        None \<Rightarrow> (nxt, changes)
      | Some e \<Rightarrow>
          (if Eventbridge \<in> set deleteTypes
           then (nxt, changes @ [\<lparr>nc_type = Eventbridge, nc_action = Remove, nc_index = None,
                                   nc_before = Some (as_rec e), nc_after = None\<rparr>])
           else (AList.update eb e nxt, changes)))"

lemma as_rec_JObj [simp]: "as_rec \<circ> JObj = id"
  by (auto simp: as_rec_def)

end
