(* ===== verification/Json_Roundtrip.thy ===== *)
theory Json_Roundtrip
  imports Json_Parsers
begin

text \<open>
  Reading back what was printed. \<open>json_ok h v\<close> says that objects have distinct keys and that the
  text of every number of \<open>v\<close> reads back as that number; on such values \<open>json_parse\<close> inverts
  \<open>stringify\<close>, and two values have the same canonical text exactly when they are equal up to the
  order of object keys (\<open>canon\<close>).
\<close>

section \<open>String literals\<close>

lemma hex_val_hex_digit: "n < 16 \<Longrightarrow> hex_val (hex_digit n) = Some n"
  by (auto simp: hex_val_def hex_digit_def Let_def)

lemma char_code: "(of_char c :: nat) = of_char d \<Longrightarrow> c = d"
  by (simp only: of_char_eq_iff)

lemma char_codes:
  "(of_char c :: nat) = 34 \<longleftrightarrow> c = CHR 0x22" "(of_char c :: nat) = 92 \<longleftrightarrow> c = CHR 0x5C"
  "(of_char c :: nat) = 8 \<longleftrightarrow> c = CHR 0x08" "(of_char c :: nat) = 9 \<longleftrightarrow> c = CHR 0x09"
  "(of_char c :: nat) = 10 \<longleftrightarrow> c = CHR 0x0A" "(of_char c :: nat) = 12 \<longleftrightarrow> c = CHR 0x0C"
  "(of_char c :: nat) = 13 \<longleftrightarrow> c = CHR 0x0D"
  using char_code [of c "CHR 0x22"] char_code [of c "CHR 0x5C"] char_code [of c "CHR 0x08"]
    char_code [of c "CHR 0x09"] char_code [of c "CHR 0x0A"] char_code [of c "CHR 0x0C"]
    char_code [of c "CHR 0x0D"]
  by auto

lemma read_unicode_code:
  assumes "(of_char c :: nat) < 32"
  shows "read_unicode (CHR ''0'') (CHR ''0'') (hex_digit (of_char c div 16)) (hex_digit (of_char c mod 16))
    = Some c"
proof -
  have z: "hex_val (CHR ''0'') = Some 0" by (simp add: hex_val_def)
  have "16 * (of_char c div 16) + of_char c mod 16 = (of_char c :: nat)" by simp
  then show ?thesis
    using assms by (simp add: read_unicode_def z hex_val_hex_digit)
qed

lemma read_escape: "read_chars (json_escape c @ t) = map_option (apfst ((#) c)) (read_chars t)"
proof -
  let ?n = "of_char c :: nat"
  consider "?n = 34" | "?n = 92" | "?n = 8" | "?n = 9" | "?n = 10" | "?n = 12" | "?n = 13"
    | "?n < 32" "?n \<notin> {8, 9, 10, 12, 13}" | "32 \<le> ?n" "?n \<noteq> 34" "?n \<noteq> 92"
    by fastforce
  then show ?thesis
  proof cases
    case 8
    then have "json_escape c = [CHR 0x5C, CHR ''u'', CHR ''0'', CHR ''0'',
        hex_digit (?n div 16), hex_digit (?n mod 16)]"
      by (simp add: json_escape_def Let_def)
    then show ?thesis using 8 by (simp add: read_unicode_code)
  next
    case 9
    then have "json_escape c = [c]" and "c \<noteq> CHR 0x22" and "c \<noteq> CHR 0x5C"
      by (auto simp: json_escape_def Let_def char_codes)
    then show ?thesis using 9 by simp
  qed (auto simp: json_escape_def simple_escape_def Let_def char_codes)
qed

lemma read_chars_escaped:
  "read_chars (concat (map json_escape s) @ CHR 0x22 # t) = Some (s, t)"
proof (induction s)
  case (Cons c s)
  show ?case using read_escape [of c "concat (map json_escape s) @ CHR 0x22 # t"] Cons
    by simp
qed simp

section \<open>Values\<close>

definition stopper :: "string \<Rightarrow> bool" where
  "stopper r = (r = [] \<or> \<not> (is_digit (hd r) \<or> hd r \<in> set ''.eE''))"

definition reads_back :: "js_host \<Rightarrow> rat \<Rightarrow> bool" where
  "reads_back h q = (\<forall>r. stopper r \<longrightarrow> read_number (numToString h (Fin q) @ r) = Some (Fin q, r))"

fun json_ok :: "js_host \<Rightarrow> json \<Rightarrow> bool" where
  "json_ok h (JNum n) = (case n of Fin q \<Rightarrow> reads_back h q | _ \<Rightarrow> False)"
| "json_ok h (JArr vs) = list_all (json_ok h) vs"
| "json_ok h (JObj r) = (distinct (map fst r) \<and> list_all (json_ok h) (map snd r))"
| "json_ok h v = True"


lemma read_number_first:
  assumes "read_number (c # cs) = Some x"
  shows "c = CHR ''-'' \<or> is_digit c"
proof (rule ccontr)
  assume "\<not> ?thesis"
  then have "expect (CHR ''-'') (c # cs) = None" and "takeWhile is_digit (c # cs) = []"
    by (auto simp: expect_def)
  then show False using assms by (simp add: read_number_def Let_def)
qed

text \<open>The first character of a printed value decides how it is read.\<close>

definition value_start :: "char \<Rightarrow> bool" where
  "value_start c \<longleftrightarrow> \<not> json_ws c \<and> c \<noteq> CHR '']'' \<and> c \<noteq> CHR ''}''"

definition number_start :: "char \<Rightarrow> bool" where
  "number_start c \<longleftrightarrow> value_start c \<and> c \<notin> set ''[{ntf'' \<and> c \<noteq> CHR 0x22"

lemma digit_start: "c = CHR ''-'' \<or> is_digit c \<Longrightarrow> number_start c"
  by (auto simp: number_start_def value_start_def json_ws_def is_digit_def)

lemma number_text_start:
  assumes "reads_back h q"
  obtains c cs where "numToString h (Fin q) = c # cs" and "number_start c"
proof -
  have r: "read_number (numToString h (Fin q)) = Some (Fin q, [])"
    using assms by (auto simp: reads_back_def stopper_def dest: spec [of _ "[]"])
  then have "numToString h (Fin q) \<noteq> []"
    by (auto simp: read_number_def expect_def)
  then obtain c cs where c: "numToString h (Fin q) = c # cs" by (cases "numToString h (Fin q)") auto
  with r read_number_first [of c cs] have "number_start c" by (auto intro: digit_start)
  with c show ?thesis by (rule that)
qed

lemma stringify_start:
  assumes "json_ok h v"
  obtains c cs where "stringify h v = c # cs" and "value_start c"
proof (cases v)
  case (JNum n)
  with assms obtain q where q: "n = Fin q" "reads_back h q" by (auto split: js_number.splits)
  from number_text_start [OF q(2)] obtain c cs where "numToString h (Fin q) = c # cs" "number_start c" .
  then show ?thesis using that JNum q by (auto simp: json_number_def number_start_def)
next
  case (JBool b)
  then show ?thesis using that by (cases b) (auto simp: value_start_def json_ws_def)
qed (use that in \<open>auto simp: value_start_def json_ws_def json_quote_def dquote_def\<close>)

lemma skip_ws_start [simp]: "value_start c \<Longrightarrow> skip_ws (c # cs) = c # cs"
  by (simp add: skip_ws_def value_start_def)

lemma skip_ws_punct [simp]:
  "skip_ws (CHR '','' # s) = CHR '','' # s" "skip_ws (CHR '']'' # s) = CHR '']'' # s"
  "skip_ws (CHR ''}'' # s) = CHR ''}'' # s" "skip_ws (CHR '':'' # s) = CHR '':'' # s"
  "skip_ws (CHR 0x22 # s) = CHR 0x22 # s" "skip_ws [] = []"
  by (simp_all add: skip_ws_def json_ws_def)

lemma expect_Cons [simp]: "expect x (c # cs) = (if c = x then Some cs else None)"
  by (simp add: expect_def)

lemma stopper_punct [simp]:
  "stopper (CHR '','' # s)" "stopper (CHR '']'' # s)" "stopper (CHR ''}'' # s)" "stopper []"
  by (simp_all add: stopper_def is_digit_def)

lemma join_Cons: "join sep (x # xs) = x @ (if xs = [] then [] else sep @ join sep xs)"
  by (cases xs) auto

lemma stringify_elems_Nil_iff [simp]: "stringify_elems h vs = [] \<longleftrightarrow> vs = []"
  by (cases vs) auto

lemma stringify_members_Nil_iff [simp]: "stringify_members h r = [] \<longleftrightarrow> r = []"
  by (cases r) auto

lemma AList_update_fresh: "k \<notin> fst ` set acc \<Longrightarrow> AList.update k v acc = acc @ [(k, v)]"
  by (induction acc) auto

lemma parse_number_text:
  assumes "reads_back h q" and "stopper r" and "0 < n"
  shows "parse_value n (numToString h (Fin q) @ r) = Some (JNum (Fin q), r)"
proof -
  obtain m where n: "n = Suc m" using assms(3) by (cases n) auto
  obtain c cs where c: "numToString h (Fin q) = c # cs" and nd: "number_start c"
    by (rule number_text_start [OF assms(1)])
  have "read_number (c # cs @ r) = Some (Fin q, r)"
    using assms(1,2) c by (auto simp: reads_back_def)
  then show ?thesis
    using nd by (simp add: n c number_start_def)
qed

lemma json_quote_append: "json_quote k @ s = CHR 0x22 # concat (map json_escape k) @ CHR 0x22 # s"
  by (simp add: json_quote_def dquote_def)

lemma value_start_not_close:
  "value_start c \<Longrightarrow> c \<noteq> CHR '']'' \<and> c \<noteq> CHR ''}''"
  by (simp add: value_start_def)

lemma parse_stringify:
  "json_ok h v \<Longrightarrow> stopper r \<Longrightarrow> length (stringify h v) \<le> n \<Longrightarrow>
     parse_value n (stringify h v @ r) = Some (v, r)"
  "list_all (json_ok h) vs \<Longrightarrow> vs \<noteq> [] \<Longrightarrow> length (join '','' (stringify_elems h vs)) < n \<Longrightarrow>
     parse_elems n (join '','' (stringify_elems h vs) @ CHR '']'' # r) = Some (vs, r)"
  "distinct (map fst (acc @ kvs)) \<Longrightarrow> list_all (json_ok h) (map snd kvs) \<Longrightarrow> kvs \<noteq> [] \<Longrightarrow>
     length (join '','' (stringify_members h kvs)) < n \<Longrightarrow>
     parse_members n acc (join '','' (stringify_members h kvs) @ CHR ''}'' # r) = Some (acc @ kvs, r)"
proof (induction h v and h vs and h kvs arbitrary: n r and n r and n r acc
    rule: stringify_stringify_elems_stringify_members.induct)
  case (3 h q)
  then obtain x where x: "q = Fin x" "reads_back h x" by (auto split: js_number.splits)
  from number_text_start [OF x(2)] obtain c cs where "numToString h (Fin x) = c # cs" .
  with 3 x have "0 < n" by (simp add: json_number_def)
  with 3 x show ?case by (simp add: json_number_def parse_number_text)
next
  case (4 h s)
  then show ?case by (cases n) (auto simp: json_quote_def dquote_def read_chars_escaped)
next
  case (5 h vs)
  from 5 obtain m where n: "n = Suc m" by (cases n) auto
  show ?case
  proof (cases vs)
    case (Cons v ws)
    from 5 Cons have "json_ok h v" by simp
    from stringify_start [OF this] obtain c cs where c: "stringify h v = c # cs" "value_start c" .
    then obtain t where s: "join '','' (stringify_elems h vs) = c # t"
      by (simp add: Cons join_Cons)
    have "parse_elems m (join '','' (stringify_elems h vs) @ CHR '']'' # r) = Some (vs, r)"
      using 5 n Cons by (intro 5(1)) auto
    then show ?thesis
      using c(2) value_start_not_close [OF c(2)] by (simp add: n s)
  qed (simp add: n)
next
  case (6 h kvs)
  from 6 obtain m where n: "n = Suc m" by (cases n) auto
  show ?case
  proof (cases kvs)
    case (Cons kv ws)
    then obtain t where s: "join '','' (stringify_members h kvs) = CHR 0x22 # t"
      by (cases kv) (simp add: join_Cons json_quote_append)
    have "parse_members m [] (join '','' (stringify_members h kvs) @ CHR ''}'' # r) = Some (kvs, r)"
      using 6 n Cons 6(1) [of "[]" m r] by auto
    then show ?thesis by (simp add: n s)
  qed (simp add: n)
next
  case (8 h v vs)
  from 8 obtain m where n: "n = Suc m" by (cases n) auto
  show ?case
  proof (cases "vs = []")
    case True
    then show ?thesis using 8 n by (simp add: join_Cons)
  next
    case False
    then obtain w ws where vs: "vs = w # ws" by (cases vs) auto
    with 8 have "json_ok h w" by simp
    then obtain c cs where "stringify h w = c # cs" "value_start c" by (rule stringify_start)
    with vs have s: "skip_ws (join '','' (stringify_elems h vs) @ CHR '']'' # r) = join '','' (stringify_elems h vs) @ CHR '']'' # r"
      by (simp add: join_Cons)
    then show ?thesis using 8 n False by (simp add: join_Cons)
  qed
next
  case (10 h k v kvs)
  from 10 obtain m where n: "n = Suc m" by (cases n) auto
  from 10 have "json_ok h v" by simp
  then obtain c cs where c: "stringify h v = c # cs" "value_start c" by (rule stringify_start)
  have u: "AList.update k v acc = acc @ [(k, v)]" using 10 by (intro AList_update_fresh) auto
  have pv: "parse_value m (c # cs @ t) = Some (v, t)" if "stopper t" for t
    using 10(1) [OF _ that, of m] 10(3-) c n by (auto simp: join_Cons split: if_splits)
  show ?case
  proof (cases "kvs = []")
    case True
    then show ?thesis using pv [of "CHR ''}'' # r"]
      by (simp add: n join_Cons json_quote_append read_chars_escaped c u)
  next
    case False
    then obtain k' w ws where kvs: "kvs = (k', w) # ws" by (cases kvs) auto
    then have s: "skip_ws (join '','' (stringify_members h kvs) @ CHR ''}'' # r) = join '','' (stringify_members h kvs) @ CHR ''}'' # r"
      by (simp add: join_Cons json_quote_append)
    have "parse_members m (acc @ [(k, v)]) (join '','' (stringify_members h kvs) @ CHR ''}'' # r) = Some ((acc @ [(k, v)]) @ kvs, r)"
      using 10(3-) False n by (intro 10(2)) (auto simp: join_Cons)
    then show ?thesis using pv [of "CHR '','' # join '','' (stringify_members h kvs) @ CHR ''}'' # r"] False s
      by (simp add: n join_Cons json_quote_append read_chars_escaped c u)
  qed
next
  case (1 h)
  then show ?case by (cases n) (auto simp: read_literal_def)
next
  case (2 h b)
  then show ?case by (cases b; cases n) (auto simp: read_literal_def)
qed auto

lemma json_parse_stringify:
  assumes "json_ok h v"
  shows "json_parse (stringify h v) = Some v"
proof -
  from stringify_start [OF assms] obtain c cs where c: "stringify h v = c # cs" "value_start c" .
  have "parse_value (Suc (length (stringify h v))) (stringify h v @ []) = Some (v, [])"
    using assms by (intro parse_stringify) auto
  then show ?thesis using c by (simp add: json_parse_def)
qed

section \<open>The canonical form behind the canonical text\<close>

definition by_key :: "js_host \<Rightarrow> string \<times> 'a \<Rightarrow> string \<times> 'a \<Rightarrow> int" where
  "by_key h a b = localeCompare h (fst a) (fst b)"

fun canon :: "js_host \<Rightarrow> json \<Rightarrow> json"
and canon_elems :: "js_host \<Rightarrow> json list \<Rightarrow> json list"
and canon_members :: "js_host \<Rightarrow> jrec \<Rightarrow> jrec" where
  "canon h (JArr vs) = JArr (canon_elems h vs)"
| "canon h (JObj r) = JObj (js_sort (by_key h) (canon_members h r))"
| "canon h v = v"
| "canon_elems h [] = []"
| "canon_elems h (v # vs) = canon h v # canon_elems h vs"
| "canon_members h [] = []"
| "canon_members h ((k, v) # r) = (k, canon h v) # canon_members h r"

lemma canon_elems_map: "canon_elems h vs = map (canon h) vs"
  by (induction vs) auto

lemma canon_members_map: "canon_members h r = map (map_prod id (canon h)) r"
  by (induction r) auto

lemma stringify_members_map:
  "stringify_members h r = map (\<lambda>(k, v). json_quote k @ '':'' @ stringify h v) r"
  by (induction r) auto

lemma stringify_elems_map: "stringify_elems h vs = map (stringify h) vs"
  by (induction vs) auto

lemma js_insert_map:
  assumes "\<And>a b. cmp (f a) (f b) = cmp' a b"
  shows "js_insert cmp (f x) (map f xs) = map f (js_insert cmp' x xs)"
  by (induction xs) (auto simp: assms)

lemma js_sort_map:
  assumes "\<And>a b. cmp (f a) (f b) = cmp' a b"
  shows "js_sort cmp (map f xs) = map f (js_sort cmp' xs)"
  using js_insert_map [of cmp f cmp', OF assms]
  by (induction xs) (auto simp: js_sort_def)

lemma stable_canon:
  "stableStringify h v = stringify h (canon h v)"
  "stable_elems h vs = stringify_elems h (canon_elems h vs)"
  "stable_entries h r = map (map_prod id (stringify h)) (canon_members h r)"
proof (induction h v and h vs and h r rule: stableStringify_stable_elems_stable_entries.induct)
  case (6 h r)
  have "js_sort (\<lambda>a b. localeCompare h (fst a) (fst b)) (stable_entries h r)
      = map (map_prod id (stringify h)) (js_sort (by_key h) (canon_members h r))"
    unfolding 6 by (rule js_sort_map) (auto simp: by_key_def)
  then show ?case by (simp add: stringify_members_map comp_def case_prod_unfold)
qed auto

lemma json_ok_canon: "json_ok h v \<Longrightarrow> json_ok h (canon h v)"
proof (induction v rule: json_ok.induct)
  case (3 h r)
  let ?s = "js_sort (by_key h) (canon_members h r)"
  have "mset (map fst ?s) = mset (map fst r)"
    by (simp add: canon_members_map multiset.map_comp comp_def)
  then have "distinct (map fst ?s)" using 3 by (metis json_ok.simps(3) mset_eq_imp_distinct_iff)
  moreover have "list_all (json_ok h) (map snd ?s)"
    using 3 by (auto simp: list_all_iff canon_members_map)
  ultimately show ?case by simp
qed (auto simp: list_all_iff canon_elems_map)

text \<open>Equal canonical texts mean equal canonical forms.\<close>

lemma stableStringify_eq:
  assumes "json_ok h a" and "json_ok h b"
  shows "stableStringify h a = stableStringify h b \<longleftrightarrow> canon h a = canon h b"
  unfolding stable_canon
  using json_parse_stringify [OF json_ok_canon [OF assms(1)]]
    json_parse_stringify [OF json_ok_canon [OF assms(2)]]
  by (metis option.inject)


text \<open>
  With a collation that orders distinct keys, reordering the keys of an object does not change
  its canonical text.
\<close>

definition collation_ok :: "js_host \<Rightarrow> bool" where
  "collation_ok h \<longleftrightarrow>
     (\<forall>a b c. localeCompare h a b \<le> 0 \<longrightarrow> localeCompare h b c \<le> 0 \<longrightarrow> localeCompare h a c \<le> 0)
     \<and> (\<forall>a b. localeCompare h a b \<le> 0 \<or> localeCompare h b a \<le> 0)
     \<and> (\<forall>a b. localeCompare h a b \<le> 0 \<longrightarrow> localeCompare h b a \<le> 0 \<longrightarrow> a = b)"

definition total_cmp :: "('a \<Rightarrow> 'a \<Rightarrow> int) \<Rightarrow> bool" where
  "total_cmp cmp \<longleftrightarrow> (\<forall>a b c. cmp a b \<le> 0 \<longrightarrow> cmp b c \<le> 0 \<longrightarrow> cmp a c \<le> 0)
     \<and> (\<forall>a b. cmp a b \<le> 0 \<or> cmp b a \<le> 0)"

lemma sorted_js_insert:
  assumes "total_cmp cmp" and "sorted_wrt (\<lambda>a b. cmp a b \<le> 0) xs"
  shows "sorted_wrt (\<lambda>a b. cmp a b \<le> 0) (js_insert cmp x xs)"
  using assms(2)
proof (induction xs)
  case (Cons y ys)
  have s: "set (js_insert cmp x ys) = insert x (set ys)"
    by (metis mset_js_insert set_mset_add_mset_insert set_mset_mset)
  show ?case
  proof (cases "cmp x y \<le> 0")
    case True
    then have "\<forall>z \<in> set ys. cmp x z \<le> 0"
      using assms(1) Cons.prems unfolding total_cmp_def sorted_wrt.simps by blast
    with True Cons.prems show ?thesis by simp
  next
    case False
    then have "cmp y x \<le> 0" using assms(1) unfolding total_cmp_def by blast
    with False Cons s show ?thesis by simp
  qed
qed simp

lemma sorted_js_sort: "total_cmp cmp \<Longrightarrow> sorted_wrt (\<lambda>a b. cmp a b \<le> 0) (js_sort cmp xs)"
  by (induction xs) (auto simp: js_sort_def sorted_js_insert)

lemma sorted_unique:
  assumes "sorted_wrt R xs" and "sorted_wrt R ys" and "mset xs = mset ys"
    and "\<And>a b. a \<in> set xs \<Longrightarrow> b \<in> set xs \<Longrightarrow> R a b \<Longrightarrow> R b a \<Longrightarrow> a = b"
  shows "xs = ys"
  using assms
proof (induction xs arbitrary: ys)
  case (Cons x xs)
  then obtain y zs where ys: "ys = y # zs" by (cases ys) auto
  have st: "set (x # xs) = set ys" using Cons.prems(3) by (metis set_mset_mset)
  have "x = y"
  proof (rule ccontr)
    assume "x \<noteq> y"
    then have "x \<in> set zs" "y \<in> set xs" using st ys by auto
    then have "R x y" "R y x" using Cons.prems(1,2) ys by auto
    then show False using Cons.prems(4) [of x y] \<open>x \<noteq> y\<close> \<open>y \<in> set xs\<close> by simp
  qed
  with Cons ys show ?case by auto
qed simp

lemma canon_reorder:
  assumes "collation_ok h" and "distinct (map fst r)" and "mset r = mset r'"
  shows "canon h (JObj r) = canon h (JObj r')"
proof -
  let ?c = "canon_members h"
  have m: "mset (?c r) = mset (?c r')" using assms(3) by (simp add: canon_members_map)
  have tot: "total_cmp (by_key h :: string \<times> json \<Rightarrow> _)"
    using assms(1) unfolding collation_ok_def total_cmp_def by_key_def by blast
  have d: "distinct (map fst (?c r))" using assms(2) by (simp add: canon_members_map)
  have "a = b" if "a \<in> set (?c r)" "b \<in> set (?c r)" "by_key h a b \<le> 0" "by_key h b a \<le> 0" for a b
  proof -
    have "fst a = fst b" using that(3,4) assms(1) unfolding collation_ok_def by_key_def by blast
    then show ?thesis using that(1,2) d by (metis eq_key_imp_eq_value prod.collapse)
  qed
  then have "js_sort (by_key h) (?c r) = js_sort (by_key h) (?c r')"
    using sorted_unique [OF sorted_js_sort [OF tot] sorted_js_sort [OF tot]] m by simp
  then show ?thesis by simp
qed

section \<open>Fuel of the reader\<close>

lemma skip_ws_length: "length (skip_ws s) \<le> length s"
  by (simp add: skip_ws_def length_dropWhile_le)

lemma expect_length: "expect c s = Some t \<Longrightarrow> length s = Suc (length t)"
  by (auto simp: expect_def split: list.splits if_splits)

lemma read_chars_length: "read_chars s = Some (t, r) \<Longrightarrow> length r < length s"
proof (induction s arbitrary: t r rule: read_chars.induct)
  case (2 c cs)
  then show ?case
    by (force split: if_splits list.splits bind_splits simp: less_Suc_eq)
qed simp

lemma read_frac_length: "read_frac s = Some (f, r) \<Longrightarrow> length r \<le> length s"
  by (auto simp: read_frac_def Let_def split: option.splits if_splits dest!: expect_length
      intro!: le_SucI length_dropWhile_le)

lemma read_exp_length: "read_exp s = Some (e, r) \<Longrightarrow> length r \<le> length s"
  by (auto simp: read_exp_def Let_def split: list.splits if_splits
      intro: le_SucI length_dropWhile_le)

lemma read_number_length:
  assumes "read_number s = Some (v, r)"
  shows "length r < length s"
proof -
  obtain neg t where t: "(case expect (CHR ''-'') s of Some t \<Rightarrow> (True, t) | None \<Rightarrow> (False, s)) = (neg, t)"
    by fastforce
  then have l: "length t \<le> length s"
    by (auto split: option.splits dest: expect_length)
  from assms t obtain f w e where *: "takeWhile is_digit t \<noteq> []"
    "read_frac (dropWhile is_digit t) = Some (f, w)" "read_exp w = Some (e, r)"
    by (auto simp: read_number_def Let_def split: if_splits bind_splits)
  have "length (dropWhile is_digit t) < length t"
    using *(1) by (cases t) (auto split: if_splits simp: less_Suc_eq_le length_dropWhile_le)
  with l read_frac_length [OF *(2)] read_exp_length [OF *(3)] show ?thesis by simp
qed

lemma read_literal_length: "read_literal l v s = Some (w, r) \<Longrightarrow> l \<noteq> [] \<Longrightarrow> length r < length s"
  by (cases l) (auto simp: read_literal_def startsWith_iff split: if_splits)

text \<open>
  Fuel: a text read with any amount of fuel is read, with the same result, by every amount that
  reaches the number of characters consumed.
\<close>


definition fuel_ok :: "(nat \<Rightarrow> ('a \<times> string) option) \<Rightarrow> string \<Rightarrow> 'a \<times> string \<Rightarrow> bool" where
  "fuel_ok p s x \<longleftrightarrow> length (snd x) < length s \<and> (\<forall>m. length s \<le> m + length (snd x) \<longrightarrow> p m = Some x)"

lemma fuel_okI:
  assumes "length (snd x) < length s" and "\<And>m. length s \<le> Suc m + length (snd x) \<Longrightarrow> p (Suc m) = Some x"
  shows "fuel_ok p s x"
  unfolding fuel_ok_def
proof (intro conjI allI impI)
  fix m assume "length s \<le> m + length (snd x)"
  with assms show "p m = Some x" by (cases m) auto
qed (rule assms(1))

lemma fuel_okD:
  "fuel_ok p s x \<Longrightarrow> length (snd x) < length s"
  "fuel_ok p s x \<Longrightarrow> length s \<le> m + length (snd x) \<Longrightarrow> p m = Some x"
  by (auto simp: fuel_ok_def)

lemma parse_fuel:
  "parse_value n s = Some x \<Longrightarrow> fuel_ok (\<lambda>m. parse_value m s) s x"
  "parse_elems n s = Some y \<Longrightarrow> fuel_ok (\<lambda>m. parse_elems m s) s y"
  "parse_members n acc s = Some z \<Longrightarrow> fuel_ok (\<lambda>m. parse_members m acc s) s z"
proof (induction n s and n s and n acc s arbitrary: x and y and z
    rule: parse_value_parse_elems_parse_members.induct)
  case (3 n c cs)
  note skip = skip_ws_length [of cs]
  consider (str) "c = CHR 0x22" | (arr) "c = CHR ''[''" | (obj) "c = CHR ''{''"
    | (nl) "c = CHR ''n''" | (tr) "c = CHR ''t''" | (fl) "c = CHR ''f''"
    | (num) "c \<notin> {CHR 0x22, CHR ''['', CHR ''{'', CHR ''n'', CHR ''t'', CHR ''f''}"
    by blast
  then show ?case
  proof cases
    case str
    with 3(3) obtain t where "read_chars cs = Some (t, snd x)" "fst x = JStr t" by (cases x) auto
    with str read_chars_length [OF this(1)] show ?thesis by (cases x) (auto intro!: fuel_okI)
  next
    case arr
    show ?thesis
    proof (cases "expect (CHR '']'') (skip_ws cs)")
      case None
      with arr 3(3) obtain vs where vs: "parse_elems n (skip_ws cs) = Some (vs, snd x)" "fst x = JArr vs"
        by (cases x) auto
      have f: "fuel_ok (\<lambda>m. parse_elems m (skip_ws cs)) (skip_ws cs) (vs, snd x)"
        using arr None vs(1) by (intro 3(1)) auto
      show ?thesis using arr None vs(2) skip fuel_okD(1) [OF f] fuel_okD(2) [OF f]
        by (cases x) (auto intro!: fuel_okI)
    next
      case (Some t)
      with arr 3(3) skip expect_length [OF Some] show ?thesis by (auto intro!: fuel_okI)
    qed
  next
    case obj
    show ?thesis
    proof (cases "expect (CHR ''}'') (skip_ws cs)")
      case None
      with obj 3(3) obtain vs where vs: "parse_members n [] (skip_ws cs) = Some (vs, snd x)" "fst x = JObj vs"
        by (cases x) auto
      have f: "fuel_ok (\<lambda>m. parse_members m [] (skip_ws cs)) (skip_ws cs) (vs, snd x)"
        using obj None vs(1) by (intro 3(2)) auto
      show ?thesis using obj None vs(2) skip fuel_okD(1) [OF f] fuel_okD(2) [OF f]
        by (cases x) (auto intro!: fuel_okI)
    next
      case (Some t)
      with obj 3(3) skip expect_length [OF Some] show ?thesis by (auto intro!: fuel_okI)
    qed
  next
    case num
    with 3(3) obtain q where "read_number (c # cs) = Some (q, snd x)" "fst x = JNum q" by (cases x) auto
    with num read_number_length [OF this(1)] show ?thesis by (cases x) (auto intro!: fuel_okI)
  qed (use 3(3) in \<open>cases x; auto intro!: fuel_okI dest!: read_literal_length\<close>)+
next
  case (5 n s)
  from 5(3) obtain v r where v: "parse_value n s = Some (v, r)" by (auto split: bind_splits)
  have f: "fuel_ok (\<lambda>m. parse_value m s) s (v, r)" using v by (rule 5(1))
  note f = fuel_okD(1) [OF f] fuel_okD(2) [OF f]
  show ?case
  proof (cases "expect (CHR '']'') (skip_ws r)")
    case None
    with 5(3) v obtain t vs where t: "expect (CHR '','') (skip_ws r) = Some t"
      "parse_elems n (skip_ws t) = Some (vs, snd y)" "fst y = v # vs"
      by (cases y) (auto split: bind_splits)
    have g: "fuel_ok (\<lambda>m. parse_elems m (skip_ws t)) (skip_ws t) (vs, snd y)"
      by (rule 5(2) [OF v refl None t(1,2)])
    show ?thesis
      using None t f fuel_okD(1) [OF g] fuel_okD(2) [OF g] expect_length [OF t(1)] skip_ws_length [of t]
        skip_ws_length [of r]
      by (cases y) (auto intro!: fuel_okI)
  next
    case (Some t)
    with 5(3) v f expect_length [OF Some] skip_ws_length [of r] show ?thesis by (auto intro!: fuel_okI)
  qed
next
  case (7 n acc s)
  from 7(3) obtain s1 k s2 s3 v r where s: "expect (CHR 0x22) s = Some s1" "read_chars s1 = Some (k, s2)"
    "expect (CHR '':'') (skip_ws s2) = Some s3" and v: "parse_value n (skip_ws s3) = Some (v, r)"
    by (auto split: bind_splits)
  have f: "fuel_ok (\<lambda>m. parse_value m (skip_ws s3)) (skip_ws s3) (v, r)"
    by (rule 7(1) [OF s(1,2) refl s(3) v])
  note f = fuel_okD(1) [OF f] fuel_okD(2) [OF f]
  have l: "length (skip_ws s3) + 3 \<le> length s" "length (skip_ws r) \<le> length r"
    using expect_length [OF s(1)] read_chars_length [OF s(2)] expect_length [OF s(3)]
      skip_ws_length [of s2] skip_ws_length [of s3] skip_ws_length [of r] by simp_all
  show ?case
  proof (cases "expect (CHR ''}'') (skip_ws r)")
    case None
    with 7(3) v s obtain t where t: "expect (CHR '','') (skip_ws r) = Some t"
      "parse_members n (AList.update k v acc) (skip_ws t) = Some z"
      by (auto split: bind_splits)
    have g: "fuel_ok (\<lambda>m. parse_members m (AList.update k v acc) (skip_ws t)) (skip_ws t) z"
      by (rule 7(2) [OF s(1,2) refl s(3) v refl None t(1,2)])
    show ?thesis
      using None t s l f fuel_okD(1) [OF g] fuel_okD(2) [OF g] expect_length [OF t(1)] skip_ws_length [of t]
      by (auto intro!: fuel_okI)
  next
    case (Some t)
    with 7(3) v s f l expect_length [OF Some] show ?thesis by (auto intro!: fuel_okI)
  qed
qed auto

lemma json_parse_any_fuel:
  assumes "parse_value n (skip_ws s) = Some (v, r)" and "skip_ws r = []"
  shows "json_parse s = Some v"
proof -
  have "parse_value (Suc (length s)) (skip_ws s) = Some (v, r)"
    using fuel_okD(2) [OF parse_fuel(1) [OF assms(1)], of "Suc (length s)"] skip_ws_length [of s] by simp
  then show ?thesis using assms(2) by (simp add: json_parse_def)
qed

section \<open>Properties\<close>

definition sample_value :: json where
  "sample_value = JObj [(''b'', JArr [JNull, JBool True]), (''a'', JStr ''x'')]"

lemma objects_as_rec:
  "findIndex (\<lambda>v. \<not> isJsonObject v) vs = None \<Longrightarrow> map (JObj \<circ> as_rec) vs = vs"
  by (induction vs) (auto simp: isJsonObject_def as_rec_def split: json.splits if_splits)

lemma plain_collation: "collation_ok plain_host"
  by (auto simp: collation_ok_def plain_host_def split: if_splits)

text \<open>
  The canonical text of a value is JSON: it reads back as the value with the keys of its
  objects sorted, so two values with the same text differ at most in the order of their keys.
\<close>

theorem stableStringify_reads_back:
  assumes "json_ok h v"
  shows "json_parse (stableStringify h v) = Some (canon h v)"
  using json_parse_stringify [OF json_ok_canon [OF assms]] by (simp add: stable_canon)

theorem stableStringify_reads_back_witness:
  "json_parse (stableStringify plain_host sample_value) = Some (canon plain_host sample_value)"
  by (rule stableStringify_reads_back) (simp add: sample_value_def)

text \<open>
  The canonical text does not depend on the order in which an object lists its keys, for a
  collation that orders distinct keys.
\<close>

theorem stableStringify_key_order:
  assumes "collation_ok h" and "distinct (map fst r)" and "mset r = mset r'"
  shows "stableStringify h (JObj r) = stableStringify h (JObj r')"
  using canon_reorder [OF assms] by (simp add: stable_canon(1))

theorem stableStringify_key_order_witness:
  "stableStringify plain_host (JObj [(''b'', JNull), (''a'', JStr ''x'')])
     = stableStringify plain_host (JObj [(''a'', JStr ''x''), (''b'', JNull)])"
  by (rule stableStringify_key_order) (simp_all add: plain_collation)

text \<open>
  A policy read from the form always has a non-empty \<open>Statement\<close> array that is the list of
  the returned statements, whichever of the accepted shapes the text has.
\<close>

theorem parsePolicyStatements_statement_array:
  assumes "parsePolicyStatements raw = Inr (policy, statements)"
  shows "statements \<noteq> [] \<and> jprop policy ''Statement'' = Some (JArr (map JObj statements))"
  using assms
  by (auto simp: parsePolicyStatements_def Let_def objects_as_rec split: if_splits option.splits json.splits)

theorem parsePolicyStatements_statement_array_witness:
  "jprop [(''Statement'', JArr [JObj []])] ''Statement'' = Some (JArr (map JObj [[]]))"
proof -
  have "parsePolicyStatements ''{}'' = Inr ([(''Statement'', JArr [JObj []])], [[]])"
    by code_simp
  from parsePolicyStatements_statement_array [OF this] show ?thesis by simp
qed

text \<open>
  The lifecycle form accepts exactly the texts that are a JSON object or a non-empty array of
  JSON objects, and returns those objects in order.
\<close>

theorem parseLifecycleRules_accepts:
  "parseLifecycleRules raw = Inr rules \<longleftrightarrow>
     trim raw \<noteq> [] \<and> rules \<noteq> [] \<and>
     (json_parse (trim raw) = Some (JArr (map JObj rules)) \<or>
      (\<exists>r. rules = [r] \<and> json_parse (trim raw) = Some (JObj r)))"
proof -
  have n: "findIndex (\<lambda>v. \<not> isJsonObject v) (map JObj rs) = None" for rs
    by (simp add: findIndex_None isJsonObject_def)
  show ?thesis
  proof (cases "json_parse (trim raw)")
    case (Some v)
    then show ?thesis
      by (cases v) (auto simp: parseLifecycleRules_def Let_def n objects_as_rec
          split: if_splits option.splits)
  qed (simp add: parseLifecycleRules_def Let_def)
qed

end
