(* ===== verification/Config_Merge.thy ===== *)
theory Config_Merge
  imports Json_Roundtrip
begin

text \<open>
  \<open>frontend/src/features/shared/bucketConfigMerge.ts\<close>: identification, classification and merge of
  lifecycle rules, CORS rules and policy statements. The three merges and the one for notification
  configurations walk the incoming rules and replace, add or skip each of them; the locale
  \<open>two_key_merge\<close> states what they share (a rule is found by a first key, else by a second one)
  and proves the laws of the merge once. It is interpreted on the four merges of the program.
\<close>

section \<open>Rule types\<close>

datatype LifecycleRuleTypeKey =
    Expiration | DeleteMarkers | NoncurrentExpiration | AbortMultipart | Transition
  | NoncurrentTransition

datatype CorsRuleTypeKey =
    WildcardOrigins | ReadMethods | WriteMethods | AllowCredentials | ExposeHeaders | MaxAge

datatype PolicyRuleTypeKey =
    Allow | Deny | ReadActions | WriteActions | Condition | PublicPrincipal

definition NOTIFICATION_TYPE_OPTIONS :: "(NotificationConfigurationTypeKey \<times> string) list" where
  "NOTIFICATION_TYPE_OPTIONS =
     [(Topic, ''Topic configurations''), (Queue, ''Queue configurations''),
      (Lambda, ''Lambda configurations''), (Eventbridge, ''EventBridge configuration'')]"

definition LIFECYCLE_TYPE_OPTIONS :: "(LifecycleRuleTypeKey \<times> string) list" where
  "LIFECYCLE_TYPE_OPTIONS =
     [(Expiration, ''Expiration (current versions)''),
      (DeleteMarkers, ''Expired object delete markers''),
      (NoncurrentExpiration, ''Expiration (noncurrent versions)''),
      (AbortMultipart, ''Abort incomplete multipart uploads''),
      (Transition, ''Transitions''),
      (NoncurrentTransition, ''Noncurrent transitions'')]"

definition CORS_TYPE_OPTIONS :: "(CorsRuleTypeKey \<times> string) list" where
  "CORS_TYPE_OPTIONS =
     [(WildcardOrigins, ''Wildcard origins (*)''), (ReadMethods, ''Read methods (GET/HEAD)''),
      (WriteMethods, ''Write methods (PUT/POST/DELETE)''),
      (AllowCredentials, ''Allow credentials''), (ExposeHeaders, ''Expose headers''),
      (MaxAge, ''Max age'')]"

definition POLICY_TYPE_OPTIONS :: "(PolicyRuleTypeKey \<times> string) list" where
  "POLICY_TYPE_OPTIONS =
     [(Allow, ''Allow statements''), (Deny, ''Deny statements''),
      (ReadActions, ''Read actions (Get/List/Head)''),
      (WriteActions, ''Write actions (Put/Delete)''), (Condition, ''Has condition''),
      (PublicPrincipal, ''Public principal (*)'')]"

section \<open>Printing and identifying rules\<close>

definition formatLifecycleRule :: "js_host \<Rightarrow> jrec \<Rightarrow> string" where
  "formatLifecycleRule h rule = stringify2 h [] (JObj rule)"

definition formatCorsRule :: "js_host \<Rightarrow> jrec \<Rightarrow> string" where
  "formatCorsRule h rule = stringify2 h [] (JObj rule)"

definition formatPolicyRule :: "js_host \<Rightarrow> jrec \<Rightarrow> string" where
  "formatPolicyRule h rule = stringify2 h [] (JObj rule)"

definition formatNotificationConfiguration :: "js_host \<Rightarrow> json \<Rightarrow> string" where
  "formatNotificationConfiguration h configuration =
     (let normalized = normalizeNotificationConfigurationForBulk configuration in
      if isNotificationConfigurationEmpty (JObj normalized)
      then ''(no notification configurations)''
      else stringify2 h [] (JObj normalized))"

text \<open>
  The identifier of a rule: a non-blank string, trimmed, or the text of a number, which is never
  empty; the tests \<open>if (ruleId)\<close> of the source are therefore tests against \<open>None\<close>.
\<close>

definition id_text :: "js_host \<Rightarrow> json option \<Rightarrow> string option" where
  "id_text h v = (case v of
     Some (JStr s) \<Rightarrow> (if trim s = [] then None else Some (trim s))
   | Some (JNum n) \<Rightarrow> Some (numToString h n)
   | _ \<Rightarrow> None)"

definition getLifecycleRuleId :: "js_host \<Rightarrow> jrec \<Rightarrow> string option" where
  "getLifecycleRuleId h rule =
     id_text h (coalesce (coalesce (jprop rule ''ID'') (jprop rule ''Id'')) (jprop rule ''id''))"

definition getPolicyStatementSid :: "js_host \<Rightarrow> jrec \<Rightarrow> string option" where
  "getPolicyStatementSid h statement =
     id_text h (coalesce (jprop statement ''Sid'') (jprop statement ''sid''))"

text \<open>\<open>Array.isArray(v) ? v : []\<close>, and \<open>v?.k\<close> on a value that may be anything.\<close>

definition as_array :: "json option \<Rightarrow> json list" where
  "as_array v = (case v of Some (JArr vs) \<Rightarrow> vs | _ \<Rightarrow> [])"

definition jmember :: "json option \<Rightarrow> string \<Rightarrow> json option" where
  "jmember v k = (case v of Some (JObj r) \<Rightarrow> jprop r k | _ \<Rightarrow> None)"

definition getCorsRuleKey :: "js_host \<Rightarrow> jrec \<Rightarrow> string option" where
  "getCorsRuleKey h rule =
     (let origins = as_array (jprop rule ''AllowedOrigins'');
          methods = as_array (jprop rule ''AllowedMethods'');
          normalizedOrigins = sort (filter (\<lambda>s. s \<noteq> [])
            (map (\<lambda>v. trim (js_String h v)) origins));
          normalizedMethods = sort (filter (\<lambda>s. s \<noteq> [])
            (map (\<lambda>v. toUpperCase (trim (js_String h v))) methods)) in
      if normalizedOrigins = [] \<and> normalizedMethods = [] then None
      else Some (join ''|'' normalizedOrigins @ ''||'' @ join ''|'' normalizedMethods))"

definition policy_field :: "jrec \<Rightarrow> string \<Rightarrow> string \<Rightarrow> json" where
  "policy_field statement upper lower =
     the (coalesce (coalesce (jprop statement upper) (jprop statement lower)) (Some (JStr [])))"

definition getPolicyStatementKey :: "js_host \<Rightarrow> jrec \<Rightarrow> string" where
  "getPolicyStatementKey h statement =
     (case getPolicyStatementSid h statement of
        Some sid \<Rightarrow> ''sid:'' @ sid
      | None \<Rightarrow> ''key:'' @ stableStringify h (JObj
          [(''Effect'', policy_field statement ''Effect'' ''effect''),
           (''Action'', policy_field statement ''Action'' ''action''),
           (''NotAction'', policy_field statement ''NotAction'' ''notAction''),
           (''Principal'', policy_field statement ''Principal'' ''principal''),
           (''NotPrincipal'', policy_field statement ''NotPrincipal'' ''notPrincipal''),
           (''Resource'', policy_field statement ''Resource'' ''resource''),
           (''NotResource'', policy_field statement ''NotResource'' ''notResource''),
           (''Condition'', policy_field statement ''Condition'' ''condition'')]))"

section \<open>Classifying rules\<close>

definition getLifecycleRuleTypes :: "jrec \<Rightarrow> LifecycleRuleTypeKey list" where
  "getLifecycleRuleTypes rule =
     (let expiration = jprop rule ''Expiration'';
          noncurrentExp = jprop rule ''NoncurrentVersionExpiration'';
          multipart = jprop rule ''AbortIncompleteMultipartUpload'' in
      (if \<not> nullish (jmember expiration ''Days'') then [Expiration] else []) @
      (if truthy (jmember expiration ''ExpiredObjectDeleteMarker'') then [DeleteMarkers] else []) @
      (if \<not> nullish (jmember noncurrentExp ''NoncurrentDays'') then [NoncurrentExpiration] else []) @
      (if \<not> nullish (jmember multipart ''DaysAfterInitiation'') then [AbortMultipart] else []) @
      (if as_array (jprop rule ''Transitions'') \<noteq> [] then [Transition] else []) @
      (if as_array (jprop rule ''NoncurrentVersionTransitions'') \<noteq> []
       then [NoncurrentTransition] else []))"

definition getCorsRuleTypes :: "js_host \<Rightarrow> jrec \<Rightarrow> CorsRuleTypeKey list" where
  "getCorsRuleTypes h rule =
     (let origins = as_array (jprop rule ''AllowedOrigins'');
          methods = as_array (jprop rule ''AllowedMethods'');
          normalizedMethods = filter (\<lambda>s. s \<noteq> [])
            (map (\<lambda>v. toUpperCase (trim (js_String h v))) methods) in
      (if \<exists>v \<in> set origins. trim (js_String h v) = ''*'' then [WildcardOrigins] else []) @
      (if \<exists>m \<in> set normalizedMethods. m = ''GET'' \<or> m = ''HEAD'' then [ReadMethods] else []) @
      (if \<exists>m \<in> set normalizedMethods. m = ''PUT'' \<or> m = ''POST'' \<or> m = ''DELETE''
       then [WriteMethods] else []) @
      (if jprop rule ''AllowCredentials'' = Some (JBool True) then [AllowCredentials] else []) @
      (if as_array (jprop rule ''ExposeHeaders'') \<noteq> [] then [ExposeHeaders] else []) @
      (if \<not> nullish (jprop rule ''MaxAgeSeconds'') then [MaxAge] else []))"

definition isPublicPrincipal :: "json option \<Rightarrow> bool" where
  "isPublicPrincipal v =
     (v = Some (JStr ''*'') \<or>
      (case jmember v ''AWS'' of
         Some (JStr s) \<Rightarrow> s = ''*''
       | Some (JArr vs) \<Rightarrow> JStr ''*'' \<in> set vs
       | _ \<Rightarrow> False))"

definition non_empty_object :: "json option \<Rightarrow> bool" where
  "non_empty_object v = (case v of
     Some (JObj r) \<Rightarrow> r \<noteq> [] | Some (JArr vs) \<Rightarrow> vs \<noteq> [] | _ \<Rightarrow> False)"

definition listed :: "json option \<Rightarrow> json list" where
  "listed v = (case coalesce v (Some (JArr [])) of
     Some (JArr vs) \<Rightarrow> vs | Some w \<Rightarrow> [w] | None \<Rightarrow> [])"

definition getPolicyStatementTypes :: "js_host \<Rightarrow> jrec \<Rightarrow> PolicyRuleTypeKey list" where
  "getPolicyStatementTypes h statement =
     (let p = jprop statement;
          effect = toLowerCase (js_String h (the (coalesce (p ''Effect'') (Some (JStr [])))));
          condition = coalesce (p ''Condition'') (p ''condition'');
          principal = coalesce (p ''Principal'') (p ''principal'');
          actions = listed (coalesce (p ''Action'') (p ''action''));
          notActions = listed (coalesce (p ''NotAction'') (p ''notAction''));
          normalizedActions = filter (\<lambda>s. s \<noteq> [])
            (map (\<lambda>a. trim (js_String h a)) (actions @ notActions));
          hasRead = (\<exists>a \<in> set normalizedActions. a = ''*'' \<or> startsWith a ''s3:Get''
            \<or> startsWith a ''s3:List'' \<or> startsWith a ''s3:Head'');
          hasWrite = (\<exists>a \<in> set normalizedActions. a = ''*'' \<or> startsWith a ''s3:Put''
            \<or> startsWith a ''s3:Delete'' \<or> startsWith a ''s3:Abort''
            \<or> startsWith a ''s3:Restore'') in
      (if effect = ''allow'' then [Allow] else []) @
      (if effect = ''deny'' then [Deny] else []) @
      (if non_empty_object condition then [Condition] else []) @
      (if isPublicPrincipal principal then [PublicPrincipal] else []) @
      (if hasRead then [ReadActions] else []) @
      (if hasWrite then [WriteActions] else []))"

section \<open>Merging\<close>

record rule_change =
  rc_action :: change_action
  rc_index :: nat
  rc_before :: "jrec option"
  rc_after :: jrec

type_synonym merge_state = "jrec list \<times> rule_change list"

definition serialize :: "js_host \<Rightarrow> jrec \<Rightarrow> string" where
  "serialize h value = stableStringify h (JObj value)"

text \<open>The two updates of the merge: at a matching index, and at the end.\<close>

definition replace_changed :: "js_host \<Rightarrow> nat \<Rightarrow> jrec \<Rightarrow> merge_state \<Rightarrow> merge_state" where
  "replace_changed h idx incoming st =
     (case st of (nxt, changes) \<Rightarrow>
       if serialize h (nxt ! idx) \<noteq> serialize h incoming
       then (nxt[idx := incoming],
             changes @ [\<lparr>rc_action = Replace, rc_index = idx, rc_before = Some (nxt ! idx),
                         rc_after = incoming\<rparr>])
       else (nxt, changes))"

definition add_missing :: "js_host \<Rightarrow> jrec \<Rightarrow> merge_state \<Rightarrow> merge_state" where
  "add_missing h incoming st =
     (case st of (nxt, changes) \<Rightarrow>
       if \<exists>existing \<in> set nxt. serialize h existing = serialize h incoming then (nxt, changes)
       else (nxt @ [incoming],
             changes @ [\<lparr>rc_action = Add, rc_index = length nxt, rc_before = None,
                         rc_after = incoming\<rparr>]))"

definition merge_lifecycle_rule :: "js_host \<Rightarrow> bool \<Rightarrow> jrec \<Rightarrow> merge_state \<Rightarrow> merge_state" where
  "merge_lifecycle_rule h onlyUpdateExisting incoming st =
     (let ruleId = getLifecycleRuleId h incoming;
          idx = findIndex (\<lambda>existing. getLifecycleRuleId h existing = ruleId) (fst st) in
      if onlyUpdateExisting then
        (if ruleId = None then st
         else case idx of None \<Rightarrow> st | Some i \<Rightarrow> replace_changed h i incoming st)
      else if ruleId \<noteq> None \<and> idx \<noteq> None then replace_changed h (the idx) incoming st
      else add_missing h incoming st)"

definition mergeLifecycleRules :: "js_host \<Rightarrow> bool \<Rightarrow> jrec list \<Rightarrow> jrec list \<Rightarrow> merge_state" where
  "mergeLifecycleRules h onlyUpdateExisting existingRules incomingRules =
     fold (merge_lifecycle_rule h onlyUpdateExisting) incomingRules (existingRules, [])"

definition findMatchIndex_policy :: "js_host \<Rightarrow> jrec list \<Rightarrow> jrec \<Rightarrow> nat option" where
  "findMatchIndex_policy h nextStatements incoming =
     (let sid = getPolicyStatementSid h incoming;
          idx = (if sid = None then None else
            findIndex (\<lambda>existing. getPolicyStatementSid h existing = sid) nextStatements);
          key = getPolicyStatementKey h incoming in
      if idx \<noteq> None then idx
      else findIndex (\<lambda>existing. getPolicyStatementKey h existing = key) nextStatements)"

definition findMatchIndex_cors :: "js_host \<Rightarrow> jrec list \<Rightarrow> jrec \<Rightarrow> nat option" where
  "findMatchIndex_cors h nextRules incoming =
     (let ruleId = getLifecycleRuleId h incoming;
          idx = (if ruleId = None then None else
            findIndex (\<lambda>existing. getLifecycleRuleId h existing = ruleId) nextRules);
          key = getCorsRuleKey h incoming in
      if idx \<noteq> None then idx
      else if key = None then None
      else findIndex (\<lambda>existing. getCorsRuleKey h existing = key) nextRules)"

text \<open>The body of the loop that \<open>mergePolicyStatements\<close> and \<open>mergeCorsRules\<close> both have.\<close>

definition merge_found :: "js_host \<Rightarrow> (jrec list \<Rightarrow> jrec \<Rightarrow> nat option) \<Rightarrow> bool \<Rightarrow> jrec \<Rightarrow>
    merge_state \<Rightarrow> merge_state" where
  "merge_found h findMatchIndex onlyUpdateExisting incoming st =
     (case findMatchIndex (fst st) incoming of
        Some idx \<Rightarrow> replace_changed h idx incoming st
      | None \<Rightarrow> if onlyUpdateExisting then st else add_missing h incoming st)"

definition mergePolicyStatements :: "js_host \<Rightarrow> bool \<Rightarrow> jrec list \<Rightarrow> jrec list \<Rightarrow> merge_state" where
  "mergePolicyStatements h onlyUpdateExisting existingStatements incomingStatements =
     fold (merge_found h (findMatchIndex_policy h) onlyUpdateExisting) incomingStatements
       (existingStatements, [])"

definition mergeCorsRules :: "js_host \<Rightarrow> bool \<Rightarrow> jrec list \<Rightarrow> jrec list \<Rightarrow> merge_state" where
  "mergeCorsRules h onlyUpdateExisting existingRules incomingRules =
     fold (merge_found h (findMatchIndex_cors h) onlyUpdateExisting) incomingRules
       (existingRules, [])"

section \<open>The laws of a merge\<close>

text \<open>Applying a change log to the rules it was computed from.\<close>

definition apply_change :: "rule_change \<Rightarrow> jrec list \<Rightarrow> jrec list" where
  "apply_change c rules = (case rc_action c of
     Replace \<Rightarrow> rules[rc_index c := rc_after c]
   | Add \<Rightarrow> rules @ [rc_after c]
   | Remove \<Rightarrow> rules)"

definition replay :: "rule_change list \<Rightarrow> jrec list \<Rightarrow> jrec list" where
  "replay changes rules = fold apply_change changes rules"

lemma replay_simps [simp]:
  "replay [] rules = rules"
  "replay (c # cs) rules = replay cs (apply_change c rules)"
  "replay (cs @ ds) rules = replay ds (replay cs rules)"
  by (simp_all add: replay_def)

lemma apply_change_simps [simp]:
  "apply_change \<lparr>rc_action = Replace, rc_index = i, rc_before = b, rc_after = r\<rparr> rules = rules[i := r]"
  "apply_change \<lparr>rc_action = Add, rc_index = i, rc_before = b, rc_after = r\<rparr> rules = rules @ [r]"
  by (simp_all add: apply_change_def)

definition merge_all :: "js_host \<Rightarrow> (jrec list \<Rightarrow> jrec \<Rightarrow> nat option) \<Rightarrow> bool \<Rightarrow> jrec list \<Rightarrow>
    merge_state \<Rightarrow> merge_state" where
  "merge_all h findMatchIndex only incoming st = fold (merge_found h findMatchIndex only) incoming st"

lemma merge_all_simps [simp]:
  "merge_all h f only [] st = st"
  "merge_all h f only (x # xs) st = merge_all h f only xs (merge_found h f only x st)"
  by (simp_all add: merge_all_def)

text \<open>What every merge guarantees when the match it replaces is an index of the rules.\<close>

locale rule_merge =
  fixes h :: js_host
    and find_match :: "jrec list \<Rightarrow> jrec \<Rightarrow> nat option"
  assumes find_less: "find_match rules r = Some i \<Longrightarrow> i < length rules"
begin

lemma step_cases:
  obtains (same) "merge_found h find_match only x (rules, cs) = (rules, cs)"
  | (replace) i where "find_match rules x = Some i" "i < length rules"
      "serialize h (rules ! i) \<noteq> serialize h x"
      "merge_found h find_match only x (rules, cs) =
         (rules[i := x], cs @ [\<lparr>rc_action = Replace, rc_index = i, rc_before = Some (rules ! i),
                                rc_after = x\<rparr>])"
  | (add) "\<not> only" "find_match rules x = None" "\<forall>r \<in> set rules. serialize h r \<noteq> serialize h x"
      "merge_found h find_match only x (rules, cs) =
         (rules @ [x], cs @ [\<lparr>rc_action = Add, rc_index = length rules, rc_before = None,
                              rc_after = x\<rparr>])"
proof (cases "find_match rules x")
  case None
  show ?thesis
  proof (cases "only \<or> (\<exists>r \<in> set rules. serialize h r = serialize h x)")
    case True
    then show ?thesis using None by (intro same) (auto simp: merge_found_def add_missing_def)
  next
    case False
    then show ?thesis using None by (intro add) (auto simp: merge_found_def add_missing_def)
  qed
next
  case (Some i)
  then show ?thesis using find_less [OF Some] same replace
    by (cases "serialize h (rules ! i) = serialize h x") (auto simp: merge_found_def replace_changed_def)
qed

lemma merge_log:
  "merge_all h find_match only xs (rules, cs) = (rules', cs') \<Longrightarrow>
     \<exists>ds. cs' = cs @ ds \<and> rules' = replay ds rules \<and> length ds \<le> length xs
        \<and> length rules \<le> length rules' \<and> (only \<longrightarrow> length rules' = length rules)
        \<and> length rules' \<le> length rules + length ds"
proof (induction xs arbitrary: rules cs)
  case (Cons x xs)
  obtain r1 c1 where st: "merge_found h find_match only x (rules, cs) = (r1, c1)" by fastforce
  from Cons.IH [of r1 c1] Cons.prems st obtain ds where ds: "cs' = c1 @ ds" "rules' = replay ds r1"
    "length ds \<le> length xs" "length r1 \<le> length rules'" "only \<longrightarrow> length rules' = length r1"
    "length rules' \<le> length r1 + length ds" by auto
  from step_cases [of only x rules cs] show ?case
  proof cases
    case same
    then show ?thesis using st ds by (intro exI [of _ ds]) auto
  next
    case (replace i)
    then show ?thesis using st ds by (intro exI [of _ "drop (length cs) c1 @ ds"]) auto
  next
    case add
    then show ?thesis using st ds by (intro exI [of _ "drop (length cs) c1 @ ds"]) auto
  qed
qed auto

lemma unchanged_iff:
  "merge_all h find_match only xs (rules, []) = (rules', []) \<Longrightarrow> rules' = rules"
  using merge_log [of only xs rules "[]" rules' "[]"] by auto

end

text \<open>
  A rule is matched by its first key when it has one that occurs, and by its second key
  otherwise. Rules without the key match nothing.
\<close>

definition rule_ok :: "js_host \<Rightarrow> jrec \<Rightarrow> bool" where
  "rule_ok h r = json_ok h (JObj r)"

definition key_index :: "(jrec \<Rightarrow> string option) \<Rightarrow> jrec list \<Rightarrow> jrec \<Rightarrow> nat option" where
  "key_index k rules x = (if k x = None then None else findIndex (\<lambda>r. k r = k x) rules)"

definition two_key_index ::
  "(jrec \<Rightarrow> string option) \<Rightarrow> (jrec \<Rightarrow> string option) \<Rightarrow> jrec list \<Rightarrow> jrec \<Rightarrow> nat option" where
  "two_key_index k1 k2 rules x =
     (case key_index k1 rules x of Some i \<Rightarrow> Some i | None \<Rightarrow> key_index k2 rules x)"

definition keys_apart :: "(jrec \<Rightarrow> string option) \<Rightarrow> jrec \<Rightarrow> jrec \<Rightarrow> bool" where
  "keys_apart k x y \<longleftrightarrow> k x = None \<or> k x \<noteq> k y"

definition distinct_keys :: "(jrec \<Rightarrow> string option) \<Rightarrow> jrec list \<Rightarrow> bool" where
  "distinct_keys k xs = sorted_wrt (keys_apart k) xs"

lemma set_update_keep:
  assumes "z \<in> set xs" and "xs ! j \<noteq> z"
  shows "z \<in> set (xs[j := y])"
proof -
  from assms(1) obtain i where "i < length xs" "xs ! i = z" by (auto simp: in_set_conv_nth)
  with assms(2) show ?thesis by (metis length_list_update nth_list_update_neq nth_mem)
qed

lemma key_index_SomeD:
  "key_index k rules x = Some i \<Longrightarrow> i < length rules \<and> k x \<noteq> None \<and> k (rules ! i) = k x"
  by (auto simp: key_index_def split: if_splits dest: findIndex_SomeD)

lemma key_index_None: "key_index k rules x = None \<longleftrightarrow> k x = None \<or> (\<forall>r \<in> set rules. k r \<noteq> k x)"
  by (auto simp: key_index_def findIndex_None)

lemma key_index_append_apart:
  assumes "keys_apart k x y"
  shows "key_index k (rules @ [y]) x = key_index k rules x"
  using assms by (auto simp: key_index_def keys_apart_def findIndex_append split: option.splits)

lemma findIndex_update_other:
  assumes "j < length xs" and "\<not> p (xs ! j)" and "\<not> p y"
  shows "findIndex p (xs[j := y]) = findIndex p xs"
  using assms by (induction xs arbitrary: j) (auto split: nat.splits)

lemma key_index_update_apart:
  assumes "keys_apart k x y" and "j < length rules" and "k x = None \<or> k (rules ! j) \<noteq> k x"
  shows "key_index k (rules[j := y]) x = key_index k rules x"
  using assms by (auto simp: key_index_def keys_apart_def intro!: findIndex_update_other)

lemma findIndex_update_after:
  assumes "findIndex p xs = Some i" and "i \<noteq> j" and "\<not> p y"
  shows "findIndex p (xs[j := y]) = Some i"
  using assms by (induction xs arbitrary: i j) (auto split: nat.splits if_splits)

lemma key_index_update_other:
  assumes "key_index k rules x = Some i" and "keys_apart k x y" and "i \<noteq> j"
  shows "key_index k (rules[j := y]) x = Some i"
  using assms by (auto simp: key_index_def keys_apart_def split: if_splits intro!: findIndex_update_after)

lemma key_index_update_self:
  assumes "key_index k rules x = Some i"
  shows "key_index k (rules[i := x]) x = Some i"
  using assms by (auto simp: key_index_def split: if_splits intro: findIndex_update)

lemma findIndex_update_new:
  assumes "i < length xs" and "findIndex p xs = None" and "p y"
  shows "findIndex p (xs[i := y]) = Some i"
  using assms by (induction xs arbitrary: i) (auto split: nat.splits if_splits)

locale two_key_merge =
  fixes h :: js_host
    and k1 k2 :: "jrec \<Rightarrow> string option"
    and find_match :: "jrec list \<Rightarrow> jrec \<Rightarrow> nat option"
  assumes find_match_eq: "find_match rules x = two_key_index k1 k2 rules x"
    and serialize_keys: "rule_ok h a \<Longrightarrow> rule_ok h b \<Longrightarrow> serialize h a = serialize h b \<Longrightarrow>
      k1 a = k1 b \<and> k2 a = k2 b"

sublocale two_key_merge \<subseteq> rule_merge h find_match
  by unfold_locales (auto simp: find_match_eq two_key_index_def dest: key_index_SomeD split: option.splits)

context two_key_merge
begin

text \<open>A rule is settled when merging it again would change nothing.\<close>

definition settled :: "bool \<Rightarrow> jrec \<Rightarrow> jrec list \<Rightarrow> bool" where
  "settled only x rules \<longleftrightarrow> (case find_match rules x of
     Some i \<Rightarrow> serialize h (rules ! i) = serialize h x
   | None \<Rightarrow> only \<or> (\<exists>r \<in> set rules. serialize h r = serialize h x))"

definition apart :: "jrec \<Rightarrow> jrec \<Rightarrow> bool" where
  "apart x y \<longleftrightarrow> keys_apart k1 x y \<and> keys_apart k2 x y"

lemma settled_noop: "settled only x rules \<Longrightarrow> merge_found h find_match only x (rules, cs) = (rules, cs)"
  by (auto simp: settled_def merge_found_def replace_changed_def add_missing_def split: option.splits)

lemma matched_key:
  assumes "find_match rules x = Some i"
  shows "(k1 x \<noteq> None \<and> k1 (rules ! i) = k1 x) \<or> (k2 x \<noteq> None \<and> k2 (rules ! i) = k2 x)"
  using assms by (auto simp: find_match_eq two_key_index_def dest!: key_index_SomeD split: option.splits)

lemma step_settles:
  assumes "merge_found h find_match only x (rules, cs) = (rules', cs')"
  shows "settled only x rules'"
proof -
  from step_cases [of only x rules cs] show ?thesis
  proof cases
    case same
    then show ?thesis using assms
      by (auto simp: settled_def merge_found_def replace_changed_def add_missing_def split: option.splits if_splits)
  next
    case (replace i)
    have "find_match (rules[i := x]) x = Some i"
    proof (cases "key_index k1 rules x")
      case (Some j)
      with replace have "j = i" by (simp add: find_match_eq two_key_index_def)
      with Some show ?thesis by (simp add: find_match_eq two_key_index_def key_index_update_self)
    next
      case None
      with replace have i: "key_index k2 rules x = Some i" by (simp add: find_match_eq two_key_index_def)
      have "key_index k1 (rules[i := x]) x = (if k1 x = None then None else Some i)"
        using None replace(2) by (auto simp: key_index_def split: if_splits intro!: findIndex_update_new)
      with i show ?thesis by (auto simp: find_match_eq two_key_index_def key_index_update_self)
    qed
    then show ?thesis using assms replace by (auto simp: settled_def)
  next
    case add
    have "find_match (rules @ [x]) x \<in> {None, Some (length rules)}"
      using add(2) by (auto simp: find_match_eq two_key_index_def key_index_def findIndex_append
          split: option.splits if_splits)
    then show ?thesis using assms add by (auto simp: settled_def)
  qed
qed

lemma match_apart_replaced:
  assumes "find_match rules y = Some j" and "apart x y" and "find_match rules x = None"
  shows "find_match (rules[j := y]) x = None"
proof -
  from assms have a: "keys_apart k1 x y" "keys_apart k2 x y" and j: "j < length rules"
    by (auto simp: apart_def find_less)
  from assms(3) have n: "key_index k1 rules x = None" "key_index k2 rules x = None"
    by (auto simp: find_match_eq two_key_index_def split: option.splits)
  have "k1 x = None \<or> k1 (rules ! j) \<noteq> k1 x" "k2 x = None \<or> k2 (rules ! j) \<noteq> k2 x"
    using n j by (auto simp: key_index_None)
  then show ?thesis
    using n key_index_update_apart [OF a(1) j] key_index_update_apart [OF a(2) j]
    by (simp add: find_match_eq two_key_index_def)
qed

lemma matched_distinct:
  assumes "find_match rules y = Some j" and "apart x y"
    and "rule_ok h x" and "rule_ok h (rules ! j)"
  shows "serialize h (rules ! j) \<noteq> serialize h x"
  using matched_key [OF assms(1)] serialize_keys [OF assms(4,3)] assms(2)
  by (auto simp: apart_def keys_apart_def)

lemma match_self_key:
  assumes "find_match rules x = Some i" and "rule_ok h x" and "list_all (rule_ok h) rules"
    and "serialize h (rules ! i) = serialize h x"
  obtains (first) "key_index k1 rules x = Some i"
  | (second) "k1 x = None" "key_index k2 rules x = Some i"
proof (cases "key_index k1 rules x")
  case None
  have i: "i < length rules" using assms(1) by (rule find_less)
  then have "k1 (rules ! i) = k1 x"
    using assms serialize_keys [of "rules ! i" x] by (auto simp: list_all_length)
  with None i have "k1 x = None" by (auto simp: key_index_None)
  with None assms(1) second show ?thesis by (auto simp: find_match_eq two_key_index_def)
next
  case (Some j)
  with assms(1) first show ?thesis by (auto simp: find_match_eq two_key_index_def)
qed

lemma step_keeps_settled:
  assumes "settled only x rules" and "apart x y" and "rule_ok h x" and "list_all (rule_ok h) rules"
    and "merge_found h find_match only y (rules, cs) = (rules', cs')"
  shows "settled only x rules'"
proof -
  from assms(2) have a: "keys_apart k1 x y" "keys_apart k2 x y" by (auto simp: apart_def)
  from step_cases [of only y rules cs] show ?thesis
  proof cases
    case same
    then show ?thesis using assms by simp
  next
    case add
    then have "find_match rules' x = find_match rules x" and "rules' = rules @ [y]"
      using assms(5) a
      by (auto simp: find_match_eq two_key_index_def key_index_append_apart cong: option.case_cong)
    then show ?thesis using assms(1) find_less [of rules x]
      by (auto simp: settled_def nth_append split: option.splits)
  next
    case (replace j)
    have r: "rules' = rules[j := y]" using assms(5) replace by simp
    have nj: "serialize h (rules ! j) \<noteq> serialize h x"
      using assms(3,4) replace(2) by (intro matched_distinct [OF replace(1) assms(2)]) (auto simp: list_all_length)
    show ?thesis
    proof (cases "find_match rules x")
      case None
      then have "only \<or> (\<exists>z \<in> set rules'. serialize h z = serialize h x)"
        using assms(1) nj r set_update_keep [of _ rules j y] by (auto simp: settled_def)
      then show ?thesis
        using match_apart_replaced [OF replace(1) assms(2) None] r by (simp add: settled_def)
    next
      case (Some i)
      with assms(1) have s: "serialize h (rules ! i) = serialize h x" by (simp add: settled_def)
      with nj have ij: "i \<noteq> j" by auto
      have keep: "key_index k (rules[j := y]) x = Some i" if "key_index k rules x = Some i" "keys_apart k x y" for k
        using that ij by (rule key_index_update_other)
      from Some assms(3,4) s have "find_match (rules[j := y]) x = Some i"
      proof (cases rule: match_self_key)
        case first
        then show ?thesis using keep [OF _ a(1)] by (simp add: find_match_eq two_key_index_def)
      next
        case second
        then show ?thesis using keep [OF _ a(2)]
          by (simp add: find_match_eq two_key_index_def key_index_def [of k1])
      qed
      then show ?thesis using r s ij by (simp add: settled_def)
    qed
  qed
qed

lemma step_rule_ok:
  assumes "merge_found h find_match only y (rules, cs) = (rules', cs')"
    and "rule_ok h y" and "list_all (rule_ok h) rules"
  shows "list_all (rule_ok h) rules'"
  using step_cases [of only y rules cs]
proof cases
  case (replace i)
  then show ?thesis using assms
    by (auto simp: list_all_iff dest: set_update_subset_insert [THEN subsetD])
qed (use assms in auto)

lemma merge_settles:
  assumes "merge_all h find_match only xs (rules, cs) = (rules', cs')"
    and "list_all (rule_ok h) xs" and "list_all (rule_ok h) rules"
    and "rule_ok h x" and "settled only x rules" and "list_all (apart x) xs"
  shows "settled only x rules'"
  using assms
proof (induction xs arbitrary: rules cs)
  case (Cons y ys)
  obtain r1 c1 where st: "merge_found h find_match only y (rules, cs) = (r1, c1)" by fastforce
  then have "settled only x r1" and "list_all (rule_ok h) r1"
    using Cons.prems by (auto intro: step_keeps_settled step_rule_ok)
  then show ?case using Cons st by auto
qed simp

lemma merge_settles_all:
  assumes "merge_all h find_match only xs (rules, cs) = (rules', cs')"
    and "list_all (rule_ok h) xs" and "list_all (rule_ok h) rules"
    and "sorted_wrt apart xs"
  shows "list_all (\<lambda>x. settled only x rules') xs"
  using assms
proof (induction xs arbitrary: rules cs)
  case (Cons y ys)
  obtain r1 c1 where st: "merge_found h find_match only y (rules, cs) = (r1, c1)" by fastforce
  then have ok: "list_all (rule_ok h) r1" using Cons.prems by (auto intro: step_rule_ok)
  have "settled only y rules'"
    using merge_settles [of only ys r1 c1 rules' cs' y] step_settles [OF st] ok st Cons.prems
    by (auto simp: list_all_iff)
  moreover have "list_all (\<lambda>x. settled only x rules') ys" using Cons st ok by auto
  ultimately show ?case by simp
qed simp

lemma settled_all_noop:
  "list_all (\<lambda>x. settled only x rules) xs \<Longrightarrow> merge_all h find_match only xs (rules, cs) = (rules, cs)"
  by (induction xs) (auto simp: settled_noop)

text \<open>Merging the same rules a second time changes nothing.\<close>

lemma merge_idempotent:
  assumes "merge_all h find_match only xs (rules, []) = (rules', cs)"
    and "list_all (rule_ok h) xs" and "list_all (rule_ok h) rules"
    and "distinct_keys k1 xs" and "distinct_keys k2 xs"
  shows "merge_all h find_match only xs (rules', []) = (rules', [])"
proof -
  have "sorted_wrt apart xs"
    using assms(4,5) unfolding distinct_keys_def apart_def by (induction xs) auto
  then show ?thesis using assms by (intro settled_all_noop merge_settles_all)
qed

lemma merge_rule_ok:
  assumes "merge_all h find_match only xs (rules, cs) = (rules', cs')"
    and "list_all (rule_ok h) rules" and "list_all (rule_ok h) xs"
  shows "list_all (rule_ok h) rules'"
  using assms
proof (induction xs arbitrary: rules cs)
  case (Cons y ys)
  obtain r1 c1 where st: "merge_found h find_match only y (rules, cs) = (r1, c1)" by fastforce
  then have "list_all (rule_ok h) r1" using Cons.prems by (auto intro: step_rule_ok)
  then show ?case using Cons st by auto
qed simp

text \<open>After a merge that may add, every incoming rule is present.\<close>

lemma merge_present:
  assumes "merge_all h find_match False xs (rules, []) = (rules', cs)"
    and "list_all (rule_ok h) xs" and "list_all (rule_ok h) rules"
    and "distinct_keys k1 xs" and "distinct_keys k2 xs" and "x \<in> set xs"
  shows "\<exists>r \<in> set rules'. serialize h r = serialize h x"
proof -
  have "sorted_wrt apart xs"
    using assms(4,5) unfolding distinct_keys_def apart_def by (induction xs) auto
  then have "settled False x rules'"
    using merge_settles_all [OF assms(1-3)] assms(6) by (auto simp: list_all_iff)
  then show ?thesis using find_less by (fastforce simp: settled_def split: option.splits)
qed

text \<open>A rule whose keys no incoming rule has is kept.\<close>

lemma merge_frame:
  assumes "merge_all h find_match only xs (rules, cs) = (rules', cs')"
    and "r \<in> set rules" and "list_all (apart r) xs"
  shows "r \<in> set rules'"
  using assms
proof (induction xs arbitrary: rules cs)
  case (Cons y ys)
  obtain r1 c1 where st: "merge_found h find_match only y (rules, cs) = (r1, c1)" by fastforce
  from step_cases [of only y rules cs] have "r \<in> set r1"
  proof cases
    case (replace j)
    have "rules ! j \<noteq> r"
      using matched_key [OF replace(1)] Cons.prems(3) by (auto simp: apart_def keys_apart_def)
    then show ?thesis using replace st Cons.prems(2) by (auto intro: set_update_keep)
  qed (use st Cons.prems in auto)
  then show ?case using Cons st by auto
qed simp

end

section \<open>Canonical text determines the keys\<close>

lemma jprop_canon:
  assumes "distinct (map fst r)"
  shows "map_option (canon h) (jprop r k) = jprop (js_sort (by_key h) (canon_members h r)) k"
proof -
  let ?c = "canon_members h r"
  have d: "distinct (map fst ?c)" using assms by (simp add: canon_members_map)
  have "mset (map fst (js_sort (by_key h) ?c)) = mset (map fst ?c)" by simp
  then have "distinct (map fst (js_sort (by_key h) ?c))" using d by (metis mset_eq_imp_distinct_iff)
  then have "map_of (js_sort (by_key h) ?c) = map_of ?c"
    using d by (subst map_of_inject_set) auto
  moreover have "map_of ?c k = map_option (canon h) (map_of r k)"
    by (induction r) auto
  ultimately show ?thesis by (simp add: jprop_def)
qed

lemma serialize_jprop:
  assumes "rule_ok h a" and "rule_ok h b" and "serialize h a = serialize h b"
  shows "map_option (canon h) (jprop a k) = map_option (canon h) (jprop b k)"
proof -
  have "canon h (JObj a) = canon h (JObj b)"
    using assms stableStringify_eq [of h "JObj a" "JObj b"] by (simp add: rule_ok_def serialize_def)
  then show ?thesis using assms by (simp add: jprop_canon rule_ok_def)
qed

lemma canon_JNull_iff [simp]: "canon h v = JNull \<longleftrightarrow> v = JNull"
  by (cases v) auto

lemma coalesce_canon:
  "map_option (canon h) (coalesce x y) = coalesce (map_option (canon h) x) (map_option (canon h) y)"
  by (induction x y rule: coalesce.induct) auto

lemma id_text_canon [simp]: "id_text h (map_option (canon h) v) = id_text h v"
  by (cases v) (auto simp: id_text_def split: json.splits)

lemma js_String_canon:
  "js_String h (canon h v) = js_String h v"
  "js_element_String h (canon h v) = js_element_String h v"
proof (induction h v and h v rule: js_String_js_element_String.induct)
  case (5 h vs)
  then show ?case by (simp add: canon_elems_map comp_def cong: map_cong)
qed auto

lemma as_array_canon: "as_array (map_option (canon h) v) = map (canon h) (as_array v)"
  by (cases v) (auto simp: as_array_def canon_elems_map split: json.splits)

lemma getLifecycleRuleId_canon:
  assumes "rule_ok h a" and "rule_ok h b" and "serialize h a = serialize h b"
  shows "getLifecycleRuleId h a = getLifecycleRuleId h b"
  unfolding getLifecycleRuleId_def
  by (subst (1 2) id_text_canon [symmetric])
    (simp only: coalesce_canon serialize_jprop [OF assms])

lemma getPolicyStatementSid_canon:
  assumes "rule_ok h a" and "rule_ok h b" and "serialize h a = serialize h b"
  shows "getPolicyStatementSid h a = getPolicyStatementSid h b"
  unfolding getPolicyStatementSid_def
  by (subst (1 2) id_text_canon [symmetric])
    (simp only: coalesce_canon serialize_jprop [OF assms])

lemma policy_field_canon:
  assumes "rule_ok h a" and "rule_ok h b" and "serialize h a = serialize h b"
  shows "canon h (policy_field a u l) = canon h (policy_field b u l)"
proof -
  have d: "coalesce x (Some (JStr [])) \<noteq> None" for x by (induction x "Some (JStr [])" rule: coalesce.induct) auto
  have "Some (canon h (policy_field r u l)) =
      coalesce (coalesce (map_option (canon h) (jprop r u)) (map_option (canon h) (jprop r l))) (Some (JStr []))"
    for r
  proof -
    have "Some (canon h (policy_field r u l)) =
        map_option (canon h) (coalesce (coalesce (jprop r u) (jprop r l)) (Some (JStr [])))"
      using d [of "coalesce (jprop r u) (jprop r l)"] by (auto simp: policy_field_def)
    then show ?thesis by (simp add: coalesce_canon)
  qed
  then show ?thesis using serialize_jprop [OF assms] by (metis option.inject)
qed

lemma getPolicyStatementKey_canon:
  assumes "rule_ok h a" and "rule_ok h b" and "serialize h a = serialize h b"
  shows "getPolicyStatementKey h a = getPolicyStatementKey h b"
  unfolding getPolicyStatementKey_def getPolicyStatementSid_canon [OF assms] stable_canon(1)
    canon.simps canon_members.simps policy_field_canon [OF assms] ..

lemma getCorsRuleKey_canon:
  assumes "rule_ok h a" and "rule_ok h b" and "serialize h a = serialize h b"
  shows "getCorsRuleKey h a = getCorsRuleKey h b"
proof -
  have "map (js_String h) (as_array (jprop r k)) = map (js_String h) (as_array (map_option (canon h) (jprop r k)))"
    for r k by (simp add: as_array_canon comp_def js_String_canon)
  then have "map (js_String h) (as_array (jprop a k)) = map (js_String h) (as_array (jprop b k))" for k
    using serialize_jprop [OF assms] by metis
  then have "map (\<lambda>v. f (js_String h v)) (as_array (jprop a k)) = map (\<lambda>v. f (js_String h v)) (as_array (jprop b k))"
    for k and f :: "string \<Rightarrow> string"
    by (metis (no_types, lifting) list.map_comp comp_def map_eq_conv)
  from this [of trim] this [of "\<lambda>s. toUpperCase (trim s)"] show ?thesis
    by (simp add: getCorsRuleKey_def Let_def)
qed

section \<open>The merges of the program\<close>

abbreviation no_key :: "jrec \<Rightarrow> string option" where
  "no_key \<equiv> \<lambda>_. None"

definition findMatchIndex_lifecycle :: "js_host \<Rightarrow> jrec list \<Rightarrow> jrec \<Rightarrow> nat option" where
  "findMatchIndex_lifecycle h rules x = key_index (getLifecycleRuleId h) rules x"

lemma merge_lifecycle_rule_found:
  "merge_lifecycle_rule h only = merge_found h (findMatchIndex_lifecycle h) only"
  by (intro ext) (auto simp: merge_lifecycle_rule_def merge_found_def findMatchIndex_lifecycle_def
      key_index_def Let_def split: option.splits)

lemma policy_key_sid:
  "getPolicyStatementSid h x = Some s \<Longrightarrow>
     getPolicyStatementKey h y = getPolicyStatementKey h x \<longleftrightarrow> getPolicyStatementSid h y = Some s"
  by (auto simp: getPolicyStatementKey_def split: option.splits)

lemma findMatchIndex_two_key:
  "findMatchIndex_lifecycle h rules x = two_key_index (getLifecycleRuleId h) no_key rules x"
  "findMatchIndex_policy h rules x =
     two_key_index (getPolicyStatementSid h) (\<lambda>s. Some (getPolicyStatementKey h s)) rules x"
  "findMatchIndex_cors h rules x = two_key_index (getLifecycleRuleId h) (getCorsRuleKey h) rules x"
  by (auto simp: findMatchIndex_lifecycle_def findMatchIndex_policy_def findMatchIndex_cors_def
      two_key_index_def key_index_def Let_def split: option.splits)

interpretation lifecycle: two_key_merge h "getLifecycleRuleId h" no_key "findMatchIndex_lifecycle h" for h
  by (unfold_locales, rule findMatchIndex_two_key, intro conjI refl getLifecycleRuleId_canon)

interpretation policy: two_key_merge h "getPolicyStatementSid h" "\<lambda>s. Some (getPolicyStatementKey h s)"
  "findMatchIndex_policy h" for h
  by (unfold_locales, rule findMatchIndex_two_key)
    (intro conjI getPolicyStatementSid_canon arg_cong [where f = Some] getPolicyStatementKey_canon)

interpretation cors: two_key_merge h "getLifecycleRuleId h" "getCorsRuleKey h" "findMatchIndex_cors h" for h
  by (unfold_locales, rule findMatchIndex_two_key) (intro conjI getLifecycleRuleId_canon getCorsRuleKey_canon)

section \<open>Properties\<close>

definition sample_lifecycle :: "string \<Rightarrow> string \<Rightarrow> jrec" where
  "sample_lifecycle i status = [(''ID'', JStr i), (''Status'', JStr status)]"

definition sample_cors :: "string \<Rightarrow> string \<Rightarrow> jrec" where
  "sample_cors origin mode = [(''AllowedOrigins'', JArr [JStr origin]), (''AllowedMethods'', JArr [JStr mode])]"

definition sample_statement :: "string \<Rightarrow> string \<Rightarrow> jrec" where
  "sample_statement effect action = [(''Effect'', JStr effect), (''Action'', JStr action)]"

lemma mergeLifecycleRules_all:
  "mergeLifecycleRules h only existing incoming =
     merge_all h (findMatchIndex_lifecycle h) only incoming (existing, [])"
  by (simp add: mergeLifecycleRules_def merge_all_def merge_lifecycle_rule_found)

lemma mergePolicyStatements_all:
  "mergePolicyStatements h only existing incoming =
     merge_all h (findMatchIndex_policy h) only incoming (existing, [])"
  by (simp add: mergePolicyStatements_def merge_all_def)

lemma mergeCorsRules_all:
  "mergeCorsRules h only existing incoming =
     merge_all h (findMatchIndex_cors h) only incoming (existing, [])"
  by (simp add: mergeCorsRules_def merge_all_def)

lemmas merge_folds = mergeLifecycleRules_all mergePolicyStatements_all mergeCorsRules_all

lemma distinct_no_key [simp]: "distinct_keys no_key xs"
  by (induction xs) (auto simp: distinct_keys_def keys_apart_def)

lemma distinct_key_pairs: "distinct_keys (\<lambda>s. Some (f s)) xs \<longleftrightarrow> distinct (map f xs)"
  by (induction xs) (auto simp: distinct_keys_def keys_apart_def)

lemma distinct_policy_sids:
  assumes "distinct (map (getPolicyStatementKey h) incoming)"
  shows "distinct_keys (getPolicyStatementSid h) incoming"
  using assms policy_key_sid [of h]
  by (induction incoming) (force simp: distinct_keys_def keys_apart_def)+

text \<open>
  The three merges are idempotent: merging the same incoming rules into the merged ones changes
  nothing, when the lifecycle rules have pairwise different identifiers, the CORS rules pairwise
  different identifiers and pairwise different origin and method keys, the policy statements pairwise
  different keys (the \<open>Sid\<close>, or the canonical text of the other fields).
\<close>

theorem merges_idempotent:
  assumes "list_all (rule_ok h) existing" and "list_all (rule_ok h) incoming"
  shows "(distinct_keys (getLifecycleRuleId h) incoming \<longrightarrow> mergeLifecycleRules h only existing incoming = (nextRules, changes)
      \<longrightarrow> mergeLifecycleRules h only nextRules incoming = (nextRules, []))
    \<and> (distinct_keys (getLifecycleRuleId h) incoming \<longrightarrow> distinct_keys (getCorsRuleKey h) incoming
      \<longrightarrow> mergeCorsRules h only existing incoming = (nextRules, changes)
      \<longrightarrow> mergeCorsRules h only nextRules incoming = (nextRules, []))
    \<and> (distinct (map (getPolicyStatementKey h) incoming) \<longrightarrow> mergePolicyStatements h only existing incoming = (nextRules, changes)
      \<longrightarrow> mergePolicyStatements h only nextRules incoming = (nextRules, []))"
proof (intro conjI impI)
  assume "distinct_keys (getLifecycleRuleId h) incoming" "mergeLifecycleRules h only existing incoming = (nextRules, changes)"
  then show "mergeLifecycleRules h only nextRules incoming = (nextRules, [])"
    using assms unfolding mergeLifecycleRules_all by (intro lifecycle.merge_idempotent) simp_all
next
  assume "distinct_keys (getLifecycleRuleId h) incoming" "distinct_keys (getCorsRuleKey h) incoming"
    "mergeCorsRules h only existing incoming = (nextRules, changes)"
  then show "mergeCorsRules h only nextRules incoming = (nextRules, [])"
    using assms unfolding mergeCorsRules_all by (intro cors.merge_idempotent) simp_all
next
  assume d: "distinct (map (getPolicyStatementKey h) incoming)" "mergePolicyStatements h only existing incoming = (nextRules, changes)"
  then show "mergePolicyStatements h only nextRules incoming = (nextRules, [])"
    using assms distinct_policy_sids [OF d(1)] unfolding mergePolicyStatements_all
    by (intro policy.merge_idempotent) (simp_all add: distinct_key_pairs)
qed

theorem merges_idempotent_witness:
  "mergeLifecycleRules plain_host False
      [sample_lifecycle ''a'' ''Disabled'', sample_lifecycle ''b'' ''Enabled'', sample_lifecycle ''c'' ''Enabled'']
      [sample_lifecycle ''c'' ''Enabled'', sample_lifecycle ''a'' ''Disabled'']
    = ([sample_lifecycle ''a'' ''Disabled'', sample_lifecycle ''b'' ''Enabled'', sample_lifecycle ''c'' ''Enabled''], [])
   \<and> mergePolicyStatements plain_host True [sample_statement ''Allow'' ''s3:Get*'']
      [sample_statement ''Deny'' ''s3:Put*'', sample_statement ''Allow'' ''s3:Get*'']
    = ([sample_statement ''Allow'' ''s3:Get*''], [])"
proof
  let ?ex = "[sample_lifecycle ''a'' ''Enabled'', sample_lifecycle ''b'' ''Enabled'']"
  let ?in = "[sample_lifecycle ''c'' ''Enabled'', sample_lifecycle ''a'' ''Disabled'']"
  let ?nxt = "[sample_lifecycle ''a'' ''Disabled'', sample_lifecycle ''b'' ''Enabled'', sample_lifecycle ''c'' ''Enabled'']"
  have m: "fst (mergeLifecycleRules plain_host False ?ex ?in) = ?nxt" and d: "distinct_keys (getLifecycleRuleId plain_host) ?in"
    by code_simp+
  from m obtain cs where cs: "mergeLifecycleRules plain_host False ?ex ?in = (?nxt, cs)" by (metis prod.collapse)
  have ok: "list_all (rule_ok plain_host) ?ex" "list_all (rule_ok plain_host) ?in" by (simp_all add: rule_ok_def sample_lifecycle_def)
  from merges_idempotent [OF ok, of False ?nxt cs] cs d show "mergeLifecycleRules plain_host False ?nxt ?in = (?nxt, [])" by blast
next
  let ?ex = "[[(''effect'', JStr ''Allow''), (''Action'', JStr ''s3:Get*'')]]"
  let ?in = "[sample_statement ''Deny'' ''s3:Put*'', sample_statement ''Allow'' ''s3:Get*'']"
  let ?nxt = "[sample_statement ''Allow'' ''s3:Get*'']"
  have m: "fst (mergePolicyStatements plain_host True ?ex ?in) = ?nxt" and d: "distinct (map (getPolicyStatementKey plain_host) ?in)"
    by code_simp+
  from m obtain cs where cs: "mergePolicyStatements plain_host True ?ex ?in = (?nxt, cs)" by (metis prod.collapse)
  have ok: "list_all (rule_ok plain_host) ?ex" "list_all (rule_ok plain_host) ?in" by (simp_all add: rule_ok_def sample_statement_def)
  from merges_idempotent [OF ok, of True ?nxt cs] cs d show "mergePolicyStatements plain_host True ?nxt ?in = (?nxt, [])" by blast
qed

text \<open>
  C35. The change log of a merge of lifecycle rules, CORS rules or policy statements is exact:
  replaying it on the existing rules gives the merged rules, no rule is dropped, each incoming
  rule gives at most one change, and with \<open>onlyUpdateExisting\<close> no rule is added.
\<close>

theorem merge_change_log:
  assumes "merge \<in> {mergeLifecycleRules, mergeCorsRules, mergePolicyStatements}"
    and "merge h only existing incoming = (nextRules, changes)"
  shows "replay changes existing = nextRules \<and> length changes \<le> length incoming
    \<and> length existing \<le> length nextRules \<and> length nextRules \<le> length existing + length changes
    \<and> (only \<longrightarrow> length nextRules = length existing)"
  using assms lifecycle.merge_log [of h only incoming existing "[]" nextRules changes]
    cors.merge_log [of h only incoming existing "[]" nextRules changes]
    policy.merge_log [of h only incoming existing "[]" nextRules changes]
  by (auto simp: merge_folds)

theorem merge_change_log_witness:
  "replay [\<lparr>rc_action = Add, rc_index = 1, rc_before = None, rc_after = sample_cors ''x'' ''PUT''\<rparr>]
     [sample_cors ''*'' ''GET''] = [sample_cors ''*'' ''GET'', sample_cors ''x'' ''PUT'']"
proof -
  have "mergeCorsRules plain_host False [sample_cors ''*'' ''GET''] [sample_cors ''x'' ''PUT'']
      = ([sample_cors ''*'' ''GET'', sample_cors ''x'' ''PUT''],
         [\<lparr>rc_action = Add, rc_index = 1, rc_before = None, rc_after = sample_cors ''x'' ''PUT''\<rparr>])"
    by code_simp
  from merge_change_log [of mergeCorsRules, OF _ this] show ?thesis by simp
qed

text \<open>
  A merge of CORS rules leaves alone every rule that shares neither its identifier nor its
  origin and method key with an incoming rule.
\<close>

theorem mergeCorsRules_keeps_unrelated:
  assumes "rule \<in> set existing"
    and "\<And>x. x \<in> set incoming \<Longrightarrow> keys_apart (getLifecycleRuleId h) rule x"
    and "\<And>x. x \<in> set incoming \<Longrightarrow> keys_apart (getCorsRuleKey h) rule x"
  shows "rule \<in> set (fst (mergeCorsRules h only existing incoming))"
proof -
  obtain nextRules changes where m: "mergeCorsRules h only existing incoming = (nextRules, changes)"
    by fastforce
  have "rule \<in> set nextRules"
    using m assms unfolding mergeCorsRules_all
    by (intro cors.merge_frame [of h only incoming existing "[]" nextRules changes])
      (auto simp: cors.apart_def list_all_iff)
  with m show ?thesis by simp
qed

theorem mergeCorsRules_keeps_unrelated_witness:
  "sample_cors ''*'' ''GET'' \<in> set (fst (mergeCorsRules plain_host False
     [sample_cors ''*'' ''GET'', sample_cors ''x'' ''PUT''] [sample_cors ''x'' ''put'']))"
proof (rule mergeCorsRules_keeps_unrelated)
  have "getCorsRuleKey plain_host (sample_cors ''*'' ''GET'') \<noteq> getCorsRuleKey plain_host (sample_cors ''x'' ''put'')"
    by code_simp
  then show "keys_apart (getCorsRuleKey plain_host) (sample_cors ''*'' ''GET'') x"
    if "x \<in> set [sample_cors ''x'' ''put'']" for x using that by (simp add: keys_apart_def)
qed (simp_all add: keys_apart_def getLifecycleRuleId_def sample_cors_def id_text_def)

text \<open>
  After a merge of policy statements that may add, every incoming statement is present, up to
  the order of its keys, when the keys of the incoming statements are pairwise different.
\<close>

theorem mergePolicyStatements_present:
  assumes "list_all (rule_ok h) existing" and "list_all (rule_ok h) incoming"
    and "distinct (map (getPolicyStatementKey h) incoming)" and "statement \<in> set incoming"
  shows "\<exists>r \<in> set (fst (mergePolicyStatements h False existing incoming)).
    canon h (JObj r) = canon h (JObj statement)"
proof -
  obtain nextStatements changes where
    m: "mergePolicyStatements h False existing incoming = (nextStatements, changes)" by fastforce
  then have ok: "list_all (rule_ok h) nextStatements"
    using assms(1,2) policy.merge_rule_ok unfolding mergePolicyStatements_all by blast
  have "\<exists>r \<in> set nextStatements. serialize h r = serialize h statement"
    using m assms distinct_policy_sids [OF assms(3)] unfolding mergePolicyStatements_all
    by (intro policy.merge_present) (simp_all add: distinct_key_pairs)
  then obtain r where r: "r \<in> set nextStatements" "serialize h r = serialize h statement" ..
  then have "canon h (JObj r) = canon h (JObj statement)"
    using ok assms(2,4) stableStringify_eq [of h "JObj r" "JObj statement"]
    by (simp add: serialize_def rule_ok_def list_all_iff)
  with r(1) m show ?thesis by auto
qed

theorem mergePolicyStatements_present_witness:
  "\<exists>r \<in> set (fst (mergePolicyStatements plain_host False [sample_statement ''Allow'' ''s3:Get*'']
      [sample_statement ''Deny'' ''s3:Put*''])).
    canon plain_host (JObj r) = canon plain_host (JObj (sample_statement ''Deny'' ''s3:Put*''))"
  by (rule mergePolicyStatements_present) (simp_all add: rule_ok_def sample_statement_def)

end
