(* ===== verification/Notification_Merge.thy ===== *)
theory Notification_Merge
  imports Config_Merge
begin

text \<open>
  The merge and the deletion of notification configurations
  (\<open>frontend/src/features/cephAdmin/bucketJsonParsers.ts\<close>): the interpretation of
  \<open>two_key_merge\<close> on them, the normal form \<open>assemble\<close> of a configuration (the entries of each type
  and the EventBridge entry), and the laws of both operations.
\<close>

section \<open>Merging the entries of one type\<close>

definition findMatchIndex_notification :: "js_host \<Rightarrow> jrec list \<Rightarrow> jrec \<Rightarrow> nat option" where
  "findMatchIndex_notification h rules x = key_index (getNotificationConfigurationId h) rules x"

definition to_notification_change ::
  "NotificationConfigurationTypeKey \<Rightarrow> rule_change \<Rightarrow> notification_change" where
  "to_notification_change t c = \<lparr>nc_type = t, nc_action = rc_action c, nc_index = Some (rc_index c),
     nc_before = rc_before c, nc_after = Some (rc_after c)\<rparr>"

lemma getNotificationConfigurationId_text:
  "getNotificationConfigurationId h c =
     id_text h (coalesce (coalesce (jprop c ''Id'') (jprop c ''ID'')) (jprop c ''id''))"
  by (simp add: getNotificationConfigurationId_def id_text_def)

lemma getNotificationConfigurationId_canon:
  assumes "rule_ok h a" and "rule_ok h b" and "serialize h a = serialize h b"
  shows "getNotificationConfigurationId h a = getNotificationConfigurationId h b"
  unfolding getNotificationConfigurationId_text
  by (subst (1 2) id_text_canon [symmetric])
    (simp only: coalesce_canon serialize_jprop [OF assms])

interpretation notification: two_key_merge h "getNotificationConfigurationId h" no_key
  "findMatchIndex_notification h" for h
  by (unfold_locales, simp add: findMatchIndex_notification_def two_key_index_def key_index_def [of no_key]
      split: option.splits)
    (intro conjI refl getNotificationConfigurationId_canon)

lemma merge_notification_entry_found:
  "merge_notification_entry h t x (rules, cs @ map (to_notification_change t) ds) =
     (case merge_found h (findMatchIndex_notification h) False x (rules, ds) of
        (rules', ds') \<Rightarrow> (rules', cs @ map (to_notification_change t) ds'))"
  by (auto simp: merge_notification_entry_def merge_found_def findMatchIndex_notification_def key_index_def
      replace_changed_def add_missing_def serialize_def to_notification_change_def Let_def split: option.splits)

abbreviation merge_entries :: "js_host \<Rightarrow> jrec list \<Rightarrow> jrec list \<Rightarrow> merge_state" where
  "merge_entries h existing incoming \<equiv>
     merge_all h (findMatchIndex_notification h) False incoming (existing, [])"

lemma fold_merge_notification_entry:
  "fold (merge_notification_entry h t) xs (rules, cs @ map (to_notification_change t) ds) =
     (case merge_all h (findMatchIndex_notification h) False xs (rules, ds) of
        (rules', ds') \<Rightarrow> (rules', cs @ map (to_notification_change t) ds'))"
proof (induction xs arbitrary: rules ds)
  case (Cons x xs)
  obtain r1 d1 where "merge_found h (findMatchIndex_notification h) False x (rules, ds) = (r1, d1)" by fastforce
  with Cons [of r1 d1] show ?case by (simp add: merge_notification_entry_found)
qed simp

definition put_entries :: "NotificationConfigurationTypeKey \<Rightarrow> jrec list \<Rightarrow> jrec \<Rightarrow> jrec" where
  "put_entries t es c = (if es \<noteq> [] then AList.update (notification_key t) (JArr (map JObj es)) c else c)"

lemma AList_update_update: "AList.update k v (AList.update k w c) = AList.update k v c"
  by (induction c) auto

lemma merge_notification_type_entries:
  "merge_notification_type h ex inc t (c, cs) =
     (put_entries t (fst (merge_entries h (array_entries ex t) (array_entries inc t))) c,
      cs @ map (to_notification_change t) (snd (merge_entries h (array_entries ex t) (array_entries inc t))))"
  using fold_merge_notification_entry [of h t "array_entries inc t" "array_entries ex t" cs "[]"]
  by (simp add: merge_notification_type_def put_entries_def case_prod_unfold)

text \<open>A configuration is put together from the entries of each type and the EventBridge entry.\<close>

definition assemble :: "(NotificationConfigurationTypeKey \<Rightarrow> jrec list) \<Rightarrow> json option \<Rightarrow> jrec" where
  "assemble es eb =
     (let c = fold (\<lambda>t. put_entries t (es t)) NOTIFICATION_ARRAY_TYPES [] in
      case eb of None \<Rightarrow> c | Some e \<Rightarrow> AList.update (notification_key Eventbridge) e c)"

lemma notification_key_inj [simp]: "notification_key s = notification_key t \<longleftrightarrow> s = t"
  by (cases s; cases t) (auto simp: notification_key_def)

lemma jprop_put_entries [simp]:
  "jprop (put_entries t es c) k = (if es \<noteq> [] \<and> k = notification_key t then Some (JArr (map JObj es)) else jprop c k)"
  by (simp add: put_entries_def)

lemma array_entries_assemble [simp]:
  "t \<noteq> Eventbridge \<Longrightarrow> array_entries (assemble es eb) t = es t"
  by (cases t; cases eb) (auto simp: assemble_def array_entries_def NOTIFICATION_ARRAY_TYPES_def Let_def)

lemma jprop_assemble_eventbridge [simp]:
  "jprop (assemble es eb) (notification_key Eventbridge) = eb"
  by (cases eb) (auto simp: assemble_def NOTIFICATION_ARRAY_TYPES_def Let_def)


definition object_entries :: "json \<Rightarrow> NotificationConfigurationTypeKey \<Rightarrow> jrec list" where
  "object_entries v t = map as_rec (filter isJsonObject (as_array (jmember (Some v) (notification_key t))))"

definition eventbridge_of :: "json \<Rightarrow> json option" where
  "eventbridge_of v = (case jmember (Some v) (notification_key Eventbridge) of
     Some (JObj e) \<Rightarrow> Some (JObj e) | _ \<Rightarrow> None)"

lemma map_JObj_as_rec: "map (JObj \<circ> as_rec) (filter isJsonObject vs) = filter isJsonObject vs"
  by (induction vs) (auto simp: isJsonObject_def as_rec_def split: json.splits)

lemma normalize_array_type_put:
  "normalize_array_type c t n = put_entries t (object_entries (JObj c) t) n"
  by (auto simp: normalize_array_type_def put_entries_def object_entries_def as_array_def jmember_def
      map_JObj_as_rec Let_def split: option.splits json.splits)

lemma normalize_assemble:
  "normalizeNotificationConfigurationForBulk v = assemble (object_entries v) (eventbridge_of v)"
proof (cases v)
  case (JObj c)
  then show ?thesis
    by (auto simp: normalizeNotificationConfigurationForBulk_def assemble_def normalize_array_type_put
        eventbridge_of_def jmember_def NOTIFICATION_ARRAY_TYPES_def Let_def split: option.splits json.splits)
qed (auto simp: normalizeNotificationConfigurationForBulk_def assemble_def object_entries_def as_array_def
    jmember_def eventbridge_of_def put_entries_def NOTIFICATION_ARRAY_TYPES_def)

lemma assemble_cong:
  "(\<And>t. t \<noteq> Eventbridge \<Longrightarrow> es t = es' t) \<Longrightarrow> assemble es eb = assemble es' eb"
  by (simp add: assemble_def NOTIFICATION_ARRAY_TYPES_def)

lemma filter_isJsonObject_JObj [simp]: "filter isJsonObject (map JObj es) = map JObj es"
  by (induction es) (auto simp: isJsonObject_def)

lemma object_entries_assemble [simp]:
  "t \<noteq> Eventbridge \<Longrightarrow> object_entries (JObj (assemble es eb)) t = es t"
  using array_entries_assemble [of t es eb]
  by (cases t; cases eb) (auto simp: assemble_def object_entries_def jmember_def as_array_def
      NOTIFICATION_ARRAY_TYPES_def Let_def)

lemma eventbridge_of_assemble [simp]:
  "eventbridge_of (JObj (assemble es eb)) = (case eb of Some (JObj e) \<Rightarrow> Some (JObj e) | _ \<Rightarrow> None)"
  by (simp add: eventbridge_of_def jmember_def)

lemma normalize_assembled:
  "eb = None \<or> isJsonObject (the eb) \<Longrightarrow>
     normalizeNotificationConfigurationForBulk (JObj (assemble es eb)) = assemble es eb"
  unfolding normalize_assemble
  by (auto simp: isJsonObject_def split: json.splits option.splits intro!: assemble_cong)

lemma eventbridge_of_object: "eventbridge_of v = Some e \<Longrightarrow> isJsonObject e"
  by (auto simp: eventbridge_of_def isJsonObject_def split: option.splits json.splits)

definition merged_entries :: "js_host \<Rightarrow> json \<Rightarrow> json \<Rightarrow> NotificationConfigurationTypeKey \<Rightarrow> merge_state" where
  "merged_entries h ex inc t = merge_entries h (object_entries ex t) (object_entries inc t)"

definition eventbridge_change :: "js_host \<Rightarrow> json option \<Rightarrow> json option \<Rightarrow> notification_change list" where
  "eventbridge_change h e i = (case i of None \<Rightarrow> []
   | Some i \<Rightarrow> (case e of
       None \<Rightarrow> [\<lparr>nc_type = Eventbridge, nc_action = Add, nc_index = None, nc_before = None,
                 nc_after = Some (as_rec i)\<rparr>]
     | Some e \<Rightarrow> if stableStringify h e \<noteq> stableStringify h i
         then [\<lparr>nc_type = Eventbridge, nc_action = Replace, nc_index = None,
                nc_before = Some (as_rec e), nc_after = Some (as_rec i)\<rparr>] else []))"

lemma mergeNotificationConfigurations_assemble:
  "mergeNotificationConfigurations h ex inc =
     (assemble (\<lambda>t. fst (merged_entries h ex inc t))
        (case eventbridge_of inc of Some i \<Rightarrow> Some i | None \<Rightarrow> eventbridge_of ex),
      concat (map (\<lambda>t. map (to_notification_change t) (snd (merged_entries h ex inc t))) NOTIFICATION_ARRAY_TYPES)
        @ eventbridge_change h (eventbridge_of ex) (eventbridge_of inc))"
  by (auto simp: mergeNotificationConfigurations_def normalize_assemble merge_notification_type_entries
      NOTIFICATION_ARRAY_TYPES_def merged_entries_def eventbridge_change_def Let_def split: option.splits;
      simp add: assemble_def NOTIFICATION_ARRAY_TYPES_def AList_update_update)

text \<open>The whole configuration is unchanged by a second merge of the same incoming one.\<close>

definition notification_ok :: "js_host \<Rightarrow> json \<Rightarrow> bool" where
  "notification_ok h v = list_all (\<lambda>t. list_all (rule_ok h) (object_entries v t)) NOTIFICATION_ARRAY_TYPES"

definition notification_distinct :: "js_host \<Rightarrow> json \<Rightarrow> bool" where
  "notification_distinct h v = list_all
     (\<lambda>t. distinct_keys (getNotificationConfigurationId h) (object_entries v t)) NOTIFICATION_ARRAY_TYPES"

lemma array_type: "t \<noteq> Eventbridge \<Longrightarrow> t \<in> set NOTIFICATION_ARRAY_TYPES"
  by (cases t) (auto simp: NOTIFICATION_ARRAY_TYPES_def)

lemma merged_entries_again:
  assumes "notification_ok h ex" and "notification_ok h inc" and "notification_distinct h inc"
    and "t \<noteq> Eventbridge"
  shows "merge_entries h (fst (merged_entries h ex inc t)) (object_entries inc t)
    = (fst (merged_entries h ex inc t), [])"
proof -
  obtain rules cs where "merge_entries h (object_entries ex t) (object_entries inc t) = (rules, cs)"
    by fastforce
  moreover from this have "merge_entries h rules (object_entries inc t) = (rules, [])"
    using assms array_type [OF assms(4)]
    by (intro notification.merge_idempotent) (auto simp: notification_ok_def notification_distinct_def list_all_iff)
  ultimately show ?thesis by (simp add: merged_entries_def)
qed

lemma mergeNotificationConfigurations_again:
  assumes "notification_ok h ex" and "notification_ok h inc" and "notification_distinct h inc"
    and "mergeNotificationConfigurations h ex inc = (merged, cs)"
  shows "mergeNotificationConfigurations h (JObj merged) inc = (merged, [])"
proof -
  let ?eb = "case eventbridge_of inc of Some i \<Rightarrow> Some i | None \<Rightarrow> eventbridge_of ex"
  have m: "merged = assemble (\<lambda>t. fst (merged_entries h ex inc t)) ?eb"
    using assms(4) by (simp add: mergeNotificationConfigurations_assemble)
  have eb: "eventbridge_of (JObj merged) = ?eb"
    unfolding m by (auto split: option.splits json.splits dest!: eventbridge_of_object simp: isJsonObject_def)
  have again: "merged_entries h (JObj merged) inc t = (fst (merged_entries h ex inc t), [])"
    if "t \<noteq> Eventbridge" for t
    using merged_entries_again [OF assms(1-3) that] that by (simp add: merged_entries_def m)
  have "assemble (\<lambda>t. fst (merged_entries h (JObj merged) inc t)) ?eb = merged"
    unfolding m by (intro assemble_cong) (use again m in simp)
  then show ?thesis
    using again by (auto simp: mergeNotificationConfigurations_assemble eb NOTIFICATION_ARRAY_TYPES_def
        eventbridge_change_def split: option.splits)
qed

section \<open>Deletion\<close>

definition removed_changes :: "js_host \<Rightarrow> string list \<Rightarrow> NotificationConfigurationTypeKey list \<Rightarrow>
    json \<Rightarrow> NotificationConfigurationTypeKey \<Rightarrow> notification_change list" where
  "removed_changes h ids types ex t =
     map (\<lambda>(i, e). \<lparr>nc_type = t, nc_action = Remove, nc_index = Some i, nc_before = Some e, nc_after = None\<rparr>)
       (filter (\<lambda>(i, e). notification_removed h ids types t e) (enumerate 0 (object_entries ex t)))"

definition kept_entries :: "js_host \<Rightarrow> string list \<Rightarrow> NotificationConfigurationTypeKey list \<Rightarrow>
    json \<Rightarrow> NotificationConfigurationTypeKey \<Rightarrow> jrec list" where
  "kept_entries h ids types ex t =
     filter (\<lambda>e. \<not> notification_removed h ids types t e) (object_entries ex t)"

lemma deleteNotificationConfigurations_assemble:
  "deleteNotificationConfigurations h ex ids types =
     (assemble (kept_entries h ids types ex)
        (if Eventbridge \<in> set types then None else eventbridge_of ex),
      concat (map (removed_changes h ids types ex) NOTIFICATION_ARRAY_TYPES)
        @ (case eventbridge_of ex of
             Some e \<Rightarrow> if Eventbridge \<in> set types
               then [\<lparr>nc_type = Eventbridge, nc_action = Remove, nc_index = None,
                      nc_before = Some (as_rec e), nc_after = None\<rparr>] else []
           | None \<Rightarrow> []))"
  by (auto simp: deleteNotificationConfigurations_def normalize_assemble delete_notification_type_def
      NOTIFICATION_ARRAY_TYPES_def removed_changes_def Let_def split: option.splits;
      auto simp: assemble_def NOTIFICATION_ARRAY_TYPES_def kept_entries_def put_entries_def)

lemma eventbridge_of_deleted:
  "eventbridge_of (JObj (fst (deleteNotificationConfigurations h ex ids types))) =
     (if Eventbridge \<in> set types then None else eventbridge_of ex)"
  unfolding deleteNotificationConfigurations_assemble
  by (auto split: option.splits json.splits dest!: eventbridge_of_object simp: isJsonObject_def)

lemma set_enumerate_snd: "(i, e) \<in> set (enumerate n xs) \<Longrightarrow> e \<in> set xs"
  by (auto simp: in_set_enumerate_eq)

lemma deleted_parts:
  assumes "deleteNotificationConfigurations h existing ids types = (kept, changes)"
  shows "t \<noteq> Eventbridge \<Longrightarrow> object_entries (JObj kept) t = kept_entries h ids types existing t"
    and "eventbridge_of (JObj kept) = (if Eventbridge \<in> set types then None else eventbridge_of existing)"
    and "deleteNotificationConfigurations h (JObj kept) ids types = (kept, [])"
proof -
  let ?eb = "if Eventbridge \<in> set types then None else eventbridge_of existing"
  have k: "kept = assemble (kept_entries h ids types existing) ?eb"
    using assms by (simp add: deleteNotificationConfigurations_assemble)
  show eb: "eventbridge_of (JObj kept) = ?eb"
    using eventbridge_of_deleted [of h existing ids types] assms by simp
  show es: "object_entries (JObj kept) t = kept_entries h ids types existing t" if "t \<noteq> Eventbridge" for t
    using that by (simp add: k)
  have again: "kept_entries h ids types (JObj kept) t = kept_entries h ids types existing t"
    "removed_changes h ids types (JObj kept) t = []" if "t \<noteq> Eventbridge" for t
    using es [OF that]
    by (auto simp: kept_entries_def removed_changes_def filter_empty_conv dest!: set_enumerate_snd)
  have "assemble (kept_entries h ids types (JObj kept)) ?eb = kept"
    by (subst (2) k, intro assemble_cong) (rule again)
  then show "deleteNotificationConfigurations h (JObj kept) ids types = (kept, [])"
    using again eb by (auto simp: deleteNotificationConfigurations_assemble NOTIFICATION_ARRAY_TYPES_def
        split: option.splits if_splits)
qed

lemma delete_from_nothing: "snd (deleteNotificationConfigurations h (JObj []) ids types) = []"
  by (auto simp: deleteNotificationConfigurations_assemble NOTIFICATION_ARRAY_TYPES_def removed_changes_def
      object_entries_def eventbridge_of_def jmember_def as_array_def split: option.splits)

section \<open>Properties\<close>

definition sample_topic :: "string \<Rightarrow> string \<Rightarrow> jrec" where
  "sample_topic i arn = [(''Id'', JStr i), (''TopicArn'', JStr arn)]"

definition sample_topics :: "jrec list \<Rightarrow> json" where
  "sample_topics es = JObj [(''TopicConfigurations'', JArr (map JObj es))]"

text \<open>
  Merging a notification configuration is idempotent: merging the same incoming configuration
  into the merged one changes nothing, when the identifiers of each incoming array are pairwise
  different.
\<close>

theorem mergeNotificationConfigurations_idempotent:
  assumes "notification_ok h existing" and "notification_ok h incoming"
    and "notification_distinct h incoming"
    and "mergeNotificationConfigurations h existing incoming = (merged, changes)"
  shows "mergeNotificationConfigurations h (JObj merged) incoming = (merged, [])"
  using assms by (rule mergeNotificationConfigurations_again)

theorem mergeNotificationConfigurations_idempotent_witness:
  "mergeNotificationConfigurations plain_host
     (JObj [(''TopicConfigurations'', JArr [JObj (sample_topic ''a'' ''y'')]),
            (''EventBridgeConfiguration'', JObj [])])
     (sample_topics [sample_topic ''a'' ''y''])
   = ([(''TopicConfigurations'', JArr [JObj (sample_topic ''a'' ''y'')]),
       (''EventBridgeConfiguration'', JObj [])], [])"
proof (rule mergeNotificationConfigurations_idempotent)
  show "mergeNotificationConfigurations plain_host
     (JObj [(''EventBridgeConfiguration'', JObj []), (''TopicConfigurations'', JArr [JObj (sample_topic ''a'' ''x'')])])
     (sample_topics [sample_topic ''a'' ''y''])
   = ([(''TopicConfigurations'', JArr [JObj (sample_topic ''a'' ''y'')]),
       (''EventBridgeConfiguration'', JObj [])],
      [\<lparr>nc_type = Topic, nc_action = Replace, nc_index = Some 0, nc_before = Some (sample_topic ''a'' ''x''),
        nc_after = Some (sample_topic ''a'' ''y'')\<rparr>])"
    by code_simp
qed (simp_all add: notification_ok_def notification_distinct_def NOTIFICATION_ARRAY_TYPES_def object_entries_def
    jmember_def as_array_def notification_key_def sample_topics_def sample_topic_def isJsonObject_def
    rule_ok_def as_rec_def distinct_keys_def)

text \<open>
  Deleting notification configurations keeps, for each type and in their order, exactly the
  entries whose type and identifier are not listed, keeps the EventBridge entry unless its type is
  listed, and a second deletion finds nothing to remove.
\<close>

theorem deleteNotificationConfigurations_exact:
  assumes "deleteNotificationConfigurations h existing ids types = (kept, changes)"
  shows "(t \<noteq> Eventbridge \<longrightarrow> object_entries (JObj kept) t =
      filter (\<lambda>e. t \<notin> set types \<and> getNotificationConfigurationId h e \<notin> Some ` set ids)
        (object_entries existing t))
    \<and> eventbridge_of (JObj kept) = (if Eventbridge \<in> set types then None else eventbridge_of existing)
    \<and> deleteNotificationConfigurations h (JObj kept) ids types = (kept, [])"
proof -
  have "\<not> notification_removed h ids types t e \<longleftrightarrow>
      t \<notin> set types \<and> getNotificationConfigurationId h e \<notin> Some ` set ids" for t e
    by (auto simp: notification_removed_def split: option.splits)
  with deleted_parts [OF assms] show ?thesis by (simp add: kept_entries_def)
qed

theorem deleteNotificationConfigurations_exact_witness:
  "deleteNotificationConfigurations plain_host
     (JObj [(''TopicConfigurations'', JArr [JObj (sample_topic ''b'' ''y'')])]) [''a''] [Queue]
   = ([(''TopicConfigurations'', JArr [JObj (sample_topic ''b'' ''y'')])], [])"
proof -
  have "deleteNotificationConfigurations plain_host
      (JObj [(''TopicConfigurations'', JArr [JObj (sample_topic ''a'' ''x''), JObj (sample_topic ''b'' ''y'')]),
             (''QueueConfigurations'', JArr [JObj []])]) [''a''] [Queue]
    = ([(''TopicConfigurations'', JArr [JObj (sample_topic ''b'' ''y'')])],
       [\<lparr>nc_type = Topic, nc_action = Remove, nc_index = Some 0, nc_before = Some (sample_topic ''a'' ''x''),
         nc_after = None\<rparr>,
        \<lparr>nc_type = Queue, nc_action = Remove, nc_index = Some 0, nc_before = Some [], nc_after = None\<rparr>])"
    by code_simp
  from deleteNotificationConfigurations_exact [OF this] show ?thesis by simp
qed

end
