(* ===== verification/Bulk_Model.thy ===== *)
theory Bulk_Model
  imports Config_Merge
begin

text \<open>
  \<open>frontend/src/features/shared/bucketBulkOperationsModel.ts\<close> (the operations, the snapshots of a
  bucket's configuration, quota input, block public access, object lock and access logging) and
  \<open>frontend/src/features/shared/bucketOpsPresentation.ts\<close> with the formatting helpers of
  \<open>frontend/src/utils/format.ts\<close> it uses. Fields of type \<open>number | null\<close> are \<open>rat option\<close>,
  \<open>Record<Key, boolean>\<close> selections are functions from the key type to \<open>bool\<close>.
\<close>

section \<open>Operations and snapshots\<close>

definition BULK_CONCURRENCY_LIMIT :: nat where
  "BULK_CONCURRENCY_LIMIT = 6"

datatype BulkOperation =
    NoOperation | CopyConfigs | PasteConfigs | SetQuota | AddPublicAccessBlock
  | RemovePublicAccessBlock | EnableVersioning | DisableVersioning | AddLifecycle
  | DeleteLifecycle | AddNotifications | DeleteNotifications | AddCors | DeleteCors
  | AddPolicy | DeletePolicy

datatype BulkPreviewTone = Added | Removed

record BulkPreviewLine =
  line_text :: string
  tone :: "BulkPreviewTone option"

record BulkPreviewItem =
  bucket :: string
  before :: "BulkPreviewLine list"
  after :: "BulkPreviewLine list"
  changed :: bool
  item_error :: "string option"

datatype BulkCopyFeatureKey =
    FQuota | FVersioning | FObjectLock | FPublicAccessBlock | FLifecycle | FCors | FPolicy
  | FAccessLogging

type_synonym BulkCopyFeatureSelection = "BulkCopyFeatureKey \<Rightarrow> bool"

definition BULK_COPY_FEATURE_KEYS :: "BulkCopyFeatureKey list" where
  "BULK_COPY_FEATURE_KEYS = [FQuota, FVersioning, FObjectLock, FPublicAccessBlock, FLifecycle, FCors,
     FPolicy, FAccessLogging]"

record BulkQuotaSnapshot =
  maxSizeBytes :: "rat option"
  maxObjects :: "rat option"

record BulkObjectLockSnapshot =
  ol_enabled :: bool
  ol_mode :: "string option"
  ol_days :: "rat option"
  ol_years :: "rat option"

record BulkAccessLoggingSnapshot =
  al_enabled :: bool
  target_bucket :: "string option"
  target_prefix :: "string option"

record PublicAccessBlockState =
  block_public_acls :: bool
  ignore_public_acls :: bool
  block_public_policy :: bool
  restrict_public_buckets :: bool

record BulkConfigClipboardBucket =
  cb_name :: string
  cb_quota :: "BulkQuotaSnapshot option"
  cb_versioningEnabled :: "bool option"
  cb_objectLock :: "BulkObjectLockSnapshot option"
  cb_publicAccessBlock :: "PublicAccessBlockState option"
  cb_lifecycleRules :: "jrec list option"
  cb_corsRules :: "jrec list option"
  cb_policy :: "jrec option"
  cb_accessLogging :: "BulkAccessLoggingSnapshot option"

record BulkConfigClipboard =
  copiedAt :: string
  sourceEndpointId :: rat
  sourceEndpointName :: "string option"
  features :: BulkCopyFeatureSelection
  buckets :: "BulkConfigClipboardBucket list"

record BulkPastePlanItem =
  sourceBucket :: string
  destinationBucket :: string
  sourceConfig :: BulkConfigClipboardBucket

datatype paste_mode = OneToMany | OneToOne

record BulkPastePlan =
  plan_mode :: "paste_mode option"
  mappings :: "BulkPastePlanItem list"
  plan_error :: "string option"

section \<open>Quota\<close>

datatype QuotaSizeUnit = MiB | GiB | TiB

record ParsedQuotaInput =
  applySize :: bool
  applyObjects :: bool
  maxSizeValue :: "rat option"
  maxSizeUnit :: QuotaSizeUnit
  quota_maxSizeBytes :: "rat option"
  quota_maxObjects :: "rat option"

definition QUOTA_UNIT_TO_BYTES :: "QuotaSizeUnit \<Rightarrow> rat" where
  "QUOTA_UNIT_TO_BYTES u = (case u of MiB \<Rightarrow> 1024 ^ 2 | GiB \<Rightarrow> 1024 ^ 3 | TiB \<Rightarrow> 1024 ^ 4)"

definition normalizeQuotaLimit :: "rat option \<Rightarrow> rat option" where
  "normalizeQuotaLimit value = (case value of
     None \<Rightarrow> None | Some v \<Rightarrow> if v > 0 then Some v else None)"

definition bytesToGiB :: "rat \<Rightarrow> rat" where
  "bytesToGiB value = value / 1024 ^ 3"

definition hasConfiguredQuota :: "BulkQuotaSnapshot \<Rightarrow> bool" where
  "hasConfiguredQuota quota \<longleftrightarrow> maxSizeBytes quota \<noteq> None \<or> maxObjects quota \<noteq> None"

text \<open>\<open>Number(text)\<close> when it is finite and not negative.\<close>

definition nonnegative_number :: "string \<Rightarrow> rat option" where
  "nonnegative_number s = (case js_Number s of Fin q \<Rightarrow> if q < 0 then None else Some q | _ \<Rightarrow> None)"

definition parseQuotaInput ::
  "string \<Rightarrow> QuotaSizeUnit \<Rightarrow> string \<Rightarrow> bool \<Rightarrow> bool \<Rightarrow> string + ParsedQuotaInput" where
  "parseQuotaInput rawMaxSizeValue unit rawMaxObjects doSize doObjects =
     (if \<not> doSize \<and> \<not> doObjects
      then Inl ''Select at least one quota target (storage or objects).''
      else
       (let maxSizeText = trim rawMaxSizeValue;
            maxObjectsText = trim rawMaxObjects;
            size = (if doSize \<and> maxSizeText \<noteq> [] then nonnegative_number maxSizeText else None);
            objs = (if doObjects \<and> maxObjectsText \<noteq> [] then nonnegative_number maxObjectsText else None) in
        if doSize \<and> maxSizeText \<noteq> [] \<and> size = None
        then Inl ''Quota size must be a positive number or zero.''
        else if doObjects \<and> maxObjectsText \<noteq> [] \<and> (objs = None \<or> the objs \<noteq> of_int \<lfloor>the objs\<rfloor>)
        then Inl ''Object quota must be a whole number (0 or greater).''
        else Inr \<lparr>applySize = doSize, applyObjects = doObjects, maxSizeValue = size, maxSizeUnit = unit,
               quota_maxSizeBytes = normalizeQuotaLimit
                 (map_option (\<lambda>q. of_int \<lfloor>q * QUOTA_UNIT_TO_BYTES unit\<rfloor>) size),
               quota_maxObjects = normalizeQuotaLimit objs\<rparr>))"

section \<open>Block public access\<close>

datatype PublicAccessBlockOptionKey =
    BlockPublicAcls | IgnorePublicAcls | BlockPublicPolicy | RestrictPublicBuckets

definition PUBLIC_ACCESS_BLOCK_OPTIONS :: "(PublicAccessBlockOptionKey \<times> string) list" where
  "PUBLIC_ACCESS_BLOCK_OPTIONS =
     [(BlockPublicAcls, ''BlockPublicAcls''), (IgnorePublicAcls, ''IgnorePublicAcls''),
      (BlockPublicPolicy, ''BlockPublicPolicy''), (RestrictPublicBuckets, ''RestrictPublicBuckets'')]"

text \<open>\<open>state[key]\<close> and \<open>next[key] = value\<close>.\<close>

definition pab_get :: "PublicAccessBlockOptionKey \<Rightarrow> PublicAccessBlockState \<Rightarrow> bool" where
  "pab_get k s = (case k of
     BlockPublicAcls \<Rightarrow> block_public_acls s
   | IgnorePublicAcls \<Rightarrow> ignore_public_acls s
   | BlockPublicPolicy \<Rightarrow> block_public_policy s
   | RestrictPublicBuckets \<Rightarrow> restrict_public_buckets s)"

definition pab_set :: "PublicAccessBlockOptionKey \<Rightarrow> bool \<Rightarrow> PublicAccessBlockState \<Rightarrow>
    PublicAccessBlockState" where
  "pab_set k v s = (case k of
     BlockPublicAcls \<Rightarrow> s\<lparr>block_public_acls := v\<rparr>
   | IgnorePublicAcls \<Rightarrow> s\<lparr>ignore_public_acls := v\<rparr>
   | BlockPublicPolicy \<Rightarrow> s\<lparr>block_public_policy := v\<rparr>
   | RestrictPublicBuckets \<Rightarrow> s\<lparr>restrict_public_buckets := v\<rparr>)"

definition normalizePublicAccessBlockState :: "json option \<Rightarrow> PublicAccessBlockState" where
  "normalizePublicAccessBlockState value =
     \<lparr>block_public_acls = truthy (jmember value ''block_public_acls''),
      ignore_public_acls = truthy (jmember value ''ignore_public_acls''),
      block_public_policy = truthy (jmember value ''block_public_policy''),
      restrict_public_buckets = truthy (jmember value ''restrict_public_buckets'')\<rparr>"

definition isPublicAccessBlockEquivalent ::
  "PublicAccessBlockState \<Rightarrow> PublicAccessBlockState \<Rightarrow> bool" where
  "isPublicAccessBlockEquivalent a b \<longleftrightarrow>
     block_public_acls a = block_public_acls b \<and> ignore_public_acls a = ignore_public_acls b
     \<and> block_public_policy a = block_public_policy b
     \<and> restrict_public_buckets a = restrict_public_buckets b"

definition formatPublicAccessBlockState :: "PublicAccessBlockState \<Rightarrow> string" where
  "formatPublicAccessBlockState state =
     (let enabledCount = length (filter id [block_public_acls state, ignore_public_acls state,
            block_public_policy state, restrict_public_buckets state]) in
      if enabledCount = 4 then ''Enabled''
      else if enabledCount = 0 then ''Disabled''
      else ''Partial ('' @ nat_string enabledCount @ ''/4)'')"

definition formatPublicAccessBlockFlag :: "bool \<Rightarrow> string" where
  "formatPublicAccessBlockFlag value = (if value then ''Blocked'' else ''Unblocked'')"

definition applyPublicAccessBlockTargets ::
  "PublicAccessBlockState \<Rightarrow> bool \<Rightarrow> PublicAccessBlockOptionKey list \<Rightarrow> PublicAccessBlockState" where
  "applyPublicAccessBlockTargets current desiredEnabled targets =
     fold (\<lambda>key. pab_set key desiredEnabled) targets current"

lemma pab_get_targets:
  "pab_get k (applyPublicAccessBlockTargets s on ts) = (if k \<in> set ts then on else pab_get k s)"
  unfolding applyPublicAccessBlockTargets_def
  by (induction ts arbitrary: s) (auto simp: pab_get_def pab_set_def split: PublicAccessBlockOptionKey.splits)

lemma pab_eqI: "(\<And>k. pab_get k a = pab_get k b) \<Longrightarrow> a = (b :: PublicAccessBlockState)"
  by (metis (full_types) PublicAccessBlockState.equality PublicAccessBlockOptionKey.simps(13-16) old.unit.exhaust pab_get_def)

lemma pab_equivalent: "isPublicAccessBlockEquivalent a b \<longleftrightarrow> (\<forall>k. pab_get k a = pab_get k b)"
  unfolding isPublicAccessBlockEquivalent_def pab_get_def
  by (auto split: PublicAccessBlockOptionKey.splits)

section \<open>Object lock and access logging\<close>

text \<open>\<open>typeof v === "string" && v.trim() ? v.trim() : null\<close> and the finite numbers.\<close>

definition trimmed_text :: "json option \<Rightarrow> string option" where
  "trimmed_text v = (case v of Some (JStr s) \<Rightarrow> (if trim s = [] then None else Some (trim s)) | _ \<Rightarrow> None)"

definition finite_number :: "json option \<Rightarrow> rat option" where
  "finite_number v = (case v of Some (JNum (Fin q)) \<Rightarrow> Some q | _ \<Rightarrow> None)"

definition normalizeObjectLockSnapshot :: "json option \<Rightarrow> BulkObjectLockSnapshot" where
  "normalizeObjectLockSnapshot value =
     \<lparr>ol_enabled = truthy (jmember value ''enabled''), ol_mode = trimmed_text (jmember value ''mode''),
      ol_days = finite_number (jmember value ''days''), ol_years = finite_number (jmember value ''years'')\<rparr>"

definition isObjectLockSnapshotEqual ::
  "BulkObjectLockSnapshot \<Rightarrow> BulkObjectLockSnapshot \<Rightarrow> bool" where
  "isObjectLockSnapshotEqual a b \<longleftrightarrow> ol_enabled a = ol_enabled b \<and> ol_mode a = ol_mode b
     \<and> ol_days a = ol_days b \<and> ol_years a = ol_years b"

definition json_of_string :: "string option \<Rightarrow> json" where
  "json_of_string v = (case v of None \<Rightarrow> JNull | Some s \<Rightarrow> JStr s)"

definition json_of_number :: "rat option \<Rightarrow> json" where
  "json_of_number v = (case v of None \<Rightarrow> JNull | Some q \<Rightarrow> JNum (Fin q))"

definition object_lock_json :: "BulkObjectLockSnapshot \<Rightarrow> json" where
  "object_lock_json value = JObj
     [(''enabled'', JBool (ol_enabled value)), (''mode'', json_of_string (ol_mode value)),
      (''days'', json_of_number (ol_days value)), (''years'', json_of_number (ol_years value))]"

definition formatObjectLockSnapshot :: "js_host \<Rightarrow> BulkObjectLockSnapshot \<Rightarrow> string" where
  "formatObjectLockSnapshot h value = stringify2 h [] (object_lock_json value)"

definition normalizeAccessLoggingSnapshot :: "json option \<Rightarrow> BulkAccessLoggingSnapshot" where
  "normalizeAccessLoggingSnapshot value =
     (let tb = trimmed_text (jmember value ''target_bucket'');
          tp = trimmed_text (jmember value ''target_prefix'') in
      \<lparr>al_enabled = (truthy (jmember value ''enabled'') \<and> tb \<noteq> None), target_bucket = tb,
       target_prefix = tp\<rparr>)"

definition isAccessLoggingSnapshotEqual ::
  "BulkAccessLoggingSnapshot \<Rightarrow> BulkAccessLoggingSnapshot \<Rightarrow> bool" where
  "isAccessLoggingSnapshotEqual a b \<longleftrightarrow> al_enabled a = al_enabled b
     \<and> target_bucket a = target_bucket b \<and> target_prefix a = target_prefix b"

definition BULK_COPY_FEATURE_LABELS :: "BulkCopyFeatureKey \<Rightarrow> string" where
  "BULK_COPY_FEATURE_LABELS k = (case k of
     FQuota \<Rightarrow> ''Quota'' | FVersioning \<Rightarrow> ''Versioning'' | FObjectLock \<Rightarrow> ''Object Lock''
   | FPublicAccessBlock \<Rightarrow> ''Block public access'' | FLifecycle \<Rightarrow> ''Lifecycle rules''
   | FCors \<Rightarrow> ''CORS'' | FPolicy \<Rightarrow> ''Bucket policy'' | FAccessLogging \<Rightarrow> ''Access logging'')"

definition DEFAULT_BULK_COPY_FEATURE_SELECTION :: BulkCopyFeatureSelection where
  "DEFAULT_BULK_COPY_FEATURE_SELECTION = (\<lambda>_. False)"

end
