(* ===== verification/Bucket_Presentation.thy ===== *)
theory Bucket_Presentation
  imports Bulk_Model
begin

text \<open>
  \<open>frontend/src/features/shared/bucketOpsPresentation.ts\<close>, the helpers of
  \<open>frontend/src/utils/format.ts\<close> it uses, and the bucket references of
  \<open>frontend/src/api/storageOps.ts\<close>: texts shown for a bucket, and the encoding of a bucket and its
  tenant or context as one name. A \<open>CephAdminBucket\<close> is the JSON object of the API response.
\<close>

section \<open>Numbers as text\<close>

text \<open>\<open>x.toFixed(d)\<close>: the nearest multiple, the larger one of two.\<close>

definition pad_zeros :: "nat \<Rightarrow> string \<Rightarrow> string" where
  "pad_zeros n s = replicate (n - length s) (CHR ''0'') @ s"

definition toFixed_nonneg :: "nat \<Rightarrow> rat \<Rightarrow> string" where
  "toFixed_nonneg d x =
     (let n = nat \<lfloor>x * 10 ^ d + 1 / 2\<rfloor> in
      if d = 0 then nat_string n
      else nat_string (n div 10 ^ d) @ ''.'' @ pad_zeros d (nat_string (n mod 10 ^ d)))"

definition toFixed :: "js_host \<Rightarrow> nat \<Rightarrow> rat \<Rightarrow> string" where
  "toFixed h d x =
     (if \<bar>x\<bar> \<ge> 10 ^ 21 then numToString h (Fin x)
      else if x < 0 then ''-'' @ toFixed_nonneg d (- x) else toFixed_nonneg d x)"

fun scale_bytes :: "rat \<Rightarrow> string list \<Rightarrow> rat \<times> string \<times> bool" where
  "scale_bytes sz [] = (sz, [], True)"
| "scale_bytes sz [u] = (sz, u, True)"
| "scale_bytes sz (u # v # us) =
     (if sz \<ge> 1024 then (case scale_bytes (sz / 1024) (v # us) of (s, w, _) \<Rightarrow> (s, w, False))
      else (sz, u, True))"

text \<open>The flag of \<open>scale_bytes\<close> is \<open>idx === 0\<close>; the locale argument of \<open>formatBytes\<close> is not given here.\<close>

definition formatBytes :: "js_host \<Rightarrow> rat option \<Rightarrow> string" where
  "formatBytes h value = (case value of
     None \<Rightarrow> ''-''
   | Some v \<Rightarrow>
       if v = 0 then ''0 B''
       else case scale_bytes v [''B'', ''KB'', ''MB'', ''GB'', ''TB'', ''PB''] of
         (sz, unit, first) \<Rightarrow>
           toFixed h (if sz \<ge> 10 \<or> first then 0 else 1) sz @ '' '' @ unit)"

definition formatNumber :: "js_host \<Rightarrow> rat option \<Rightarrow> string" where
  "formatNumber h value = (case value of None \<Rightarrow> ''-'' | Some v \<Rightarrow> toLocaleString h v)"

section \<open>Versioning and quota\<close>

definition normalizeVersioningStatus :: "string option \<Rightarrow> bool option" where
  "normalizeVersioningStatus status = (case status of
     None \<Rightarrow> Some False
   | Some s \<Rightarrow>
       if trim s = [] then Some False
       else let normalized = toLowerCase (trim s) in
         if normalized = ''enabled'' then Some True
         else if normalized = ''suspended'' \<or> normalized = ''disabled'' then Some False
         else None)"

definition formatVersioningStatus :: "string option \<Rightarrow> string" where
  "formatVersioningStatus status = (case status of
     None \<Rightarrow> ''Disabled''
   | Some s \<Rightarrow>
       if trim s = [] then ''Disabled''
       else let normalized = toLowerCase (trim s) in
         if normalized = ''enabled'' then ''Enabled''
         else if normalized = ''suspended'' then ''Suspended''
         else if normalized = ''disabled'' then ''Disabled''
         else s)"

definition computeQuotaUsagePercent :: "rat option \<Rightarrow> rat option \<Rightarrow> rat option" where
  "computeQuotaUsagePercent used quota = (case normalizeQuotaLimit quota of
     None \<Rightarrow> None
   | Some q \<Rightarrow> Some (max 0 (max 0 (case used of None \<Rightarrow> 0 | Some u \<Rightarrow> u) / q * 100)))"

definition formatQuotaPercent :: "js_host \<Rightarrow> rat option \<Rightarrow> string option" where
  "formatQuotaPercent h value = map_option (\<lambda>v.
     (if v \<ge> 100 then int_string \<lfloor>v + 1 / 2\<rfloor>
      else if v \<ge> 10 then toFixed h 1 v else toFixed h 2 v) @ ''%'') value"

definition formatQuotaBytes :: "js_host \<Rightarrow> rat option \<Rightarrow> string" where
  "formatQuotaBytes h value = (case normalizeQuotaLimit value of
     None \<Rightarrow> ''-'' | Some q \<Rightarrow> formatBytes h (Some q))"

definition formatQuotaObjects :: "js_host \<Rightarrow> rat option \<Rightarrow> string" where
  "formatQuotaObjects h value = (case normalizeQuotaLimit value of
     None \<Rightarrow> ''-'' | Some q \<Rightarrow> formatNumber h (Some q))"

definition formatQuotaUsageValue :: "js_host \<Rightarrow> rat option \<Rightarrow> rat option \<Rightarrow> string" where
  "formatQuotaUsageValue h used quota =
     (case formatQuotaPercent h (computeQuotaUsagePercent used quota) of None \<Rightarrow> ''-'' | Some s \<Rightarrow> s)"

definition formatOwnerSuspended :: "bool option \<Rightarrow> string" where
  "formatOwnerSuspended value = (case value of Some True \<Rightarrow> ''Yes'' | Some False \<Rightarrow> ''No'' | None \<Rightarrow> ''-'')"

type_synonym CephAdminBucket = jrec

definition number_prop :: "jrec \<Rightarrow> string \<Rightarrow> rat option" where
  "number_prop r k = finite_number (jprop r k)"

definition string_prop :: "jrec \<Rightarrow> string \<Rightarrow> string" where
  "string_prop r k = (case jprop r k of Some (JStr s) \<Rightarrow> s | _ \<Rightarrow> [])"

definition isBucketQuotaConfigured :: "CephAdminBucket \<Rightarrow> bool" where
  "isBucketQuotaConfigured b \<longleftrightarrow>
     (case number_prop b ''quota_max_size_bytes'' of Some q \<Rightarrow> q > 0 | None \<Rightarrow> False)
     \<or> (case number_prop b ''quota_max_objects'' of Some q \<Rightarrow> q > 0 | None \<Rightarrow> False)"

text \<open>\<open>Number(value)\<close> on a JSON value.\<close>

definition js_Number_value :: "js_host \<Rightarrow> json \<Rightarrow> js_number" where
  "js_Number_value h v = (case v of
     JNull \<Rightarrow> Fin 0 | JBool b \<Rightarrow> Fin (if b then 1 else 0) | JNum n \<Rightarrow> n | JStr s \<Rightarrow> js_Number s
   | JArr _ \<Rightarrow> js_Number (js_String h v) | JObj _ \<Rightarrow> NaN)"

definition js_trunc :: "rat \<Rightarrow> rat" where
  "js_trunc q = (if q < 0 then - of_int \<lfloor>- q\<rfloor> else of_int \<lfloor>q\<rfloor>)"

definition formatBucketColumnDetail :: "js_host \<Rightarrow> CephAdminBucket \<Rightarrow> string \<Rightarrow> string" where
  "formatBucketColumnDetail h b detailKey =
     (case jmember (jprop b ''column_details'') detailKey of
        None \<Rightarrow> ''-''
      | Some JNull \<Rightarrow> ''-''
      | Some (JArr raw) \<Rightarrow>
          (let numericValues = sort (map js_trunc (List.map_filter (\<lambda>item.
                 case js_Number_value h item of Fin q \<Rightarrow> Some q | _ \<Rightarrow> None) raw));
               textValues = filter (\<lambda>s. s \<noteq> []) (map (\<lambda>item. case item of JStr s \<Rightarrow> trim s | _ \<Rightarrow> []) raw) in
           if raw = [] then ''None''
           else if length numericValues = length raw
             then join '', '' (map (\<lambda>q. numToString h (Fin q)) (js_set numericValues))
           else if textValues = [] then ''None''
           else join '', '' (js_set textValues))
      | Some (JBool v) \<Rightarrow> (if v then ''Yes'' else ''No'')
      | Some (JNum n) \<Rightarrow> (case n of Fin q \<Rightarrow> formatNumber h (Some q) | _ \<Rightarrow> numToString h n)
      | Some (JStr s) \<Rightarrow> (if trim s = [] then ''-'' else trim s)
      | Some (JObj _) \<Rightarrow> ''-'')"

section \<open>Names and references\<close>

definition word_char :: "char \<Rightarrow> bool" where
  "word_char c = (let n = (of_char c :: nat) in
     (97 \<le> n \<and> n \<le> 122) \<or> (65 \<le> n \<and> n \<le> 90) \<or> (48 \<le> n \<and> n \<le> 57) \<or> n = 45 \<or> n = 95)"

text \<open>\<open>s.replace(/[^...]+/g, "_")\<close>: every maximal run of other characters becomes one mark.\<close>

fun collapse :: "(char \<Rightarrow> bool) \<Rightarrow> char \<Rightarrow> bool \<Rightarrow> string \<Rightarrow> string" where
  "collapse ok mark in_run [] = []"
| "collapse ok mark in_run (c # cs) =
     (if ok c then c # collapse ok mark False cs
      else if in_run then collapse ok mark True cs else mark # collapse ok mark True cs)"

definition strip :: "(char \<Rightarrow> bool) \<Rightarrow> string \<Rightarrow> string" where
  "strip p s = rev (dropWhile p (rev (dropWhile p s)))"

definition sanitizeExportFilenamePart :: "string option \<Rightarrow> string" where
  "sanitizeExportFilenamePart value =
     (let normalized = trim (case value of None \<Rightarrow> [] | Some s \<Rightarrow> s);
          cleaned = strip (\<lambda>c. c = CHR ''_'') (collapse word_char (CHR ''_'') False normalized) in
      if cleaned = [] then ''buckets'' else cleaned)"

definition csvEscape :: "string \<Rightarrow> string" where
  "csvEscape value =
     dquote @ concat (map (\<lambda>c. if c = CHR 0x22 then dquote @ dquote else [c]) value) @ dquote"

definition BUCKET_UI_TAG_KEY_SEPARATOR :: string where
  "BUCKET_UI_TAG_KEY_SEPARATOR = [CHR 0x1F]"

definition buildBucketUiTagKey :: "string \<Rightarrow> string option \<Rightarrow> string" where
  "buildBucketUiTagKey bucketName tenant =
     trim (case tenant of None \<Rightarrow> [] | Some t \<Rightarrow> t) @ BUCKET_UI_TAG_KEY_SEPARATOR @ trim bucketName"

definition formatNamesPreview :: "nat \<Rightarrow> string list \<Rightarrow> string" where
  "formatNamesPreview limit names =
     (if length names \<le> limit then join '', '' names
      else join '', '' (take limit names) @ '' (+'' @ nat_string (length names - limit) @ '' more)'')"

text \<open>The default of the last argument.\<close>

definition formatBucketNamesPreview :: "string list \<Rightarrow> string" where
  "formatBucketNamesPreview names = formatNamesPreview 8 names"

record StorageOpsBucketRef =
  sor_contextId :: string
  sor_bucketName :: string

definition STORAGE_OPS_BUCKET_REF_SEPARATOR :: string where
  "STORAGE_OPS_BUCKET_REF_SEPARATOR = ''::''"

definition decodeStorageOpsBucketRef :: "string \<Rightarrow> StorageOpsBucketRef option" where
  "decodeStorageOpsBucketRef txt =
     (case indexOf txt STORAGE_OPS_BUCKET_REF_SEPARATOR of
        None \<Rightarrow> None
      | Some i \<Rightarrow>
          if i = 0 then None
          else (let contextId = trim (take i txt); bucketName = trim (drop (i + 2) txt) in
            if contextId = [] \<or> bucketName = [] then None
            else Some \<lparr>sor_contextId = contextId, sor_bucketName = bucketName\<rparr>))"

definition getBucketDisplayName :: "CephAdminBucket \<Rightarrow> bool \<Rightarrow> string" where
  "getBucketDisplayName b useExplicitBucketName =
     (case (if useExplicitBucketName then trimmed_text (jprop b ''bucket_name'') else None) of
        Some n \<Rightarrow> n | None \<Rightarrow> string_prop b ''name'')"

definition getStorageOpsContextId :: "CephAdminBucket \<Rightarrow> string" where
  "getStorageOpsContextId b = (case trimmed_text (jprop b ''context_id'') of
     Some c \<Rightarrow> c
   | None \<Rightarrow> (case decodeStorageOpsBucketRef (string_prop b ''name'') of
       Some r \<Rightarrow> sor_contextId r | None \<Rightarrow> []))"

definition getStorageOpsContextName :: "CephAdminBucket \<Rightarrow> string" where
  "getStorageOpsContextName b = trim (string_prop b ''context_name'')"

definition getStorageOpsContextKind :: "CephAdminBucket \<Rightarrow> string option" where
  "getStorageOpsContextKind b = (case jprop b ''context_kind'' of
     Some (JStr s) \<Rightarrow> (if s \<in> {''account'', ''connection'', ''s3_user''} then Some s else None)
   | _ \<Rightarrow> None)"

definition getStorageOpsBucketName :: "CephAdminBucket \<Rightarrow> string" where
  "getStorageOpsBucketName b = (case trimmed_text (jprop b ''bucket_name'') of
     Some n \<Rightarrow> n
   | None \<Rightarrow> (case decodeStorageOpsBucketRef (string_prop b ''name'') of
       Some r \<Rightarrow> sor_bucketName r | None \<Rightarrow> string_prop b ''name''))"

record CephAdminBucketRef =
  ref_bucketName :: string
  ref_tenant :: "string option"

definition encodeCephAdminBucketRef :: "string \<Rightarrow> string option \<Rightarrow> string" where
  "encodeCephAdminBucketRef bucketName tenant =
     (let normalizedName = trim bucketName;
          normalizedTenant = trim (case tenant of None \<Rightarrow> [] | Some t \<Rightarrow> t) in
      if normalizedTenant \<noteq> [] then normalizedTenant @ '':'' @ normalizedName else normalizedName)"

definition decodeCephAdminBucketRef :: "string \<Rightarrow> CephAdminBucketRef" where
  "decodeCephAdminBucketRef value =
     (let normalized = trim value in
      case indexOf normalized '':'' of
        None \<Rightarrow> \<lparr>ref_bucketName = normalized, ref_tenant = None\<rparr>
      | Some i \<Rightarrow>
          if i = 0 then \<lparr>ref_bucketName = normalized, ref_tenant = None\<rparr>
          else (let tenant = trim (take i normalized) in
            \<lparr>ref_bucketName = trim (drop (i + 1) normalized),
             ref_tenant = (if tenant = [] then None else Some tenant)\<rparr>))"

definition normalizeBucketName :: "string \<Rightarrow> string" where
  "normalizeBucketName value = toLowerCase (trim value)"

definition areStringMapEqual ::
  "js_host \<Rightarrow> (string \<times> string) list \<Rightarrow> (string \<times> string) list \<Rightarrow> bool" where
  "areStringMapEqual h left right =
     (let leftKeys = js_sort (localeCompare h) (map fst left);
          rightKeys = js_sort (localeCompare h) (map fst right);
          look = (\<lambda>m k. case map_of m k of None \<Rightarrow> [] | Some v \<Rightarrow> v) in
      length leftKeys = length rightKeys
      \<and> list_all (\<lambda>(key, k). key = k \<and> look left key = look right key) (zip leftKeys rightKeys))"

definition tag_hue :: "string \<Rightarrow> nat" where
  "tag_hue tag = sum_list (map of_char tag) mod 360"

definition getTagColors :: "string \<Rightarrow> string \<times> string \<times> string" where
  "getTagColors tag = (let hue = nat_string (tag_hue tag) in
     (''hsl('' @ hue @ '' 70% 90% / 0.9)'', ''hsl('' @ hue @ '' 60% 30%)'', ''hsl('' @ hue @ '' 60% 70% / 0.7)''))"

end
