(* ===== verification/Bulk_Input.thy ===== *)
theory Bulk_Input
  imports Bulk_Model
begin

text \<open>
  \<open>frontend/src/features/shared/bucketOpsBulkInput.ts\<close>: the state of the bulk form, when its
  actions are available, and its validation into the values the operations work with. A
  \<open>Set\<close> is the list of its elements; \<open>kind: "error"\<close> is \<open>Inl\<close>.
\<close>

section \<open>The form\<close>

record BucketOpsBulkFormState =
  bulkOperation :: BulkOperation
  bulkCopyFeatures :: BulkCopyFeatureSelection
  bulkPasteMapping :: "(string \<times> string) list"
  bulkQuotaSizeValue :: string
  bulkQuotaSizeUnit :: QuotaSizeUnit
  bulkQuotaObjects :: string
  bulkQuotaApplySize :: bool
  bulkQuotaApplyObjects :: bool
  bulkQuotaSkipConfigured :: bool
  bulkPublicAccessBlockTargets :: "PublicAccessBlockOptionKey \<Rightarrow> bool"
  bulkLifecycleRuleText :: string
  bulkLifecycleUpdateOnlyExisting :: bool
  bulkLifecycleDeleteIds :: string
  bulkLifecycleDeleteTypes :: "LifecycleRuleTypeKey \<Rightarrow> bool"
  bulkNotificationText :: string
  bulkNotificationDeleteIds :: string
  bulkNotificationDeleteTypes :: "NotificationConfigurationTypeKey \<Rightarrow> bool"
  bulkCorsRuleText :: string
  bulkCorsUpdateOnlyExisting :: bool
  bulkCorsDeleteIds :: string
  bulkCorsDeleteTypes :: "CorsRuleTypeKey \<Rightarrow> bool"
  bulkPolicyText :: string
  bulkPolicyUpdateOnlyExisting :: bool
  bulkPolicyDeleteIds :: string
  bulkPolicyDeleteTypes :: "PolicyRuleTypeKey \<Rightarrow> bool"

definition createBooleanSelection :: "('k \<times> string) list \<Rightarrow> 'k \<Rightarrow> bool" where
  "createBooleanSelection options = (\<lambda>_. False)"

definition createBucketOpsBulkFormState :: BucketOpsBulkFormState where
  "createBucketOpsBulkFormState =
     \<lparr>bulkOperation = NoOperation, bulkCopyFeatures = DEFAULT_BULK_COPY_FEATURE_SELECTION,
      bulkPasteMapping = [], bulkQuotaSizeValue = [], bulkQuotaSizeUnit = GiB, bulkQuotaObjects = [],
      bulkQuotaApplySize = True, bulkQuotaApplyObjects = True, bulkQuotaSkipConfigured = False,
      bulkPublicAccessBlockTargets = (\<lambda>_. True),
      bulkLifecycleRuleText = [], bulkLifecycleUpdateOnlyExisting = False, bulkLifecycleDeleteIds = [],
      bulkLifecycleDeleteTypes = createBooleanSelection LIFECYCLE_TYPE_OPTIONS,
      bulkNotificationText = [], bulkNotificationDeleteIds = [],
      bulkNotificationDeleteTypes = createBooleanSelection NOTIFICATION_TYPE_OPTIONS,
      bulkCorsRuleText = [], bulkCorsUpdateOnlyExisting = False, bulkCorsDeleteIds = [],
      bulkCorsDeleteTypes = createBooleanSelection CORS_TYPE_OPTIONS,
      bulkPolicyText = [], bulkPolicyUpdateOnlyExisting = False, bulkPolicyDeleteIds = [],
      bulkPolicyDeleteTypes = createBooleanSelection POLICY_TYPE_OPTIONS\<rparr>"

record quota_input =
  in_applyObjects :: bool
  in_applySize :: bool
  in_objects :: string
  in_sizeUnit :: QuotaSizeUnit
  in_sizeValue :: string

record 'k rule_input =
  in_deleteIds :: string
  in_deleteTypes :: "'k \<Rightarrow> bool"
  in_text :: string
  in_updateOnlyExisting :: bool

record BucketOpsBulkInput =
  in_operation :: BulkOperation
  in_quota :: quota_input
  in_lifecycle :: "LifecycleRuleTypeKey rule_input"
  in_notifications :: "NotificationConfigurationTypeKey rule_input"
  in_cors :: "CorsRuleTypeKey rule_input"
  in_policy :: "PolicyRuleTypeKey rule_input"
  in_publicAccessBlockTargets :: "PublicAccessBlockOptionKey \<Rightarrow> bool"

record PreparedBucketOpsBulkInput =
  parsedQuota :: "ParsedQuotaInput option"
  parsedRules :: "jrec list option"
  parsedNotificationConfiguration :: "jrec option"
  parsedCorsRules :: "jrec list option"
  parsedPolicyStatements :: "jrec list option"
  parsedPolicy :: "jrec option"
  deleteIds :: "string list option"
  deleteTypes :: "LifecycleRuleTypeKey list option"
  deleteNotificationIds :: "string list option"
  deleteNotificationTypes :: "NotificationConfigurationTypeKey list option"
  deleteCorsIds :: "string list option"
  deleteCorsTypes :: "CorsRuleTypeKey list option"
  deletePolicyIds :: "string list option"
  deletePolicyTypes :: "PolicyRuleTypeKey list option"
  publicAccessBlockTargets :: "PublicAccessBlockOptionKey list option"

definition emptyPreparedInput :: PreparedBucketOpsBulkInput where
  "emptyPreparedInput =
     \<lparr>parsedQuota = None, parsedRules = None, parsedNotificationConfiguration = None,
      parsedCorsRules = None, parsedPolicyStatements = None, parsedPolicy = None, deleteIds = None,
      deleteTypes = None, deleteNotificationIds = None, deleteNotificationTypes = None,
      deleteCorsIds = None, deleteCorsTypes = None, deletePolicyIds = None, deletePolicyTypes = None,
      publicAccessBlockTargets = None\<rparr>"

definition selectedOptionKeys :: "('k \<times> string) list \<Rightarrow> ('k \<Rightarrow> bool) \<Rightarrow> 'k list" where
  "selectedOptionKeys options selection = map fst (filter (\<lambda>opt. selection (fst opt)) options)"

text \<open>The notifications have no flag for updating existing entries only.\<close>

definition buildBucketOpsBulkInput :: "BucketOpsBulkFormState \<Rightarrow> BucketOpsBulkInput" where
  "buildBucketOpsBulkInput f =
     \<lparr>in_operation = bulkOperation f,
      in_quota = \<lparr>in_applyObjects = bulkQuotaApplyObjects f, in_applySize = bulkQuotaApplySize f,
        in_objects = bulkQuotaObjects f, in_sizeUnit = bulkQuotaSizeUnit f,
        in_sizeValue = bulkQuotaSizeValue f\<rparr>,
      in_lifecycle = \<lparr>in_deleteIds = bulkLifecycleDeleteIds f, in_deleteTypes = bulkLifecycleDeleteTypes f,
        in_text = bulkLifecycleRuleText f, in_updateOnlyExisting = bulkLifecycleUpdateOnlyExisting f\<rparr>,
      in_notifications = \<lparr>in_deleteIds = bulkNotificationDeleteIds f,
        in_deleteTypes = bulkNotificationDeleteTypes f, in_text = bulkNotificationText f,
        in_updateOnlyExisting = False\<rparr>,
      in_cors = \<lparr>in_deleteIds = bulkCorsDeleteIds f, in_deleteTypes = bulkCorsDeleteTypes f,
        in_text = bulkCorsRuleText f, in_updateOnlyExisting = bulkCorsUpdateOnlyExisting f\<rparr>,
      in_policy = \<lparr>in_deleteIds = bulkPolicyDeleteIds f, in_deleteTypes = bulkPolicyDeleteTypes f,
        in_text = bulkPolicyText f, in_updateOnlyExisting = bulkPolicyUpdateOnlyExisting f\<rparr>,
      in_publicAccessBlockTargets = bulkPublicAccessBlockTargets f\<rparr>"

section \<open>Availability\<close>

definition any_selected :: "('k \<times> string) list \<Rightarrow> ('k \<Rightarrow> bool) \<Rightarrow> bool" where
  "any_selected options selection \<longleftrightarrow> (\<exists>opt \<in> set options. selection (fst opt))"

record bulk_availability =
  previewDisabled :: bool
  applyDisabled :: bool
  hasSelectedCopyFeatures :: bool

definition has_reason :: "string option \<Rightarrow> bool" where
  "has_reason r = (case r of None \<Rightarrow> False | Some s \<Rightarrow> s \<noteq> [])"

definition resolveBucketOpsBulkActionAvailability ::
  "bool \<Rightarrow> BucketOpsBulkFormState \<Rightarrow> string option \<Rightarrow> bool \<Rightarrow> bool \<Rightarrow> string option \<Rightarrow> bulk_availability" where
  "resolveBucketOpsBulkActionAvailability applyLoading f pasteError previewLoading previewReady
       quotaDisabledReason =
     (let hasDeleteCriteria = (trim (bulkLifecycleDeleteIds f) \<noteq> []
            \<or> any_selected LIFECYCLE_TYPE_OPTIONS (bulkLifecycleDeleteTypes f));
          hasNotificationDeleteCriteria = (trim (bulkNotificationDeleteIds f) \<noteq> []
            \<or> any_selected NOTIFICATION_TYPE_OPTIONS (bulkNotificationDeleteTypes f));
          hasCorsDeleteCriteria = (trim (bulkCorsDeleteIds f) \<noteq> []
            \<or> any_selected CORS_TYPE_OPTIONS (bulkCorsDeleteTypes f));
          hasPolicyDeleteCriteria = (trim (bulkPolicyDeleteIds f) \<noteq> []
            \<or> any_selected POLICY_TYPE_OPTIONS (bulkPolicyDeleteTypes f));
          hasTargets = any_selected PUBLIC_ACCESS_BLOCK_OPTIONS (bulkPublicAccessBlockTargets f);
          operation = bulkOperation f in
      \<lparr>previewDisabled = (previewLoading \<or> applyLoading \<or> operation = NoOperation
         \<or> ((operation = AddPublicAccessBlock \<or> operation = RemovePublicAccessBlock) \<and> \<not> hasTargets)
         \<or> (operation = AddLifecycle \<and> trim (bulkLifecycleRuleText f) = [])
         \<or> (operation = DeleteLifecycle \<and> \<not> hasDeleteCriteria)
         \<or> (operation = AddNotifications \<and> trim (bulkNotificationText f) = [])
         \<or> (operation = DeleteNotifications \<and> \<not> hasNotificationDeleteCriteria)
         \<or> (operation = AddCors \<and> trim (bulkCorsRuleText f) = [])
         \<or> (operation = DeleteCors \<and> \<not> hasCorsDeleteCriteria)
         \<or> (operation = AddPolicy \<and> trim (bulkPolicyText f) = [])
         \<or> (operation = DeletePolicy \<and> \<not> hasPolicyDeleteCriteria)
         \<or> (operation = SetQuota \<and> has_reason quotaDisabledReason)
         \<or> (operation = PasteConfigs \<and> has_reason pasteError)),
       applyDisabled = (\<not> previewReady \<or> applyLoading
         \<or> (operation = SetQuota \<and> has_reason quotaDisabledReason)),
       hasSelectedCopyFeatures = (\<exists>k \<in> set BULK_COPY_FEATURE_KEYS. bulkCopyFeatures f k)\<rparr>)"

section \<open>Validation\<close>

type_synonym prepared_result = "string + PreparedBucketOpsBulkInput"

definition prepareBucketOpsBulkExecution ::
  "string list \<Rightarrow> BulkOperation \<Rightarrow> BulkPastePlan \<Rightarrow> prepared_result \<Rightarrow> string option \<Rightarrow> string + nat" where
  "prepareBucketOpsBulkExecution bucketNames operation pastePlan prepared quotaDisabledReason =
     (if operation = NoOperation then Inl ''Select an operation first.''
      else if operation = CopyConfigs
        then Inl (''Use '' @ [CHR 0x27] @ ''Copy selected configs'' @ [CHR 0x27] @ '' for this operation.'')
      else if operation = SetQuota \<and> has_reason quotaDisabledReason
        then Inl (''Set bucket quota is unavailable: '' @ the quotaDisabledReason @ ''.'')
      else if operation = PasteConfigs \<and> has_reason (plan_error pastePlan)
        then Inl (the (plan_error pastePlan))
      else if operation \<noteq> PasteConfigs \<and> isl prepared then Inl (projl prepared)
      else Inr (if operation = PasteConfigs then length (mappings pastePlan) else length bucketNames))"

definition delete_criteria ::
  "js_host \<Rightarrow> ('k \<times> string) list \<Rightarrow> 'k rule_input \<Rightarrow> string \<Rightarrow> string + string list \<times> 'k list" where
  "delete_criteria h options input msg =
     (let ids = parseRuleIds h (in_deleteIds input);
          types = selectedOptionKeys options (in_deleteTypes input) in
      if ids = [] \<and> types = [] then Inl msg else Inr (js_set ids, js_set types))"

definition only_update_error :: "string" where
  "only_update_error = [CHR 0x27] @ ''only update existing'' @ [CHR 0x27] @ '' is enabled.''"

definition prepareBucketOpsBulkInput :: "js_host \<Rightarrow> BucketOpsBulkInput \<Rightarrow> prepared_result" where
  "prepareBucketOpsBulkInput h input =
     (let value = emptyPreparedInput in
      case in_operation input of
        SetQuota \<Rightarrow>
          (let q = in_quota input in
           case parseQuotaInput (in_sizeValue q) (in_sizeUnit q) (in_objects q) (in_applySize q) (in_applyObjects q) of
             Inl e \<Rightarrow> Inl e
           | Inr p \<Rightarrow> Inr (value\<lparr>parsedQuota := Some p\<rparr>))
      | AddLifecycle \<Rightarrow>
          (case parseLifecycleRules (in_text (in_lifecycle input)) of
             Inl e \<Rightarrow> Inl e
           | Inr rules \<Rightarrow>
               if in_updateOnlyExisting (in_lifecycle input) \<and> list_all (\<lambda>r. getLifecycleRuleId h r = None) rules
               then Inl (''Provide rule IDs when '' @ only_update_error)
               else Inr (value\<lparr>parsedRules := Some rules\<rparr>))
      | DeleteLifecycle \<Rightarrow>
          (case delete_criteria h LIFECYCLE_TYPE_OPTIONS (in_lifecycle input)
             ''Provide at least one rule ID or rule type.'' of
             Inl e \<Rightarrow> Inl e
           | Inr (ids, types) \<Rightarrow> Inr (value\<lparr>deleteIds := Some ids, deleteTypes := Some types\<rparr>))
      | AddNotifications \<Rightarrow>
          (case parseNotificationConfiguration (in_text (in_notifications input)) of
             Inl e \<Rightarrow> Inl e
           | Inr c \<Rightarrow> Inr (value\<lparr>parsedNotificationConfiguration := Some c\<rparr>))
      | DeleteNotifications \<Rightarrow>
          (case delete_criteria h NOTIFICATION_TYPE_OPTIONS (in_notifications input)
             ''Provide at least one notification ID or notification type.'' of
             Inl e \<Rightarrow> Inl e
           | Inr (ids, types) \<Rightarrow>
               Inr (value\<lparr>deleteNotificationIds := Some ids, deleteNotificationTypes := Some types\<rparr>))
      | AddCors \<Rightarrow>
          (case parseCorsRules (in_text (in_cors input)) of
             Inl e \<Rightarrow> Inl e
           | Inr rules \<Rightarrow>
               if in_updateOnlyExisting (in_cors input)
                  \<and> list_all (\<lambda>r. getLifecycleRuleId h r = None \<and> getCorsRuleKey h r = None) rules
               then Inl (''Provide rule IDs or matching origins/methods when '' @ only_update_error)
               else Inr (value\<lparr>parsedCorsRules := Some rules\<rparr>))
      | DeleteCors \<Rightarrow>
          (case delete_criteria h CORS_TYPE_OPTIONS (in_cors input)
             ''Provide at least one rule ID or rule type.'' of
             Inl e \<Rightarrow> Inl e
           | Inr (ids, types) \<Rightarrow> Inr (value\<lparr>deleteCorsIds := Some ids, deleteCorsTypes := Some types\<rparr>))
      | AddPolicy \<Rightarrow>
          (case parsePolicyStatements (in_text (in_policy input)) of
             Inl e \<Rightarrow> Inl e
           | Inr (policy, statements) \<Rightarrow>
               Inr (value\<lparr>parsedPolicyStatements := Some statements, parsedPolicy := Some policy\<rparr>))
      | DeletePolicy \<Rightarrow>
          (case delete_criteria h POLICY_TYPE_OPTIONS (in_policy input)
             ''Provide at least one statement ID or statement type.'' of
             Inl e \<Rightarrow> Inl e
           | Inr (ids, types) \<Rightarrow> Inr (value\<lparr>deletePolicyIds := Some ids, deletePolicyTypes := Some types\<rparr>))
      | AddPublicAccessBlock \<Rightarrow>
          (let targets = selectedOptionKeys PUBLIC_ACCESS_BLOCK_OPTIONS (in_publicAccessBlockTargets input) in
           if targets = [] then Inl ''Select at least one block public access option.''
           else Inr (value\<lparr>publicAccessBlockTargets := Some targets\<rparr>))
      | RemovePublicAccessBlock \<Rightarrow>
          (let targets = selectedOptionKeys PUBLIC_ACCESS_BLOCK_OPTIONS (in_publicAccessBlockTargets input) in
           if targets = [] then Inl ''Select at least one block public access option.''
           else Inr (value\<lparr>publicAccessBlockTargets := Some targets\<rparr>))
      | _ \<Rightarrow> Inr value)"

end
