(* ===== verification/Concurrency.thy ===== *)
theory Concurrency
  imports Js_Prelude
begin

text \<open>
  \<open>frontend/src/utils/concurrency.ts\<close>: a pool of workers that take the indices of an array one
  after the other. JavaScript runs one worker at a time and switches at \<open>await\<close>, so a run is a
  sequence of atomic steps: a worker takes the next index (or ends), and the promise of the handler
  a worker waits for settles. The step relations contain every interleaving of these steps; the
  outcome of the handler is any value the relation \<open>outcome\<close> allows for that index.
\<close>

section \<open>The pool of settled results\<close>

definition normalizeConcurrencyLimit :: "js_number \<Rightarrow> nat" where
  "normalizeConcurrencyLimit limit = (case limit of Fin q \<Rightarrow> max 1 (nat \<lfloor>q\<rfloor>) | _ \<Rightarrow> 1)"

definition worker_count :: "js_number \<Rightarrow> nat \<Rightarrow> nat" where
  "worker_count limit items = min (normalizeConcurrencyLimit limit) items"

datatype worker = Ready | Waiting nat | Ended

datatype ('r, 'e) settled = Fulfilled 'r | Rejected 'e

record ('r, 'e) pool =
  cursor :: nat
  workers :: "worker list"
  results :: "('r, 'e) settled option list"
  notified :: "(nat \<times> ('r, 'e) settled) list"

text \<open>
  \<open>items\<close> is the length of the array. \<open>notified\<close> is the sequence of calls of \<open>onSettled\<close>, whose
  exceptions are caught and reported only.
\<close>

definition start_pool :: "js_number \<Rightarrow> nat \<Rightarrow> ('r, 'e) pool" where
  "start_pool limit items =
     \<lparr>cursor = 0, workers = replicate (worker_count limit items) Ready,
      results = replicate items None, notified = []\<rparr>"

inductive runWithConcurrencySettled ::
  "nat \<Rightarrow> (nat \<Rightarrow> ('r, 'e) settled \<Rightarrow> bool) \<Rightarrow> ('r, 'e) pool \<Rightarrow> ('r, 'e) pool \<Rightarrow> bool"
  for items :: nat and outcome :: "nat \<Rightarrow> ('r, 'e) settled \<Rightarrow> bool" where
  take_index: "w < length (workers p) \<Longrightarrow> workers p ! w = Ready \<Longrightarrow> cursor p < items \<Longrightarrow>
     runWithConcurrencySettled items outcome p
       (p\<lparr>cursor := Suc (cursor p), workers := (workers p)[w := Waiting (cursor p)]\<rparr>)"
| end_worker: "w < length (workers p) \<Longrightarrow> workers p ! w = Ready \<Longrightarrow> items \<le> cursor p \<Longrightarrow>
     runWithConcurrencySettled items outcome p (p\<lparr>workers := (workers p)[w := Ended]\<rparr>)"
| settle: "w < length (workers p) \<Longrightarrow> workers p ! w = Waiting i \<Longrightarrow> outcome i r \<Longrightarrow>
     runWithConcurrencySettled items outcome p
       (p\<lparr>workers := (workers p)[w := Ready], results := (results p)[i := Some r],
          notified := notified p @ [(i, r)]\<rparr>)"

inductive_cases settled_stepE: "runWithConcurrencySettled items outcome p q"

definition pool_done :: "('r, 'e) pool \<Rightarrow> bool" where
  "pool_done p = list_all (\<lambda>w. w = Ended) (workers p)"

section \<open>Invariant\<close>

definition waiting :: "worker list \<Rightarrow> nat set" where
  "waiting ws = {i. Waiting i \<in> set ws}"

text \<open>
  Every index below the cursor is either waited for by exactly one worker or settled and notified
  exactly once; a worker ends only when the indices are exhausted.
\<close>

definition pool_inv :: "nat \<Rightarrow> nat \<Rightarrow> (nat \<Rightarrow> ('r, 'e) settled \<Rightarrow> bool) \<Rightarrow> ('r, 'e) pool \<Rightarrow> bool" where
  "pool_inv slots items outcome p \<longleftrightarrow>
     length (workers p) = slots \<and> length (results p) = items \<and> cursor p \<le> items
     \<and> (\<forall>v w i. v < slots \<longrightarrow> w < slots \<longrightarrow> workers p ! v = Waiting i \<longrightarrow> workers p ! w = Waiting i \<longrightarrow> v = w)
     \<and> distinct (map fst (notified p))
     \<and> fst ` set (notified p) \<inter> waiting (workers p) = {}
     \<and> fst ` set (notified p) \<union> waiting (workers p) = {i. i < cursor p}
     \<and> (\<forall>i < items. results p ! i = map_of (notified p) i)
     \<and> (\<forall>(i, r) \<in> set (notified p). outcome i r)
     \<and> (Ended \<in> set (workers p) \<longrightarrow> cursor p = items)"

lemma waiting_replicate [simp]: "waiting (replicate n Ready) = {}"
  by (auto simp: waiting_def)

lemma waiting_iff: "i \<in> waiting ws \<longleftrightarrow> (\<exists>w < length ws. ws ! w = Waiting i)"
  by (auto simp: waiting_def in_set_conv_nth)

lemma waiting_update_ready:
  assumes "w < length ws" and "ws ! w = Ready"
  shows "waiting (ws[w := x]) = {i. x = Waiting i} \<union> waiting ws"
proof -
  have "Waiting i \<in> set (ws[w := x]) \<longleftrightarrow> x = Waiting i \<or> Waiting i \<in> set ws" for i
    using assms by (metis in_set_conv_nth length_list_update nth_list_update worker.distinct(1))
  then show ?thesis by (auto simp: waiting_def)
qed

lemma waiting_update_settled:
  assumes "w < length ws" and "ws ! w = Waiting i" and "\<And>v. v < length ws \<Longrightarrow> ws ! v = Waiting i \<Longrightarrow> v = w"
  shows "waiting (ws[w := Ready]) = waiting ws - {i}"
proof -
  have "Waiting j \<in> set (ws[w := Ready]) \<longleftrightarrow> Waiting j \<in> set ws \<and> j \<noteq> i" for j
    using assms by (metis in_set_conv_nth length_list_update nth_list_update worker.distinct(1) worker.inject)
  then show ?thesis by (auto simp: waiting_def)
qed

lemma start_inv: "pool_inv (worker_count limit items) items outcome (start_pool limit items)"
  by (auto simp: pool_inv_def start_pool_def in_set_conv_nth)

lemma map_of_snoc: "k \<notin> fst ` set xs \<Longrightarrow> map_of (xs @ [(k, v)]) j = (if j = k then Some v else map_of xs j)"
  by (auto simp: map_add_def split: option.splits) (metis domI dom_map_of_conv_image_fst)

lemma step_inv:
  assumes "runWithConcurrencySettled items outcome p q" and "pool_inv slots items outcome p"
  shows "pool_inv slots items outcome q"
  using assms(1)
proof cases
  case (take_index w)
  have "waiting ((workers p)[w := Waiting (cursor p)]) = insert (cursor p) (waiting (workers p))"
    using take_index by (auto simp: waiting_update_ready)
  moreover have "cursor p \<notin> waiting (workers p)" "cursor p \<notin> fst ` set (notified p)"
    using assms(2) by (auto simp: pool_inv_def)
  moreover have "Ended \<notin> set ((workers p)[w := Waiting (cursor p)])"
    using assms(2) take_index by (auto simp: pool_inv_def dest: set_update_subset_insert [THEN subsetD])
  ultimately show ?thesis
    using assms(2) take_index
    by (auto simp: pool_inv_def nth_list_update waiting_iff less_Suc_eq split: if_splits)
next
  case (end_worker w)
  have "waiting ((workers p)[w := Ended]) = waiting (workers p)"
    using end_worker by (auto simp: waiting_update_ready)
  then show ?thesis
    using assms(2) end_worker by (auto simp: pool_inv_def nth_list_update split: if_splits)
next
  case (settle w i r)
  have i: "i \<in> waiting (workers p)" using settle by (auto simp: waiting_iff)
  have "waiting ((workers p)[w := Ready]) = waiting (workers p) - {i}"
    using settle assms(2) by (intro waiting_update_settled) (auto simp: pool_inv_def)
  then have ws: "waiting (workers q) = waiting (workers p) - {i}" using settle by simp
  have new: "i \<notin> fst ` set (notified p)" "i < cursor p"
    using i assms(2) by (auto simp: pool_inv_def)
  then have "i < items" using assms(2) by (simp add: pool_inv_def)
  note new = new this
  have "Ended \<in> set (workers q) \<Longrightarrow> Ended \<in> set (workers p)"
    using settle by (auto dest: set_update_subset_insert [THEN subsetD])
  moreover have "v = u" if "v < slots" "u < slots" "workers q ! v = Waiting j" "workers q ! u = Waiting j" for v u j
    using that settle assms(2) by (simp add: pool_inv_def nth_list_update split: if_splits)
  moreover have "results q ! j = map_of (notified q) j" if "j < items" for j
    using that settle new assms(2) map_of_snoc [OF new(1), of r j]
    by (simp add: pool_inv_def nth_list_update)
  moreover have "distinct (map fst (notified q))" "\<forall>(j, s) \<in> set (notified q). outcome j s"
    using settle new assms(2) by (auto simp: pool_inv_def)
  moreover have "fst ` set (notified q) = insert i (fst ` set (notified p))" using settle by simp
  ultimately show ?thesis
    using assms(2) settle(1) i new ws unfolding pool_inv_def by simp blast
qed

lemma reachable_inv:
  assumes "(runWithConcurrencySettled items outcome)\<^sup>*\<^sup>* (start_pool limit items) p"
  shows "pool_inv (worker_count limit items) items outcome p"
  using assms by induction (auto intro: start_inv step_inv)

section \<open>Termination and progress\<close>

definition worker_weight :: "worker \<Rightarrow> nat" where
  "worker_weight w = (case w of Ready \<Rightarrow> 1 | Waiting _ \<Rightarrow> 2 | Ended \<Rightarrow> 0)"

definition pool_weight :: "nat \<Rightarrow> ('r, 'e) pool \<Rightarrow> nat" where
  "pool_weight items p = 2 * (items - cursor p) + sum_list (map worker_weight (workers p))"

lemma sum_list_update_nat:
  fixes f :: "'a \<Rightarrow> nat"
  assumes "i < length xs"
  shows "sum_list (map f (xs[i := y])) + f (xs ! i) = sum_list (map f xs) + f y"
  using assms by (induction xs arbitrary: i) (auto split: nat.splits)

lemma step_weight:
  assumes "runWithConcurrencySettled items outcome p q"
  shows "pool_weight items q < pool_weight items p"
  using assms
proof cases
  case (take_index w)
  then show ?thesis
    using sum_list_update_nat [OF take_index(2), of worker_weight "Waiting (cursor p)"]
    by (simp add: pool_weight_def worker_weight_def)
next
  case (end_worker w)
  then show ?thesis
    using sum_list_update_nat [OF end_worker(2), of worker_weight Ended]
    by (simp add: pool_weight_def worker_weight_def)
next
  case (settle w i r)
  then show ?thesis
    using sum_list_update_nat [OF settle(2), of worker_weight Ready]
    by (simp add: pool_weight_def worker_weight_def)
qed

lemma pool_progress:
  assumes "\<not> pool_done p" and "\<And>i. \<exists>r. outcome i r"
  shows "\<exists>q. runWithConcurrencySettled items outcome p q"
proof -
  from assms(1) obtain w where w: "w < length (workers p)" "workers p ! w \<noteq> Ended"
    by (auto simp: pool_done_def list_all_length)
  show ?thesis
  proof (cases "workers p ! w")
    case Ready
    then show ?thesis using w
      by (cases "cursor p < items") (auto intro: take_index end_worker simp: not_less)
  next
    case (Waiting i)
    then show ?thesis using w assms(2) [of i] by (auto intro: settle)
  qed (use w in simp)
qed

lemma worker_count_pos: "0 < items \<Longrightarrow> 0 < worker_count limit items"
  by (cases limit) (auto simp: worker_count_def normalizeConcurrencyLimit_def)

lemma done_complete:
  assumes "pool_inv (worker_count limit items) items outcome p" and "pool_done p"
  shows "fst ` set (notified p) = {i. i < items}" and "length (notified p) = items"
proof -
  have w: "waiting (workers p) = {}"
    using assms(2) by (auto simp: pool_done_def waiting_def list_all_iff)
  have c: "cursor p = items"
  proof (cases "items = 0")
    case True
    then show ?thesis using assms(1) by (simp add: pool_inv_def)
  next
    case False
    moreover have "length (workers p) = worker_count limit items" using assms(1) by (simp add: pool_inv_def)
    ultimately have "workers p \<noteq> []" using worker_count_pos [of items limit] by auto
    then have "Ended \<in> set (workers p)"
      using assms(2) by (cases "workers p") (auto simp: pool_done_def)
    then show ?thesis using assms(1) by (simp add: pool_inv_def)
  qed
  show s: "fst ` set (notified p) = {i. i < items}" using assms(1) w c by (simp add: pool_inv_def)
  have "distinct (map fst (notified p))" using assms(1) by (simp add: pool_inv_def)
  from distinct_card [OF this] show "length (notified p) = items" using s by simp
qed

lemma done_results:
  assumes "(runWithConcurrencySettled items outcome)\<^sup>*\<^sup>* (start_pool limit items) p" and "pool_done p"
  shows "length (results p) = items" and "length (notified p) = items"
    and "i < items \<Longrightarrow> \<exists>r. results p ! i = Some r \<and> outcome i r \<and> (i, r) \<in> set (notified p)"
    and "mset (map snd (notified p)) = mset (map the (results p))"
proof -
  have inv: "pool_inv (worker_count limit items) items outcome p" by (rule reachable_inv [OF assms(1)])
  note complete = done_complete [OF inv assms(2)]
  show len: "length (results p) = items" and "length (notified p) = items"
    using inv complete by (simp_all add: pool_inv_def)
  have res: "\<exists>r. results p ! i = Some r \<and> outcome i r \<and> (i, r) \<in> set (notified p)" if "i < items" for i
  proof -
    have "i \<in> fst ` set (notified p)" using complete(1) that by simp
    then obtain r where r: "map_of (notified p) i = Some r" by (metis map_of_eq_None_iff option.exhaust)
    with inv that map_of_SomeD [OF r] show ?thesis by (auto simp: pool_inv_def)
  qed
  show "i < items \<Longrightarrow> \<exists>r. results p ! i = Some r \<and> outcome i r \<and> (i, r) \<in> set (notified p)" by (rule res)
  let ?pairs = "zip [0..<items] (map the (results p))"
  have d: "distinct (notified p)" "distinct ?pairs"
    using inv by (simp_all add: pool_inv_def distinct_zipI1 distinct_map)
  have "set ?pairs \<subseteq> set (notified p)"
    using res len by (force simp: set_zip)
  moreover have "card (set ?pairs) = card (set (notified p))"
    using d complete(2) len by (simp add: distinct_card)
  ultimately have "set (notified p) = set ?pairs" by (metis List.finite_set card_subset_eq)
  then have "mset (notified p) = mset ?pairs" using d by (metis set_eq_iff_mset_eq_distinct)
  then have "image_mset snd (mset (notified p)) = image_mset snd (mset ?pairs)" by simp
  then show "mset (map snd (notified p)) = mset (map the (results p))"
    using len by (simp flip: mset_map add: map_snd_zip)
qed

lemma running_bound: "card (waiting ws) \<le> length ws"
proof -
  have "waiting ws \<subseteq> (\<lambda>w. case w of Waiting i \<Rightarrow> i | _ \<Rightarrow> 0) ` set ws"
    by (force simp: waiting_def image_iff)
  then have "card (waiting ws) \<le> card (set ws)" by (rule surj_card_le [rotated]) simp
  then show ?thesis using card_length [of ws] by simp
qed

section \<open>The pool without results\<close>

text \<open>
  \<open>runWithConcurrency\<close>: a worker also ends when \<open>shouldStop()\<close> holds at the head of its loop, and
  a rejected handler ends its worker and rejects the whole call while the other workers go on.
  \<open>may_stop\<close> says whether \<open>shouldStop\<close> can ever hold.
\<close>

record plain_pool =
  plain_cursor :: nat
  plain_workers :: "worker list"
  started :: "nat list"
  stopped :: bool
  rejected :: bool

definition start_plain :: "js_number \<Rightarrow> nat \<Rightarrow> plain_pool" where
  "start_plain limit items =
     \<lparr>plain_cursor = 0, plain_workers = replicate (worker_count limit items) Ready, started = [],
      stopped = False, rejected = False\<rparr>"

inductive runWithConcurrency :: "nat \<Rightarrow> bool \<Rightarrow> plain_pool \<Rightarrow> plain_pool \<Rightarrow> bool"
  for items :: nat and may_stop :: bool where
  plain_take: "w < length (plain_workers p) \<Longrightarrow> plain_workers p ! w = Ready \<Longrightarrow> plain_cursor p < items \<Longrightarrow>
     runWithConcurrency items may_stop p
       (p\<lparr>plain_cursor := Suc (plain_cursor p), plain_workers := (plain_workers p)[w := Waiting (plain_cursor p)],
          started := started p @ [plain_cursor p]\<rparr>)"
| plain_end: "w < length (plain_workers p) \<Longrightarrow> plain_workers p ! w = Ready \<Longrightarrow> items \<le> plain_cursor p \<Longrightarrow>
     runWithConcurrency items may_stop p (p\<lparr>plain_workers := (plain_workers p)[w := Ended]\<rparr>)"
| plain_stop: "w < length (plain_workers p) \<Longrightarrow> plain_workers p ! w = Ready \<Longrightarrow> may_stop \<Longrightarrow>
     runWithConcurrency items may_stop p (p\<lparr>plain_workers := (plain_workers p)[w := Ended], stopped := True\<rparr>)"
| plain_resolve: "w < length (plain_workers p) \<Longrightarrow> plain_workers p ! w = Waiting i \<Longrightarrow>
     runWithConcurrency items may_stop p (p\<lparr>plain_workers := (plain_workers p)[w := Ready]\<rparr>)"
| plain_reject: "w < length (plain_workers p) \<Longrightarrow> plain_workers p ! w = Waiting i \<Longrightarrow>
     runWithConcurrency items may_stop p (p\<lparr>plain_workers := (plain_workers p)[w := Ended], rejected := True\<rparr>)"

definition plain_inv :: "js_number \<Rightarrow> nat \<Rightarrow> bool \<Rightarrow> plain_pool \<Rightarrow> bool" where
  "plain_inv limit items may_stop p \<longleftrightarrow>
     length (plain_workers p) = worker_count limit items \<and> plain_cursor p \<le> items
     \<and> started p = [0..<plain_cursor p] \<and> (stopped p \<longrightarrow> may_stop)
     \<and> (Ended \<in> set (plain_workers p) \<longrightarrow> plain_cursor p = items \<or> stopped p \<or> rejected p)"

lemma ended_update:
  "Ended \<in> set (ws[w := x]) \<Longrightarrow> x \<noteq> Ended \<Longrightarrow> Ended \<in> set ws"
  by (auto dest: set_update_subset_insert [THEN subsetD])

lemma plain_step_inv:
  assumes "runWithConcurrency items may_stop p q" and "plain_inv limit items may_stop p"
  shows "plain_inv limit items may_stop q"
  using assms by cases (auto simp: plain_inv_def dest!: ended_update)

lemma plain_reachable_inv:
  assumes "(runWithConcurrency items may_stop)\<^sup>*\<^sup>* (start_plain limit items) p"
  shows "plain_inv limit items may_stop p"
  using assms
proof induction
  case base
  show ?case by (auto simp: plain_inv_def start_plain_def in_set_conv_nth)
qed (rule plain_step_inv)

section \<open>Properties\<close>

text \<open>
  C8. Exactly once: when every worker of the settled pool has ended, each index has been handled
  and notified exactly once, \<open>results\<close> has an outcome of the handler at every index, and at no
  moment are more handlers running than the limit allows.
\<close>

theorem settled_exactly_once:
  assumes "(runWithConcurrencySettled items outcome)\<^sup>*\<^sup>* (start_pool limit items) p"
  shows "card (waiting (workers p)) \<le> normalizeConcurrencyLimit limit \<and> distinct (map fst (notified p))
    \<and> (pool_done p \<longrightarrow> length (results p) = items \<and> length (notified p) = items
        \<and> (\<forall>i < items. \<exists>r. results p ! i = Some r \<and> outcome i r \<and> (i, r) \<in> set (notified p)))"
proof -
  have inv: "pool_inv (worker_count limit items) items outcome p" by (rule reachable_inv [OF assms])
  have bound: "card (waiting (workers p)) \<le> normalizeConcurrencyLimit limit"
    using running_bound [of "workers p"] inv by (simp add: pool_inv_def worker_count_def)
  show ?thesis using inv bound done_results [OF assms] by (auto simp: pool_inv_def)
qed

definition sample_pool :: "('r, 'e) settled \<Rightarrow> ('r, 'e) pool" where
  "sample_pool r = \<lparr>cursor = 1, workers = [Ended], results = [Some r], notified = [(0, r)]\<rparr>"

lemma sample_run:
  fixes r :: "('r, 'e) settled"
  shows "(runWithConcurrencySettled 1 (\<lambda>i x. x = r))\<^sup>*\<^sup>* (start_pool (Fin 6) 1) (sample_pool r)"
proof -
  let ?R = "runWithConcurrencySettled 1 (\<lambda>i x. x = r)"
  let ?p = "\<lambda>c w rs n. \<lparr>cursor = c, workers = [w], results = rs, notified = n\<rparr> :: ('r, 'e) pool"
  have "?R (?p 0 Ready [None] []) (?p 1 (Waiting 0) [None] [])"
    using take_index [of 0 "?p 0 Ready [None] []" 1] by simp
  moreover have "?R (?p 1 (Waiting 0) [None] []) (?p 1 Ready [Some r] [(0, r)])"
    using settle [of 0 "?p 1 (Waiting 0) [None] []" 0 "\<lambda>i x. x = r" r 1] by simp
  moreover have "?R (?p 1 Ready [Some r] [(0, r)]) (sample_pool r)"
    using end_worker [of 0 "?p 1 Ready [Some r] [(0, r)]" 1] by (simp add: sample_pool_def)
  moreover have "start_pool (Fin 6) 1 = ?p 0 Ready [None] []"
    by (simp add: start_pool_def worker_count_def normalizeConcurrencyLimit_def)
  ultimately show ?thesis by (metis (no_types, lifting) converse_rtranclp_into_rtranclp rtranclp.rtrancl_refl)
qed

lemma sample_pool_done: "pool_done (sample_pool r)"
  by (simp add: pool_done_def sample_pool_def)

theorem settled_exactly_once_witness:
  "length (results (sample_pool (Fulfilled 7 :: (nat, nat) settled))) = 1
   \<and> results (sample_pool (Fulfilled 7 :: (nat, nat) settled)) ! 0 = Some (Fulfilled 7)"
  using settled_exactly_once [OF sample_run [of "Fulfilled 7 :: (nat, nat) settled"]] sample_pool_done by auto

lemma relpowp_weight:
  assumes "(runWithConcurrencySettled items outcome ^^ n) p q"
  shows "n + pool_weight items q \<le> pool_weight items p"
  using assms
proof (induction n arbitrary: q)
  case (Suc n)
  then obtain r where "(runWithConcurrencySettled items outcome ^^ n) p r" "runWithConcurrencySettled items outcome r q"
    by auto
  with Suc.IH step_weight show ?case by fastforce
qed simp

text \<open>
  The settled pool terminates: a run has at most two steps for every item and one for every
  worker, and while some worker has not ended a step is possible, as long as handlers settle.
\<close>

theorem settled_terminates:
  assumes "(runWithConcurrencySettled items outcome ^^ n) (start_pool limit items) p"
    and "\<And>i. \<exists>r. outcome i r"
  shows "n \<le> 2 * items + worker_count limit items
    \<and> (pool_done p \<or> (\<exists>q. runWithConcurrencySettled items outcome p q))"
proof -
  have "pool_weight items (start_pool limit items :: ('a, 'b) pool) = 2 * items + worker_count limit items"
    by (simp add: pool_weight_def start_pool_def worker_weight_def sum_list_replicate)
  then show ?thesis using relpowp_weight [OF assms(1)] pool_progress [of p outcome, OF _ assms(2)] by fastforce
qed

theorem settled_terminates_witness:
  "pool_done (sample_pool (Fulfilled 7 :: (nat, nat) settled))"
proof -
  let ?r = "Fulfilled 7 :: (nat, nat) settled"
  let ?R = "runWithConcurrencySettled 1 (\<lambda>i x. x = ?r)"
  obtain n where n: "(?R ^^ n) (start_pool (Fin 6) 1) (sample_pool ?r)"
    using sample_run by (metis rtranclp_power)
  have "\<not> ?R (sample_pool ?r) q" for q
    by (auto simp: sample_pool_def elim!: settled_stepE)
  with settled_terminates [OF n] show ?thesis by auto
qed

text \<open>
  The pool without results starts the items in order and each at most once; when all its
  workers have ended without a stop request and without a rejection, it has started all of them.
\<close>

theorem plain_in_order:
  assumes "(runWithConcurrency items may_stop)\<^sup>*\<^sup>* (start_plain limit items) p"
  shows "started p = [0..<length (started p)] \<and> length (started p) \<le> items
    \<and> (list_all (\<lambda>w. w = Ended) (plain_workers p) \<longrightarrow> \<not> may_stop \<longrightarrow> \<not> rejected p \<longrightarrow> started p = [0..<items])"
proof -
  have inv: "plain_inv limit items may_stop p" by (rule plain_reachable_inv [OF assms])
  have "plain_cursor p = items"
    if "list_all (\<lambda>w. w = Ended) (plain_workers p)" "\<not> may_stop" "\<not> rejected p"
  proof (cases "plain_workers p")
    case Nil
    with inv have "items = 0" using worker_count_pos [of items limit] by (auto simp: plain_inv_def)
    with inv show ?thesis by (simp add: plain_inv_def)
  next
    case (Cons w ws)
    with inv that show ?thesis by (auto simp: plain_inv_def)
  qed
  with inv show ?thesis by (auto simp: plain_inv_def)
qed

theorem plain_in_order_witness:
  "started ((start_plain (Fin 2) 1)\<lparr>plain_cursor := 1, plain_workers := [Waiting 0], started := [0]\<rparr>)
     = [0..<1]"
proof -
  let ?p = "start_plain (Fin 2) 1"
  have "runWithConcurrency 1 False ?p (?p\<lparr>plain_cursor := 1, plain_workers := [Waiting 0], started := [0]\<rparr>)"
    using plain_take [of 0 ?p 1 False] by (simp add: start_plain_def worker_count_def normalizeConcurrencyLimit_def)
  from plain_in_order [OF r_into_rtranclp, OF this] show ?thesis by simp
qed

end
