(* ===== verification/Bucket_Api.thy ===== *)
theory Bucket_Api
  imports Bucket_Presentation
begin

text \<open>
  The way a bucket's configuration is read and written:
  \<open>frontend/src/api/cephAdminBucketDetails.ts\<close> (one HTTP request for every resource of a bucket) and
  \<open>frontend/src/features/shared/bucketOpsApi.ts\<close> (the operations the bulk pipeline calls with a
  bucket reference). An asynchronous call is a function from the state of the server to an error or
  a result, with the next state. The HTTP client is a parameter (the record \<open>http_client\<close>); a URL
  path is the list of its decoded segments, on which \<open>encodeURIComponent\<close> of the client and
  \<open>decodeURIComponent\<close> of the server are inverse.
\<close>

section \<open>Calls\<close>

datatype js_error = HttpError nat string | TypeErr | JsErr string

type_synonym ('s, 'a) io = "'s \<Rightarrow> (js_error + 'a) \<times> 's"

definition io_return :: "'a \<Rightarrow> ('s, 'a) io" where
  "io_return x = (\<lambda>s. (Inr x, s))"

definition io_throw :: "js_error \<Rightarrow> ('s, 'a) io" where
  "io_throw e = (\<lambda>s. (Inl e, s))"

definition io_bind :: "('s, 'a) io \<Rightarrow> ('a \<Rightarrow> ('s, 'b) io) \<Rightarrow> ('s, 'b) io" where
  "io_bind m f = (\<lambda>s. case m s of (Inl e, t) \<Rightarrow> (Inl e, t) | (Inr x, t) \<Rightarrow> f x t)"

definition io_seq :: "('s, 'a) io \<Rightarrow> ('s, 'b) io \<Rightarrow> ('s, 'b) io" where
  "io_seq m n = io_bind m (\<lambda>_. n)"

lemma io_simps [simp]:
  "io_return x s = (Inr x, s)" "io_throw e s = (Inl e, s)"
  by (simp_all add: io_return_def io_throw_def)

lemma io_bind_apply:
  "io_bind m f s = (case m s of (Inl e, t) \<Rightarrow> (Inl e, t) | (Inr x, t) \<Rightarrow> f x t)"
  by (simp add: io_bind_def)

lemma io_bind_Inr: "io_bind m f s = (Inr y, t) \<longleftrightarrow> (\<exists>x u. m s = (Inr x, u) \<and> f x u = (Inr y, t))"
  by (auto simp: io_bind_def split: prod.splits sum.splits)

lemma io_bind_ok [simp]: "m s = (Inr x, u) \<Longrightarrow> io_bind m f s = f x u"
  by (simp add: io_bind_def)

lemma io_seq_ok [simp]: "m s = (Inr x, u) \<Longrightarrow> io_seq m n s = n u"
  by (simp add: io_seq_def)

section \<open>The HTTP resources of a bucket\<close>

type_synonym path = "string list"
type_synonym params = "(string \<times> string) list"

record 's http_client =
  client_get :: "path \<Rightarrow> params \<Rightarrow> ('s, json) io"
  client_put :: "path \<Rightarrow> json \<Rightarrow> params \<Rightarrow> ('s, json) io"
  client_delete :: "path \<Rightarrow> params \<Rightarrow> ('s, unit) io"

definition cephAdminBucketPath :: "nat \<Rightarrow> string \<Rightarrow> path" where
  "cephAdminBucketPath endpointId bucketName =
     [''ceph-admin'', ''endpoints'', nat_string endpointId, ''buckets'', bucketName]"

definition cephAdminBucketRequestConfig :: "string option \<Rightarrow> params \<Rightarrow> params" where
  "cephAdminBucketRequestConfig tenant params =
     (case tenant of
        Some t \<Rightarrow> if trim t = [] then params else AList.update ''tenant'' (trim t) params
      | None \<Rightarrow> params)"

definition readCephAdminBucketResource ::
  "'s http_client \<Rightarrow> nat \<Rightarrow> string \<Rightarrow> string \<Rightarrow> string option \<Rightarrow> ('s, json) io" where
  "readCephAdminBucketResource c e b resource tenant =
     client_get c (cephAdminBucketPath e b @ [resource]) (cephAdminBucketRequestConfig tenant [])"

definition writeCephAdminBucketResource ::
  "'s http_client \<Rightarrow> nat \<Rightarrow> string \<Rightarrow> string \<Rightarrow> json \<Rightarrow> string option \<Rightarrow> ('s, json) io" where
  "writeCephAdminBucketResource c e b resource payload tenant =
     client_put c (cephAdminBucketPath e b @ [resource]) payload (cephAdminBucketRequestConfig tenant [])"

definition writeCephAdminBucketResourceWithoutResponse ::
  "'s http_client \<Rightarrow> nat \<Rightarrow> string \<Rightarrow> string \<Rightarrow> json \<Rightarrow> string option \<Rightarrow> ('s, unit) io" where
  "writeCephAdminBucketResourceWithoutResponse c e b resource payload tenant =
     io_seq (client_put c (cephAdminBucketPath e b @ [resource]) payload (cephAdminBucketRequestConfig tenant []))
       (io_return ())"

definition deleteCephAdminBucketResource ::
  "'s http_client \<Rightarrow> nat \<Rightarrow> string \<Rightarrow> string \<Rightarrow> string option \<Rightarrow> ('s, unit) io" where
  "deleteCephAdminBucketResource c e b resource tenant =
     client_delete c (cephAdminBucketPath e b @ [resource]) (cephAdminBucketRequestConfig tenant [])"

definition listCephAdminBucketObjects ::
  "'s http_client \<Rightarrow> nat \<Rightarrow> string \<Rightarrow> string \<Rightarrow> string option \<Rightarrow> ('s, json) io" where
  "listCephAdminBucketObjects c e b prefix tenant =
     client_get c (cephAdminBucketPath e b @ [''objects''])
       (cephAdminBucketRequestConfig tenant [(''prefix'', prefix)])"

definition rules_json :: "jrec list \<Rightarrow> json" where
  "rules_json rules = JObj [(''rules'', JArr (map JObj rules))]"

definition getCephAdminBucketProperties :: "'s http_client \<Rightarrow> nat \<Rightarrow> string \<Rightarrow> string option \<Rightarrow> ('s, json) io" where
  "getCephAdminBucketProperties c e b tenant = readCephAdminBucketResource c e b ''properties'' tenant"

definition getCephAdminBucketVersioning :: "'s http_client \<Rightarrow> nat \<Rightarrow> string \<Rightarrow> string option \<Rightarrow> ('s, json) io" where
  "getCephAdminBucketVersioning c e b tenant = readCephAdminBucketResource c e b ''versioning'' tenant"

definition setCephAdminBucketVersioning :: "'s http_client \<Rightarrow> nat \<Rightarrow> string \<Rightarrow> bool \<Rightarrow> string option \<Rightarrow> ('s, unit) io" where
  "setCephAdminBucketVersioning c e b enabled tenant =
     writeCephAdminBucketResourceWithoutResponse c e b ''versioning'' (JObj [(''enabled'', JBool enabled)]) tenant"

definition getCephAdminBucketLifecycle :: "'s http_client \<Rightarrow> nat \<Rightarrow> string \<Rightarrow> string option \<Rightarrow> ('s, json) io" where
  "getCephAdminBucketLifecycle c e b tenant = readCephAdminBucketResource c e b ''lifecycle'' tenant"

definition putCephAdminBucketLifecycle :: "'s http_client \<Rightarrow> nat \<Rightarrow> string \<Rightarrow> jrec list \<Rightarrow> string option \<Rightarrow> ('s, json) io" where
  "putCephAdminBucketLifecycle c e b rules tenant =
     writeCephAdminBucketResource c e b ''lifecycle'' (rules_json rules) tenant"

definition deleteCephAdminBucketLifecycle :: "'s http_client \<Rightarrow> nat \<Rightarrow> string \<Rightarrow> string option \<Rightarrow> ('s, unit) io" where
  "deleteCephAdminBucketLifecycle c e b tenant = deleteCephAdminBucketResource c e b ''lifecycle'' tenant"

definition getCephAdminBucketCors :: "'s http_client \<Rightarrow> nat \<Rightarrow> string \<Rightarrow> string option \<Rightarrow> ('s, json) io" where
  "getCephAdminBucketCors c e b tenant = readCephAdminBucketResource c e b ''cors'' tenant"

definition putCephAdminBucketCors :: "'s http_client \<Rightarrow> nat \<Rightarrow> string \<Rightarrow> jrec list \<Rightarrow> string option \<Rightarrow> ('s, json) io" where
  "putCephAdminBucketCors c e b rules tenant =
     writeCephAdminBucketResource c e b ''cors'' (rules_json rules) tenant"

definition deleteCephAdminBucketCors :: "'s http_client \<Rightarrow> nat \<Rightarrow> string \<Rightarrow> string option \<Rightarrow> ('s, unit) io" where
  "deleteCephAdminBucketCors c e b tenant = deleteCephAdminBucketResource c e b ''cors'' tenant"

definition getCephAdminBucketEncryption :: "'s http_client \<Rightarrow> nat \<Rightarrow> string \<Rightarrow> string option \<Rightarrow> ('s, json) io" where
  "getCephAdminBucketEncryption c e b tenant = readCephAdminBucketResource c e b ''encryption'' tenant"

definition putCephAdminBucketEncryption :: "'s http_client \<Rightarrow> nat \<Rightarrow> string \<Rightarrow> jrec list \<Rightarrow> string option \<Rightarrow> ('s, json) io" where
  "putCephAdminBucketEncryption c e b rules tenant =
     writeCephAdminBucketResource c e b ''encryption'' (rules_json rules) tenant"

definition deleteCephAdminBucketEncryption :: "'s http_client \<Rightarrow> nat \<Rightarrow> string \<Rightarrow> string option \<Rightarrow> ('s, unit) io" where
  "deleteCephAdminBucketEncryption c e b tenant = deleteCephAdminBucketResource c e b ''encryption'' tenant"

definition getCephAdminBucketPolicy :: "'s http_client \<Rightarrow> nat \<Rightarrow> string \<Rightarrow> string option \<Rightarrow> ('s, json) io" where
  "getCephAdminBucketPolicy c e b tenant = readCephAdminBucketResource c e b ''policy'' tenant"

definition putCephAdminBucketPolicy :: "'s http_client \<Rightarrow> nat \<Rightarrow> string \<Rightarrow> jrec \<Rightarrow> string option \<Rightarrow> ('s, json) io" where
  "putCephAdminBucketPolicy c e b policy tenant =
     writeCephAdminBucketResource c e b ''policy'' (JObj [(''policy'', JObj policy)]) tenant"

definition deleteCephAdminBucketPolicy :: "'s http_client \<Rightarrow> nat \<Rightarrow> string \<Rightarrow> string option \<Rightarrow> ('s, unit) io" where
  "deleteCephAdminBucketPolicy c e b tenant = deleteCephAdminBucketResource c e b ''policy'' tenant"

definition getCephAdminBucketNotifications :: "'s http_client \<Rightarrow> nat \<Rightarrow> string \<Rightarrow> string option \<Rightarrow> ('s, json) io" where
  "getCephAdminBucketNotifications c e b tenant = readCephAdminBucketResource c e b ''notifications'' tenant"

definition putCephAdminBucketNotifications :: "'s http_client \<Rightarrow> nat \<Rightarrow> string \<Rightarrow> jrec \<Rightarrow> string option \<Rightarrow> ('s, json) io" where
  "putCephAdminBucketNotifications c e b configuration tenant =
     writeCephAdminBucketResource c e b ''notifications'' (JObj [(''configuration'', JObj configuration)]) tenant"

definition deleteCephAdminBucketNotifications :: "'s http_client \<Rightarrow> nat \<Rightarrow> string \<Rightarrow> string option \<Rightarrow> ('s, unit) io" where
  "deleteCephAdminBucketNotifications c e b tenant = deleteCephAdminBucketResource c e b ''notifications'' tenant"

definition getCephAdminBucketReplication :: "'s http_client \<Rightarrow> nat \<Rightarrow> string \<Rightarrow> string option \<Rightarrow> ('s, json) io" where
  "getCephAdminBucketReplication c e b tenant = readCephAdminBucketResource c e b ''replication'' tenant"

definition putCephAdminBucketReplication :: "'s http_client \<Rightarrow> nat \<Rightarrow> string \<Rightarrow> jrec \<Rightarrow> string option \<Rightarrow> ('s, json) io" where
  "putCephAdminBucketReplication c e b configuration tenant =
     writeCephAdminBucketResource c e b ''replication'' (JObj [(''configuration'', JObj configuration)]) tenant"

definition deleteCephAdminBucketReplication :: "'s http_client \<Rightarrow> nat \<Rightarrow> string \<Rightarrow> string option \<Rightarrow> ('s, unit) io" where
  "deleteCephAdminBucketReplication c e b tenant = deleteCephAdminBucketResource c e b ''replication'' tenant"

definition getCephAdminBucketLogging :: "'s http_client \<Rightarrow> nat \<Rightarrow> string \<Rightarrow> string option \<Rightarrow> ('s, json) io" where
  "getCephAdminBucketLogging c e b tenant = readCephAdminBucketResource c e b ''logging'' tenant"

definition putCephAdminBucketLogging :: "'s http_client \<Rightarrow> nat \<Rightarrow> string \<Rightarrow> json \<Rightarrow> string option \<Rightarrow> ('s, json) io" where
  "putCephAdminBucketLogging c e b payload tenant =
     writeCephAdminBucketResource c e b ''logging'' (payload) tenant"

definition deleteCephAdminBucketLogging :: "'s http_client \<Rightarrow> nat \<Rightarrow> string \<Rightarrow> string option \<Rightarrow> ('s, unit) io" where
  "deleteCephAdminBucketLogging c e b tenant = deleteCephAdminBucketResource c e b ''logging'' tenant"

definition getCephAdminBucketWebsite :: "'s http_client \<Rightarrow> nat \<Rightarrow> string \<Rightarrow> string option \<Rightarrow> ('s, json) io" where
  "getCephAdminBucketWebsite c e b tenant = readCephAdminBucketResource c e b ''website'' tenant"

definition putCephAdminBucketWebsite :: "'s http_client \<Rightarrow> nat \<Rightarrow> string \<Rightarrow> json \<Rightarrow> string option \<Rightarrow> ('s, json) io" where
  "putCephAdminBucketWebsite c e b payload tenant =
     writeCephAdminBucketResource c e b ''website'' (payload) tenant"

definition deleteCephAdminBucketWebsite :: "'s http_client \<Rightarrow> nat \<Rightarrow> string \<Rightarrow> string option \<Rightarrow> ('s, unit) io" where
  "deleteCephAdminBucketWebsite c e b tenant = deleteCephAdminBucketResource c e b ''website'' tenant"

definition getCephAdminBucketTags :: "'s http_client \<Rightarrow> nat \<Rightarrow> string \<Rightarrow> string option \<Rightarrow> ('s, json) io" where
  "getCephAdminBucketTags c e b tenant = readCephAdminBucketResource c e b ''tags'' tenant"

definition putCephAdminBucketTags :: "'s http_client \<Rightarrow> nat \<Rightarrow> string \<Rightarrow> json list \<Rightarrow> string option \<Rightarrow> ('s, unit) io" where
  "putCephAdminBucketTags c e b tags tenant =
     writeCephAdminBucketResourceWithoutResponse c e b ''tags'' (JObj [(''tags'', JArr tags)]) tenant"

definition deleteCephAdminBucketTags :: "'s http_client \<Rightarrow> nat \<Rightarrow> string \<Rightarrow> string option \<Rightarrow> ('s, unit) io" where
  "deleteCephAdminBucketTags c e b tenant = deleteCephAdminBucketResource c e b ''tags'' tenant"

definition getCephAdminBucketAcl :: "'s http_client \<Rightarrow> nat \<Rightarrow> string \<Rightarrow> string option \<Rightarrow> ('s, json) io" where
  "getCephAdminBucketAcl c e b tenant = readCephAdminBucketResource c e b ''acl'' tenant"

definition updateCephAdminBucketAcl :: "'s http_client \<Rightarrow> nat \<Rightarrow> string \<Rightarrow> string \<Rightarrow> string option \<Rightarrow> ('s, json) io" where
  "updateCephAdminBucketAcl c e b acl tenant =
     writeCephAdminBucketResource c e b ''acl'' (JObj [(''acl'', JStr acl)]) tenant"

definition getCephAdminBucketPublicAccessBlock :: "'s http_client \<Rightarrow> nat \<Rightarrow> string \<Rightarrow> string option \<Rightarrow> ('s, json) io" where
  "getCephAdminBucketPublicAccessBlock c e b tenant = readCephAdminBucketResource c e b ''public-access-block'' tenant"

definition updateCephAdminBucketPublicAccessBlock :: "'s http_client \<Rightarrow> nat \<Rightarrow> string \<Rightarrow> json \<Rightarrow> string option \<Rightarrow> ('s, json) io" where
  "updateCephAdminBucketPublicAccessBlock c e b payload tenant =
     writeCephAdminBucketResource c e b ''public-access-block'' (payload) tenant"

definition getCephAdminBucketObjectLock :: "'s http_client \<Rightarrow> nat \<Rightarrow> string \<Rightarrow> string option \<Rightarrow> ('s, json) io" where
  "getCephAdminBucketObjectLock c e b tenant = readCephAdminBucketResource c e b ''object-lock'' tenant"

definition updateCephAdminBucketObjectLock :: "'s http_client \<Rightarrow> nat \<Rightarrow> string \<Rightarrow> json \<Rightarrow> string option \<Rightarrow> ('s, json) io" where
  "updateCephAdminBucketObjectLock c e b payload tenant =
     writeCephAdminBucketResource c e b ''object-lock'' (payload) tenant"

definition updateCephAdminBucketQuota :: "'s http_client \<Rightarrow> nat \<Rightarrow> string \<Rightarrow> json \<Rightarrow> string option \<Rightarrow> ('s, unit) io" where
  "updateCephAdminBucketQuota c e b payload tenant =
     writeCephAdminBucketResourceWithoutResponse c e b ''quota'' (payload) tenant"

section \<open>The operations of the bulk pipeline\<close>

record BucketProperties =
  versioning_status :: "string option"
  object_lock :: "json option"

record BucketQuotaUpdate =
  qu_enabled :: bool
  max_size_gb :: "rat option"
  max_size_unit :: "QuotaSizeUnit option"
  max_objects :: "rat option"

text \<open>
  The endpoint is an argument that every caller passes unchanged; here it is part of the record.
  The three listing operations are not part of it.
  \<open>updateBucketQuota\<close> is absent in the storage operations mode.
\<close>

record 's bucket_ops_api =
  getBucketProperties :: "string \<Rightarrow> ('s, BucketProperties) io"
  getBucketPublicAccessBlock :: "string \<Rightarrow> ('s, json) io"
  updateBucketPublicAccessBlock :: "string \<Rightarrow> PublicAccessBlockState \<Rightarrow> ('s, unit) io"
  getBucketLifecycle :: "string \<Rightarrow> ('s, jrec list) io"
  putBucketLifecycle :: "string \<Rightarrow> jrec list \<Rightarrow> ('s, unit) io"
  deleteBucketLifecycle :: "string \<Rightarrow> ('s, unit) io"
  getBucketCors :: "string \<Rightarrow> ('s, jrec list) io"
  putBucketCors :: "string \<Rightarrow> jrec list \<Rightarrow> ('s, unit) io"
  deleteBucketCors :: "string \<Rightarrow> ('s, unit) io"
  getBucketPolicy :: "string \<Rightarrow> ('s, jrec option) io"
  putBucketPolicy :: "string \<Rightarrow> jrec \<Rightarrow> ('s, unit) io"
  deleteBucketPolicy :: "string \<Rightarrow> ('s, unit) io"
  getBucketLogging :: "string \<Rightarrow> ('s, json) io"
  putBucketLogging :: "string \<Rightarrow> json \<Rightarrow> ('s, unit) io"
  deleteBucketLogging :: "string \<Rightarrow> ('s, unit) io"
  getBucketNotifications :: "string \<Rightarrow> ('s, jrec) io"
  putBucketNotifications :: "string \<Rightarrow> jrec \<Rightarrow> ('s, unit) io"
  deleteBucketNotifications :: "string \<Rightarrow> ('s, unit) io"
  getBucketWebsite :: "string \<Rightarrow> ('s, json) io"
  getBucketEncryption :: "string \<Rightarrow> ('s, json) io"
  setBucketVersioning :: "string \<Rightarrow> bool \<Rightarrow> ('s, unit) io"
  updateBucketObjectLock :: "string \<Rightarrow> BulkObjectLockSnapshot \<Rightarrow> ('s, unit) io"
  updateBucketQuota :: "(string \<Rightarrow> BucketQuotaUpdate \<Rightarrow> ('s, unit) io) option"

text \<open>
  Reading the declared shape of a response; a response without it makes the first access of the
  missing property throw.
\<close>

definition rules_of :: "json \<Rightarrow> ('s, jrec list) io" where
  "rules_of v = (case jmember (Some v) ''rules'' of
     Some (JArr vs) \<Rightarrow> if list_all isJsonObject vs then io_return (map as_rec vs) else io_throw TypeErr
   | _ \<Rightarrow> io_throw TypeErr)"

definition policy_of :: "json \<Rightarrow> ('s, jrec option) io" where
  "policy_of v = (case jmember (Some v) ''policy'' of
     Some (JObj p) \<Rightarrow> io_return (Some p)
   | Some JNull \<Rightarrow> io_return None
   | None \<Rightarrow> io_return None
   | _ \<Rightarrow> io_throw TypeErr)"

definition configuration_of :: "json \<Rightarrow> ('s, jrec) io" where
  "configuration_of v = (case jmember (Some v) ''configuration'' of
     Some (JObj c) \<Rightarrow> io_return c | _ \<Rightarrow> io_throw TypeErr)"

definition properties_of :: "json \<Rightarrow> BucketProperties" where
  "properties_of v =
     \<lparr>versioning_status = (case jmember (Some v) ''versioning_status'' of Some (JStr s) \<Rightarrow> Some s | _ \<Rightarrow> None),
      object_lock = jmember (Some v) ''object_lock''\<rparr>"

definition public_access_block_json :: "PublicAccessBlockState \<Rightarrow> json" where
  "public_access_block_json s = JObj
     [(''block_public_acls'', JBool (block_public_acls s)), (''ignore_public_acls'', JBool (ignore_public_acls s)),
      (''block_public_policy'', JBool (block_public_policy s)),
      (''restrict_public_buckets'', JBool (restrict_public_buckets s))]"

definition unit_text :: "QuotaSizeUnit \<Rightarrow> string" where
  "unit_text u = (case u of MiB \<Rightarrow> ''MiB'' | GiB \<Rightarrow> ''GiB'' | TiB \<Rightarrow> ''TiB'')"

definition quota_json :: "BucketQuotaUpdate \<Rightarrow> json" where
  "quota_json p = JObj
     [(''enabled'', JBool (qu_enabled p)), (''max_size_gb'', json_of_number (max_size_gb p)),
      (''max_size_unit'', json_of_string (map_option unit_text (max_size_unit p))),
      (''max_objects'', json_of_number (max_objects p))]"

definition void :: "('s, json) io \<Rightarrow> ('s, unit) io" where
  "void m = io_seq m (io_return ())"

definition at_ref :: "(string \<Rightarrow> string option \<Rightarrow> 'a) \<Rightarrow> string \<Rightarrow> 'a" where
  "at_ref f bucketRef =
     (let ref = decodeCephAdminBucketRef bucketRef in f (ref_bucketName ref) (ref_tenant ref))"

definition CEPH_ADMIN_BUCKET_OPS_API :: "'s http_client \<Rightarrow> nat \<Rightarrow> 's bucket_ops_api" where
  "CEPH_ADMIN_BUCKET_OPS_API c e =
     \<lparr>getBucketProperties = at_ref (\<lambda>b t. io_bind (getCephAdminBucketProperties c e b t) (\<lambda>v. io_return (properties_of v))),
      getBucketPublicAccessBlock = at_ref (\<lambda>b t. getCephAdminBucketPublicAccessBlock c e b t),
      updateBucketPublicAccessBlock = (\<lambda>r p. at_ref (\<lambda>b t. void (updateCephAdminBucketPublicAccessBlock c e b (public_access_block_json p) t)) r),
      getBucketLifecycle = at_ref (\<lambda>b t. io_bind (getCephAdminBucketLifecycle c e b t) rules_of),
      putBucketLifecycle = (\<lambda>r rules. at_ref (\<lambda>b t. void (putCephAdminBucketLifecycle c e b rules t)) r),
      deleteBucketLifecycle = at_ref (\<lambda>b t. deleteCephAdminBucketLifecycle c e b t),
      getBucketCors = at_ref (\<lambda>b t. io_bind (getCephAdminBucketCors c e b t) rules_of),
      putBucketCors = (\<lambda>r rules. at_ref (\<lambda>b t. void (putCephAdminBucketCors c e b rules t)) r),
      deleteBucketCors = at_ref (\<lambda>b t. deleteCephAdminBucketCors c e b t),
      getBucketPolicy = at_ref (\<lambda>b t. io_bind (getCephAdminBucketPolicy c e b t) policy_of),
      putBucketPolicy = (\<lambda>r p. at_ref (\<lambda>b t. void (putCephAdminBucketPolicy c e b p t)) r),
      deleteBucketPolicy = at_ref (\<lambda>b t. deleteCephAdminBucketPolicy c e b t),
      getBucketLogging = at_ref (\<lambda>b t. getCephAdminBucketLogging c e b t),
      putBucketLogging = (\<lambda>r p. at_ref (\<lambda>b t. void (putCephAdminBucketLogging c e b p t)) r),
      deleteBucketLogging = at_ref (\<lambda>b t. deleteCephAdminBucketLogging c e b t),
      getBucketNotifications = at_ref (\<lambda>b t. io_bind (getCephAdminBucketNotifications c e b t) configuration_of),
      putBucketNotifications = (\<lambda>r p. at_ref (\<lambda>b t. void (putCephAdminBucketNotifications c e b p t)) r),
      deleteBucketNotifications = at_ref (\<lambda>b t. deleteCephAdminBucketNotifications c e b t),
      getBucketWebsite = at_ref (\<lambda>b t. getCephAdminBucketWebsite c e b t),
      getBucketEncryption = at_ref (\<lambda>b t. getCephAdminBucketEncryption c e b t),
      setBucketVersioning = (\<lambda>r enabled. at_ref (\<lambda>b t. setCephAdminBucketVersioning c e b enabled t) r),
      updateBucketObjectLock = (\<lambda>r p. at_ref (\<lambda>b t. void (updateCephAdminBucketObjectLock c e b (object_lock_json p) t)) r),
      updateBucketQuota = Some (\<lambda>r p. at_ref (\<lambda>b t. updateCephAdminBucketQuota c e b (quota_json p) t) r)\<rparr>"

end
