(* ===== verification/Bulk_Apply.thy ===== *)
theory Bulk_Apply
  imports Bucket_Api Bulk_Input Concurrency Notification_Merge
begin

text \<open>
  \<open>frontend/src/features/shared/bucketOpsBulkApply.ts\<close>: what a bulk operation does to one bucket,
  one definition for each branch of \<open>mutate\<close>, and
  \<open>frontend/src/features/shared/bucketOpsBulkExecution.ts\<close>: the result of a batch, computed from the
  settled results of the pool of \<open>Concurrency\<close>. Each branch reads the current configuration, works
  out the next one, and writes only when something changes.
\<close>

record bulk_options =
  opt_operation :: BulkOperation
  opt_prepared :: PreparedBucketOpsBulkInput
  opt_corsUpdateOnlyExisting :: bool
  opt_lifecycleUpdateOnlyExisting :: bool
  opt_policyUpdateOnlyExisting :: bool
  opt_quotaSkipConfigured :: bool

section \<open>Quota\<close>

definition next_quota :: "ParsedQuotaInput \<Rightarrow> BulkQuotaSnapshot \<Rightarrow> BulkQuotaSnapshot" where
  "next_quota q current =
     \<lparr>maxSizeBytes = (if applySize q then quota_maxSizeBytes q else maxSizeBytes current),
      maxObjects = (if applyObjects q then quota_maxObjects q else maxObjects current)\<rparr>"

definition quota_payload :: "ParsedQuotaInput \<Rightarrow> BulkQuotaSnapshot \<Rightarrow> BucketQuotaUpdate" where
  "quota_payload q current =
     (let nxt = next_quota q current;
          typed = (applySize q \<and> maxSizeValue q \<noteq> None) in
      \<lparr>qu_enabled = (maxSizeBytes nxt \<noteq> None \<or> maxObjects nxt \<noteq> None),
       max_size_gb = (case maxSizeBytes nxt of
           None \<Rightarrow> None | Some n \<Rightarrow> if typed then maxSizeValue q else Some (bytesToGiB n)),
       max_size_unit = (case maxSizeBytes nxt of
           None \<Rightarrow> None | Some n \<Rightarrow> if typed then Some (maxSizeUnit q) else Some GiB),
       max_objects = maxObjects nxt\<rparr>)"

definition apply_quota ::
  "'s bucket_ops_api \<Rightarrow> (string \<Rightarrow> ('s, BulkQuotaSnapshot) io) \<Rightarrow> bool \<Rightarrow>
   (string \<Rightarrow> BucketQuotaUpdate \<Rightarrow> ('s, unit) io) \<Rightarrow> ParsedQuotaInput \<Rightarrow> string \<Rightarrow> ('s, bool) io" where
  "apply_quota api fetchBucketQuota skipConfigured updateQuota q b =
     io_bind (fetchBucketQuota b) (\<lambda>current.
       if skipConfigured \<and> hasConfiguredQuota current then io_return False
       else if maxSizeBytes current = maxSizeBytes (next_quota q current)
               \<and> maxObjects current = maxObjects (next_quota q current) then io_return False
       else io_seq (updateQuota b (quota_payload q current)) (io_return True))"

section \<open>Block public access and versioning\<close>

definition apply_public_access_block ::
  "'s bucket_ops_api \<Rightarrow> bool \<Rightarrow> PublicAccessBlockOptionKey list \<Rightarrow> string \<Rightarrow> ('s, bool) io" where
  "apply_public_access_block api desiredEnabled targets b =
     io_bind (getBucketPublicAccessBlock api b) (\<lambda>v.
       let current = normalizePublicAccessBlockState (Some v);
           target = applyPublicAccessBlockTargets current desiredEnabled targets in
       if isPublicAccessBlockEquivalent current target then io_return False
       else io_seq (updateBucketPublicAccessBlock api b target) (io_return True))"

definition apply_versioning :: "'s bucket_ops_api \<Rightarrow> bool \<Rightarrow> string \<Rightarrow> ('s, bool) io" where
  "apply_versioning api desiredEnabled b =
     io_bind (getBucketProperties api b) (\<lambda>properties.
       if normalizeVersioningStatus (versioning_status properties) = Some desiredEnabled then io_return False
       else io_seq (setBucketVersioning api b desiredEnabled) (io_return True))"

section \<open>Rules and statements\<close>

definition apply_add_lifecycle ::
  "js_host \<Rightarrow> 's bucket_ops_api \<Rightarrow> bool \<Rightarrow> jrec list \<Rightarrow> string \<Rightarrow> ('s, bool) io" where
  "apply_add_lifecycle h api only rules b =
     io_bind (getBucketLifecycle api b) (\<lambda>existing.
       case mergeLifecycleRules h only existing rules of (nextRules, changes) \<Rightarrow>
         if changes = [] then io_return False
         else io_seq (putBucketLifecycle api b nextRules) (io_return True))"

text \<open>Which rules a deletion keeps.\<close>

definition keeps :: "string list \<Rightarrow> 'k list \<Rightarrow> string option \<Rightarrow> 'k list \<Rightarrow> bool" where
  "keeps ids types ruleId ruleTypes =
     (if ruleId \<noteq> None \<and> the ruleId \<in> set ids then False
      else if types = [] then True
      else \<not> (\<exists>t \<in> set ruleTypes. t \<in> set types))"

definition keeps_lifecycle :: "js_host \<Rightarrow> string list \<Rightarrow> LifecycleRuleTypeKey list \<Rightarrow> jrec \<Rightarrow> bool" where
  "keeps_lifecycle h ids types rule = keeps ids types (getLifecycleRuleId h rule) (getLifecycleRuleTypes rule)"

definition keeps_cors :: "js_host \<Rightarrow> string list \<Rightarrow> CorsRuleTypeKey list \<Rightarrow> jrec \<Rightarrow> bool" where
  "keeps_cors h ids types rule = keeps ids types (getLifecycleRuleId h rule) (getCorsRuleTypes h rule)"

definition keeps_statement :: "js_host \<Rightarrow> string list \<Rightarrow> PolicyRuleTypeKey list \<Rightarrow> jrec \<Rightarrow> bool" where
  "keeps_statement h ids types statement =
     keeps ids types (getPolicyStatementSid h statement) (getPolicyStatementTypes h statement)"

definition apply_delete_lifecycle ::
  "js_host \<Rightarrow> 's bucket_ops_api \<Rightarrow> string list \<Rightarrow> LifecycleRuleTypeKey list \<Rightarrow> string \<Rightarrow> ('s, bool) io" where
  "apply_delete_lifecycle h api ids types b =
     io_bind (getBucketLifecycle api b) (\<lambda>existing.
       let nextRules = filter (keeps_lifecycle h ids types) existing in
       if length nextRules = length existing then io_return False
       else io_seq (if nextRules = [] then deleteBucketLifecycle api b else putBucketLifecycle api b nextRules)
              (io_return True))"

definition apply_add_notifications ::
  "js_host \<Rightarrow> 's bucket_ops_api \<Rightarrow> jrec \<Rightarrow> string \<Rightarrow> ('s, bool) io" where
  "apply_add_notifications h api incoming b =
     io_bind (getBucketNotifications api b) (\<lambda>existing.
       case mergeNotificationConfigurations h (JObj existing) (JObj incoming) of (configuration, changes) \<Rightarrow>
         if changes = [] then io_return False
         else io_seq (putBucketNotifications api b configuration) (io_return True))"

definition apply_delete_notifications ::
  "js_host \<Rightarrow> 's bucket_ops_api \<Rightarrow> string list \<Rightarrow> NotificationConfigurationTypeKey list \<Rightarrow> string \<Rightarrow>
   ('s, bool) io" where
  "apply_delete_notifications h api ids types b =
     io_bind (getBucketNotifications api b) (\<lambda>existing.
       case deleteNotificationConfigurations h (JObj existing) ids types of (configuration, changes) \<Rightarrow>
         if changes = [] then io_return False
         else io_seq
           (if isNotificationConfigurationEmpty (JObj configuration) then deleteBucketNotifications api b
            else putBucketNotifications api b configuration)
           (io_return True))"

definition apply_add_cors ::
  "js_host \<Rightarrow> 's bucket_ops_api \<Rightarrow> bool \<Rightarrow> jrec list \<Rightarrow> string \<Rightarrow> ('s, bool) io" where
  "apply_add_cors h api only rules b =
     io_bind (getBucketCors api b) (\<lambda>existing.
       case mergeCorsRules h only existing rules of (nextRules, changes) \<Rightarrow>
         if changes = [] then io_return False
         else io_seq (putBucketCors api b nextRules) (io_return True))"

definition apply_delete_cors ::
  "js_host \<Rightarrow> 's bucket_ops_api \<Rightarrow> string list \<Rightarrow> CorsRuleTypeKey list \<Rightarrow> string \<Rightarrow> ('s, bool) io" where
  "apply_delete_cors h api ids types b =
     io_bind (getBucketCors api b) (\<lambda>existing.
       let nextRules = filter (keeps_cors h ids types) existing in
       if length nextRules = length existing then io_return False
       else io_seq (if nextRules = [] then deleteBucketCors api b else putBucketCors api b nextRules)
              (io_return True))"

text \<open>\<open>Array.isArray(policy.Statement) ? policy.Statement : []\<close>, whose elements are objects.\<close>

definition policy_statements :: "jrec \<Rightarrow> jrec list" where
  "policy_statements policy = map as_rec (as_array (jprop policy ''Statement''))"

definition with_statements :: "jrec \<Rightarrow> jrec list \<Rightarrow> jrec" where
  "with_statements policy statements = AList.update ''Statement'' (JArr (map JObj statements)) policy"

definition apply_add_policy ::
  "js_host \<Rightarrow> 's bucket_ops_api \<Rightarrow> bool \<Rightarrow> jrec list \<Rightarrow> jrec option \<Rightarrow> string \<Rightarrow> ('s, bool) io" where
  "apply_add_policy h api only statements parsed b =
     io_bind (getBucketPolicy api b) (\<lambda>policy.
       let existingPolicy = (case policy of None \<Rightarrow> [] | Some p \<Rightarrow> p) in
       case mergePolicyStatements h only (policy_statements existingPolicy) statements of
         (nextStatements, changes) \<Rightarrow>
           if changes = [] then io_return False
           else io_seq
             (putBucketPolicy api b
               (with_statements
                 (if existingPolicy \<noteq> [] then existingPolicy else (case parsed of None \<Rightarrow> [] | Some p \<Rightarrow> p))
                 nextStatements))
             (io_return True))"

definition apply_delete_policy ::
  "js_host \<Rightarrow> 's bucket_ops_api \<Rightarrow> string list \<Rightarrow> PolicyRuleTypeKey list \<Rightarrow> string \<Rightarrow> ('s, bool) io" where
  "apply_delete_policy h api ids types b =
     io_bind (getBucketPolicy api b) (\<lambda>policy.
       let existingPolicy = (case policy of None \<Rightarrow> [] | Some p \<Rightarrow> p);
           existing = policy_statements existingPolicy;
           nextStatements = filter (keeps_statement h ids types) existing in
       if length nextStatements = length existing then io_return False
       else io_seq
         (if nextStatements = [] then deleteBucketPolicy api b
          else putBucketPolicy api b (with_statements existingPolicy nextStatements))
         (io_return True))"

section \<open>One bucket and the batch\<close>

definition apply_bucket ::
  "js_host \<Rightarrow> 's bucket_ops_api \<Rightarrow> (string \<Rightarrow> ('s, BulkQuotaSnapshot) io) \<Rightarrow> bulk_options \<Rightarrow> string \<Rightarrow>
   ('s, bool) io" where
  "apply_bucket h api fetchBucketQuota opts b =
     (let p = opt_prepared opts; op = opt_operation opts in
      case op of
        SetQuota \<Rightarrow> (case (parsedQuota p, updateBucketQuota api) of
          (Some q, Some update) \<Rightarrow> apply_quota api fetchBucketQuota (opt_quotaSkipConfigured opts) update q b
        | _ \<Rightarrow> io_return False)
      | AddPublicAccessBlock \<Rightarrow> (case publicAccessBlockTargets p of
          Some targets \<Rightarrow> apply_public_access_block api True targets b | None \<Rightarrow> io_return False)
      | RemovePublicAccessBlock \<Rightarrow> (case publicAccessBlockTargets p of
          Some targets \<Rightarrow> apply_public_access_block api False targets b | None \<Rightarrow> io_return False)
      | EnableVersioning \<Rightarrow> apply_versioning api True b
      | DisableVersioning \<Rightarrow> apply_versioning api False b
      | AddLifecycle \<Rightarrow> (case parsedRules p of
          Some rules \<Rightarrow> apply_add_lifecycle h api (opt_lifecycleUpdateOnlyExisting opts) rules b
        | None \<Rightarrow> io_return False)
      | DeleteLifecycle \<Rightarrow> (case (deleteIds p, deleteTypes p) of
          (Some ids, Some types) \<Rightarrow> apply_delete_lifecycle h api ids types b | _ \<Rightarrow> io_return False)
      | AddNotifications \<Rightarrow> (case parsedNotificationConfiguration p of
          Some c \<Rightarrow> apply_add_notifications h api c b | None \<Rightarrow> io_return False)
      | DeleteNotifications \<Rightarrow> (case (deleteNotificationIds p, deleteNotificationTypes p) of
          (Some ids, Some types) \<Rightarrow> apply_delete_notifications h api ids types b | _ \<Rightarrow> io_return False)
      | AddCors \<Rightarrow> (case parsedCorsRules p of
          Some rules \<Rightarrow> apply_add_cors h api (opt_corsUpdateOnlyExisting opts) rules b
        | None \<Rightarrow> io_return False)
      | DeleteCors \<Rightarrow> (case (deleteCorsIds p, deleteCorsTypes p) of
          (Some ids, Some types) \<Rightarrow> apply_delete_cors h api ids types b | _ \<Rightarrow> io_return False)
      | AddPolicy \<Rightarrow> (case parsedPolicyStatements p of
          Some statements \<Rightarrow>
            apply_add_policy h api (opt_policyUpdateOnlyExisting opts) statements (parsedPolicy p) b
        | None \<Rightarrow> io_return False)
      | DeletePolicy \<Rightarrow> (case (deletePolicyIds p, deletePolicyTypes p) of
          (Some ids, Some types) \<Rightarrow> apply_delete_policy h api ids types b | _ \<Rightarrow> io_return False)
      | _ \<Rightarrow> io_return False)"

record BucketMutationBatchResult =
  changedCount :: nat
  unchangedCount :: nat
  failedCount :: nat
  batch_error :: "string option"
  summary :: string

definition is_changed :: "(bool, js_error) settled \<Rightarrow> bool" where
  "is_changed r = (case r of Fulfilled c \<Rightarrow> c | Rejected _ \<Rightarrow> False)"

definition is_unchanged :: "(bool, js_error) settled \<Rightarrow> bool" where
  "is_unchanged r = (case r of Fulfilled c \<Rightarrow> \<not> c | Rejected _ \<Rightarrow> False)"

definition is_rejected :: "('r, 'e) settled \<Rightarrow> bool" where
  "is_rejected r = (case r of Fulfilled _ \<Rightarrow> False | Rejected _ \<Rightarrow> True)"

text \<open>
  The calls of \<open>onProgress\<close>, one for each notification: the number of completed items, the total,
  and the number of failures so far.
\<close>

definition batch_progress :: "nat \<Rightarrow> ('r, 'e) settled list \<Rightarrow> (nat \<times> nat \<times> nat) list" where
  "batch_progress n notices =
     map (\<lambda>k. (min n k, n, length (filter is_rejected (take k notices)))) [1..<Suc (length notices)]"

text \<open>The result of the batch from the settled results and the notifications of the pool.\<close>

definition runBucketMutationBatch ::
  "(bool, js_error) settled list \<Rightarrow> (bool, js_error) settled list \<Rightarrow> BucketMutationBatchResult" where
  "runBucketMutationBatch res notices =
     (let failed = length (filter is_rejected notices);
          c = length (filter is_changed res);
          u = length (filter is_unchanged res) in
      \<lparr>changedCount = c, unchangedCount = u, failedCount = failed,
       batch_error = (if failed > 0 then Some (nat_string failed @ '' bucket(s) failed to update.'') else None),
       summary = ''Updated '' @ nat_string c @ '' bucket'' @ (if c \<noteq> 1 then ''s'' else [])
         @ (if u > 0 then '' ('' @ nat_string u @ '' unchanged)'' else []) @ ''.''\<rparr>)"

end
