(* ===== verification/Bulk_Preview.thy ===== *)
theory Bulk_Preview
  imports Bulk_Apply
begin

text \<open>
  \<open>frontend/src/features/shared/bucketOpsBulkPreview.ts\<close>: what the preview of a bulk operation shows
  for one bucket, and \<open>frontend/src/features/shared/bucketOpsBulkPreviewExecution.ts\<close>: the items of a
  batch of previews. The properties relate the preview to the operation of \<open>Bulk_Apply\<close>.
\<close>

section \<open>Lines and items\<close>

definition plain_line :: "string \<Rightarrow> BulkPreviewLine" where
  "plain_line t = \<lparr>line_text = t, tone = None\<rparr>"

definition toned_line :: "BulkPreviewTone \<Rightarrow> bool \<Rightarrow> string \<Rightarrow> BulkPreviewLine" where
  "toned_line tn on t = \<lparr>line_text = t, tone = (if on then Some tn else None)\<rparr>"

definition preview_item ::
  "string \<Rightarrow> bool \<Rightarrow> BulkPreviewLine list \<Rightarrow> BulkPreviewLine list \<Rightarrow> BulkPreviewItem" where
  "preview_item b ch bef aft = \<lparr>bucket = b, before = bef, after = aft, changed = ch, item_error = None\<rparr>"

lemma changed_preview_item [simp]: "changed (preview_item b ch bef aft) = ch"
  by (simp add: preview_item_def)

section \<open>Versioning, block public access and quota\<close>

definition buildVersioningPreview :: "'s bucket_ops_api \<Rightarrow> bool \<Rightarrow> string \<Rightarrow> ('s, BulkPreviewItem) io" where
  "buildVersioningPreview api desiredEnabled b =
     io_bind (getBucketProperties api b) (\<lambda>properties.
       let currentStatus = formatVersioningStatus (versioning_status properties);
           currentEnabled = normalizeVersioningStatus (versioning_status properties);
           ch = (currentEnabled = None \<or> currentEnabled \<noteq> Some desiredEnabled) in
       io_return (preview_item b ch
         [toned_line Removed (ch \<and> currentEnabled \<noteq> None) currentStatus]
         [toned_line Added ch
            (if ch then (if desiredEnabled then ''Enabled'' else ''Suspended'') else currentStatus)]))"

definition buildPublicAccessBlockPreview ::
  "'s bucket_ops_api \<Rightarrow> bool \<Rightarrow> PublicAccessBlockOptionKey list option \<Rightarrow> string \<Rightarrow>
   ('s, BulkPreviewItem) io" where
  "buildPublicAccessBlockPreview api desiredEnabled targets b =
     io_bind (getBucketPublicAccessBlock api b) (\<lambda>v.
       let current = normalizePublicAccessBlockState (Some v);
           target = applyPublicAccessBlockTargets current desiredEnabled
             (case targets of None \<Rightarrow> [] | Some ts \<Rightarrow> ts);
           ch = (\<not> isPublicAccessBlockEquivalent current target);
           flags = (\<lambda>tn state. map (\<lambda>(key, label).
             toned_line tn (pab_get key current \<noteq> pab_get key target)
               (label @ '': '' @ formatPublicAccessBlockFlag (pab_get key state))) PUBLIC_ACCESS_BLOCK_OPTIONS) in
       io_return (preview_item b ch
         (toned_line Removed ch (''State: '' @ formatPublicAccessBlockState current) # flags Removed current)
         (toned_line Added ch (''State: '' @ formatPublicAccessBlockState target) # flags Added target)))"

definition quota_size_text :: "js_host \<Rightarrow> rat option \<Rightarrow> string" where
  "quota_size_text h v = (case v of None \<Rightarrow> ''Not set'' | Some n \<Rightarrow> formatBytes h (Some n))"

definition quota_objects_text :: "js_host \<Rightarrow> rat option \<Rightarrow> string" where
  "quota_objects_text h v = (case v of None \<Rightarrow> ''Not set'' | Some n \<Rightarrow> formatNumber h (Some n))"

definition buildQuotaPreview ::
  "js_host \<Rightarrow> (string \<Rightarrow> ('s, BulkQuotaSnapshot) io) \<Rightarrow> bool \<Rightarrow> ParsedQuotaInput option \<Rightarrow> string \<Rightarrow>
   ('s, BulkPreviewItem) io" where
  "buildQuotaPreview h fetchBucketQuota skipConfigured quota b =
     (case quota of
        None \<Rightarrow> io_return (preview_item b False [] [])
      | Some q \<Rightarrow>
          io_bind (fetchBucketQuota b) (\<lambda>current.
            let size = (\<lambda>n. ''Size: '' @ quota_size_text h n);
                objs = (\<lambda>n. ''Objects: '' @ quota_objects_text h n);
                unchanged = [plain_line (size (maxSizeBytes current)), plain_line (objs (maxObjects current))];
                nxt = next_quota q current;
                sizeChanged = (maxSizeBytes current \<noteq> maxSizeBytes nxt);
                objectsChanged = (maxObjects current \<noteq> maxObjects nxt) in
            if skipConfigured \<and> hasConfiguredQuota current
            then io_return (preview_item b False unchanged
                   (unchanged @ [plain_line ''(existing quota preserved)'']))
            else io_return (preview_item b (sizeChanged \<or> objectsChanged)
                   [toned_line Removed sizeChanged (size (maxSizeBytes current)),
                    toned_line Removed objectsChanged (objs (maxObjects current))]
                   [toned_line Added sizeChanged (size (maxSizeBytes nxt)),
                    toned_line Added objectsChanged (objs (maxObjects nxt))])))"

section \<open>Rules and statements\<close>

text \<open>
  The lines of the rules before and after a merge; \<open>none_text\<close> stands for an empty list. A change
  of the log marks the rule at its index.
\<close>

definition replaced_at :: "rule_change list \<Rightarrow> nat \<Rightarrow> bool" where
  "replaced_at changes i = (\<exists>c \<in> set changes. rc_action c = Replace \<and> rc_index c = i)"

definition touched_at :: "rule_change list \<Rightarrow> nat \<Rightarrow> bool" where
  "touched_at changes i =
     (\<exists>c \<in> set changes. (rc_action c = Replace \<or> rc_action c = Add) \<and> rc_index c = i)"

definition rule_lines :: "(jrec \<Rightarrow> string) \<Rightarrow> string \<Rightarrow> BulkPreviewTone \<Rightarrow> (nat \<Rightarrow> bool) \<Rightarrow> jrec list \<Rightarrow>
    BulkPreviewLine list" where
  "rule_lines fmt none_text tn marked rules =
     (if rules = [] then [plain_line none_text]
      else map (\<lambda>(i, r). toned_line tn (marked i) (fmt r)) (enumerate 0 rules))"

definition merge_item :: "(jrec \<Rightarrow> string) \<Rightarrow> string \<Rightarrow> string \<Rightarrow> jrec list \<Rightarrow> merge_state \<Rightarrow> BulkPreviewItem" where
  "merge_item fmt none_text b existing st =
     (case st of (nextRules, changes) \<Rightarrow>
       preview_item b (changes \<noteq> [])
         (rule_lines fmt none_text Removed (replaced_at changes) existing)
         (rule_lines fmt none_text Added (touched_at changes) nextRules))"

datatype rule_kind = LifecycleKind | CorsKind

definition buildRuleMergePreview ::
  "js_host \<Rightarrow> 's bucket_ops_api \<Rightarrow> bulk_options \<Rightarrow> string \<Rightarrow> rule_kind \<Rightarrow> ('s, BulkPreviewItem) io" where
  "buildRuleMergePreview h api opts b kind =
     (let p = opt_prepared opts; list = (\<lambda>v. case v of None \<Rightarrow> [] | Some rs \<Rightarrow> rs) in
      case kind of
        LifecycleKind \<Rightarrow> io_bind (getBucketLifecycle api b) (\<lambda>existing.
          io_return (merge_item (formatLifecycleRule h) ''(no rules)'' b existing
            (mergeLifecycleRules h (opt_lifecycleUpdateOnlyExisting opts) existing (list (parsedRules p)))))
      | CorsKind \<Rightarrow> io_bind (getBucketCors api b) (\<lambda>existing.
          io_return (merge_item (formatCorsRule h) ''(no rules)'' b existing
            (mergeCorsRules h (opt_corsUpdateOnlyExisting opts) existing (list (parsedCorsRules p))))))"

text \<open>
  The rules a deletion removes: the identifier is listed, or some type is listed; absent sets
  (\<open>ids?.has\<close>, \<open>types?.size ?? 0\<close>) list nothing.
\<close>

definition listed_for_removal :: "string list option \<Rightarrow> 'k list option \<Rightarrow> string option \<Rightarrow> 'k list \<Rightarrow> bool" where
  "listed_for_removal ids types ruleId ruleTypes \<longleftrightarrow>
     (ruleId \<noteq> None \<and> (case ids of None \<Rightarrow> False | Some is \<Rightarrow> the ruleId \<in> set is))
     \<or> (case types of None \<Rightarrow> False | Some ts \<Rightarrow> ts \<noteq> [] \<and> (\<exists>t \<in> set ruleTypes. t \<in> set ts))"

definition delete_item :: "(jrec \<Rightarrow> string) \<Rightarrow> string \<Rightarrow> string \<Rightarrow> (jrec \<Rightarrow> bool) \<Rightarrow> jrec list \<Rightarrow>
    BulkPreviewItem" where
  "delete_item fmt none_text b removed existing =
     (let removedIndices = map fst (filter (\<lambda>(i, r). removed r) (enumerate 0 existing));
          nextRules = map snd (filter (\<lambda>(i, r). i \<notin> set removedIndices) (enumerate 0 existing)) in
      preview_item b (removedIndices \<noteq> [])
        (rule_lines fmt none_text Removed (\<lambda>i. i \<in> set removedIndices) existing)
        (if nextRules = [] then [plain_line none_text] else map (\<lambda>r. plain_line (fmt r)) nextRules))"

definition buildRuleDeletePreview ::
  "js_host \<Rightarrow> 's bucket_ops_api \<Rightarrow> bulk_options \<Rightarrow> string \<Rightarrow> rule_kind \<Rightarrow> ('s, BulkPreviewItem) io" where
  "buildRuleDeletePreview h api opts b kind =
     (let p = opt_prepared opts in
      case kind of
        LifecycleKind \<Rightarrow> io_bind (getBucketLifecycle api b) (\<lambda>existing.
          io_return (delete_item (formatLifecycleRule h) ''(no rules)'' b
            (\<lambda>r. listed_for_removal (deleteIds p) (deleteTypes p) (getLifecycleRuleId h r) (getLifecycleRuleTypes r))
            existing))
      | CorsKind \<Rightarrow> io_bind (getBucketCors api b) (\<lambda>existing.
          io_return (delete_item (formatCorsRule h) ''(no rules)'' b
            (\<lambda>r. listed_for_removal (deleteCorsIds p) (deleteCorsTypes p) (getLifecycleRuleId h r) (getCorsRuleTypes h r))
            existing)))"

definition buildNotificationsPreview ::
  "js_host \<Rightarrow> 's bucket_ops_api \<Rightarrow> bulk_options \<Rightarrow> string \<Rightarrow> bool \<Rightarrow> ('s, BulkPreviewItem) io" where
  "buildNotificationsPreview h api opts b deleting =
     (let p = opt_prepared opts in
      io_bind (getBucketNotifications api b) (\<lambda>current.
        let result =
              (if deleting
               then deleteNotificationConfigurations h (JObj current)
                 (case deleteNotificationIds p of None \<Rightarrow> [] | Some is \<Rightarrow> is)
                 (case deleteNotificationTypes p of None \<Rightarrow> [] | Some ts \<Rightarrow> ts)
               else mergeNotificationConfigurations h (JObj current)
                 (JObj (case parsedNotificationConfiguration p of None \<Rightarrow> [] | Some c \<Rightarrow> c)));
            ch = (snd result \<noteq> []) in
        io_return (preview_item b ch
          [toned_line Removed ch (formatNotificationConfiguration h (JObj current))]
          [toned_line Added ch (formatNotificationConfiguration h (JObj (fst result)))])))"

definition buildPolicyMergePreview ::
  "js_host \<Rightarrow> 's bucket_ops_api \<Rightarrow> bulk_options \<Rightarrow> string \<Rightarrow> ('s, BulkPreviewItem) io" where
  "buildPolicyMergePreview h api opts b =
     io_bind (getBucketPolicy api b) (\<lambda>policy.
       let existing = policy_statements (case policy of None \<Rightarrow> [] | Some p \<Rightarrow> p) in
       io_return (merge_item (formatPolicyRule h) ''(no statements)'' b existing
         (mergePolicyStatements h (opt_policyUpdateOnlyExisting opts) existing
           (case parsedPolicyStatements (opt_prepared opts) of None \<Rightarrow> [] | Some ss \<Rightarrow> ss))))"

definition buildPolicyDeletePreview ::
  "js_host \<Rightarrow> 's bucket_ops_api \<Rightarrow> bulk_options \<Rightarrow> string \<Rightarrow> ('s, BulkPreviewItem) io" where
  "buildPolicyDeletePreview h api opts b =
     io_bind (getBucketPolicy api b) (\<lambda>policy.
       let existing = policy_statements (case policy of None \<Rightarrow> [] | Some p \<Rightarrow> p);
           p = opt_prepared opts in
       io_return (delete_item (formatPolicyRule h) ''(no statements)'' b
         (\<lambda>s. listed_for_removal (deletePolicyIds p) (deletePolicyTypes p) (getPolicyStatementSid h s)
                (getPolicyStatementTypes h s))
         existing))"

section \<open>One bucket and the batch\<close>

definition preview_bucket ::
  "js_host \<Rightarrow> 's bucket_ops_api \<Rightarrow> (string \<Rightarrow> ('s, BulkQuotaSnapshot) io) \<Rightarrow> bulk_options \<Rightarrow> string \<Rightarrow>
   ('s, BulkPreviewItem) io" where
  "preview_bucket h api fetchBucketQuota opts b =
     (let p = opt_prepared opts in
      case opt_operation opts of
        SetQuota \<Rightarrow> buildQuotaPreview h fetchBucketQuota (opt_quotaSkipConfigured opts) (parsedQuota p) b
      | AddPublicAccessBlock \<Rightarrow> buildPublicAccessBlockPreview api True (publicAccessBlockTargets p) b
      | RemovePublicAccessBlock \<Rightarrow> buildPublicAccessBlockPreview api False (publicAccessBlockTargets p) b
      | EnableVersioning \<Rightarrow> buildVersioningPreview api True b
      | DisableVersioning \<Rightarrow> buildVersioningPreview api False b
      | AddLifecycle \<Rightarrow> buildRuleMergePreview h api opts b LifecycleKind
      | DeleteLifecycle \<Rightarrow> buildRuleDeletePreview h api opts b LifecycleKind
      | AddNotifications \<Rightarrow> buildNotificationsPreview h api opts b False
      | DeleteNotifications \<Rightarrow> buildNotificationsPreview h api opts b True
      | AddCors \<Rightarrow> buildRuleMergePreview h api opts b CorsKind
      | DeleteCors \<Rightarrow> buildRuleDeletePreview h api opts b CorsKind
      | AddPolicy \<Rightarrow> buildPolicyMergePreview h api opts b
      | DeletePolicy \<Rightarrow> buildPolicyDeletePreview h api opts b
      | _ \<Rightarrow> io_return (preview_item b False [plain_line ''-''] [plain_line ''-'']))"

definition preview_failure :: "string \<Rightarrow> string \<Rightarrow> BulkPreviewItem" where
  "preview_failure b e = \<lparr>bucket = b, before = [plain_line ''Preview failed.''],
     after = [plain_line ''Preview failed.''], changed = False, item_error = Some e\<rparr>"

text \<open>
  \<open>extract\<close> stands for \<open>extractApiError(reason, "Unexpected error")\<close>; the results are those of the
  settled pool, one for every item.
\<close>

definition runBucketPreviewBatch ::
  "(js_error \<Rightarrow> string) \<Rightarrow> ('i \<Rightarrow> string \<Rightarrow> BulkPreviewItem) \<Rightarrow> 'i list \<Rightarrow>
   (BulkPreviewItem, js_error) settled list \<Rightarrow> BulkPreviewItem list" where
  "runBucketPreviewBatch extract buildFailure items res =
     map (\<lambda>(item, r). case r of Fulfilled v \<Rightarrow> v | Rejected e \<Rightarrow> buildFailure item (extract e)) (zip items res)"

section \<open>The preview and the operation\<close>

text \<open>
  A preview agrees with an operation when both fail on the same read, the operation writes exactly
  when the preview announces a change, and otherwise leaves the state as the read left it.
\<close>

definition agrees :: "('s, BulkPreviewItem) io \<Rightarrow> ('s, bool) io \<Rightarrow> bool" where
  "agrees pv ap \<longleftrightarrow> (\<forall>s. case pv s of
     (Inl e, t) \<Rightarrow> ap s = (Inl e, t)
   | (Inr item, t) \<Rightarrow>
       if changed item then \<exists>m :: ('s, unit) io. ap s = io_seq m (io_return True) t
       else ap s = (Inr False, t))"

lemma agrees_read:
  assumes "\<And>x. if changed (item x) then \<exists>m :: ('s, unit) io. f x = io_seq m (io_return True) else f x = io_return False"
  shows "agrees (io_bind get (\<lambda>x. io_return (item x))) (io_bind get f)"
  unfolding agrees_def
proof (intro allI)
  fix s
  obtain r t where g: "get s = (r, t)" by fastforce
  show "case io_bind get (\<lambda>x. io_return (item x)) s of
     (Inl e, t) \<Rightarrow> io_bind get f s = (Inl e, t)
   | (Inr item, t) \<Rightarrow>
       if changed item then \<exists>m :: ('s, unit) io. io_bind get f s = io_seq m (io_return True) t
       else io_bind get f s = (Inr False, t)"
  proof (cases r)
    case (Inr x)
    then show ?thesis using g assms [of x] by (cases "changed (item x)") (auto simp: io_bind_apply)
  qed (use g in \<open>simp add: io_bind_apply\<close>)
qed

lemma agrees_unchanged: "\<not> changed item \<Longrightarrow> agrees (io_return item) (io_return False)"
  by (simp add: agrees_def)

lemma agreesD:
  fixes pv :: "('s, BulkPreviewItem) io"
  assumes "agrees pv ap"
  shows "pv s = (Inl e, t) \<Longrightarrow> ap s = (Inl e, t)"
    and "pv s = (Inr item, t) \<Longrightarrow> \<not> changed item \<Longrightarrow> ap s = (Inr False, t)"
    and "pv s = (Inr item, t) \<Longrightarrow> ap s = (Inr c, u) \<Longrightarrow> c = changed item"
proof -
  have a: "case pv s of (Inl e, t) \<Rightarrow> ap s = (Inl e, t)
     | (Inr item, t) \<Rightarrow> if changed item then \<exists>m :: ('s, unit) io. ap s = io_seq m (io_return True) t
         else ap s = (Inr False, t)"
    using assms unfolding agrees_def by (rule spec)
  show "pv s = (Inl e, t) \<Longrightarrow> ap s = (Inl e, t)"
    and "pv s = (Inr item, t) \<Longrightarrow> \<not> changed item \<Longrightarrow> ap s = (Inr False, t)"
    using a by simp_all
  have "io_seq m (io_return True) t = (Inr c, u) \<Longrightarrow> c" for m :: "('s, unit) io"
    by (simp add: io_seq_def io_bind_Inr)
  then show "pv s = (Inr item, t) \<Longrightarrow> ap s = (Inr c, u) \<Longrightarrow> c = changed item"
    using a by (auto split: if_splits)
qed

lemma changed_merge_item [simp]: "changed (merge_item fmt n b ex st) \<longleftrightarrow> snd st \<noteq> []"
  by (simp add: merge_item_def case_prod_unfold)

lemma changed_delete_item [simp]:
  "changed (delete_item fmt n b removed ex) \<longleftrightarrow> (\<exists>r \<in> set ex. removed r)"
proof -
  have "(\<exists>x \<in> set (enumerate k ex). removed (snd x)) \<longleftrightarrow> (\<exists>r \<in> set ex. removed r)" for k
    by (induction ex arbitrary: k) auto
  then show ?thesis by (auto simp: delete_item_def filter_empty_conv case_prod_unfold Let_def)
qed

lemma listed_not_kept:
  "listed_for_removal (Some ids) (Some types) i ts \<longleftrightarrow> \<not> keeps ids types i ts"
  by (auto simp: listed_for_removal_def keeps_def)

lemma filter_same_length: "length (filter p xs) = length xs \<longleftrightarrow> (\<forall>x \<in> set xs. p x)"
proof (induction xs)
  case (Cons x xs)
  then show ?case using length_filter_le [of p xs] by (auto simp del: length_filter_le)
qed simp

lemma agrees_versioning: "agrees (buildVersioningPreview api d b) (apply_versioning api d b)"
  unfolding buildVersioningPreview_def apply_versioning_def Let_def
  by (rule agrees_read) auto

lemma agrees_public_access_block:
  "agrees (buildPublicAccessBlockPreview api d (Some ts) b) (apply_public_access_block api d ts b)"
  unfolding buildPublicAccessBlockPreview_def apply_public_access_block_def Let_def
  by (rule agrees_read) auto

lemma agrees_quota:
  "agrees (buildQuotaPreview h fetch skip (Some q) b) (apply_quota api fetch skip update q b)"
proof -
  let ?item = "\<lambda>current.
    let size = (\<lambda>n. ''Size: '' @ quota_size_text h n);
        objs = (\<lambda>n. ''Objects: '' @ quota_objects_text h n);
        unchanged = [plain_line (size (maxSizeBytes current)), plain_line (objs (maxObjects current))];
        nxt = next_quota q current;
        sizeChanged = (maxSizeBytes current \<noteq> maxSizeBytes nxt);
        objectsChanged = (maxObjects current \<noteq> maxObjects nxt) in
    if skip \<and> hasConfiguredQuota current
    then preview_item b False unchanged (unchanged @ [plain_line ''(existing quota preserved)''])
    else preview_item b (sizeChanged \<or> objectsChanged)
           [toned_line Removed sizeChanged (size (maxSizeBytes current)),
            toned_line Removed objectsChanged (objs (maxObjects current))]
           [toned_line Added sizeChanged (size (maxSizeBytes nxt)),
            toned_line Added objectsChanged (objs (maxObjects nxt))]"
  have "buildQuotaPreview h fetch skip (Some q) b = io_bind (fetch b) (\<lambda>current. io_return (?item current))"
    by (simp add: buildQuotaPreview_def Let_def if_distrib [of io_return])
  moreover have "agrees (io_bind (fetch b) (\<lambda>current. io_return (?item current))) (apply_quota api fetch skip update q b)"
    unfolding apply_quota_def by (rule agrees_read) (auto simp: Let_def)
  ultimately show ?thesis by simp
qed

lemma agrees_notifications:
  assumes "parsedNotificationConfiguration (opt_prepared opts) = Some c"
  shows "agrees (buildNotificationsPreview h api opts b False) (apply_add_notifications h api c b)"
  unfolding buildNotificationsPreview_def apply_add_notifications_def Let_def assms
  by (rule agrees_read) (auto simp: case_prod_unfold)

lemma agrees_delete_notifications:
  assumes "deleteNotificationIds (opt_prepared opts) = Some ids"
    and "deleteNotificationTypes (opt_prepared opts) = Some types"
  shows "agrees (buildNotificationsPreview h api opts b True) (apply_delete_notifications h api ids types b)"
  unfolding buildNotificationsPreview_def apply_delete_notifications_def Let_def assms
  by (rule agrees_read) (auto simp: case_prod_unfold)

lemma agrees_add_rules:
  "parsedRules (opt_prepared opts) = Some rules \<Longrightarrow>
     agrees (buildRuleMergePreview h api opts b LifecycleKind)
       (apply_add_lifecycle h api (opt_lifecycleUpdateOnlyExisting opts) rules b)"
  "parsedCorsRules (opt_prepared opts) = Some rules \<Longrightarrow>
     agrees (buildRuleMergePreview h api opts b CorsKind)
       (apply_add_cors h api (opt_corsUpdateOnlyExisting opts) rules b)"
  "parsedPolicyStatements (opt_prepared opts) = Some rules \<Longrightarrow>
     agrees (buildPolicyMergePreview h api opts b)
       (apply_add_policy h api (opt_policyUpdateOnlyExisting opts) rules parsed b)"
  unfolding buildRuleMergePreview_def apply_add_lifecycle_def apply_add_cors_def buildPolicyMergePreview_def
    apply_add_policy_def Let_def
  by (simp_all, (rule agrees_read; auto simp: case_prod_unfold)+)

lemma agrees_delete_rules:
  "deleteIds (opt_prepared opts) = Some ids \<Longrightarrow> deleteTypes (opt_prepared opts) = Some ltypes \<Longrightarrow>
     agrees (buildRuleDeletePreview h api opts b LifecycleKind) (apply_delete_lifecycle h api ids ltypes b)"
  "deleteCorsIds (opt_prepared opts) = Some ids \<Longrightarrow> deleteCorsTypes (opt_prepared opts) = Some ctypes \<Longrightarrow>
     agrees (buildRuleDeletePreview h api opts b CorsKind) (apply_delete_cors h api ids ctypes b)"
  "deletePolicyIds (opt_prepared opts) = Some ids \<Longrightarrow> deletePolicyTypes (opt_prepared opts) = Some ptypes \<Longrightarrow>
     agrees (buildPolicyDeletePreview h api opts b) (apply_delete_policy h api ids ptypes b)"
  unfolding buildRuleDeletePreview_def apply_delete_lifecycle_def apply_delete_cors_def buildPolicyDeletePreview_def
    apply_delete_policy_def Let_def
  by (simp_all, (rule agrees_read;
      auto simp: listed_not_kept filter_same_length keeps_lifecycle_def keeps_cors_def keeps_statement_def)+)

lemma prepared_delete_criteria:
  "(case delete_criteria h options input msg of Inl e \<Rightarrow> Inl e | Inr (ids, types) \<Rightarrow> Inr (f ids types)) = Inr p
     \<Longrightarrow> \<exists>ids types. p = f ids types"
  by (auto simp: delete_criteria_def Let_def split: if_splits sum.splits)

lemmas agrees_operations =
  agrees_quota agrees_public_access_block agrees_versioning agrees_add_rules agrees_delete_rules
  agrees_notifications agrees_delete_notifications

lemma prepared_fields:
  assumes "prepareBucketOpsBulkInput h input = Inr p"
  shows "in_operation input = SetQuota \<Longrightarrow> parsedQuota p \<noteq> None"
    and "in_operation input = AddPublicAccessBlock \<Longrightarrow> publicAccessBlockTargets p \<noteq> None"
    and "in_operation input = RemovePublicAccessBlock \<Longrightarrow> publicAccessBlockTargets p \<noteq> None"
    and "in_operation input = AddLifecycle \<Longrightarrow> parsedRules p \<noteq> None"
    and "in_operation input = DeleteLifecycle \<Longrightarrow> deleteIds p \<noteq> None \<and> deleteTypes p \<noteq> None"
    and "in_operation input = AddNotifications \<Longrightarrow> parsedNotificationConfiguration p \<noteq> None"
    and "in_operation input = DeleteNotifications \<Longrightarrow> deleteNotificationIds p \<noteq> None \<and> deleteNotificationTypes p \<noteq> None"
    and "in_operation input = AddCors \<Longrightarrow> parsedCorsRules p \<noteq> None"
    and "in_operation input = DeleteCors \<Longrightarrow> deleteCorsIds p \<noteq> None \<and> deleteCorsTypes p \<noteq> None"
    and "in_operation input = AddPolicy \<Longrightarrow> parsedPolicyStatements p \<noteq> None"
    and "in_operation input = DeletePolicy \<Longrightarrow> deletePolicyIds p \<noteq> None \<and> deletePolicyTypes p \<noteq> None"
  using assms
  by (auto simp: prepareBucketOpsBulkInput_def Let_def split: sum.splits if_splits prod.splits
      dest!: prepared_delete_criteria)

lemma preview_agrees:
  assumes "prepareBucketOpsBulkInput h input = Inr (opt_prepared opts)"
    and "opt_operation opts = in_operation input" and "updateBucketQuota api = Some update"
  shows "agrees (preview_bucket h api fetch opts b) (apply_bucket h api fetch opts b)"
  using prepared_fields [OF assms(1)] assms(2,3)
  by (cases "in_operation input")
    (auto simp: preview_bucket_def apply_bucket_def intro: agrees_operations agrees_unchanged)

end
