(* ===== verification/Bucket_Store.thy ===== *)
theory Bucket_Store
  imports Bulk_Apply
begin

text \<open>
  The contract between the bulk operations and the server that keeps the buckets, as the locale
  \<open>bucket_store\<close>: each bucket has a configuration, a read returns it and a write replaces one part of
  the configuration of that bucket. Proved once from the contract: an operation touches only its
  bucket, and repeating it does nothing (\<open>apply_again\<close>), a batch brings each bucket to its own next
  configuration (\<open>batch_settles\<close>). The locale \<open>quota_store\<close> adds the write of a quota. The locales are
  interpreted on the demo server in \<open>Demo_Server\<close>.
\<close>

section \<open>The contract\<close>

definition current_object_lock :: "BucketProperties \<Rightarrow> BulkObjectLockSnapshot" where
  "current_object_lock p =
     (let raw = (case object_lock p of Some (JObj r) \<Rightarrow> r | _ \<Rightarrow> []) in
      normalizeObjectLockSnapshot (Some (JObj
        (AList.update ''enabled'' (JBool (truthy (jprop raw ''enabled''))) raw))))"

record bucket_view =
  bv_versioning :: "bool option"
  bv_object_lock :: BulkObjectLockSnapshot
  bv_public_access_block :: PublicAccessBlockState
  bv_lifecycle :: "jrec list"
  bv_cors :: "jrec list"
  bv_policy :: "jrec option"
  bv_logging :: BulkAccessLoggingSnapshot
  bv_notifications :: jrec

definition reads :: "('s \<Rightarrow> 'i \<Rightarrow> bucket_view option) \<Rightarrow> (string \<Rightarrow> 'i) \<Rightarrow> (string \<Rightarrow> ('s, 'a) io) \<Rightarrow>
    ('a \<Rightarrow> 'b) \<Rightarrow> (bucket_view \<Rightarrow> 'b) \<Rightarrow> bool" where
  "reads view ident get shown field \<longleftrightarrow>
     (\<forall>s b v. view s (ident b) = Some v \<longrightarrow> (\<exists>x. get b s = (Inr x, s) \<and> shown x = field v))"

definition writes :: "('s \<Rightarrow> 'i \<Rightarrow> bucket_view option) \<Rightarrow> (string \<Rightarrow> 'i) \<Rightarrow> (string \<Rightarrow> ('s, unit) io) \<Rightarrow>
    (bucket_view \<Rightarrow> bucket_view) \<Rightarrow> bool" where
  "writes view ident put upd \<longleftrightarrow>
     (\<forall>s b v. view s (ident b) = Some v \<longrightarrow>
        (\<exists>t. put b s = (Inr (), t) \<and> view t = (view s)(ident b \<mapsto> upd v)))"

definition no_logging :: BulkAccessLoggingSnapshot where
  "no_logging = \<lparr>al_enabled = False, target_bucket = None, target_prefix = None\<rparr>"

locale bucket_store =
  fixes api :: "'s bucket_ops_api"
    and ident :: "string \<Rightarrow> 'i"
    and view :: "'s \<Rightarrow> 'i \<Rightarrow> bucket_view option"
  assumes get_properties: "reads view ident (getBucketProperties api)
        (\<lambda>p. (normalizeVersioningStatus (versioning_status p), current_object_lock p))
        (\<lambda>v. (bv_versioning v, bv_object_lock v))"
    and get_public_access_block: "reads view ident (getBucketPublicAccessBlock api)
        (\<lambda>j. normalizePublicAccessBlockState (Some j)) bv_public_access_block"
    and get_lifecycle: "reads view ident (getBucketLifecycle api) id bv_lifecycle"
    and get_cors: "reads view ident (getBucketCors api) id bv_cors"
    and get_policy: "reads view ident (getBucketPolicy api) id bv_policy"
    and get_logging: "reads view ident (getBucketLogging api)
        (\<lambda>j. normalizeAccessLoggingSnapshot (Some j)) bv_logging"
    and get_notifications: "reads view ident (getBucketNotifications api) id bv_notifications"
    and set_versioning: "writes view ident (\<lambda>b. setBucketVersioning api b on)
        (\<lambda>v. v\<lparr>bv_versioning := Some on\<rparr>)"
    and update_public_access_block: "writes view ident (\<lambda>b. updateBucketPublicAccessBlock api b p)
        (\<lambda>v. v\<lparr>bv_public_access_block := p\<rparr>)"
    and update_object_lock: "writes view ident (\<lambda>b. updateBucketObjectLock api b l)
        (\<lambda>v. v\<lparr>bv_object_lock := normalizeObjectLockSnapshot (Some (object_lock_json l))\<rparr>)"
    and put_lifecycle: "writes view ident (\<lambda>b. putBucketLifecycle api b rs) (\<lambda>v. v\<lparr>bv_lifecycle := rs\<rparr>)"
    and delete_lifecycle: "writes view ident (deleteBucketLifecycle api) (\<lambda>v. v\<lparr>bv_lifecycle := []\<rparr>)"
    and put_cors: "writes view ident (\<lambda>b. putBucketCors api b rs) (\<lambda>v. v\<lparr>bv_cors := rs\<rparr>)"
    and delete_cors: "writes view ident (deleteBucketCors api) (\<lambda>v. v\<lparr>bv_cors := []\<rparr>)"
    and put_policy: "writes view ident (\<lambda>b. putBucketPolicy api b pol) (\<lambda>v. v\<lparr>bv_policy := Some pol\<rparr>)"
    and delete_policy: "writes view ident (deleteBucketPolicy api) (\<lambda>v. v\<lparr>bv_policy := None\<rparr>)"
    and put_logging: "writes view ident (\<lambda>b. putBucketLogging api b (JObj r))
        (\<lambda>v. v\<lparr>bv_logging := normalizeAccessLoggingSnapshot (Some (JObj r))\<rparr>)"
    and delete_logging: "writes view ident (deleteBucketLogging api) (\<lambda>v. v\<lparr>bv_logging := no_logging\<rparr>)"
    and put_notifications: "writes view ident (\<lambda>b. putBucketNotifications api b c)
        (\<lambda>v. v\<lparr>bv_notifications := c\<rparr>)"
    and delete_notifications: "writes view ident (deleteBucketNotifications api)
        (\<lambda>v. v\<lparr>bv_notifications := []\<rparr>)"

text \<open>Writing the quota of a bucket does not change its configuration.\<close>

locale quota_store = bucket_store +
  assumes update_quota: "updateBucketQuota api = Some update \<Longrightarrow> writes view ident (\<lambda>b. update b p) id"
    and has_quota: "updateBucketQuota api \<noteq> None"

section \<open>The next configuration of a bucket\<close>

text \<open>What an operation makes of a configuration, without calls: the specification.\<close>

definition view_statements :: "bucket_view \<Rightarrow> jrec list" where
  "view_statements v = policy_statements (case bv_policy v of None \<Rightarrow> [] | Some p \<Rightarrow> p)"

definition emptied :: "'a list \<Rightarrow> 'a list \<Rightarrow> ('a list \<Rightarrow> 'v) \<Rightarrow> 'v \<Rightarrow> 'v option" where
  "emptied existing nxt put gone =
     (if length nxt = length existing then None else Some (if nxt = [] then gone else put nxt))"

definition logged :: "'c list \<Rightarrow> 'v \<Rightarrow> 'v option" where
  "logged changes w = (if changes = [] then None else Some w)"

definition next_view :: "js_host \<Rightarrow> bulk_options \<Rightarrow> bucket_view \<Rightarrow> bucket_view option" where
  "next_view h opts v =
     (let p = opt_prepared opts;
          policy0 = (case bv_policy v of None \<Rightarrow> [] | Some q \<Rightarrow> q) in
      case opt_operation opts of
        EnableVersioning \<Rightarrow> (if bv_versioning v = Some True then None else Some (v\<lparr>bv_versioning := Some True\<rparr>))
      | DisableVersioning \<Rightarrow> (if bv_versioning v = Some False then None else Some (v\<lparr>bv_versioning := Some False\<rparr>))
      | AddPublicAccessBlock \<Rightarrow> Option.bind (publicAccessBlockTargets p) (\<lambda>ts.
          let target = applyPublicAccessBlockTargets (bv_public_access_block v) True ts in
          if isPublicAccessBlockEquivalent (bv_public_access_block v) target then None
          else Some (v\<lparr>bv_public_access_block := target\<rparr>))
      | RemovePublicAccessBlock \<Rightarrow> Option.bind (publicAccessBlockTargets p) (\<lambda>ts.
          let target = applyPublicAccessBlockTargets (bv_public_access_block v) False ts in
          if isPublicAccessBlockEquivalent (bv_public_access_block v) target then None
          else Some (v\<lparr>bv_public_access_block := target\<rparr>))
      | AddLifecycle \<Rightarrow> Option.bind (parsedRules p) (\<lambda>rs.
          case mergeLifecycleRules h (opt_lifecycleUpdateOnlyExisting opts) (bv_lifecycle v) rs of
            (nxt, changes) \<Rightarrow> logged changes (v\<lparr>bv_lifecycle := nxt\<rparr>))
      | AddCors \<Rightarrow> Option.bind (parsedCorsRules p) (\<lambda>rs.
          case mergeCorsRules h (opt_corsUpdateOnlyExisting opts) (bv_cors v) rs of
            (nxt, changes) \<Rightarrow> logged changes (v\<lparr>bv_cors := nxt\<rparr>))
      | AddPolicy \<Rightarrow> Option.bind (parsedPolicyStatements p) (\<lambda>ss.
          case mergePolicyStatements h (opt_policyUpdateOnlyExisting opts) (view_statements v) ss of
            (nxt, changes) \<Rightarrow> logged changes (v\<lparr>bv_policy := Some (with_statements
               (if policy0 \<noteq> [] then policy0 else (case parsedPolicy p of None \<Rightarrow> [] | Some q \<Rightarrow> q)) nxt)\<rparr>))
      | AddNotifications \<Rightarrow> Option.bind (parsedNotificationConfiguration p) (\<lambda>c.
          case mergeNotificationConfigurations h (JObj (bv_notifications v)) (JObj c) of
            (nxt, changes) \<Rightarrow> logged changes (v\<lparr>bv_notifications := nxt\<rparr>))
      | DeleteLifecycle \<Rightarrow> (case (deleteIds p, deleteTypes p) of (Some ids, Some types) \<Rightarrow>
          emptied (bv_lifecycle v) (filter (keeps_lifecycle h ids types) (bv_lifecycle v))
            (\<lambda>rs. v\<lparr>bv_lifecycle := rs\<rparr>) (v\<lparr>bv_lifecycle := []\<rparr>) | _ \<Rightarrow> None)
      | DeleteCors \<Rightarrow> (case (deleteCorsIds p, deleteCorsTypes p) of (Some ids, Some types) \<Rightarrow>
          emptied (bv_cors v) (filter (keeps_cors h ids types) (bv_cors v))
            (\<lambda>rs. v\<lparr>bv_cors := rs\<rparr>) (v\<lparr>bv_cors := []\<rparr>) | _ \<Rightarrow> None)
      | DeletePolicy \<Rightarrow> (case (deletePolicyIds p, deletePolicyTypes p) of (Some ids, Some types) \<Rightarrow>
          emptied (view_statements v) (filter (keeps_statement h ids types) (view_statements v))
            (\<lambda>ss. v\<lparr>bv_policy := Some (with_statements policy0 ss)\<rparr>) (v\<lparr>bv_policy := None\<rparr>) | _ \<Rightarrow> None)
      | DeleteNotifications \<Rightarrow> (case (deleteNotificationIds p, deleteNotificationTypes p) of
          (Some ids, Some types) \<Rightarrow>
            (case deleteNotificationConfigurations h (JObj (bv_notifications v)) ids types of
               (nxt, changes) \<Rightarrow> logged changes (v\<lparr>bv_notifications :=
                 (if isNotificationConfigurationEmpty (JObj nxt) then [] else nxt)\<rparr>))
        | _ \<Rightarrow> None)
      | _ \<Rightarrow> None)"

section \<open>Repeating an operation\<close>

text \<open>
  A configuration the merges can read (\<open>rule_ok\<close>: JSON values whose keys are distinct), and
  an input whose rules have pairwise different keys.
\<close>

definition view_ok :: "js_host \<Rightarrow> bucket_view \<Rightarrow> bool" where
  "view_ok h v \<longleftrightarrow> list_all (rule_ok h) (bv_lifecycle v) \<and> list_all (rule_ok h) (bv_cors v)
     \<and> list_all (rule_ok h) (view_statements v) \<and> notification_ok h (JObj (bv_notifications v))"

definition rules_ok :: "js_host \<Rightarrow> (jrec \<Rightarrow> string option) list \<Rightarrow> jrec list option \<Rightarrow> bool" where
  "rules_ok h ks rules = (case rules of None \<Rightarrow> True
     | Some rs \<Rightarrow> list_all (rule_ok h) rs \<and> list_all (\<lambda>k. distinct_keys k rs) ks)"

definition input_ok :: "js_host \<Rightarrow> PreparedBucketOpsBulkInput \<Rightarrow> bool" where
  "input_ok h p \<longleftrightarrow> rules_ok h [getLifecycleRuleId h] (parsedRules p)
     \<and> rules_ok h [getLifecycleRuleId h, getCorsRuleKey h] (parsedCorsRules p)
     \<and> rules_ok h [getPolicyStatementSid h, \<lambda>s. Some (getPolicyStatementKey h s)] (parsedPolicyStatements p)
     \<and> (case parsedNotificationConfiguration p of None \<Rightarrow> True
        | Some c \<Rightarrow> notification_ok h (JObj c) \<and> notification_distinct h (JObj c))"

lemma with_statements_id [simp]: "policy_statements (with_statements p ss) = ss"
  by (simp add: policy_statements_def with_statements_def as_array_def)

lemma policy_statements_Nil [simp]: "policy_statements [] = []"
  by (simp add: policy_statements_def as_array_def)

lemma emptied_again:
  assumes "emptied xs (filter p xs) put gone = Some w"
  shows "\<exists>ys. (w = put ys \<or> w = gone \<and> ys = []) \<and> filter p ys = ys"
  using assms by (auto simp: emptied_def split: if_splits)

lemma merges_again:
  "list_all (rule_ok h) ex \<Longrightarrow> rules_ok h [getLifecycleRuleId h] (Some rs) \<Longrightarrow>
     mergeLifecycleRules h only ex rs = (nxt, cs) \<Longrightarrow> mergeLifecycleRules h only nxt rs = (nxt, [])"
  "list_all (rule_ok h) ex \<Longrightarrow> rules_ok h [getLifecycleRuleId h, getCorsRuleKey h] (Some rs) \<Longrightarrow>
     mergeCorsRules h only ex rs = (nxt, cs) \<Longrightarrow> mergeCorsRules h only nxt rs = (nxt, [])"
  "list_all (rule_ok h) ex \<Longrightarrow> rules_ok h [getPolicyStatementSid h, \<lambda>s. Some (getPolicyStatementKey h s)] (Some rs) \<Longrightarrow>
     mergePolicyStatements h only ex rs = (nxt, cs) \<Longrightarrow> mergePolicyStatements h only nxt rs = (nxt, [])"
  unfolding mergeLifecycleRules_all mergeCorsRules_all mergePolicyStatements_all rules_ok_def
  by (rule lifecycle.merge_idempotent cors.merge_idempotent policy.merge_idempotent; simp)+

lemma logged_again:
  "(case r of (nxt, cs) \<Rightarrow> logged cs (f nxt)) = Some w \<longleftrightarrow> snd r \<noteq> [] \<and> w = f (fst r)" "logged [] w = None"
  by (auto simp: logged_def split: prod.splits if_splits)

lemma targets_again:
  "applyPublicAccessBlockTargets (applyPublicAccessBlockTargets s on ts) on ts = applyPublicAccessBlockTargets s on ts"
  by (rule pab_eqI) (simp add: pab_get_targets)

lemma next_view_again_access:
  assumes "next_view h opts v = Some w" and "opt_operation opts \<in> {EnableVersioning, DisableVersioning,
      AddPublicAccessBlock, RemovePublicAccessBlock}"
  shows "next_view h opts w = None"
  using assms targets_again
  by (auto simp: next_view_def Let_def bind_eq_Some_conv isPublicAccessBlockEquivalent_def split: if_splits)

lemma next_view_again_add:
  assumes w: "next_view h opts v = Some w" and "view_ok h v" and "input_ok h (opt_prepared opts)"
    and "opt_operation opts \<in> {AddLifecycle, AddCors, AddPolicy, AddNotifications}"
  shows "next_view h opts w = None"
proof -
  let ?p = "opt_prepared opts"
  note ok = assms(2,3) [unfolded view_ok_def input_ok_def]
  consider (lifecycle) "opt_operation opts = AddLifecycle" | (cors) "opt_operation opts = AddCors"
    | (policy) "opt_operation opts = AddPolicy" | (notifications) "opt_operation opts = AddNotifications"
    using assms(4) by blast
  then show ?thesis
  proof cases
    case lifecycle
    with w obtain rs nxt cs where "parsedRules ?p = Some rs" and
      m: "mergeLifecycleRules h (opt_lifecycleUpdateOnlyExisting opts) (bv_lifecycle v) rs = (nxt, cs)"
      and "w = v\<lparr>bv_lifecycle := nxt\<rparr>"
      by (auto simp: next_view_def Let_def bind_eq_Some_conv logged_again prod_eq_iff)
    then show ?thesis using lifecycle ok merges_again(1) [OF _ _ m] by (simp add: next_view_def logged_again)
  next
    case cors
    with w obtain rs nxt cs where "parsedCorsRules ?p = Some rs" and
      m: "mergeCorsRules h (opt_corsUpdateOnlyExisting opts) (bv_cors v) rs = (nxt, cs)"
      and "w = v\<lparr>bv_cors := nxt\<rparr>"
      by (auto simp: next_view_def Let_def bind_eq_Some_conv logged_again prod_eq_iff)
    then show ?thesis using cors ok merges_again(2) [OF _ _ m] by (simp add: next_view_def logged_again)
  next
    case policy
    with w obtain rs nxt cs base where "parsedPolicyStatements ?p = Some rs" and
      m: "mergePolicyStatements h (opt_policyUpdateOnlyExisting opts) (view_statements v) rs = (nxt, cs)"
      and "w = v\<lparr>bv_policy := Some (with_statements base nxt)\<rparr>"
      by (auto simp: next_view_def Let_def bind_eq_Some_conv logged_again prod_eq_iff)
    then show ?thesis using policy ok merges_again(3) [OF _ _ m]
      by (simp add: next_view_def logged_again view_statements_def)
  next
    case notifications
    with w obtain c nxt cs where "parsedNotificationConfiguration ?p = Some c" and
      m: "mergeNotificationConfigurations h (JObj (bv_notifications v)) (JObj c) = (nxt, cs)"
      and "w = v\<lparr>bv_notifications := nxt\<rparr>"
      by (auto simp: next_view_def Let_def bind_eq_Some_conv logged_again prod_eq_iff)
    then show ?thesis using notifications ok mergeNotificationConfigurations_again [OF _ _ _ m]
      by (simp add: next_view_def logged_again)
  qed
qed

lemma emptied_None: "emptied ys ys put gone = None"
  by (simp add: emptied_def)

lemma next_view_again_delete:
  assumes w: "next_view h opts v = Some w"
    and "opt_operation opts \<in> {DeleteLifecycle, DeleteCors, DeletePolicy, DeleteNotifications}"
  shows "next_view h opts w = None"
proof -
  consider (lifecycle) "opt_operation opts = DeleteLifecycle" | (cors) "opt_operation opts = DeleteCors"
    | (policy) "opt_operation opts = DeletePolicy" | (notifications) "opt_operation opts = DeleteNotifications"
    using assms(2) by blast
  then show ?thesis
  proof cases
    case lifecycle
    with w show ?thesis
      by (auto simp: next_view_def Let_def emptied_None split: option.splits dest!: emptied_again)
  next
    case cors
    with w show ?thesis
      by (auto simp: next_view_def Let_def emptied_None split: option.splits dest!: emptied_again)
  next
    case policy
    with w show ?thesis
      by (auto simp: next_view_def Let_def emptied_None view_statements_def
          split: option.splits dest!: emptied_again)
  next
    case notifications
    with w obtain ids types nxt cs where "deleteNotificationIds (opt_prepared opts) = Some ids"
      "deleteNotificationTypes (opt_prepared opts) = Some types"
      and m: "deleteNotificationConfigurations h (JObj (bv_notifications v)) ids types = (nxt, cs)"
      and "w = v\<lparr>bv_notifications := (if isNotificationConfigurationEmpty (JObj nxt) then [] else nxt)\<rparr>"
      by (auto simp: next_view_def Let_def logged_again prod_eq_iff split: option.split_asm)
    then show ?thesis using notifications deleted_parts(3) [OF m] delete_from_nothing [of h ids types]
      by (auto simp: next_view_def logged_again split: prod.splits)
  qed
qed

text \<open>An operation has nothing left to do on the configuration it made.\<close>

lemma next_view_again:
  assumes "next_view h opts v = Some w" and "view_ok h v" and "input_ok h (opt_prepared opts)"
  shows "next_view h opts w = None"
proof -
  have "opt_operation opts \<notin> {NoOperation, CopyConfigs, PasteConfigs, SetQuota}"
    using assms(1) by (auto simp: next_view_def)
  then consider "opt_operation opts \<in> {EnableVersioning, DisableVersioning, AddPublicAccessBlock, RemovePublicAccessBlock}"
    | "opt_operation opts \<in> {AddLifecycle, AddCors, AddPolicy, AddNotifications}"
    | "opt_operation opts \<in> {DeleteLifecycle, DeleteCors, DeletePolicy, DeleteNotifications}"
    by (cases "opt_operation opts") simp_all
  then show ?thesis
    using assms by cases (rule next_view_again_access next_view_again_add next_view_again_delete; assumption)+
qed

definition settled_view :: "js_host \<Rightarrow> bulk_options \<Rightarrow> bucket_view \<Rightarrow> bucket_view" where
  "settled_view h opts v = (case next_view h opts v of None \<Rightarrow> v | Some w \<Rightarrow> w)"

text \<open>A batch in which the buckets are served one after the other.\<close>

fun apply_buckets ::
  "js_host \<Rightarrow> 's bucket_ops_api \<Rightarrow> (string \<Rightarrow> ('s, BulkQuotaSnapshot) io) \<Rightarrow> bulk_options \<Rightarrow> string list \<Rightarrow>
   's \<Rightarrow> (bool, js_error) settled list \<times> 's" where
  "apply_buckets h api fetch opts [] s = ([], s)"
| "apply_buckets h api fetch opts (b # bs) s =
     (let (r, t) = apply_bucket h api fetch opts b s;
          (rs, u) = apply_buckets h api fetch opts bs t in
      ((case r of Inl e \<Rightarrow> Rejected e | Inr c \<Rightarrow> Fulfilled c) # rs, u))"

section \<open>Refinement\<close>

text \<open>
  A call refines a step of the configuration when it leaves the state alone for \<open>None\<close>, and
  otherwise replaces the configuration of its bucket by the next one.
\<close>

definition refines :: "('s \<Rightarrow> 'i \<Rightarrow> bucket_view option) \<Rightarrow> 's \<Rightarrow> 'i \<Rightarrow> ('s, bool) io \<Rightarrow> bucket_view option \<Rightarrow> bool" where
  "refines view s i m nxt \<longleftrightarrow> (case nxt of
     None \<Rightarrow> m s = (Inr False, s)
   | Some w \<Rightarrow> \<exists>t. m s = (Inr True, t) \<and> view t = (view s)(i \<mapsto> w))"

lemma readsD: "reads view ident get shown field \<Longrightarrow> view s (ident b) = Some v \<Longrightarrow>
    \<exists>x. get b s = (Inr x, s) \<and> shown x = field v"
  by (auto simp: reads_def)

lemma reads_idD: "reads view ident get id field \<Longrightarrow> view s (ident b) = Some v \<Longrightarrow> get b s = (Inr (field v), s)"
  by (auto simp: reads_def)

lemma refines_None: "refines view s i (io_return False) None"
  by (simp add: refines_def)

lemma refines_write:
  assumes "writes view ident put upd" and "view s (ident b) = Some v"
  shows "refines view s (ident b) (io_seq (put b) (io_return True)) (Some (upd v))"
  using assms by (fastforce simp: writes_def refines_def)

context bucket_store
begin

lemma versioning_refines:
  assumes "view s (ident b) = Some v"
  shows "refines view s (ident b) (apply_versioning api on b)
    (if bv_versioning v = Some on then None else Some (v\<lparr>bv_versioning := Some on\<rparr>))"
proof -
  from readsD [OF get_properties assms] obtain p where p: "getBucketProperties api b s = (Inr p, s)"
    "normalizeVersioningStatus (versioning_status p) = bv_versioning v" by auto
  then show ?thesis
    using refines_write [OF set_versioning assms, of on]
    by (auto simp: apply_versioning_def refines_def)
qed

lemma public_access_block_refines:
  assumes "view s (ident b) = Some v"
  shows "refines view s (ident b) (apply_public_access_block api on ts b)
    (let target = applyPublicAccessBlockTargets (bv_public_access_block v) on ts in
     if isPublicAccessBlockEquivalent (bv_public_access_block v) target then None
     else Some (v\<lparr>bv_public_access_block := target\<rparr>))"
proof -
  from readsD [OF get_public_access_block assms] obtain j where
    "getBucketPublicAccessBlock api b s = (Inr j, s)" "normalizePublicAccessBlockState (Some j) = bv_public_access_block v"
    by auto
  then show ?thesis
    using refines_write [OF update_public_access_block assms]
    by (auto simp: apply_public_access_block_def refines_def Let_def)
qed

lemma add_rules_refine:
  assumes "view s (ident b) = Some v"
  shows "refines view s (ident b) (apply_add_lifecycle h api only rs b)
      (case mergeLifecycleRules h only (bv_lifecycle v) rs of
         (nxt, changes) \<Rightarrow> if changes = [] then None else Some (v\<lparr>bv_lifecycle := nxt\<rparr>))"
    and "refines view s (ident b) (apply_add_cors h api only rs b)
      (case mergeCorsRules h only (bv_cors v) rs of
         (nxt, changes) \<Rightarrow> if changes = [] then None else Some (v\<lparr>bv_cors := nxt\<rparr>))"
    and "refines view s (ident b) (apply_add_notifications h api c b)
      (case mergeNotificationConfigurations h (JObj (bv_notifications v)) (JObj c) of
         (nxt, changes) \<Rightarrow> if changes = [] then None else Some (v\<lparr>bv_notifications := nxt\<rparr>))"
  using reads_idD [OF get_lifecycle assms] reads_idD [OF get_cors assms] reads_idD [OF get_notifications assms]
    refines_write [OF put_lifecycle assms] refines_write [OF put_cors assms] refines_write [OF put_notifications assms]
  by (auto simp: apply_add_lifecycle_def apply_add_cors_def apply_add_notifications_def refines_def
      split: prod.splits)

lemma delete_rules_refine:
  assumes "view s (ident b) = Some v"
  shows "refines view s (ident b) (apply_delete_lifecycle h api ids ltypes b)
      (emptied (bv_lifecycle v) (filter (keeps_lifecycle h ids ltypes) (bv_lifecycle v))
         (\<lambda>rs. v\<lparr>bv_lifecycle := rs\<rparr>) (v\<lparr>bv_lifecycle := []\<rparr>))"
    and "refines view s (ident b) (apply_delete_cors h api ids ctypes b)
      (emptied (bv_cors v) (filter (keeps_cors h ids ctypes) (bv_cors v))
         (\<lambda>rs. v\<lparr>bv_cors := rs\<rparr>) (v\<lparr>bv_cors := []\<rparr>))"
  using reads_idD [OF get_lifecycle assms] reads_idD [OF get_cors assms]
    refines_write [OF put_lifecycle assms] refines_write [OF put_cors assms]
    refines_write [OF delete_lifecycle assms] refines_write [OF delete_cors assms]
  by (auto simp: apply_delete_lifecycle_def apply_delete_cors_def refines_def emptied_def Let_def)

lemma delete_notifications_refine:
  assumes "view s (ident b) = Some v"
  shows "refines view s (ident b) (apply_delete_notifications h api ids types b)
      (case deleteNotificationConfigurations h (JObj (bv_notifications v)) ids types of
         (nxt, changes) \<Rightarrow> if changes = [] then None else Some (v\<lparr>bv_notifications :=
            (if isNotificationConfigurationEmpty (JObj nxt) then [] else nxt)\<rparr>))"
  using reads_idD [OF get_notifications assms]
    refines_write [OF put_notifications assms] refines_write [OF delete_notifications assms]
  by (auto simp: apply_delete_notifications_def refines_def split: prod.splits)

lemma policy_refines:
  fixes v :: bucket_view
  assumes "view s (ident b) = Some v"
  defines "policy0 \<equiv> (case bv_policy v of None \<Rightarrow> [] | Some q \<Rightarrow> q)"
  shows "refines view s (ident b) (apply_add_policy h api only ss parsed b)
      (case mergePolicyStatements h only (view_statements v) ss of
         (nxt, changes) \<Rightarrow> if changes = [] then None else Some (v\<lparr>bv_policy := Some (with_statements
            (if policy0 \<noteq> [] then policy0 else (case parsed of None \<Rightarrow> [] | Some q \<Rightarrow> q)) nxt)\<rparr>))"
    and "refines view s (ident b) (apply_delete_policy h api ids types b)
      (emptied (view_statements v) (filter (keeps_statement h ids types) (view_statements v))
         (\<lambda>ss. v\<lparr>bv_policy := Some (with_statements policy0 ss)\<rparr>) (v\<lparr>bv_policy := None\<rparr>))"
  using reads_idD [OF get_policy assms(1)]
    refines_write [OF put_policy assms(1)] refines_write [OF delete_policy assms(1)]
  by (auto simp: apply_add_policy_def apply_delete_policy_def refines_def view_statements_def policy0_def
      emptied_def Let_def split: prod.splits)

lemmas operations_refine = versioning_refines public_access_block_refines add_rules_refine delete_rules_refine
  delete_notifications_refine policy_refines

lemma apply_refines:
  assumes "view s (ident b) = Some v" and "opt_operation opts \<noteq> SetQuota"
  shows "refines view s (ident b) (apply_bucket h api fetch opts b) (next_view h opts v)"
proof -
  note evaluate = apply_bucket_def next_view_def logged_def refines_None
    operations_refine [OF assms(1), unfolded Let_def] Let_def
  show ?thesis
  proof (cases "opt_operation opts")
    case AddPublicAccessBlock
    then show ?thesis by (cases "publicAccessBlockTargets (opt_prepared opts)") (simp_all add: evaluate)
  next
    case RemovePublicAccessBlock
    then show ?thesis by (cases "publicAccessBlockTargets (opt_prepared opts)") (simp_all add: evaluate)
  next
    case AddLifecycle
    then show ?thesis by (cases "parsedRules (opt_prepared opts)") (simp_all add: evaluate)
  next
    case AddCors
    then show ?thesis by (cases "parsedCorsRules (opt_prepared opts)") (simp_all add: evaluate)
  next
    case AddPolicy
    then show ?thesis by (cases "parsedPolicyStatements (opt_prepared opts)") (simp_all add: evaluate)
  next
    case AddNotifications
    then show ?thesis by (cases "parsedNotificationConfiguration (opt_prepared opts)") (simp_all add: evaluate)
  next
    case DeleteLifecycle
    then show ?thesis by (cases "deleteIds (opt_prepared opts)"; cases "deleteTypes (opt_prepared opts)") (simp_all add: evaluate)
  next
    case DeleteCors
    then show ?thesis by (cases "deleteCorsIds (opt_prepared opts)"; cases "deleteCorsTypes (opt_prepared opts)") (simp_all add: evaluate)
  next
    case DeletePolicy
    then show ?thesis by (cases "deletePolicyIds (opt_prepared opts)"; cases "deletePolicyTypes (opt_prepared opts)") (simp_all add: evaluate)
  next
    case DeleteNotifications
    then show ?thesis by (cases "deleteNotificationIds (opt_prepared opts)"; cases "deleteNotificationTypes (opt_prepared opts)") (simp_all add: evaluate)
  qed (use assms(2) in \<open>simp_all add: apply_bucket_def next_view_def refines_None versioning_refines [OF assms(1)]\<close>)
qed

text \<open>An operation that changed a bucket changes nothing when it is repeated.\<close>

lemma apply_again:
  assumes v: "view s (ident b) = Some v" and "opt_operation opts \<noteq> SetQuota"
    and "view_ok h v" and "input_ok h (opt_prepared opts)"
    and ap: "apply_bucket h api fetch opts b s = (r, t)"
  shows "apply_bucket h api fetch opts b t = (Inr False, t)"
proof (cases "next_view h opts v")
  case None
  then show ?thesis using apply_refines [OF v assms(2), of h fetch] ap by (simp add: refines_def)
next
  case (Some w)
  then have "view t = (view s)(ident b \<mapsto> w)"
    using apply_refines [OF v assms(2), of h fetch] ap by (auto simp: refines_def)
  then have w: "view t (ident b) = Some w" by simp
  from apply_refines [OF w assms(2), of h fetch] next_view_again [OF Some assms(3,4)]
  show ?thesis by (simp add: refines_def)
qed

text \<open>
  After a batch on different buckets, in any order, the configuration of each bucket is its own next
  configuration, the result says whether it changed, and no other bucket is touched.
\<close>

lemma batch_settles:
  assumes "\<And>b. b \<in> set bs \<Longrightarrow> view s (ident b) = Some (v b)" and "distinct (map ident bs)"
    and "opt_operation opts \<noteq> SetQuota"
  shows "fst (apply_buckets h api fetch opts bs s) = map (\<lambda>b. Fulfilled (next_view h opts (v b) \<noteq> None)) bs
    \<and> (\<forall>b \<in> set bs. view (snd (apply_buckets h api fetch opts bs s)) (ident b) = Some (settled_view h opts (v b)))
    \<and> (\<forall>i. i \<notin> ident ` set bs \<longrightarrow> view (snd (apply_buckets h api fetch opts bs s)) i = view s i)"
  using assms(1,2)
proof (induction bs arbitrary: s)
  case (Cons a bs)
  let ?t = "snd (apply_bucket h api fetch opts a s)"
  from Cons.prems(1) have v: "view s (ident a) = Some (v a)" by simp
  have a: "fst (apply_bucket h api fetch opts a s) = Inr (next_view h opts (v a) \<noteq> None)"
    "view ?t = (view s)(ident a \<mapsto> settled_view h opts (v a))"
    using apply_refines [OF v assms(3), of h fetch] v
    by (auto simp: refines_def settled_view_def split: option.splits)
  have "view ?t (ident b) = Some (v b)" if "b \<in> set bs" for b
  proof -
    from Cons.prems(2) have "ident a \<notin> ident ` set bs" by simp
    with that have "ident b \<noteq> ident a" by (metis imageI)
    with that Cons.prems(1) show ?thesis by (simp add: a(2))
  qed
  from Cons.IH [OF this] Cons.prems(2) a show ?case by (auto simp: case_prod_unfold Let_def)
qed simp

end

end
