(* ===== verification/Config_Copy.thy ===== *)
theory Config_Copy
  imports Bucket_Store
begin

text \<open>
  \<open>frontend/src/features/shared/bucketOpsConfigCopy.ts\<close>: reading the selected parts of the configuration
  of buckets into the clipboard, and \<open>fetchBucketQuota\<close> of
  \<open>frontend/src/features/shared/useBucketOpsConfigCopy.ts\<close>. Under the contract \<open>bucket_store\<close> a copy is
  a read: it returns \<open>copied_bucket\<close> of the configuration and leaves the state alone.
\<close>

section \<open>One bucket\<close>

text \<open>\<open>condition ? await call : null\<close>.\<close>

definition io_when :: "bool \<Rightarrow> ('s, 'a) io \<Rightarrow> ('s, 'a option) io" where
  "io_when c m = (if c then io_bind m (\<lambda>x. io_return (Some x)) else io_return None)"

text \<open>The handler of \<open>copyBucketOpsConfigs\<close> for one bucket; the calls are in the order of the literal.\<close>

definition copy_bucket ::
  "'s bucket_ops_api \<Rightarrow> (string \<Rightarrow> ('s, BulkQuotaSnapshot) io) \<Rightarrow> bool \<Rightarrow> BulkCopyFeatureSelection \<Rightarrow> string \<Rightarrow>
   ('s, BulkConfigClipboardBucket) io" where
  "copy_bucket api fetchBucketQuota isStorageOps fs bucketName =
     io_bind (io_when (fs FVersioning \<or> fs FObjectLock) (getBucketProperties api bucketName)) (\<lambda>properties.
     io_bind (io_when (\<not> isStorageOps \<and> fs FQuota) (fetchBucketQuota bucketName)) (\<lambda>quota.
     io_bind (io_when (fs FPublicAccessBlock) (getBucketPublicAccessBlock api bucketName)) (\<lambda>pab.
     io_bind (io_when (fs FLifecycle) (getBucketLifecycle api bucketName)) (\<lambda>lifecycle.
     io_bind (io_when (fs FCors) (getBucketCors api bucketName)) (\<lambda>cors.
     io_bind (io_when (fs FPolicy) (getBucketPolicy api bucketName)) (\<lambda>policy.
     io_bind (io_when (fs FAccessLogging) (getBucketLogging api bucketName)) (\<lambda>logging.
       io_return \<lparr>cb_name = bucketName, cb_quota = quota,
         cb_versioningEnabled = (if fs FVersioning then Some
           (normalizeVersioningStatus (Option.bind properties versioning_status) = Some True) else None),
         cb_objectLock = (if fs FObjectLock then map_option current_object_lock properties else None),
         cb_publicAccessBlock = map_option (\<lambda>v. normalizePublicAccessBlockState (Some v)) pab,
         cb_lifecycleRules = lifecycle, cb_corsRules = cors, cb_policy = Option.bind policy id,
         cb_accessLogging = map_option (\<lambda>v. normalizeAccessLoggingSnapshot (Some v)) logging\<rparr>)))))))"

section \<open>The batch\<close>

definition selected_features :: "bool \<Rightarrow> BulkCopyFeatureSelection \<Rightarrow> BulkCopyFeatureKey list" where
  "selected_features isStorageOps fs = filter (\<lambda>k. fs k \<and> (\<not> isStorageOps \<or> k \<noteq> FQuota)) BULK_COPY_FEATURE_KEYS"

definition settled_values :: "('r, 'e) settled list \<Rightarrow> 'r list" where
  "settled_values rs = List.map_filter (\<lambda>r. case r of Fulfilled x \<Rightarrow> Some x | Rejected _ \<Rightarrow> None) rs"

text \<open>
  The result from the settled results and the notifications of the pool, which run only when a
  feature is selected: an error, or the clipboard with its summary.
\<close>

definition copyBucketOpsConfigs ::
  "js_host \<Rightarrow> string \<Rightarrow> BulkCopyFeatureSelection \<Rightarrow> bool \<Rightarrow> rat \<Rightarrow> string option \<Rightarrow>
   (BulkConfigClipboardBucket, js_error) settled list \<Rightarrow> (BulkConfigClipboardBucket, js_error) settled list \<Rightarrow>
   string + BulkConfigClipboard \<times> string" where
  "copyBucketOpsConfigs h copied_at fs isStorageOps endpointId endpointName res notices =
     (let selectedFeatures = selected_features isStorageOps fs;
          failed = length (filter is_rejected notices);
          copiedBuckets = js_sort (\<lambda>a b. localeCompare h (cb_name a) (cb_name b)) (settled_values res) in
      if selectedFeatures = [] then Inl ''Select at least one configuration to copy.''
      else if failed > 0 then Inl (nat_string failed @ '' source bucket(s) failed while copying configs.'')
      else if copiedBuckets = [] then Inl ''No source bucket configuration could be copied.''
      else Inr (\<lparr>copiedAt = copied_at, sourceEndpointId = endpointId, sourceEndpointName = endpointName,
                features = fs(FQuota := \<not> isStorageOps \<and> fs FQuota), buckets = copiedBuckets\<rparr>,
              ''Copied '' @ join '', '' (map BULK_COPY_FEATURE_LABELS selectedFeatures) @ '' from ''
                @ nat_string (length copiedBuckets) @ '' bucket(s).''))"

section \<open>The quota of a bucket\<close>

text \<open>
  \<open>fetchBucketQuota\<close> asks the listing for buckets of that name; the listing is a parameter and
  receives the rules of the advanced filter, the page and the page size.
\<close>

record bucket_query =
  bq_page :: nat
  bq_page_size :: nat
  bq_advanced_filter :: string
  bq_with_stats :: bool

definition quota_filter :: "js_host \<Rightarrow> string \<Rightarrow> string option \<Rightarrow> string" where
  "quota_filter h queryBucketName tenant = stringify h (JObj
     [(''match'', JStr ''all''),
      (''rules'', JArr (JObj [(''field'', JStr ''name''), (''op'', JStr ''in''), (''value'', JArr [JStr queryBucketName])]
         # (case tenant of
              Some t \<Rightarrow> [JObj [(''field'', JStr ''tenant''), (''op'', JStr ''eq''), (''value'', JStr t)]]
            | None \<Rightarrow> [])))])"

definition listed_ref :: "bool \<Rightarrow> CephAdminBucket \<Rightarrow> string" where
  "listed_ref isStorageOps item =
     (if isStorageOps then string_prop item ''name''
      else encodeCephAdminBucketRef (string_prop item ''name'')
        (case jprop item ''tenant'' of Some (JStr t) \<Rightarrow> Some t | _ \<Rightarrow> None))"

definition fetchBucketQuota ::
  "js_host \<Rightarrow> (rat \<Rightarrow> bucket_query \<Rightarrow> ('s, CephAdminBucket list) io) \<Rightarrow> bool \<Rightarrow> bool \<Rightarrow> rat option \<Rightarrow> string \<Rightarrow>
   ('s, BulkQuotaSnapshot) io" where
  "fetchBucketQuota h listBuckets isStorageOps usageFeatureEnabled endpoint bucketRef =
     (case endpoint of
        None \<Rightarrow> io_return \<lparr>maxSizeBytes = None, maxObjects = None\<rparr>
      | Some e \<Rightarrow>
          (let cephAdminRef = (if isStorageOps then None else Some (decodeCephAdminBucketRef bucketRef));
               queryBucketName = (case cephAdminRef of Some r \<Rightarrow> ref_bucketName r | None \<Rightarrow> bucketRef);
               tenant = Option.bind cephAdminRef ref_tenant in
           io_bind (listBuckets e \<lparr>bq_page = 1, bq_page_size = 5,
               bq_advanced_filter = quota_filter h queryBucketName tenant, bq_with_stats = usageFeatureEnabled\<rparr>)
             (\<lambda>items.
               let hit = find (\<lambda>item. normalizeBucketName (listed_ref isStorageOps item) = normalizeBucketName bucketRef) items;
                   limit = (\<lambda>k. normalizeQuotaLimit (Option.bind hit (\<lambda>item. number_prop item k))) in
               io_return \<lparr>maxSizeBytes = limit ''quota_max_size_bytes'', maxObjects = limit ''quota_max_objects''\<rparr>)))"

section \<open>Under the contract\<close>

text \<open>The configuration in the clipboard, from the configuration of the bucket.\<close>

definition picked :: "bool \<Rightarrow> 'a \<Rightarrow> 'a option" where
  "picked c x = (if c then Some x else None)"

definition copied_bucket ::
  "BulkCopyFeatureSelection \<Rightarrow> bool \<Rightarrow> BulkQuotaSnapshot \<Rightarrow> string \<Rightarrow> bucket_view \<Rightarrow> BulkConfigClipboardBucket" where
  "copied_bucket fs isStorageOps q name v =
     \<lparr>cb_name = name, cb_quota = picked (\<not> isStorageOps \<and> fs FQuota) q,
      cb_versioningEnabled = picked (fs FVersioning) (bv_versioning v = Some True),
      cb_objectLock = picked (fs FObjectLock) (bv_object_lock v),
      cb_publicAccessBlock = picked (fs FPublicAccessBlock) (bv_public_access_block v),
      cb_lifecycleRules = picked (fs FLifecycle) (bv_lifecycle v),
      cb_corsRules = picked (fs FCors) (bv_cors v),
      cb_policy = (if fs FPolicy then bv_policy v else None),
      cb_accessLogging = picked (fs FAccessLogging) (bv_logging v)\<rparr>"

lemma io_when_read: "m s = (Inr x, s) \<Longrightarrow> io_when c m s = (Inr (picked c x), s)"
  by (simp add: io_when_def picked_def)

lemma io_bind_when: "m s = (Inr x, s) \<Longrightarrow> io_bind (io_when c m) f s = f (picked c x) s"
  by (simp add: io_when_read)

context bucket_store
begin

lemma copy_reads:
  assumes v: "view s (ident b) = Some v" and q: "fetch b s = (Inr q, s)"
  shows "copy_bucket api fetch isStorageOps fs b s = (Inr (copied_bucket fs isStorageOps q b v), s)"
proof -
  from readsD [OF get_properties v] obtain p where p: "getBucketProperties api b s = (Inr p, s)"
    "normalizeVersioningStatus (versioning_status p) = bv_versioning v" "current_object_lock p = bv_object_lock v" by auto
  from readsD [OF get_public_access_block v] obtain pab where pab: "getBucketPublicAccessBlock api b s = (Inr pab, s)"
    "normalizePublicAccessBlockState (Some pab) = bv_public_access_block v" by auto
  from readsD [OF get_logging v] obtain l where l: "getBucketLogging api b s = (Inr l, s)"
    "normalizeAccessLoggingSnapshot (Some l) = bv_logging v" by auto
  show ?thesis
    unfolding copy_bucket_def
    by (simp add: io_bind_when p pab l q reads_idD [OF get_lifecycle v] reads_idD [OF get_cors v]
        reads_idD [OF get_policy v] copied_bucket_def picked_def)
qed

end

end
