(* ===== verification/Config_Paste.thy ===== *)
theory Config_Paste
  imports Config_Copy
begin

text \<open>
  \<open>frontend/src/features/shared/bucketOpsConfigPaste.ts\<close>: writing a copied configuration to a bucket, one
  definition for each section of \<open>mutate\<close>. A section reads its part, compares it with the copied one
  and writes it when they differ. Under the contract \<open>quota_store\<close> (\<open>bucket_store\<close> with a quota that is
  kept apart from the configuration) a paste refines \<open>paste_steps\<close>, repeating it changes nothing, and a
  copy that is pasted reaches the copied configuration.
\<close>

section \<open>The sections\<close>

text \<open>\<open>if (condition && copied part) { ... }\<close>.\<close>

definition with_part :: "bool \<Rightarrow> 'a option \<Rightarrow> ('a \<Rightarrow> ('s, bool) io) \<Rightarrow> ('s, bool) io" where
  "with_part on part body = (case part of Some x \<Rightarrow> if on then body x else io_return False | None \<Rightarrow> io_return False)"

definition write_when :: "bool \<Rightarrow> ('s, unit) io \<Rightarrow> ('s, bool) io" where
  "write_when c m = (if c then io_seq m (io_return True) else io_return False)"

definition pasted_quota :: "BulkQuotaSnapshot \<Rightarrow> BucketQuotaUpdate" where
  "pasted_quota q =
     (let maxSizeGiB = map_option bytesToGiB (maxSizeBytes q) in
      \<lparr>qu_enabled = (maxSizeBytes q \<noteq> None \<or> maxObjects q \<noteq> None), max_size_gb = maxSizeGiB,
       max_size_unit = (if maxSizeGiB \<noteq> None then Some GiB else None), max_objects = maxObjects q\<rparr>)"

definition paste_quota ::
  "'s bucket_ops_api \<Rightarrow> (string \<Rightarrow> ('s, BulkQuotaSnapshot) io) \<Rightarrow> bool \<Rightarrow> BulkCopyFeatureSelection \<Rightarrow>
   BulkConfigClipboardBucket \<Rightarrow> string \<Rightarrow> ('s, bool) io" where
  "paste_quota api fetchQuota isStorageOps fs source b =
     (case updateBucketQuota api of
        None \<Rightarrow> io_return False
      | Some update \<Rightarrow> with_part (\<not> isStorageOps \<and> fs FQuota) (cb_quota source) (\<lambda>q.
          io_bind (fetchQuota b) (\<lambda>currentQuota.
            write_when (maxSizeBytes currentQuota \<noteq> maxSizeBytes q \<or> maxObjects currentQuota \<noteq> maxObjects q)
              (update b (pasted_quota q)))))"

definition paste_versioning ::
  "'s bucket_ops_api \<Rightarrow> BulkCopyFeatureSelection \<Rightarrow> BulkConfigClipboardBucket \<Rightarrow> BucketProperties option \<Rightarrow> string \<Rightarrow>
   ('s, bool) io" where
  "paste_versioning api fs source properties b =
     with_part (fs FVersioning) (cb_versioningEnabled source) (\<lambda>on.
       write_when (normalizeVersioningStatus (Option.bind properties versioning_status) \<noteq> Some on)
         (setBucketVersioning api b on))"

definition paste_object_lock ::
  "'s bucket_ops_api \<Rightarrow> BulkCopyFeatureSelection \<Rightarrow> BulkConfigClipboardBucket \<Rightarrow> BucketProperties option \<Rightarrow> string \<Rightarrow>
   ('s, bool) io" where
  "paste_object_lock api fs source properties b =
     with_part (fs FObjectLock) (cb_objectLock source) (\<lambda>l.
       write_when (\<not> isObjectLockSnapshotEqual
           (current_object_lock (case properties of Some p \<Rightarrow> p
              | None \<Rightarrow> \<lparr>versioning_status = None, object_lock = None\<rparr>)) l)
         (updateBucketObjectLock api b l))"

definition paste_public_access_block ::
  "'s bucket_ops_api \<Rightarrow> BulkCopyFeatureSelection \<Rightarrow> BulkConfigClipboardBucket \<Rightarrow> string \<Rightarrow> ('s, bool) io" where
  "paste_public_access_block api fs source b =
     with_part (fs FPublicAccessBlock) (cb_publicAccessBlock source) (\<lambda>p.
       io_bind (getBucketPublicAccessBlock api b) (\<lambda>v.
         write_when (\<not> isPublicAccessBlockEquivalent (normalizePublicAccessBlockState (Some v)) p)
           (updateBucketPublicAccessBlock api b p)))"

definition rules_value :: "jrec list \<Rightarrow> json" where
  "rules_value rules = JArr (map JObj rules)"

definition paste_rules ::
  "js_host \<Rightarrow> jrec list \<Rightarrow> jrec list \<Rightarrow> ('s, unit) io \<Rightarrow> ('s, unit) io \<Rightarrow> ('s, bool) io" where
  "paste_rules h current copied put delete =
     (if stableStringify h (rules_value current) \<noteq> stableStringify h (rules_value copied)
      then (if copied = [] then write_when (current \<noteq> []) delete else write_when True put)
      else io_return False)"

definition paste_lifecycle ::
  "js_host \<Rightarrow> 's bucket_ops_api \<Rightarrow> BulkCopyFeatureSelection \<Rightarrow> BulkConfigClipboardBucket \<Rightarrow> string \<Rightarrow> ('s, bool) io" where
  "paste_lifecycle h api fs source b =
     with_part (fs FLifecycle) (cb_lifecycleRules source) (\<lambda>rules.
       io_bind (getBucketLifecycle api b) (\<lambda>current.
         paste_rules h current rules (putBucketLifecycle api b rules) (deleteBucketLifecycle api b)))"

definition paste_cors ::
  "js_host \<Rightarrow> 's bucket_ops_api \<Rightarrow> BulkCopyFeatureSelection \<Rightarrow> BulkConfigClipboardBucket \<Rightarrow> string \<Rightarrow> ('s, bool) io" where
  "paste_cors h api fs source b =
     with_part (fs FCors) (cb_corsRules source) (\<lambda>rules.
       io_bind (getBucketCors api b) (\<lambda>current.
         paste_rules h current rules (putBucketCors api b rules) (deleteBucketCors api b)))"

text \<open>\<open>policy ?? null\<close>; an object is truthy.\<close>

definition policy_value :: "jrec option \<Rightarrow> json" where
  "policy_value p = (case p of None \<Rightarrow> JNull | Some r \<Rightarrow> JObj r)"

definition paste_policy ::
  "js_host \<Rightarrow> 's bucket_ops_api \<Rightarrow> BulkCopyFeatureSelection \<Rightarrow> BulkConfigClipboardBucket \<Rightarrow> string \<Rightarrow> ('s, bool) io" where
  "paste_policy h api fs source b =
     with_part (fs FPolicy) (Some ()) (\<lambda>_.
       io_bind (getBucketPolicy api b) (\<lambda>current.
         if stableStringify h (policy_value current) \<noteq> stableStringify h (policy_value (cb_policy source))
         then (case cb_policy source of
            None \<Rightarrow> write_when (current \<noteq> None) (deleteBucketPolicy api b)
          | Some p \<Rightarrow> write_when True (putBucketPolicy api b p))
         else io_return False))"

definition logging_json :: "BulkAccessLoggingSnapshot \<Rightarrow> jrec" where
  "logging_json l = [(''enabled'', JBool (al_enabled l)), (''target_bucket'', json_of_string (target_bucket l)),
     (''target_prefix'', JStr (case target_prefix l of None \<Rightarrow> [] | Some p \<Rightarrow> p))]"

definition truthy_text :: "string option \<Rightarrow> bool" where
  "truthy_text v = (case v of None \<Rightarrow> False | Some s \<Rightarrow> s \<noteq> [])"

definition paste_access_logging ::
  "'s bucket_ops_api \<Rightarrow> BulkCopyFeatureSelection \<Rightarrow> BulkConfigClipboardBucket \<Rightarrow> string \<Rightarrow> ('s, bool) io" where
  "paste_access_logging api fs source b =
     with_part (fs FAccessLogging) (cb_accessLogging source) (\<lambda>l.
       io_bind (getBucketLogging api b) (\<lambda>v.
         let current = normalizeAccessLoggingSnapshot (Some v) in
         if \<not> isAccessLoggingSnapshotEqual current l
         then (if \<not> al_enabled l \<or> \<not> truthy_text (target_bucket l)
               then write_when (al_enabled current \<or> truthy_text (target_bucket current)) (deleteBucketLogging api b)
               else write_when True (putBucketLogging api b (JObj (logging_json l))))
         else io_return False))"

section \<open>One item\<close>

fun run_sections :: "('s, bool) io list \<Rightarrow> ('s, bool) io" where
  "run_sections [] = io_return False"
| "run_sections (m # ms) = io_bind m (\<lambda>c. io_bind (run_sections ms) (\<lambda>d. io_return (c \<or> d)))"

definition paste_item ::
  "js_host \<Rightarrow> 's bucket_ops_api \<Rightarrow> (string \<Rightarrow> ('s, BulkQuotaSnapshot) io) \<Rightarrow> bool \<Rightarrow> BulkConfigClipboard option \<Rightarrow>
   BulkPastePlanItem \<Rightarrow> ('s, bool) io" where
  "paste_item h api fetchQuota isStorageOps clipboard item =
     (case clipboard of
        None \<Rightarrow> io_throw (JsErr ''Copied configuration is no longer available.'')
      | Some c \<Rightarrow>
          (let fs = features c; source = sourceConfig item; b = destinationBucket item in
           io_bind (io_when (fs FVersioning \<or> fs FObjectLock) (getBucketProperties api b)) (\<lambda>properties.
             run_sections [paste_quota api fetchQuota isStorageOps fs source b,
               paste_versioning api fs source properties b, paste_object_lock api fs source properties b,
               paste_public_access_block api fs source b, paste_lifecycle h api fs source b, paste_cors h api fs source b,
               paste_policy h api fs source b, paste_access_logging api fs source b])))"

text \<open>A batch in which the items of a plan are pasted one after the other.\<close>

fun paste_items ::
  "js_host \<Rightarrow> 's bucket_ops_api \<Rightarrow> (string \<Rightarrow> ('s, BulkQuotaSnapshot) io) \<Rightarrow> bool \<Rightarrow> BulkConfigClipboard option \<Rightarrow>
   BulkPastePlanItem list \<Rightarrow> 's \<Rightarrow> (bool, js_error) settled list \<times> 's" where
  "paste_items h api fetchQuota isStorageOps clipboard [] s = ([], s)"
| "paste_items h api fetchQuota isStorageOps clipboard (i # is) s =
     (let (r, t) = paste_item h api fetchQuota isStorageOps clipboard i s;
          (rs, u) = paste_items h api fetchQuota isStorageOps clipboard is t in
      ((case r of Inl e \<Rightarrow> Rejected e | Inr c \<Rightarrow> Fulfilled c) # rs, u))"

section \<open>What a paste makes of a configuration\<close>

text \<open>A step on one part: nothing to do, or the next configuration.\<close>

definition set_part :: "bool \<Rightarrow> 'a option \<Rightarrow> ('a \<Rightarrow> bool) \<Rightarrow> ('a \<Rightarrow> 'v) \<Rightarrow> 'v option" where
  "set_part on part same upd = (case part of
     Some x \<Rightarrow> if on \<and> \<not> same x then Some (upd x) else None | None \<Rightarrow> None)"

type_synonym view_step = "bucket_view \<Rightarrow> bucket_view option"

definition step_versioning :: "BulkCopyFeatureSelection \<Rightarrow> BulkConfigClipboardBucket \<Rightarrow> view_step" where
  "step_versioning fs src v = set_part (fs FVersioning) (cb_versioningEnabled src) (\<lambda>x. bv_versioning v = Some x)
     (\<lambda>x. v\<lparr>bv_versioning := Some x\<rparr>)"

definition step_object_lock :: "BulkCopyFeatureSelection \<Rightarrow> BulkConfigClipboardBucket \<Rightarrow> view_step" where
  "step_object_lock fs src v = set_part (fs FObjectLock) (cb_objectLock src) (\<lambda>l. bv_object_lock v = l)
     (\<lambda>l. v\<lparr>bv_object_lock := normalizeObjectLockSnapshot (Some (object_lock_json l))\<rparr>)"

definition step_public_access_block :: "BulkCopyFeatureSelection \<Rightarrow> BulkConfigClipboardBucket \<Rightarrow> view_step" where
  "step_public_access_block fs src v = set_part (fs FPublicAccessBlock) (cb_publicAccessBlock src)
     (\<lambda>p. bv_public_access_block v = p) (\<lambda>p. v\<lparr>bv_public_access_block := p\<rparr>)"

definition same_text :: "js_host \<Rightarrow> json \<Rightarrow> json \<Rightarrow> bool" where
  "same_text h a b \<longleftrightarrow> stableStringify h a = stableStringify h b"

definition step_lifecycle :: "js_host \<Rightarrow> BulkCopyFeatureSelection \<Rightarrow> BulkConfigClipboardBucket \<Rightarrow> view_step" where
  "step_lifecycle h fs src v = set_part (fs FLifecycle) (cb_lifecycleRules src)
     (\<lambda>rs. same_text h (rules_value (bv_lifecycle v)) (rules_value rs)) (\<lambda>rs. v\<lparr>bv_lifecycle := rs\<rparr>)"

definition step_cors :: "js_host \<Rightarrow> BulkCopyFeatureSelection \<Rightarrow> BulkConfigClipboardBucket \<Rightarrow> view_step" where
  "step_cors h fs src v = set_part (fs FCors) (cb_corsRules src)
     (\<lambda>rs. same_text h (rules_value (bv_cors v)) (rules_value rs)) (\<lambda>rs. v\<lparr>bv_cors := rs\<rparr>)"

definition step_policy :: "js_host \<Rightarrow> BulkCopyFeatureSelection \<Rightarrow> BulkConfigClipboardBucket \<Rightarrow> view_step" where
  "step_policy h fs src v = set_part (fs FPolicy) (Some (cb_policy src))
     (\<lambda>p. same_text h (policy_value (bv_policy v)) (policy_value p)) (\<lambda>p. v\<lparr>bv_policy := p\<rparr>)"

text \<open>Logging that is switched off has no target to compare.\<close>

definition logging_on :: "BulkAccessLoggingSnapshot \<Rightarrow> bool" where
  "logging_on l \<longleftrightarrow> al_enabled l \<and> truthy_text (target_bucket l)"

definition step_access_logging :: "BulkCopyFeatureSelection \<Rightarrow> BulkConfigClipboardBucket \<Rightarrow> view_step" where
  "step_access_logging fs src v = set_part (fs FAccessLogging) (cb_accessLogging src)
     (\<lambda>l. bv_logging v = l \<or> \<not> logging_on l \<and> \<not> al_enabled (bv_logging v) \<and> \<not> truthy_text (target_bucket (bv_logging v)))
     (\<lambda>l. v\<lparr>bv_logging := (if logging_on l then normalizeAccessLoggingSnapshot (Some (JObj (logging_json l))) else no_logging)\<rparr>)"

definition paste_steps :: "js_host \<Rightarrow> BulkCopyFeatureSelection \<Rightarrow> BulkConfigClipboardBucket \<Rightarrow> view_step list" where
  "paste_steps h fs src = [step_versioning fs src, step_object_lock fs src, step_public_access_block fs src,
     step_lifecycle h fs src, step_cors h fs src, step_policy h fs src, step_access_logging fs src]"

fun run_steps :: "view_step list \<Rightarrow> bucket_view \<Rightarrow> bool \<times> bucket_view" where
  "run_steps [] v = (False, v)"
| "run_steps (f # fs) v = (case f v of
     None \<Rightarrow> run_steps fs v | Some w \<Rightarrow> (True, snd (run_steps fs w)))"

definition pasted_view :: "js_host \<Rightarrow> BulkCopyFeatureSelection \<Rightarrow> BulkConfigClipboardBucket \<Rightarrow> bucket_view \<Rightarrow> bucket_view" where
  "pasted_view h fs src v = snd (run_steps (paste_steps h fs src) v)"

definition quota_differs :: "bool \<Rightarrow> BulkCopyFeatureSelection \<Rightarrow> BulkConfigClipboardBucket \<Rightarrow> BulkQuotaSnapshot \<Rightarrow> bool" where
  "quota_differs isStorageOps fs src q = (case cb_quota src of
     None \<Rightarrow> False | Some c \<Rightarrow> \<not> isStorageOps \<and> fs FQuota \<and> q \<noteq> c)"

section \<open>Refinement\<close>

text \<open>The sections started in a state refine the steps started on the configuration.\<close>

definition runs :: "('s \<Rightarrow> 'i \<Rightarrow> bucket_view option) \<Rightarrow> 'i \<Rightarrow> 's \<Rightarrow> ('s, bool) io list \<Rightarrow> view_step list \<Rightarrow> bucket_view \<Rightarrow> bool" where
  "runs view i s ms fs v \<longleftrightarrow> (\<exists>t. run_sections ms s = (Inr (fst (run_steps fs v)), t)
     \<and> view t = (view s)(i \<mapsto> snd (run_steps fs v)) \<and> (fst (run_steps fs v) \<or> t = s))"

lemma runs_Nil: "view s i = Some v \<Longrightarrow> runs view i s [] [] v"
  by (auto simp: runs_def)

lemma runs_Cons:
  assumes "view s i = Some v" and "refines view s i m (f v)"
    and "\<And>t w. view t i = Some w \<Longrightarrow> w = (case f v of None \<Rightarrow> v | Some w \<Rightarrow> w) \<Longrightarrow> runs view i t ms fs w"
  shows "runs view i s (m # ms) (f # fs) v"
proof (cases "f v")
  case None
  with assms(3) [OF assms(1)] assms(2) show ?thesis by (auto simp: runs_def refines_def io_bind_apply)
next
  case (Some w)
  with assms(2) obtain t where t: "m s = (Inr True, t)" "view t = (view s)(i \<mapsto> w)" by (auto simp: refines_def)
  then have "view t i = Some w" by simp
  from assms(3) [OF this] Some t show ?thesis by (auto simp: runs_def)
qed

lemma refines_part:
  assumes "\<And>x. part = Some x \<Longrightarrow> on \<Longrightarrow> refines view s i (body x) (if same x then None else Some (upd x))"
  shows "refines view s i (with_part on part body) (set_part on part same upd)"
  using assms by (cases part) (auto simp: with_part_def set_part_def refines_None)

lemma refines_write_when:
  assumes "writes view ident put upd" and "view s (ident b) = Some v" and "c \<longleftrightarrow> \<not> same"
  shows "refines view s (ident b) (write_when c (put b)) (if same then None else Some (upd v))"
  using refines_write [OF assms(1,2)] assms(3) by (auto simp: write_when_def refines_None)

lemma snapshot_equal:
  "isObjectLockSnapshotEqual a b \<longleftrightarrow> a = b" "isAccessLoggingSnapshotEqual c d \<longleftrightarrow> c = d"
  "isPublicAccessBlockEquivalent p q \<longleftrightarrow> p = q"
  by (auto simp: isObjectLockSnapshotEqual_def isAccessLoggingSnapshotEqual_def isPublicAccessBlockEquivalent_def)

lemma rules_text_empty: "\<not> same_text h (rules_value rs) (rules_value []) \<Longrightarrow> rs \<noteq> []"
  by (auto simp: same_text_def)

lemma refines_rules:
  assumes "writes view ident put (\<lambda>v. upd v copied)" and "writes view ident del (\<lambda>v. upd v [])"
    and "view s (ident b) = Some v"
  shows "refines view s (ident b) (paste_rules h current copied (put b) (del b))
    (if same_text h (rules_value current) (rules_value copied) then None else Some (upd v copied))"
  using refines_write [OF assms(1,3)] refines_write [OF assms(2,3)] rules_text_empty [of h current]
  by (auto simp: paste_rules_def same_text_def write_when_def refines_None)

context quota_store
begin

lemma public_access_block_part:
  assumes v: "view s (ident b) = Some v"
  shows "refines view s (ident b) (paste_public_access_block api fs src b) (step_public_access_block fs src v)"
  unfolding paste_public_access_block_def step_public_access_block_def
proof (rule refines_part)
  fix p
  from readsD [OF get_public_access_block v] obtain j where "getBucketPublicAccessBlock api b s = (Inr j, s)"
    "normalizePublicAccessBlockState (Some j) = bv_public_access_block v" by auto
  then show "refines view s (ident b) (io_bind (getBucketPublicAccessBlock api b) (\<lambda>v.
      write_when (\<not> isPublicAccessBlockEquivalent (normalizePublicAccessBlockState (Some v)) p)
        (updateBucketPublicAccessBlock api b p)))
     (if bv_public_access_block v = p then None else Some (v\<lparr>bv_public_access_block := p\<rparr>))"
    using refines_write_when [OF update_public_access_block [of p] v, of "bv_public_access_block v \<noteq> p" "bv_public_access_block v = p"]
    by (auto simp: refines_def snapshot_equal)
qed

lemma rules_parts:
  assumes v: "view s (ident b) = Some v"
  shows "refines view s (ident b) (paste_lifecycle h api fs src b) (step_lifecycle h fs src v)"
    and "refines view s (ident b) (paste_cors h api fs src b) (step_cors h fs src v)"
proof -
  have bind: "refines view s i (io_bind g f) r \<longleftrightarrow> refines view s i (f x) r" if "g s = (Inr x, s)" for g f i r x
    using that by (simp add: refines_def split: option.splits)
  show "refines view s (ident b) (paste_lifecycle h api fs src b) (step_lifecycle h fs src v)"
    unfolding paste_lifecycle_def step_lifecycle_def
    by (rule refines_part, subst bind, rule reads_idD [OF get_lifecycle v])
      (rule refines_rules [where upd = "\<lambda>v rs. v\<lparr>bv_lifecycle := rs\<rparr>", OF put_lifecycle delete_lifecycle v])
  show "refines view s (ident b) (paste_cors h api fs src b) (step_cors h fs src v)"
    unfolding paste_cors_def step_cors_def
    by (rule refines_part, subst bind, rule reads_idD [OF get_cors v])
      (rule refines_rules [where upd = "\<lambda>v rs. v\<lparr>bv_cors := rs\<rparr>", OF put_cors delete_cors v])
qed

lemma policy_part:
  assumes v: "view s (ident b) = Some v"
  shows "refines view s (ident b) (paste_policy h api fs src b) (step_policy h fs src v)"
  using reads_idD [OF get_policy v] refines_write [OF put_policy v] refines_write [OF delete_policy v]
  by (cases "cb_policy src"; cases "bv_policy v")
    (auto simp: paste_policy_def step_policy_def with_part_def set_part_def same_text_def write_when_def refines_def)

lemma logging_part:
  assumes v: "view s (ident b) = Some v"
  shows "refines view s (ident b) (paste_access_logging api fs src b) (step_access_logging fs src v)"
proof -
  from readsD [OF get_logging v] obtain j where j: "getBucketLogging api b s = (Inr j, s)"
    "normalizeAccessLoggingSnapshot (Some j) = bv_logging v" by auto
  then show ?thesis
    using refines_write [OF put_logging v] refines_write [OF delete_logging v]
    by (cases "cb_accessLogging src") (auto simp: paste_access_logging_def step_access_logging_def with_part_def
        set_part_def write_when_def refines_def snapshot_equal logging_on_def Let_def)
qed

text \<open>The two parts that were read before the sections.\<close>

lemma properties_parts:
  assumes v: "view s (ident b) = Some v"
  shows "bv_versioning v = normalizeVersioningStatus (Option.bind p versioning_status) \<or> \<not> fs FVersioning \<Longrightarrow>
      refines view s (ident b) (paste_versioning api fs src p b) (step_versioning fs src v)"
    and "\<exists>q. p = Some q \<and> bv_object_lock v = current_object_lock q \<or> \<not> fs FObjectLock \<Longrightarrow>
      refines view s (ident b) (paste_object_lock api fs src p b) (step_object_lock fs src v)"
  using refines_write [OF set_versioning v] refines_write [OF update_object_lock v]
  by (simp_all add: paste_versioning_def step_versioning_def paste_object_lock_def step_object_lock_def with_part_def
      set_part_def write_when_def snapshot_equal split: option.splits) (auto simp: refines_None)

lemma sections_run:
  assumes v: "view s (ident b) = Some v"
    and p: "fs FVersioning \<longrightarrow> bv_versioning v = normalizeVersioningStatus (Option.bind p versioning_status)"
    "fs FObjectLock \<longrightarrow> (\<exists>q. p = Some q \<and> bv_object_lock v = current_object_lock q)"
  shows "runs view (ident b) s [paste_versioning api fs src p b, paste_object_lock api fs src p b,
      paste_public_access_block api fs src b, paste_lifecycle h api fs src b, paste_cors h api fs src b,
      paste_policy h api fs src b, paste_access_logging api fs src b] (paste_steps h fs src) v"
  unfolding paste_steps_def
proof (rule runs_Cons)
  show "view s (ident b) = Some v" by (rule v)
  show "refines view s (ident b) (paste_versioning api fs src p b) (step_versioning fs src v)"
    using p(1) by (intro properties_parts(1) [OF v]) auto
  fix t w assume w: "view t (ident b) = Some w" and eq: "w = (case step_versioning fs src v of None \<Rightarrow> v | Some w \<Rightarrow> w)"
  then have "bv_object_lock w = bv_object_lock v" by (auto simp: step_versioning_def set_part_def split: option.splits)
  then show "runs view (ident b) t [paste_object_lock api fs src p b,
      paste_public_access_block api fs src b, paste_lifecycle h api fs src b, paste_cors h api fs src b,
      paste_policy h api fs src b, paste_access_logging api fs src b]
      [step_object_lock fs src, step_public_access_block fs src, step_lifecycle h fs src, step_cors h fs src,
       step_policy h fs src, step_access_logging fs src] w"
    using p(2) by (intro runs_Cons runs_Nil properties_parts public_access_block_part rules_parts policy_part logging_part w)
      (simp_all add: disj_commute)
qed

lemma quota_section:
  assumes v: "view s (ident b) = Some v" and q: "fetch b s = (Inr q, s)"
  shows "\<exists>t. paste_quota api fetch so fs src b s = (Inr (quota_differs so fs src q), t) \<and> view t = view s
    \<and> (quota_differs so fs src q \<or> t = s)"
proof -
  obtain update where u: "updateBucketQuota api = Some update" using has_quota by auto
  have "\<exists>t. update b pl s = (Inr (), t) \<and> view t = view s" for pl
    using update_quota [OF u, of pl] v by (auto simp: writes_def fun_upd_idem)
  then obtain t where t: "\<And>pl. update b pl s = (Inr (), t pl) \<and> view (t pl) = view s" by metis
  have "q = c \<longleftrightarrow> maxSizeBytes q = maxSizeBytes c \<and> maxObjects q = maxObjects c" for c by auto
  then show ?thesis using q t
    by (cases "cb_quota src") (auto simp: paste_quota_def u with_part_def write_when_def quota_differs_def io_seq_def io_bind_apply)
qed

text \<open>A paste reports a change of the quota or of the configuration, and makes the steps.\<close>

lemma paste_refines:
  assumes v: "view s (ident (destinationBucket item)) = Some v" and q: "fetch (destinationBucket item) s = (Inr q, s)"
  shows "\<exists>t. paste_item h api fetch so (Some c) item s
      = (Inr (quota_differs so (features c) (sourceConfig item) q
          \<or> fst (run_steps (paste_steps h (features c) (sourceConfig item)) v)), t)
    \<and> view t = (view s)(ident (destinationBucket item) \<mapsto> pasted_view h (features c) (sourceConfig item) v)
    \<and> (quota_differs so (features c) (sourceConfig item) q
       \<or> fst (run_steps (paste_steps h (features c) (sourceConfig item)) v) \<or> t = s)"
proof -
  let ?b = "destinationBucket item" and ?fs = "features c" and ?src = "sourceConfig item"
  from readsD [OF get_properties v] obtain p where p: "getBucketProperties api ?b s = (Inr p, s)"
    "normalizeVersioningStatus (versioning_status p) = bv_versioning v" "current_object_lock p = bv_object_lock v" by auto
  let ?p = "picked (?fs FVersioning \<or> ?fs FObjectLock) p"
  from quota_section [OF v, of fetch, OF q] obtain u where u: "paste_quota api fetch so ?fs ?src ?b s = (Inr (quota_differs so ?fs ?src q), u)"
    "view u = view s" "quota_differs so ?fs ?src q \<or> u = s" by blast
  from u(2) v have "view u (ident ?b) = Some v" by simp
  from sections_run [OF this, of ?fs ?p ?src h] p(2,3) obtain t where
    "run_sections [paste_versioning api ?fs ?src ?p ?b, paste_object_lock api ?fs ?src ?p ?b,
      paste_public_access_block api ?fs ?src ?b, paste_lifecycle h api ?fs ?src ?b, paste_cors h api ?fs ?src ?b,
      paste_policy h api ?fs ?src ?b, paste_access_logging api ?fs ?src ?b] u
      = (Inr (fst (run_steps (paste_steps h ?fs ?src) v)), t)"
    "view t = (view u)(ident ?b \<mapsto> snd (run_steps (paste_steps h ?fs ?src) v))"
    "fst (run_steps (paste_steps h ?fs ?src) v) \<or> t = u"
    by (auto simp: runs_def picked_def)
  moreover have "paste_item h api fetch so (Some c) item s =
      run_sections (paste_quota api fetch so ?fs ?src ?b # [paste_versioning api ?fs ?src ?p ?b, paste_object_lock api ?fs ?src ?p ?b,
      paste_public_access_block api ?fs ?src ?b, paste_lifecycle h api ?fs ?src ?b, paste_cors h api ?fs ?src ?b,
      paste_policy h api ?fs ?src ?b, paste_access_logging api ?fs ?src ?b]) s"
    by (simp add: paste_item_def io_bind_when p(1) Let_def del: run_sections.simps)
  ultimately show ?thesis using u by (auto simp: io_bind_apply pasted_view_def)
qed

end

section \<open>The parts after a paste\<close>

definition apply_step :: "view_step \<Rightarrow> bucket_view \<Rightarrow> bucket_view" where
  "apply_step f v = (case f v of None \<Rightarrow> v | Some w \<Rightarrow> w)"

lemma run_steps_Cons:
  "run_steps (f # fs) v = (f v \<noteq> None \<or> fst (run_steps fs (apply_step f v)), snd (run_steps fs (apply_step f v)))"
  by (auto simp: apply_step_def split: option.splits)

lemma run_steps_quiet: "list_all (\<lambda>f. f v = None) fs \<Longrightarrow> run_steps fs v = (False, v)"
  by (induction fs) auto

definition part_after :: "bool \<Rightarrow> 'a option \<Rightarrow> ('p \<Rightarrow> 'a \<Rightarrow> bool) \<Rightarrow> ('a \<Rightarrow> 'p) \<Rightarrow> 'p \<Rightarrow> 'p" where
  "part_after on part same new x = (case part of Some y \<Rightarrow> if on \<and> \<not> same x y then new y else x | None \<Rightarrow> x)"

definition same_logging :: "BulkAccessLoggingSnapshot \<Rightarrow> BulkAccessLoggingSnapshot \<Rightarrow> bool" where
  "same_logging x l \<longleftrightarrow> x = l \<or> \<not> logging_on l \<and> \<not> al_enabled x \<and> \<not> truthy_text (target_bucket x)"

definition new_logging :: "BulkAccessLoggingSnapshot \<Rightarrow> BulkAccessLoggingSnapshot" where
  "new_logging l = (if logging_on l then normalizeAccessLoggingSnapshot (Some (JObj (logging_json l))) else no_logging)"

definition new_object_lock :: "BulkObjectLockSnapshot \<Rightarrow> BulkObjectLockSnapshot" where
  "new_object_lock l = normalizeObjectLockSnapshot (Some (object_lock_json l))"

lemma apply_steps:
  "apply_step (step_versioning fs src) v = v\<lparr>bv_versioning :=
     part_after (fs FVersioning) (cb_versioningEnabled src) (\<lambda>x y. x = Some y) Some (bv_versioning v)\<rparr>"
  "apply_step (step_object_lock fs src) v = v\<lparr>bv_object_lock :=
     part_after (fs FObjectLock) (cb_objectLock src) (=) new_object_lock (bv_object_lock v)\<rparr>"
  "apply_step (step_public_access_block fs src) v = v\<lparr>bv_public_access_block :=
     part_after (fs FPublicAccessBlock) (cb_publicAccessBlock src) (=) (\<lambda>x. x) (bv_public_access_block v)\<rparr>"
  "apply_step (step_lifecycle h fs src) v = v\<lparr>bv_lifecycle := part_after (fs FLifecycle) (cb_lifecycleRules src)
     (\<lambda>x y. same_text h (rules_value x) (rules_value y)) (\<lambda>x. x) (bv_lifecycle v)\<rparr>"
  "apply_step (step_cors h fs src) v = v\<lparr>bv_cors := part_after (fs FCors) (cb_corsRules src)
     (\<lambda>x y. same_text h (rules_value x) (rules_value y)) (\<lambda>x. x) (bv_cors v)\<rparr>"
  "apply_step (step_policy h fs src) v = v\<lparr>bv_policy := part_after (fs FPolicy) (Some (cb_policy src))
     (\<lambda>x y. same_text h (policy_value x) (policy_value y)) (\<lambda>x. x) (bv_policy v)\<rparr>"
  "apply_step (step_access_logging fs src) v = v\<lparr>bv_logging :=
     part_after (fs FAccessLogging) (cb_accessLogging src) same_logging new_logging (bv_logging v)\<rparr>"
  by (auto simp: apply_step_def step_versioning_def step_object_lock_def step_public_access_block_def step_lifecycle_def
      step_cors_def step_policy_def step_access_logging_def set_part_def part_after_def same_logging_def new_logging_def
      new_object_lock_def split: option.splits)

lemma pasted_parts:
  "bv_versioning (pasted_view h fs src v) =
     part_after (fs FVersioning) (cb_versioningEnabled src) (\<lambda>x y. x = Some y) Some (bv_versioning v)"
  "bv_object_lock (pasted_view h fs src v) =
     part_after (fs FObjectLock) (cb_objectLock src) (=) new_object_lock (bv_object_lock v)"
  "bv_public_access_block (pasted_view h fs src v) =
     part_after (fs FPublicAccessBlock) (cb_publicAccessBlock src) (=) (\<lambda>x. x) (bv_public_access_block v)"
  "bv_lifecycle (pasted_view h fs src v) = part_after (fs FLifecycle) (cb_lifecycleRules src)
     (\<lambda>x y. same_text h (rules_value x) (rules_value y)) (\<lambda>x. x) (bv_lifecycle v)"
  "bv_cors (pasted_view h fs src v) = part_after (fs FCors) (cb_corsRules src)
     (\<lambda>x y. same_text h (rules_value x) (rules_value y)) (\<lambda>x. x) (bv_cors v)"
  "bv_policy (pasted_view h fs src v) = part_after (fs FPolicy) (Some (cb_policy src))
     (\<lambda>x y. same_text h (policy_value x) (policy_value y)) (\<lambda>x. x) (bv_policy v)"
  "bv_logging (pasted_view h fs src v) =
     part_after (fs FAccessLogging) (cb_accessLogging src) same_logging new_logging (bv_logging v)"
  "bv_notifications (pasted_view h fs src v) = bv_notifications v"
  unfolding pasted_view_def paste_steps_def by (simp_all add: run_steps_Cons apply_steps del: run_steps.simps(2))

definition part_changes :: "bool \<Rightarrow> 'a option \<Rightarrow> ('a \<Rightarrow> bool) \<Rightarrow> bool" where
  "part_changes on part same = (case part of Some x \<Rightarrow> on \<and> \<not> same x | None \<Rightarrow> False)"

lemma step_changes:
  "step_versioning fs src v \<noteq> None \<longleftrightarrow> part_changes (fs FVersioning) (cb_versioningEnabled src) (\<lambda>y. bv_versioning v = Some y)"
  "step_object_lock fs src v \<noteq> None \<longleftrightarrow> part_changes (fs FObjectLock) (cb_objectLock src) (\<lambda>y. bv_object_lock v = y)"
  "step_public_access_block fs src v \<noteq> None \<longleftrightarrow>
     part_changes (fs FPublicAccessBlock) (cb_publicAccessBlock src) (\<lambda>y. bv_public_access_block v = y)"
  "step_lifecycle h fs src v \<noteq> None \<longleftrightarrow> part_changes (fs FLifecycle) (cb_lifecycleRules src)
     (\<lambda>y. same_text h (rules_value (bv_lifecycle v)) (rules_value y))"
  "step_cors h fs src v \<noteq> None \<longleftrightarrow> part_changes (fs FCors) (cb_corsRules src)
     (\<lambda>y. same_text h (rules_value (bv_cors v)) (rules_value y))"
  "step_policy h fs src v \<noteq> None \<longleftrightarrow> part_changes (fs FPolicy) (Some (cb_policy src))
     (\<lambda>y. same_text h (policy_value (bv_policy v)) (policy_value y))"
  "step_access_logging fs src v \<noteq> None \<longleftrightarrow> part_changes (fs FAccessLogging) (cb_accessLogging src) (same_logging (bv_logging v))"
  by (auto simp: step_versioning_def step_object_lock_def step_public_access_block_def step_lifecycle_def step_cors_def
      step_policy_def step_access_logging_def set_part_def part_changes_def same_logging_def split: option.splits)

text \<open>The sections are independent: a section changes its part exactly when the part differed at the start.\<close>

lemma paste_changes:
  "fst (run_steps (paste_steps h fs src) v) \<longleftrightarrow> list_ex (\<lambda>f. f v \<noteq> None) (paste_steps h fs src)"
  unfolding paste_steps_def
  by (simp add: run_steps_Cons apply_steps step_changes del: run_steps.simps(2) not_None_eq)

section \<open>Pasting again\<close>

text \<open>What the clipboard holds is in the form the server gives back.\<close>

definition source_ok :: "BulkConfigClipboardBucket \<Rightarrow> bool" where
  "source_ok src \<longleftrightarrow> (\<forall>l. cb_objectLock src = Some l \<longrightarrow> new_object_lock l = l)
     \<and> (\<forall>l. cb_accessLogging src = Some l \<longrightarrow> logging_on l \<longrightarrow> new_logging l = l)"

lemma part_settles:
  assumes "\<And>y. part = Some y \<Longrightarrow> same (new y) y"
  shows "\<not> part_changes on part (\<lambda>y. same (part_after on part same new x) y)"
  using assms by (cases part) (auto simp: part_changes_def part_after_def)

lemma same_logging_new: "source_ok src \<Longrightarrow> cb_accessLogging src = Some l \<Longrightarrow> same_logging (new_logging l) l"
  by (cases "logging_on l") (auto simp: source_ok_def same_logging_def new_logging_def no_logging_def truthy_text_def)

lemma paste_again:
  assumes "source_ok src"
  shows "run_steps (paste_steps h fs src) (pasted_view h fs src v) = (False, pasted_view h fs src v)"
proof (rule run_steps_quiet)
  let ?w = "pasted_view h fs src v"
  have "step_versioning fs src ?w = None" "step_public_access_block fs src ?w = None" "step_lifecycle h fs src ?w = None"
    "step_cors h fs src ?w = None" "step_policy h fs src ?w = None"
    using part_settles [where same = "\<lambda>x y. x = Some y" and new = Some]
      part_settles [where same = "(=)" and new = "\<lambda>x. x"]
      part_settles [where same = "\<lambda>x y. same_text h (rules_value x) (rules_value y)" and new = "\<lambda>x. x"]
      part_settles [where same = "\<lambda>x y. same_text h (policy_value x) (policy_value y)" and new = "\<lambda>x. x"]
    by (simp_all add: step_changes [unfolded not_None_eq [symmetric], THEN arg_cong [where f = Not], simplified] pasted_parts same_text_def)
  moreover have "step_object_lock fs src ?w = None"
    using part_settles [of "cb_objectLock src" "(=)" new_object_lock] assms step_changes(2) [of fs src ?w]
    by (auto simp: source_ok_def pasted_parts)
  moreover have "step_access_logging fs src ?w = None"
    using part_settles [of "cb_accessLogging src" same_logging new_logging] same_logging_new [OF assms]
      step_changes(7) [of fs src ?w] by (auto simp: pasted_parts)
  ultimately show "list_all (\<lambda>f. f ?w = None) (paste_steps h fs src)" by (simp add: paste_steps_def)
qed

section \<open>Copy and paste\<close>

lemma trimmed_text_again: "trimmed_text (Some (json_of_string (trimmed_text v))) = trimmed_text v"
  by (auto simp: trimmed_text_def json_of_string_def split: option.splits json.splits)

lemma trimmed_text_or_empty:
  "trimmed_text (Some (JStr (case trimmed_text v of None \<Rightarrow> [] | Some p \<Rightarrow> p))) = trimmed_text v"
  by (auto simp: trimmed_text_def split: option.splits json.splits)

lemma finite_number_again: "finite_number (Some (json_of_number v)) = v"
  by (auto simp: finite_number_def json_of_number_def split: option.splits)

lemma new_object_lock_again: "new_object_lock (normalizeObjectLockSnapshot j) = normalizeObjectLockSnapshot j"
  by (simp add: new_object_lock_def normalizeObjectLockSnapshot_def object_lock_json_def jmember_def trimmed_text_again
      finite_number_again)

lemma logging_on_normalized: "logging_on (normalizeAccessLoggingSnapshot j) \<longleftrightarrow> al_enabled (normalizeAccessLoggingSnapshot j)"
  by (auto simp: logging_on_def normalizeAccessLoggingSnapshot_def truthy_text_def trimmed_text_def Let_def
      split: option.splits json.splits)

lemma new_logging_again:
  "logging_on (normalizeAccessLoggingSnapshot j) \<Longrightarrow> new_logging (normalizeAccessLoggingSnapshot j) = normalizeAccessLoggingSnapshot j"
  by (simp add: new_logging_def logging_on_def) (simp add: normalizeAccessLoggingSnapshot_def logging_json_def jmember_def
      trimmed_text_again trimmed_text_or_empty Let_def)

text \<open>
  The configuration \<open>w\<close> made of \<open>dst\<close> by pasting a copy of \<open>src\<close>: selected parts are those of the
  source (rules and policy up to the order of keys, versioning as enabled or not, logging that is off
  without its target), the other parts are kept.
\<close>

definition config_reached :: "js_host \<Rightarrow> BulkCopyFeatureSelection \<Rightarrow> bucket_view \<Rightarrow> bucket_view \<Rightarrow> bucket_view \<Rightarrow> bool" where
  "config_reached h fs src dst w \<longleftrightarrow>
     (if fs FVersioning then bv_versioning w = Some (bv_versioning src = Some True) else bv_versioning w = bv_versioning dst)
     \<and> bv_object_lock w = bv_object_lock (if fs FObjectLock then src else dst)
     \<and> bv_public_access_block w = bv_public_access_block (if fs FPublicAccessBlock then src else dst)
     \<and> (if fs FLifecycle then same_text h (rules_value (bv_lifecycle w)) (rules_value (bv_lifecycle src))
        else bv_lifecycle w = bv_lifecycle dst)
     \<and> (if fs FCors then same_text h (rules_value (bv_cors w)) (rules_value (bv_cors src)) else bv_cors w = bv_cors dst)
     \<and> (if fs FPolicy then same_text h (policy_value (bv_policy w)) (policy_value (bv_policy src))
        else bv_policy w = bv_policy dst)
     \<and> (if fs FAccessLogging then al_enabled (bv_logging w) = al_enabled (bv_logging src)
          \<and> (al_enabled (bv_logging src) \<longrightarrow> bv_logging w = bv_logging src) else bv_logging w = bv_logging dst)
     \<and> bv_notifications w = bv_notifications dst"

context bucket_store
begin

lemma view_normalized:
  assumes "view s (ident b) = Some v"
  shows "new_object_lock (bv_object_lock v) = bv_object_lock v"
    and "logging_on (bv_logging v) \<longleftrightarrow> al_enabled (bv_logging v)"
    and "logging_on (bv_logging v) \<Longrightarrow> new_logging (bv_logging v) = bv_logging v"
proof -
  from readsD [OF get_properties assms] obtain p where "current_object_lock p = bv_object_lock v" by auto
  then have "bv_object_lock v = current_object_lock p" by simp
  then show "new_object_lock (bv_object_lock v) = bv_object_lock v"
    by (simp add: current_object_lock_def new_object_lock_again Let_def)
  from readsD [OF get_logging assms] obtain j where "normalizeAccessLoggingSnapshot (Some j) = bv_logging v" by auto
  then have j: "bv_logging v = normalizeAccessLoggingSnapshot (Some j)" by simp
  show "logging_on (bv_logging v) \<longleftrightarrow> al_enabled (bv_logging v)" unfolding j by (rule logging_on_normalized)
  show "logging_on (bv_logging v) \<Longrightarrow> new_logging (bv_logging v) = bv_logging v" unfolding j by (rule new_logging_again)
qed

lemma copied_source_ok:
  "view s (ident b) = Some v \<Longrightarrow> source_ok (copied_bucket fs so q n v)"
  using view_normalized [of s b v] by (auto simp: source_ok_def copied_bucket_def picked_def split: if_splits)

lemma copy_reached:
  assumes "view s (ident b) = Some src"
  shows "config_reached h fs src dst (pasted_view h fs (copied_bucket fs so q n src) dst)"
proof -
  note norm = view_normalized [OF assms]
  have "same_text h x x" for x by (simp add: same_text_def)
  with norm show ?thesis
    by (auto simp: config_reached_def pasted_parts part_after_def copied_bucket_def picked_def same_logging_def
        new_logging_def no_logging_def split: if_splits)
qed

end

context quota_store
begin

text \<open>Pasting an item a second time changes nothing once the quota has been written.\<close>

lemma paste_item_again:
  assumes v: "view s (ident (destinationBucket item)) = Some v" and q: "fetch (destinationBucket item) s = (Inr q, s)"
    and "source_ok (sourceConfig item)" and p: "paste_item h api fetch so (Some c) item s = (r, t)"
    and q': "fetch (destinationBucket item) t = (Inr q', t)" and "\<not> quota_differs so (features c) (sourceConfig item) q'"
  shows "paste_item h api fetch so (Some c) item t = (Inr False, t)"
proof -
  from paste_refines [OF v, of fetch, OF q, of h so c] p
  have w: "view t (ident (destinationBucket item)) = Some (pasted_view h (features c) (sourceConfig item) v)" by auto
  from paste_refines [OF w, of fetch, OF q', of h so c] paste_again [OF assms(3)] assms(6) show ?thesis by auto
qed

text \<open>A plan with different destinations gives each its configuration and touches no other bucket.\<close>

lemma paste_items_settle:
  assumes "\<And>i. i \<in> set items \<Longrightarrow> view s (ident (destinationBucket i)) = Some (v (destinationBucket i))"
    and "distinct (map (\<lambda>i. ident (destinationBucket i)) items)" and fetch: "\<And>b t. \<exists>q. fetch b t = (Inr q, t)"
  shows "list_all (\<lambda>r. \<not> is_rejected r) (fst (paste_items h api fetch so (Some c) items s))
    \<and> (\<forall>i \<in> set items. view (snd (paste_items h api fetch so (Some c) items s)) (ident (destinationBucket i))
          = Some (pasted_view h (features c) (sourceConfig i) (v (destinationBucket i))))
    \<and> (\<forall>k. k \<notin> (\<lambda>i. ident (destinationBucket i)) ` set items \<longrightarrow>
          view (snd (paste_items h api fetch so (Some c) items s)) k = view s k)"
  using assms(1,2)
proof (induction items arbitrary: s)
  case (Cons a items)
  obtain q where q: "fetch (destinationBucket a) s = (Inr q, s)" using fetch by blast
  from Cons.prems(1) have v: "view s (ident (destinationBucket a)) = Some (v (destinationBucket a))" by simp
  from paste_refines [OF v, of fetch, OF q, of h so c] obtain ch t where
    t: "paste_item h api fetch so (Some c) a s = (Inr ch, t)"
      "view t = (view s)(ident (destinationBucket a) \<mapsto> pasted_view h (features c) (sourceConfig a) (v (destinationBucket a)))"
    by blast
  have "view t (ident (destinationBucket i)) = Some (v (destinationBucket i))" if "i \<in> set items" for i
  proof -
    from Cons.prems(2) that have "ident (destinationBucket i) \<noteq> ident (destinationBucket a)" by (auto simp: image_iff)
    with that Cons.prems(1) show ?thesis by (simp add: t(2))
  qed
  from Cons.IH [OF this] Cons.prems(2) t show ?case by (auto simp: case_prod_unfold Let_def is_rejected_def)
qed simp

end

end
