(* ===== verification/Paste_Preview.thy ===== *)
theory Paste_Preview
  imports Config_Paste Bulk_Preview
begin

text \<open>
  \<open>frontend/src/features/shared/bucketOpsConfigPastePreview.ts\<close>: what the preview of a paste shows for
  one bucket, one definition for each section, and the items of the batch. Under the contract the
  preview leaves the state alone, and it announces a change whenever the paste makes one
  (\<open>paste_announced\<close>).
\<close>

section \<open>The sections\<close>

record paste_section =
  sec_label :: string
  sec_changed :: bool
  sec_before :: "BulkPreviewLine list"
  sec_after :: "BulkPreviewLine list"

definition with_section :: "bool \<Rightarrow> 'a option \<Rightarrow> ('a \<Rightarrow> ('s, paste_section) io) \<Rightarrow> ('s, paste_section option) io" where
  "with_section on part body = (case part of
     Some x \<Rightarrow> if on then io_bind (body x) (\<lambda>r. io_return (Some r)) else io_return None | None \<Rightarrow> io_return None)"

text \<open>A section with toned lines before and after.\<close>

definition text_section :: "string \<Rightarrow> bool \<Rightarrow> string list \<Rightarrow> string list \<Rightarrow> paste_section" where
  "text_section label ch bef aft = \<lparr>sec_label = label, sec_changed = ch,
     sec_before = map (toned_line Removed ch) bef, sec_after = map (toned_line Added ch) aft\<rparr>"

definition preview_quota ::
  "js_host \<Rightarrow> (string \<Rightarrow> ('s, BulkQuotaSnapshot) io) \<Rightarrow> bool \<Rightarrow> BulkCopyFeatureSelection \<Rightarrow> BulkConfigClipboardBucket \<Rightarrow>
   string \<Rightarrow> ('s, paste_section option) io" where
  "preview_quota h fetchQuota isStorageOps fs source b =
     with_section (\<not> isStorageOps \<and> fs FQuota) (cb_quota source) (\<lambda>q.
       io_bind (fetchQuota b) (\<lambda>current.
         io_return (text_section ''Quota''
           (maxSizeBytes current \<noteq> maxSizeBytes q \<or> maxObjects current \<noteq> maxObjects q)
           [''Size: '' @ quota_size_text h (maxSizeBytes current), ''Objects: '' @ quota_objects_text h (maxObjects current)]
           [''Size: '' @ quota_size_text h (maxSizeBytes q), ''Objects: '' @ quota_objects_text h (maxObjects q)])))"

definition preview_versioning ::
  "BulkCopyFeatureSelection \<Rightarrow> BulkConfigClipboardBucket \<Rightarrow> BucketProperties option \<Rightarrow> ('s, paste_section option) io" where
  "preview_versioning fs source properties =
     with_section (fs FVersioning) (cb_versioningEnabled source) (\<lambda>on.
       io_return (text_section ''Versioning''
         (normalizeVersioningStatus (Option.bind properties versioning_status) \<noteq> Some on)
         [formatVersioningStatus (Option.bind properties versioning_status)]
         [if on then ''Enabled'' else ''Suspended'']))"

definition preview_object_lock ::
  "js_host \<Rightarrow> BulkCopyFeatureSelection \<Rightarrow> BulkConfigClipboardBucket \<Rightarrow> BucketProperties option \<Rightarrow>
   ('s, paste_section option) io" where
  "preview_object_lock h fs source properties =
     with_section (fs FObjectLock) (cb_objectLock source) (\<lambda>l.
       let current = current_object_lock (case properties of Some p \<Rightarrow> p
              | None \<Rightarrow> \<lparr>versioning_status = None, object_lock = None\<rparr>) in
       io_return (text_section ''Object Lock'' (\<not> isObjectLockSnapshotEqual current l)
         [formatObjectLockSnapshot h current] [formatObjectLockSnapshot h l]))"

definition preview_public_access_block ::
  "js_host \<Rightarrow> 's bucket_ops_api \<Rightarrow> BulkCopyFeatureSelection \<Rightarrow> BulkConfigClipboardBucket \<Rightarrow> string \<Rightarrow>
   ('s, paste_section option) io" where
  "preview_public_access_block h api fs source b =
     with_section (fs FPublicAccessBlock) (cb_publicAccessBlock source) (\<lambda>p.
       io_bind (getBucketPublicAccessBlock api b) (\<lambda>v.
         let current = normalizePublicAccessBlockState (Some v) in
         io_return (text_section ''Block Public Access'' (\<not> isPublicAccessBlockEquivalent current p)
           [stringify2 h [] (public_access_block_json current)] [stringify2 h [] (public_access_block_json p)])))"

text \<open>The rules of a section; an empty list is one plain line.\<close>

definition rules_section :: "js_host \<Rightarrow> string \<Rightarrow> (jrec \<Rightarrow> string) \<Rightarrow> jrec list \<Rightarrow> jrec list \<Rightarrow> paste_section" where
  "rules_section h label fmt current copied =
     (let ch = (stableStringify h (rules_value current) \<noteq> stableStringify h (rules_value copied));
          rule_texts = (\<lambda>tn rules. if rules = [] then [plain_line ''(no rules)'']
            else map (\<lambda>r. toned_line tn ch (fmt r)) rules) in
      \<lparr>sec_label = label, sec_changed = ch, sec_before = rule_texts Removed current, sec_after = rule_texts Added copied\<rparr>)"

definition preview_lifecycle ::
  "js_host \<Rightarrow> 's bucket_ops_api \<Rightarrow> BulkCopyFeatureSelection \<Rightarrow> BulkConfigClipboardBucket \<Rightarrow> string \<Rightarrow>
   ('s, paste_section option) io" where
  "preview_lifecycle h api fs source b =
     with_section (fs FLifecycle) (cb_lifecycleRules source) (\<lambda>rules.
       io_bind (getBucketLifecycle api b) (\<lambda>current.
         io_return (rules_section h ''Lifecycle'' (formatLifecycleRule h) current rules)))"

definition preview_cors ::
  "js_host \<Rightarrow> 's bucket_ops_api \<Rightarrow> BulkCopyFeatureSelection \<Rightarrow> BulkConfigClipboardBucket \<Rightarrow> string \<Rightarrow>
   ('s, paste_section option) io" where
  "preview_cors h api fs source b =
     with_section (fs FCors) (cb_corsRules source) (\<lambda>rules.
       io_bind (getBucketCors api b) (\<lambda>current.
         io_return (rules_section h ''CORS'' (formatCorsRule h) current rules)))"

definition policy_text :: "js_host \<Rightarrow> jrec option \<Rightarrow> string" where
  "policy_text h p = (case p of None \<Rightarrow> ''(no policy)'' | Some r \<Rightarrow> stringify2 h [] (JObj r))"

definition preview_policy ::
  "js_host \<Rightarrow> 's bucket_ops_api \<Rightarrow> BulkCopyFeatureSelection \<Rightarrow> BulkConfigClipboardBucket \<Rightarrow> string \<Rightarrow>
   ('s, paste_section option) io" where
  "preview_policy h api fs source b =
     with_section (fs FPolicy) (Some ()) (\<lambda>_.
       io_bind (getBucketPolicy api b) (\<lambda>current.
         io_return (text_section ''Bucket Policy''
           (stableStringify h (policy_value current) \<noteq> stableStringify h (policy_value (cb_policy source)))
           [policy_text h current] [policy_text h (cb_policy source)])))"

definition logging_snapshot_json :: "BulkAccessLoggingSnapshot \<Rightarrow> json" where
  "logging_snapshot_json l = JObj [(''enabled'', JBool (al_enabled l)),
     (''target_bucket'', json_of_string (target_bucket l)), (''target_prefix'', json_of_string (target_prefix l))]"

definition preview_access_logging ::
  "js_host \<Rightarrow> 's bucket_ops_api \<Rightarrow> BulkCopyFeatureSelection \<Rightarrow> BulkConfigClipboardBucket \<Rightarrow> string \<Rightarrow>
   ('s, paste_section option) io" where
  "preview_access_logging h api fs source b =
     with_section (fs FAccessLogging) (cb_accessLogging source) (\<lambda>l.
       io_bind (getBucketLogging api b) (\<lambda>v.
         let current = normalizeAccessLoggingSnapshot (Some v) in
         io_return (text_section ''Access logging'' (\<not> isAccessLoggingSnapshotEqual current l)
           [stringify2 h [] (logging_snapshot_json current)] [stringify2 h [] (logging_snapshot_json l)])))"

section \<open>One item and the batch\<close>

fun gather_sections :: "('s, paste_section option) io list \<Rightarrow> ('s, paste_section list) io" where
  "gather_sections [] = io_return []"
| "gather_sections (m # ms) = io_bind m (\<lambda>r. io_bind (gather_sections ms) (\<lambda>rs.
     io_return ((case r of None \<Rightarrow> [] | Some x \<Rightarrow> [x]) @ rs)))"

definition section_lines :: "string \<Rightarrow> (paste_section \<Rightarrow> BulkPreviewLine list) \<Rightarrow> paste_section list \<Rightarrow> BulkPreviewLine list" where
  "section_lines source lines secs = plain_line (''Source bucket: '' @ source)
     # concat (map (\<lambda>x. plain_line (''['' @ sec_label x @ '']'') # lines x) secs)"

definition buildBucketConfigPastePreview ::
  "js_host \<Rightarrow> 's bucket_ops_api \<Rightarrow> (string \<Rightarrow> ('s, BulkQuotaSnapshot) io) \<Rightarrow> bool \<Rightarrow> BulkConfigClipboard option \<Rightarrow>
   BulkPastePlanItem \<Rightarrow> ('s, BulkPreviewItem) io" where
  "buildBucketConfigPastePreview h api fetchQuota isStorageOps clipboard item =
     (let source = sourceConfig item; b = destinationBucket item in
      case clipboard of
        None \<Rightarrow> io_return (preview_item b False [plain_line ''Clipboard unavailable.''] [plain_line ''Clipboard unavailable.''])
      | Some c \<Rightarrow>
          (let fs = features c in
           io_bind (io_when (fs FVersioning \<or> fs FObjectLock) (getBucketProperties api b)) (\<lambda>properties.
           io_bind (gather_sections [preview_quota h fetchQuota isStorageOps fs source b,
               preview_versioning fs source properties, preview_object_lock h fs source properties,
               preview_public_access_block h api fs source b, preview_lifecycle h api fs source b,
               preview_cors h api fs source b, preview_policy h api fs source b, preview_access_logging h api fs source b])
             (\<lambda>secs. io_return (preview_item b (list_ex sec_changed secs)
               (section_lines (sourceBucket item) sec_before secs) (section_lines (sourceBucket item) sec_after secs))))))"

definition paste_preview_failure :: "BulkPastePlanItem \<Rightarrow> string \<Rightarrow> BulkPreviewItem" where
  "paste_preview_failure item e =
     (let lines = [plain_line (''Source bucket: '' @ sourceBucket item), plain_line ''Preview failed.''] in
      \<lparr>bucket = destinationBucket item, before = lines, after = lines, changed = False, item_error = Some e\<rparr>)"

definition previewBucketOpsConfigPaste ::
  "(js_error \<Rightarrow> string) \<Rightarrow> BulkPastePlanItem list \<Rightarrow> (BulkPreviewItem, js_error) settled list \<Rightarrow> BulkPreviewItem list" where
  "previewBucketOpsConfigPaste extract items res = runBucketPreviewBatch extract paste_preview_failure items res"

section \<open>The preview announces the paste\<close>

text \<open>A section that only reads, and whether it shows a change.\<close>

definition shows_change :: "'s \<Rightarrow> ('s, paste_section option) io \<Rightarrow> bool \<Rightarrow> bool" where
  "shows_change s m c \<longleftrightarrow> (\<exists>r. m s = (Inr r, s) \<and> (case r of None \<Rightarrow> \<not> c | Some x \<Rightarrow> sec_changed x = c))"

lemma gather_shows:
  assumes "list_all2 (shows_change s) ms cs"
  shows "\<exists>secs. gather_sections ms s = (Inr secs, s) \<and> list_ex sec_changed secs = list_ex id cs"
  using assms
proof (induction ms cs rule: list_all2_induct)
  case (Cons m ms c cs)
  then show ?case by (fastforce simp: shows_change_def io_bind_apply split: option.splits)
qed simp

lemma with_section_shows:
  assumes "\<And>x. part = Some x \<Longrightarrow> on \<Longrightarrow> \<exists>r. body x s = (Inr r, s) \<and> sec_changed r = (\<not> same x)"
  shows "shows_change s (with_section on part body) (part_changes on part same)"
  using assms by (cases part) (fastforce simp: with_section_def shows_change_def part_changes_def io_bind_apply)+

lemma sec_changed_simps [simp]:
  "sec_changed (text_section l c x y) = c"
  "sec_changed (rules_section h l f rs rs') = (\<not> same_text h (rules_value rs) (rules_value rs'))"
  by (simp_all add: text_section_def rules_section_def same_text_def Let_def)

text \<open>The change of a paste that is shown although nothing is written: a stale prefix of logging that is off.\<close>

definition stale_logging :: "BulkCopyFeatureSelection \<Rightarrow> BulkConfigClipboardBucket \<Rightarrow> bucket_view \<Rightarrow> bool" where
  "stale_logging fs src v = (case cb_accessLogging src of
     None \<Rightarrow> False
   | Some l \<Rightarrow> fs FAccessLogging \<and> bv_logging v \<noteq> l \<and> \<not> logging_on l \<and> \<not> al_enabled (bv_logging v)
        \<and> \<not> truthy_text (target_bucket (bv_logging v)))"

context quota_store
begin

lemma sections_shown:
  assumes v: "view s (ident b) = Some v" and q: "fetch b s = (Inr q, s)"
  shows "shows_change s (preview_quota h fetch so fs src b) (quota_differs so fs src q)"
    and "shows_change s (preview_public_access_block h api fs src b) (step_public_access_block fs src v \<noteq> None)"
    and "shows_change s (preview_lifecycle h api fs src b) (step_lifecycle h fs src v \<noteq> None)"
    and "shows_change s (preview_cors h api fs src b) (step_cors h fs src v \<noteq> None)"
    and "shows_change s (preview_policy h api fs src b) (step_policy h fs src v \<noteq> None)"
    and "shows_change s (preview_access_logging h api fs src b)
       (step_access_logging fs src v \<noteq> None \<or> stale_logging fs src v)"
proof -
  from readsD [OF get_public_access_block v] obtain pab where pab: "getBucketPublicAccessBlock api b s = (Inr pab, s)"
    "normalizePublicAccessBlockState (Some pab) = bv_public_access_block v" by auto
  from readsD [OF get_logging v] obtain l where l: "getBucketLogging api b s = (Inr l, s)"
    "normalizeAccessLoggingSnapshot (Some l) = bv_logging v" by auto
  show "shows_change s (preview_quota h fetch so fs src b) (quota_differs so fs src q)"
    using q by (cases "cb_quota src") (auto simp: preview_quota_def with_section_def shows_change_def quota_differs_def)
  show "shows_change s (preview_public_access_block h api fs src b) (step_public_access_block fs src v \<noteq> None)"
    unfolding preview_public_access_block_def step_changes
    by (rule with_section_shows) (simp add: pab snapshot_equal Let_def)
  show "shows_change s (preview_lifecycle h api fs src b) (step_lifecycle h fs src v \<noteq> None)"
    unfolding preview_lifecycle_def step_changes by (rule with_section_shows) (simp add: reads_idD [OF get_lifecycle v])
  show "shows_change s (preview_cors h api fs src b) (step_cors h fs src v \<noteq> None)"
    unfolding preview_cors_def step_changes by (rule with_section_shows) (simp add: reads_idD [OF get_cors v])
  show "shows_change s (preview_policy h api fs src b) (step_policy h fs src v \<noteq> None)"
    unfolding preview_policy_def step_changes using reads_idD [OF get_policy v]
    by (auto simp: with_section_def shows_change_def part_changes_def same_text_def)
  show "shows_change s (preview_access_logging h api fs src b) (step_access_logging fs src v \<noteq> None \<or> stale_logging fs src v)"
    unfolding preview_access_logging_def step_changes
    using l by (cases "cb_accessLogging src") (auto simp: with_section_def shows_change_def part_changes_def stale_logging_def same_logging_def snapshot_equal Let_def)
qed

text \<open>The preview shows the change of the paste, and that of a stale prefix.\<close>

lemma preview_shows:
  assumes v: "view s (ident (destinationBucket item)) = Some v" and q: "fetch (destinationBucket item) s = (Inr q, s)"
  shows "\<exists>i. buildBucketConfigPastePreview h api fetch so (Some c) item s = (Inr i, s)
    \<and> bucket i = destinationBucket item
    \<and> changed i = (quota_differs so (features c) (sourceConfig item) q
        \<or> fst (run_steps (paste_steps h (features c) (sourceConfig item)) v)
        \<or> stale_logging (features c) (sourceConfig item) v)"
proof -
  let ?b = "destinationBucket item" and ?fs = "features c" and ?src = "sourceConfig item"
  from readsD [OF get_properties v] obtain p where p: "getBucketProperties api ?b s = (Inr p, s)"
    "normalizeVersioningStatus (versioning_status p) = bv_versioning v" "current_object_lock p = bv_object_lock v" by auto
  let ?p = "picked (?fs FVersioning \<or> ?fs FObjectLock) p"
  have ver: "shows_change s (preview_versioning ?fs ?src ?p) (step_versioning ?fs ?src v \<noteq> None)"
    unfolding preview_versioning_def step_changes by (rule with_section_shows) (auto simp: picked_def p)
  have lock: "shows_change s (preview_object_lock h ?fs ?src ?p) (step_object_lock ?fs ?src v \<noteq> None)"
    unfolding preview_object_lock_def step_changes
    by (rule with_section_shows) (auto simp: picked_def p snapshot_equal Let_def)
  note shown = sections_shown [OF v, of fetch, OF q]
  let ?secs = "[preview_quota h fetch so ?fs ?src ?b, preview_versioning ?fs ?src ?p, preview_object_lock h ?fs ?src ?p,
      preview_public_access_block h api ?fs ?src ?b, preview_lifecycle h api ?fs ?src ?b, preview_cors h api ?fs ?src ?b,
      preview_policy h api ?fs ?src ?b, preview_access_logging h api ?fs ?src ?b]"
  let ?cs = "[quota_differs so ?fs ?src q, step_versioning ?fs ?src v \<noteq> None, step_object_lock ?fs ?src v \<noteq> None,
      step_public_access_block ?fs ?src v \<noteq> None, step_lifecycle h ?fs ?src v \<noteq> None, step_cors h ?fs ?src v \<noteq> None,
      step_policy h ?fs ?src v \<noteq> None, step_access_logging ?fs ?src v \<noteq> None \<or> stale_logging ?fs ?src v]"
  have "list_all2 (shows_change s) ?secs ?cs"
    using ver lock shown by (simp only: list_all2_Cons list_all2_Nil simp_thms)
  moreover have "list_ex id ?cs = (quota_differs so ?fs ?src q \<or> fst (run_steps (paste_steps h ?fs ?src) v) \<or> stale_logging ?fs ?src v)"
    unfolding paste_changes by (simp add: paste_steps_def del: not_None_eq) blast
  ultimately obtain secs where secs: "gather_sections ?secs s = (Inr secs, s)"
    "list_ex sec_changed secs = (quota_differs so ?fs ?src q \<or> fst (run_steps (paste_steps h ?fs ?src) v) \<or> stale_logging ?fs ?src v)"
    using gather_shows by (metis (no_types, lifting))
  have "buildBucketConfigPastePreview h api fetch so (Some c) item s
      = io_bind (gather_sections ?secs) (\<lambda>secs. io_return (preview_item ?b (list_ex sec_changed secs)
               (section_lines (sourceBucket item) sec_before secs) (section_lines (sourceBucket item) sec_after secs))) s"
    by (simp add: buildBucketConfigPastePreview_def io_bind_when p(1) Let_def del: gather_sections.simps)
  then show ?thesis by (simp add: secs preview_item_def del: gather_sections.simps)
qed

end

end
