(* ===== verification/Demo_Server.thy ===== *)
theory Demo_Server
  imports Paste_Preview
begin

text \<open>
  The server of the static demo: \<open>frontend/src/demo/buckets.ts\<close> (the resources of a bucket under
  \<open>/ceph-admin/endpoints/:id/buckets/:name/:resource\<close>), \<open>scopedBucket\<close>, \<open>json\<close> and \<open>done\<close> of
  \<open>frontend/src/demo/http.ts\<close>, \<open>newBucket\<close> of \<open>frontend/src/demo/state.ts\<close> and the guards of
  \<open>dispatch\<close> in \<open>frontend/src/demo/runtime.ts\<close>, for an identity that may use the Ceph pages. The other
  requests (listings included) are answered by the parameter \<open>other\<close>. The server meets the contracts
  \<open>bucket_store\<close> and \<open>quota_store\<close>: the interpretation \<open>demo\<close>.
\<close>

section \<open>State\<close>

record demo_bucket =
  db_name :: string
  db_endpointId :: nat
  db_quota_max_size_bytes :: "js_number option"
  db_quota_max_objects :: "js_number option"
  db_tags :: "json option"
  db_config :: jrec

type_synonym demo_state = "demo_bucket list"

datatype demo_method = GET | PUT | DELETE

text \<open>\<open>json(value)\<close> and \<open>done()\<close>.\<close>

datatype demo_response = JsonBody json | NoContent

definition no_rules :: json where
  "no_rules = JObj [(''rules'', JArr [])]"

definition newBucket :: "string \<Rightarrow> nat \<Rightarrow> string \<Rightarrow> bool \<Rightarrow> demo_bucket" where
  "newBucket name endpointId owner versioning =
     \<lparr>db_name = name, db_endpointId = endpointId,
      db_quota_max_size_bytes = Some (Fin (100 * 1024 ^ 3)), db_quota_max_objects = Some (Fin 100000),
      db_tags = Some (JArr [JObj [(''key'', JStr ''environment''), (''value'', JStr ''demo'')]]),
      db_config =
       [(''versioning'', JObj [(''enabled'', JBool versioning),
           (''status'', JStr (if versioning then ''Enabled'' else ''Suspended''))]),
        (''lifecycle'', JObj [(''rules'', JArr [JObj [(''ID'', JStr ''retain-previous-versions''),
           (''Status'', JStr ''Enabled''), (''Filter'', JObj [(''Prefix'', JStr [])]),
           (''NoncurrentVersionExpiration'', JObj [(''NoncurrentDays'', JNum (Fin 90))])]])]),
        (''cors'', no_rules), (''policy'', JObj [(''policy'', JNull)]), (''encryption'', no_rules),
        (''logging'', JObj [(''enabled'', JBool False), (''target_bucket'', JNull), (''target_prefix'', JNull)]),
        (''object-lock'', JObj [(''enabled'', JBool False)]), (''website'', JObj []),
        (''notifications'', JObj [(''configuration'', JObj [])]),
        (''replication'', JObj [(''configuration'', JObj [])]),
        (''acl'', JObj [(''owner'', JStr owner), (''grants'', JArr [])]),
        (''public-access-block'', JObj [(''block_public_acls'', JBool True), (''ignore_public_acls'', JBool True),
           (''block_public_policy'', JBool True), (''restrict_public_buckets'', JBool True)])]\<rparr>"

section \<open>The resources of a bucket\<close>

text \<open>
  \<open>v.k\<close>, which throws on \<open>undefined\<close> and \<open>null\<close> (\<open>None\<close>); an object literal without its undefined
  properties.
\<close>

definition access :: "json option \<Rightarrow> string \<Rightarrow> json option option" where
  "access v k = (if nullish v then None else Some (jmember v k))"

definition defined_entries :: "(string \<times> json option) list \<Rightarrow> jrec" where
  "defined_entries es = List.map_filter (\<lambda>(k, v). map_option (Pair k) v) es"

definition lifecycle_summary :: "json \<Rightarrow> json option" where
  "lifecycle_summary rule =
     Option.bind (access (Some rule) ''ID'') (\<lambda>i. Option.bind (access (Some rule) ''Status'') (\<lambda>st.
       Some (JObj (defined_entries [(''id'', i), (''status'', st), (''prefix'', Some (JStr []))]))))"

definition demo_properties :: "jrec \<Rightarrow> json option" where
  "demo_properties config =
     Option.bind (access (jprop config ''versioning'') ''status'') (\<lambda>status.
     Option.bind (access (jprop config ''lifecycle'') ''rules'') (\<lambda>rules.
     case rules of
       Some (JArr rs) \<Rightarrow>
         Option.bind (those (map lifecycle_summary rs)) (\<lambda>ls.
         Option.bind (access (jprop config ''cors'') ''rules'') (\<lambda>cors.
           Some (JObj (defined_entries
             [(''versioning_status'', status), (''object_lock'', jprop config ''object-lock''),
              (''public_access_block'', jprop config ''public-access-block''),
              (''lifecycle_rules'', Some (JArr ls)), (''cors_rules'', cors)]))))
     | _ \<Rightarrow> None))"

definition emptied_resource :: "string \<Rightarrow> json" where
  "emptied_resource resource =
     (if resource \<in> {''lifecycle'', ''cors'', ''encryption''} then no_rules
      else if resource = ''policy'' then JObj [(''policy'', JNull)]
      else if resource \<in> {''notifications'', ''replication''} then JObj [(''configuration'', JObj [])]
      else JObj [])"

definition times_GiB :: "js_number \<Rightarrow> js_number" where
  "times_GiB n = (case n of Fin q \<Rightarrow> Fin (q * 1024 ^ 3) | _ \<Rightarrow> n)"

definition nullable_number :: "js_host \<Rightarrow> json option \<Rightarrow> js_number option" where
  "nullable_number h v = (if nullish v then None else map_option (js_Number_value h) v)"

text \<open>
  The answer for one bucket: \<open>None\<close> when the handler does not cover the request, an error, or a
  response with the next bucket. The text of a \<open>TypeError\<close> of the host is left empty.
\<close>

definition demo_resource ::
  "js_host \<Rightarrow> demo_method \<Rightarrow> string \<Rightarrow> jrec \<Rightarrow> demo_bucket \<Rightarrow> (js_error + demo_response \<times> demo_bucket) option" where
  "demo_resource h m resource body b =
     (if resource = ''properties'' \<and> m = GET then
        Some (case demo_properties (db_config b) of
          None \<Rightarrow> Inl (HttpError 500 []) | Some v \<Rightarrow> Inr (JsonBody v, b))
      else if resource = ''quota'' \<and> m = PUT then
        Some (Inr (NoContent, b\<lparr>
          db_quota_max_size_bytes := map_option times_GiB (nullable_number h (jprop body ''max_size_gb'')),
          db_quota_max_objects := nullable_number h (jprop body ''max_objects'')\<rparr>))
      else if resource = ''tags'' then
        Some (Inr (case m of
          GET \<Rightarrow> (JsonBody (JObj [(''tags'', the (coalesce (db_tags b) (Some (JArr []))))]), b)
        | PUT \<Rightarrow> (NoContent, b\<lparr>db_tags := jprop body ''tags''\<rparr>)
        | DELETE \<Rightarrow> (NoContent, b\<lparr>db_tags := Some (JArr [])\<rparr>)))
      else if resource = ''versioning'' \<and> m = PUT then
        Some (Inr (NoContent, b\<lparr>db_config := AList.update ''versioning''
          (JObj [(''enabled'', JBool (truthy (jprop body ''enabled''))),
                 (''status'', JStr (if truthy (jprop body ''enabled'') then ''Enabled'' else ''Suspended''))])
          (db_config b)\<rparr>))
      else if resource \<noteq> [] \<and> jprop (db_config b) resource \<noteq> None then
        Some (Inr (case m of
          GET \<Rightarrow> (JsonBody (the (jprop (db_config b) resource)), b)
        | PUT \<Rightarrow> (JsonBody (JObj body), b\<lparr>db_config := AList.update resource (JObj body) (db_config b)\<rparr>)
        | DELETE \<Rightarrow> (NoContent, b\<lparr>db_config := AList.update resource (emptied_resource resource) (db_config b)\<rparr>)))
      else if resource = ''cors'' \<and> m = GET then
        Some (Inr (JsonBody (JObj [(''enabled'', JBool False), (''rules'', JArr [])]), b))
      else None)"

section \<open>Requests\<close>

text \<open>\<open>scopedBucket(c, name, endpointId)\<close>: the index of the bucket.\<close>

definition scopedBucket :: "demo_state \<Rightarrow> string \<Rightarrow> nat \<Rightarrow> js_error + nat" where
  "scopedBucket s name endpointId =
     (case findIndex (\<lambda>b. db_name b = name) s of
        None \<Rightarrow> Inl (HttpError 404 ''Demo resource not found'')
      | Some i \<Rightarrow> if db_endpointId (s ! i) = endpointId then Inr i
                  else Inl (HttpError 404 ''Bucket not found on this endpoint''))"

text \<open>
  The guards of \<open>dispatch\<close> on the segments of a path: the regular expressions \<open>disabledRequest\<close>,
  \<open>readonlyRequest\<close> (its alternatives that can match below \<open>/ceph-admin\<close>) and the security paths.
\<close>

definition disabled_segment :: "string \<Rightarrow> bool" where
  "disabled_segment seg \<longleftrightarrow>
     seg \<in> set [''migrations'', ''multipart'', ''integrity-check'', ''index-check'', ''purge'',
       ''key-rotation'', ''managed-private-access'', ''webauthn'', ''recovery'', ''oidc'', ''ldap'']
     \<or> startsWith seg ''restore-at''"

definition disabled_pair :: "string \<Rightarrow> string \<Rightarrow> bool" where
  "disabled_pair a b \<longleftrightarrow>
     a = ''versions'' \<and> startsWith b ''cleanup'' \<or> a = ''trash'' \<and> startsWith b ''restore-prefix''
     \<or> a = ''compare'' \<and> startsWith b ''action''
     \<or> a = ''usage-stats'' \<and> list_ex (startsWith b) [''run'', ''calculate'', ''scan'', ''recalculate'']"

definition disabled_request :: "path \<Rightarrow> bool" where
  "disabled_request p \<longleftrightarrow>
     list_ex disabled_segment p \<or> list_ex (\<lambda>(a, b). disabled_pair a b) (zip p (tl p))"

definition readonly_request :: "path \<Rightarrow> bool" where
  "readonly_request p \<longleftrightarrow> list_ex (\<lambda>seg. seg \<in> {''public-links'', ''topics''}) p"

definition security_request :: "path \<Rightarrow> bool" where
  "security_request p \<longleftrightarrow> list_ex (\<lambda>seg. seg \<in> {''security'', ''mfa'', ''external-identities''}) p"

definition bucket_request :: "path \<Rightarrow> (nat \<times> string \<times> string) option" where
  "bucket_request p = (case p of
     [a, b, e, d, name, resource] \<Rightarrow>
       if a = ''ceph-admin'' \<and> b = ''endpoints'' \<and> e \<noteq> [] \<and> list_all is_digit e \<and> d = ''buckets''
          \<and> name \<noteq> [] \<and> name \<noteq> ''stream'' \<and> resource \<notin> {[], ''stats'', ''detail'', ''objects''}
       then Some (digits_val e, name, resource) else None
   | _ \<Rightarrow> None)"

type_synonym demo_handlers = "demo_method \<Rightarrow> path \<Rightarrow> jrec \<Rightarrow> (demo_state, demo_response) io"

definition demo_dispatch :: "js_host \<Rightarrow> demo_handlers \<Rightarrow> demo_handlers" where
  "demo_dispatch h other m p body = (\<lambda>s.
     if disabled_request p \<or> (m \<noteq> GET \<and> readonly_request p) then
       (Inl (HttpError 403 ''This feature is disabled in the static demo. No external operation was performed.''), s)
     else if m \<noteq> GET \<and> security_request p then
       (Inl (HttpError 403 ''Authentication and security configuration are read-only in this demo''), s)
     else case bucket_request p of
       None \<Rightarrow> other m p body s
     | Some (endpointId, name, resource) \<Rightarrow>
         (case scopedBucket s name endpointId of
            Inl e \<Rightarrow> (Inl e, s)
          | Inr i \<Rightarrow> (case demo_resource h m resource body (s ! i) of
              None \<Rightarrow> (Inl (HttpError 501 ''Not covered by the demo''), s)
            | Some (Inl e) \<Rightarrow> (Inl e, s)
            | Some (Inr (r, b)) \<Rightarrow> (Inr r, s[i := b]))))"

definition response_data :: "demo_response \<Rightarrow> json" where
  "response_data r = (case r of JsonBody v \<Rightarrow> v | NoContent \<Rightarrow> JNull)"

definition demo_http :: "js_host \<Rightarrow> demo_handlers \<Rightarrow> demo_state http_client" where
  "demo_http h other =
     \<lparr>client_get = (\<lambda>p params. io_bind (demo_dispatch h other GET p []) (\<lambda>r. io_return (response_data r))),
      client_put = (\<lambda>p payload params.
        io_bind (demo_dispatch h other PUT p (as_rec payload)) (\<lambda>r. io_return (response_data r))),
      client_delete = (\<lambda>p params. io_seq (demo_dispatch h other DELETE p []) (io_return ()))\<rparr>"

section \<open>The configuration the server keeps\<close>

definition rules_shape :: "json option \<Rightarrow> jrec list option" where
  "rules_shape v = (case jmember v ''rules'' of
     Some (JArr vs) \<Rightarrow> if list_all isJsonObject vs then Some (map as_rec vs) else None | _ \<Rightarrow> None)"

definition policy_shape :: "json option \<Rightarrow> jrec option option" where
  "policy_shape v = (if v = None then None else case jmember v ''policy'' of
     Some (JObj p) \<Rightarrow> Some (Some p) | Some JNull \<Rightarrow> Some None | None \<Rightarrow> Some None | _ \<Rightarrow> None)"

definition configuration_shape :: "json option \<Rightarrow> jrec option" where
  "configuration_shape v = (case jmember v ''configuration'' of Some (JObj c) \<Rightarrow> Some c | _ \<Rightarrow> None)"

definition status_text :: "json option \<Rightarrow> string option" where
  "status_text v = (case v of Some (JStr s) \<Rightarrow> Some s | _ \<Rightarrow> None)"

definition config_view :: "jrec \<Rightarrow> bucket_view option" where
  "config_view cfg =
     Option.bind (access (jprop cfg ''versioning'') ''status'') (\<lambda>st.
     Option.bind (jprop cfg ''object-lock'') (\<lambda>ol.
     Option.bind (jprop cfg ''public-access-block'') (\<lambda>pab.
     Option.bind (rules_shape (jprop cfg ''lifecycle'')) (\<lambda>lc.
     Option.bind (rules_shape (jprop cfg ''cors'')) (\<lambda>co.
     Option.bind (policy_shape (jprop cfg ''policy'')) (\<lambda>po.
     Option.bind (jprop cfg ''logging'') (\<lambda>lo.
     Option.bind (configuration_shape (jprop cfg ''notifications'')) (\<lambda>no.
       Some \<lparr>bv_versioning = normalizeVersioningStatus (status_text st),
         bv_object_lock = current_object_lock \<lparr>versioning_status = None, object_lock = Some ol\<rparr>,
         bv_public_access_block = normalizePublicAccessBlockState (Some pab),
         bv_lifecycle = lc, bv_cors = co, bv_policy = po,
         bv_logging = normalizeAccessLoggingSnapshot (Some lo), bv_notifications = no\<rparr>))))))))"

text \<open>Names the guards of \<open>dispatch\<close> let through.\<close>

definition demo_name :: "string \<Rightarrow> bool" where
  "demo_name n \<longleftrightarrow> n \<noteq> [] \<and> n \<noteq> ''stream'' \<and> \<not> disabled_request [n] \<and> \<not> readonly_request [n] \<and> \<not> security_request [n]"

definition demo_view :: "nat \<Rightarrow> demo_state \<Rightarrow> string \<Rightarrow> bucket_view option" where
  "demo_view e s n = (if demo_name n then
     (case scopedBucket s n e of Inl _ \<Rightarrow> None | Inr i \<Rightarrow> config_view (db_config (s ! i))) else None)"

definition bucket_of_ref :: "string \<Rightarrow> string" where
  "bucket_of_ref r = ref_bucketName (decodeCephAdminBucketRef r)"

section \<open>The server meets the contract\<close>

lemma digit_text_segment:
  assumes "e \<noteq> []" and "list_all is_digit e" and "seg \<noteq> []" and "\<not> is_digit (hd seg)"
  shows "e \<noteq> seg" and "\<not> startsWith e seg"
  using assms by (cases e; cases seg; force)+

definition bucket_resources :: "string list" where
  "bucket_resources = [''properties'', ''versioning'', ''lifecycle'', ''cors'', ''policy'', ''logging'',
     ''notifications'', ''public-access-block'', ''object-lock'', ''quota'']"

lemma fixed_segments:
  "list_all (\<lambda>seg. \<not> disabled_segment seg \<and> \<not> readonly_request [seg] \<and> \<not> security_request [seg])
     ([''ceph-admin'', ''endpoints'', ''buckets''] @ bucket_resources)"
  "list_all (\<lambda>(a, b). \<not> disabled_pair a b) [(''ceph-admin'', ''endpoints''), (''endpoints'', x), (''buckets'', x)]"
  "list_all (\<lambda>b. \<not> startsWith b ''cleanup'' \<and> \<not> startsWith b ''restore-prefix'' \<and> \<not> startsWith b ''action''
      \<and> \<not> list_ex (startsWith b) [''run'', ''calculate'', ''scan'', ''recalculate'']) bucket_resources"
  "list_all (\<lambda>r. r \<notin> {[], ''stats'', ''detail'', ''objects''}) bucket_resources"
  by (simp_all add: bucket_resources_def disabled_segment_def disabled_pair_def readonly_request_def
      security_request_def)

lemma digit_segment:
  "\<not> disabled_segment (nat_string e)" "\<not> readonly_request [nat_string e]" "\<not> security_request [nat_string e]"
  "\<not> disabled_pair (nat_string e) x"
  by (simp_all add: disabled_segment_def readonly_request_def security_request_def disabled_pair_def is_digit_def
      digit_text_segment [OF nat_string_digits(1,2) [of e]])

lemma guards_pass:
  fixes e :: nat
  assumes n: "demo_name n" and r: "r \<in> set bucket_resources"
  defines "p \<equiv> cephAdminBucketPath e n @ [r]"
  shows "\<not> disabled_request p" "\<not> readonly_request p" "\<not> security_request p"
    and "bucket_request p = Some (e, n, r)"
proof -
  note path = p_def cephAdminBucketPath_def
  from r fixed_segments(1) have seg: "\<not> disabled_segment r" "\<not> readonly_request [r]" "\<not> security_request [r]"
    by (auto simp: list_all_iff)
  show "\<not> readonly_request p" "\<not> security_request p"
    using n seg fixed_segments(1) digit_segment [of e]
    by (simp_all add: path demo_name_def readonly_request_def security_request_def)
  from r fixed_segments(3) have "\<not> disabled_pair n r"
    unfolding disabled_pair_def list_all_iff by blast
  then show "\<not> disabled_request p"
    using n seg fixed_segments(1,2) digit_segment [of e] by (simp add: path demo_name_def disabled_request_def)
  show "bucket_request p = Some (e, n, r)"
    using n r fixed_segments(4) nat_string_digits [of e]
    by (auto simp: path bucket_request_def demo_name_def list_all_iff)
qed

lemma dispatch_bucket:
  assumes "demo_name n" and "r \<in> set bucket_resources" and "scopedBucket s n e = Inr i"
    and "demo_resource h m r body (s ! i) = Some (Inr (resp, b))"
  shows "demo_dispatch h other m (cephAdminBucketPath e n @ [r]) body s = (Inr resp, s[i := b])"
  using assms guards_pass [OF assms(1,2)] by (simp add: demo_dispatch_def)

lemma scopedBucket_Inr:
  "scopedBucket s n e = Inr i \<longleftrightarrow> findIndex (\<lambda>b. db_name b = n) s = Some i \<and> db_endpointId (s ! i) = e"
  by (auto simp: scopedBucket_def split: option.splits)

lemma findIndex_same_keys:
  assumes "i < length xs" and "f y = f (xs ! i)"
  shows "findIndex (\<lambda>x. f x = k) (xs[i := y]) = findIndex (\<lambda>x. f x = k) xs"
  using assms by (induction xs arbitrary: i) (auto split: nat.splits simp: nth_Cons)

lemma scopedBucket_update:
  assumes "i < length s" and "db_name b = db_name (s ! i)" and "db_endpointId b = db_endpointId (s ! i)"
  shows "scopedBucket (s[i := b]) n e = scopedBucket s n e"
  using assms findIndex_same_keys [of i s db_name b n]
  by (auto simp: scopedBucket_def nth_list_update split: option.splits)

lemma demo_view_update:
  assumes i: "scopedBucket s n e = Inr i" and "demo_name n"
    and b: "db_name b = db_name (s ! i)" "db_endpointId b = db_endpointId (s ! i)" "config_view (db_config b) = Some w"
  shows "demo_view e (s[i := b]) = (demo_view e s)(n \<mapsto> w)"
proof
  fix k
  from i have len: "i < length s" and name: "db_name (s ! i) = n"
    by (auto simp: scopedBucket_Inr dest: findIndex_SomeD)
  show "demo_view e (s[i := b]) k = ((demo_view e s)(n \<mapsto> w)) k"
  proof (cases "k = n")
    case True
    then show ?thesis
      using assms len scopedBucket_update [OF len b(1,2)] by (simp add: demo_view_def)
  next
    case False
    then have "j \<noteq> i" if "scopedBucket s k e = Inr j" for j
      using that name findIndex_sat [of "\<lambda>b. db_name b = k" s j] by (auto simp: scopedBucket_Inr)
    then show ?thesis
      using False scopedBucket_update [OF len b(1,2), of k e]
      by (auto simp: demo_view_def nth_list_update split: sum.splits)
  qed
qed

lemma demo_viewD:
  assumes "demo_view e s n = Some v"
  obtains i where "scopedBucket s n e = Inr i" "demo_name n" "config_view (db_config (s ! i)) = Some v" "s[i := s ! i] = s"
  using assms by (auto simp: demo_view_def split: if_splits sum.splits)

text \<open>A read of a resource, and a write that keeps the name and the endpoint of the bucket.\<close>

lemma demo_read:
  assumes "demo_view e s (bucket_of_ref r) = Some v" and "res \<in> set bucket_resources"
    and "\<And>b. config_view (db_config b) = Some v \<Longrightarrow> \<exists>j. demo_resource h GET res [] b = Some (Inr (JsonBody j, b)) \<and> P j"
  shows "\<exists>j. client_get (demo_http h other) (cephAdminBucketPath e (bucket_of_ref r) @ [res]) ps s = (Inr j, s) \<and> P j"
proof -
  from assms(1) obtain i where i: "scopedBucket s (bucket_of_ref r) e = Inr i" "demo_name (bucket_of_ref r)"
    "config_view (db_config (s ! i)) = Some v" "s[i := s ! i] = s" by (rule demo_viewD)
  from assms(3) [OF i(3)] obtain j where "demo_resource h GET res [] (s ! i) = Some (Inr (JsonBody j, s ! i))" "P j"
    by auto
  with dispatch_bucket [OF i(2) assms(2) i(1) this(1)] i(4) show ?thesis
    by (auto simp: demo_http_def response_data_def)
qed

lemma demo_write:
  assumes "demo_view e s (bucket_of_ref r) = Some v" and "res \<in> set bucket_resources"
    and "\<And>b. config_view (db_config b) = Some v \<Longrightarrow> \<exists>resp c. demo_resource h m res body b = Some (Inr (resp, b\<lparr>db_config := c\<rparr>))
           \<and> config_view c = Some w"
  shows "\<exists>resp t. demo_dispatch h other m (cephAdminBucketPath e (bucket_of_ref r) @ [res]) body s = (Inr resp, t)
           \<and> demo_view e t = (demo_view e s)(bucket_of_ref r \<mapsto> w)"
proof -
  from assms(1) obtain i where i: "scopedBucket s (bucket_of_ref r) e = Inr i" "demo_name (bucket_of_ref r)"
    "config_view (db_config (s ! i)) = Some v" by (rule demo_viewD)
  from assms(3) [OF i(3)] obtain resp c where c: "demo_resource h m res body (s ! i) = Some (Inr (resp, (s ! i)\<lparr>db_config := c\<rparr>))"
    "config_view c = Some w" by auto
  from dispatch_bucket [OF i(2) assms(2) i(1) c(1)] demo_view_update [OF i(1,2), of "(s ! i)\<lparr>db_config := c\<rparr>"] c(2)
  show ?thesis by auto
qed

lemma those_lifecycle_summary:
  "list_all isJsonObject vs \<Longrightarrow> \<exists>ls. those (map lifecycle_summary vs) = Some ls"
  by (induction vs) (auto simp: isJsonObject_def lifecycle_summary_def access_def split: json.splits)

lemma config_view_SomeE:
  assumes "config_view cfg = Some v"
  obtains st ol pab lc co po lo no where
    "access (jprop cfg ''versioning'') ''status'' = Some st" "jprop cfg ''object-lock'' = Some ol"
    "jprop cfg ''public-access-block'' = Some pab" "rules_shape (jprop cfg ''lifecycle'') = Some lc"
    "rules_shape (jprop cfg ''cors'') = Some co" "policy_shape (jprop cfg ''policy'') = Some po"
    "jprop cfg ''logging'' = Some lo" "configuration_shape (jprop cfg ''notifications'') = Some no"
    "v = \<lparr>bv_versioning = normalizeVersioningStatus (status_text st),
         bv_object_lock = current_object_lock \<lparr>versioning_status = None, object_lock = Some ol\<rparr>,
         bv_public_access_block = normalizePublicAccessBlockState (Some pab),
         bv_lifecycle = lc, bv_cors = co, bv_policy = po,
         bv_logging = normalizeAccessLoggingSnapshot (Some lo), bv_notifications = no\<rparr>"
  using assms unfolding config_view_def bind_eq_Some_conv by blast

lemma at_ref_bucket: "at_ref f r = f (bucket_of_ref r) (ref_tenant (decodeCephAdminBucketRef r))"
  by (simp add: at_ref_def bucket_of_ref_def Let_def)

lemmas demo_api = CEPH_ADMIN_BUCKET_OPS_API_def at_ref_bucket readCephAdminBucketResource_def
  writeCephAdminBucketResource_def writeCephAdminBucketResourceWithoutResponse_def deleteCephAdminBucketResource_def

lemmas demo_getters = getCephAdminBucketProperties_def getCephAdminBucketPublicAccessBlock_def
  getCephAdminBucketLifecycle_def getCephAdminBucketCors_def getCephAdminBucketPolicy_def
  getCephAdminBucketLogging_def getCephAdminBucketNotifications_def

lemma demo_reads:
  assumes "res \<in> set bucket_resources"
    and "\<And>b v. config_view (db_config b) = Some v \<Longrightarrow>
        \<exists>j. demo_resource h GET res [] b = Some (Inr (JsonBody j, b)) \<and> (\<exists>x. (\<forall>s. f j s = (Inr x, s)) \<and> shown x = field v)"
  shows "reads (demo_view e) bucket_of_ref (\<lambda>r. io_bind (client_get (demo_http h other) (cephAdminBucketPath e (bucket_of_ref r) @ [res]) (ps r)) f)
      shown field"
  unfolding reads_def
proof (intro allI impI)
  fix s r v assume v: "demo_view e s (bucket_of_ref r) = Some v"
  from demo_read [OF v assms(1), of h "\<lambda>j. \<exists>x. (\<forall>s. f j s = (Inr x, s)) \<and> shown x = field v"] assms(2)
  obtain j x where "client_get (demo_http h other) (cephAdminBucketPath e (bucket_of_ref r) @ [res]) (ps r) s = (Inr j, s)"
    "\<forall>s. f j s = (Inr x, s)" "shown x = field v" by blast
  then show "\<exists>x. io_bind (client_get (demo_http h other) (cephAdminBucketPath e (bucket_of_ref r) @ [res]) (ps r)) f s = (Inr x, s)
     \<and> shown x = field v" by auto
qed

lemma demo_writes:
  assumes "res \<in> set bucket_resources"
    and "\<And>b v. config_view (db_config b) = Some v \<Longrightarrow>
        \<exists>resp c. demo_resource h m res body b = Some (Inr (resp, b\<lparr>db_config := c\<rparr>)) \<and> config_view c = Some (upd v)"
  shows "writes (demo_view e) bucket_of_ref
      (\<lambda>r. io_seq (demo_dispatch h other m (cephAdminBucketPath e (bucket_of_ref r) @ [res]) body) (io_return ())) upd"
  unfolding writes_def
proof (intro allI impI)
  fix s r v assume v: "demo_view e s (bucket_of_ref r) = Some v"
  from demo_write [OF v assms(1), of h m body "upd v" other] assms(2)
  show "\<exists>t. io_seq (demo_dispatch h other m (cephAdminBucketPath e (bucket_of_ref r) @ [res]) body) (io_return ()) s = (Inr (), t)
     \<and> demo_view e t = (demo_view e s)(bucket_of_ref r \<mapsto> upd v)" by fastforce
qed

lemma config_get:
  assumes "jprop (db_config b) res = Some j" and "res \<notin> {[], ''properties'', ''tags''}"
  shows "demo_resource h GET res [] b = Some (Inr (JsonBody j, b))"
  using assms by (auto simp: demo_resource_def)

lemma config_put:
  assumes "jprop (db_config b) res = Some j" and "res \<notin> {[], ''quota'', ''tags'', ''versioning''}"
  shows "demo_resource h PUT res body b =
      Some (Inr (JsonBody (JObj body), b\<lparr>db_config := AList.update res (JObj body) (db_config b)\<rparr>))"
  using assms by (auto simp: demo_resource_def)

lemma config_delete:
  assumes "jprop (db_config b) res = Some j" and "res \<notin> {[], ''tags''}"
  shows "demo_resource h DELETE res body b =
      Some (Inr (NoContent, b\<lparr>db_config := AList.update res (emptied_resource res) (db_config b)\<rparr>))"
  using assms by (auto simp: demo_resource_def)

lemma rules_of_shape: "rules_shape (Some j) = Some rs \<Longrightarrow> rules_of j s = (Inr rs, s)"
  by (auto simp: rules_shape_def rules_of_def split: option.splits json.splits if_splits)

lemma rules_shape_present: "rules_shape v = Some rs \<Longrightarrow> \<exists>j. v = Some j \<and> rules_shape (Some j) = Some rs"
  by (cases v) (auto simp: rules_shape_def jmember_def)

lemma policy_shape_present: "policy_shape v = Some po \<Longrightarrow> \<exists>j. v = Some j \<and> (\<forall>s. policy_of j s = (Inr po, s))"
  by (cases v) (auto simp: policy_shape_def policy_of_def split: option.splits json.splits)

lemma configuration_shape_present:
  "configuration_shape v = Some c \<Longrightarrow> \<exists>j. v = Some j \<and> (\<forall>s. configuration_of j s = (Inr c, s))"
  by (cases v) (auto simp: configuration_shape_def configuration_of_def jmember_def split: option.splits json.splits)

lemma io_bind_return: "io_bind m io_return = m"
  by (rule ext) (auto simp: io_bind_apply split: prod.splits sum.splits)

lemma io_bind_assoc: "io_bind (io_bind m f) g = io_bind m (\<lambda>x. io_bind (f x) g)"
  by (rule ext) (auto simp: io_bind_apply split: prod.splits sum.splits)

lemma void_put: "void (client_put (demo_http h other) p payload ps) = io_seq (demo_dispatch h other PUT p (as_rec payload)) (io_return ())"
  by (rule ext) (auto simp: void_def demo_http_def io_seq_def io_bind_apply split: prod.splits sum.splits)

lemma delete_call: "client_delete (demo_http h other) p ps = io_seq (demo_dispatch h other DELETE p []) (io_return ())"
  by (simp add: demo_http_def)

lemma demo_properties_view:
  assumes "config_view cfg = Some v"
  shows "\<exists>j. demo_properties cfg = Some j
    \<and> normalizeVersioningStatus (versioning_status (properties_of j)) = bv_versioning v
    \<and> current_object_lock (properties_of j) = bv_object_lock v"
proof -
  from assms obtain st ol pab lc co where
    c: "access (jprop cfg ''versioning'') ''status'' = Some st" "jprop cfg ''object-lock'' = Some ol"
      "jprop cfg ''public-access-block'' = Some pab" "rules_shape (jprop cfg ''lifecycle'') = Some lc"
      "rules_shape (jprop cfg ''cors'') = Some co"
    and v: "bv_versioning v = normalizeVersioningStatus (status_text st)"
      "bv_object_lock v = current_object_lock \<lparr>versioning_status = None, object_lock = Some ol\<rparr>"
    by (auto elim!: config_view_SomeE)
  from c(4) obtain vs where vs: "jmember (jprop cfg ''lifecycle'') ''rules'' = Some (JArr vs)" "list_all isJsonObject vs"
    by (auto simp: rules_shape_def split: option.splits json.splits if_splits)
  obtain ls where ls: "those (map lifecycle_summary vs) = Some ls"
    using those_lifecycle_summary [OF vs(2)] by auto
  have access: "access (jprop cfg ''lifecycle'') ''rules'' = Some (Some (JArr vs))"
    "access (jprop cfg ''cors'') ''rules'' = Some (jmember (jprop cfg ''cors'') ''rules'')"
    using vs(1) c(5)
    by (auto simp: access_def rules_shape_def jmember_def elim!: nullish.elims split: option.splits json.splits if_splits)
  have "demo_properties cfg = Some (JObj (defined_entries
      [(''versioning_status'', st), (''object_lock'', Some ol), (''public_access_block'', Some pab),
       (''lifecycle_rules'', Some (JArr ls)), (''cors_rules'', jmember (jprop cfg ''cors'') ''rules'')]))" (is "_ = Some ?j")
    using c(1-3) access ls by (simp add: demo_properties_def)
  moreover have "normalizeVersioningStatus (versioning_status (properties_of ?j)) = bv_versioning v"
    and "current_object_lock (properties_of ?j) = bv_object_lock v"
    unfolding v
    by (cases st; cases "jmember (jprop cfg ''cors'') ''rules''";
        auto simp: properties_of_def status_text_def defined_entries_def map_filter_simps jmember_def
          current_object_lock_def split: json.splits)+
  ultimately show ?thesis by blast
qed

lemma demo_get_properties:
  "reads (demo_view e) bucket_of_ref (getBucketProperties (CEPH_ADMIN_BUCKET_OPS_API (demo_http h other) e))
     (\<lambda>p. (normalizeVersioningStatus (versioning_status p), current_object_lock p)) (\<lambda>v. (bv_versioning v, bv_object_lock v))"
  unfolding demo_api bucket_ops_api.simps getCephAdminBucketProperties_def
proof (rule demo_reads)
  fix b :: demo_bucket and v assume "config_view (db_config b) = Some v"
  from demo_properties_view [OF this]
  show "\<exists>j. demo_resource h GET ''properties'' [] b = Some (Inr (JsonBody j, b)) \<and>
      (\<exists>x. (\<forall>s. io_return (properties_of j) s = (Inr x, s)) \<and>
        (normalizeVersioningStatus (versioning_status x), current_object_lock x) = (bv_versioning v, bv_object_lock v))"
    by (auto simp: demo_resource_def)
qed (simp add: bucket_resources_def)

lemma demo_reads_config:
  assumes "res \<in> set bucket_resources" and "res \<notin> {[], ''properties'', ''tags''}"
    and "\<And>cfg v. config_view cfg = Some v \<Longrightarrow> \<exists>j x. jprop cfg res = Some j \<and> (\<forall>s. f j s = (Inr x, s)) \<and> shown x = field v"
  shows "reads (demo_view e) bucket_of_ref (\<lambda>r. io_bind (client_get (demo_http h other) (cephAdminBucketPath e (bucket_of_ref r) @ [res]) (ps r)) f)
      shown field"
  using assms(1)
proof (rule demo_reads)
  fix b :: demo_bucket and v assume "config_view (db_config b) = Some v"
  from assms(3) [OF this] config_get [OF _ assms(2), of b]
  show "\<exists>j. demo_resource h GET res [] b = Some (Inr (JsonBody j, b)) \<and> (\<exists>x. (\<forall>s. f j s = (Inr x, s)) \<and> shown x = field v)"
    by blast
qed

lemma config_parts:
  assumes "config_view cfg = Some v"
  shows "\<exists>j. jprop cfg ''public-access-block'' = Some j \<and> normalizePublicAccessBlockState (Some j) = bv_public_access_block v"
    and "\<exists>j. jprop cfg ''logging'' = Some j \<and> normalizeAccessLoggingSnapshot (Some j) = bv_logging v"
    and "\<exists>j. jprop cfg ''object-lock'' = Some j"
    and "\<exists>j. jprop cfg ''lifecycle'' = Some j \<and> (\<forall>s. rules_of j s = (Inr (bv_lifecycle v), s))"
    and "\<exists>j. jprop cfg ''cors'' = Some j \<and> (\<forall>s. rules_of j s = (Inr (bv_cors v), s))"
    and "\<exists>j. jprop cfg ''policy'' = Some j \<and> (\<forall>s. policy_of j s = (Inr (bv_policy v), s))"
    and "\<exists>j. jprop cfg ''notifications'' = Some j \<and> (\<forall>s. configuration_of j s = (Inr (bv_notifications v), s))"
proof -
  from assms obtain st ol pab lc co po lo no where
    c: "jprop cfg ''object-lock'' = Some ol"
      "jprop cfg ''public-access-block'' = Some pab" "rules_shape (jprop cfg ''lifecycle'') = Some lc"
      "rules_shape (jprop cfg ''cors'') = Some co" "policy_shape (jprop cfg ''policy'') = Some po"
      "jprop cfg ''logging'' = Some lo" "configuration_shape (jprop cfg ''notifications'') = Some no"
    and v: "bv_public_access_block v = normalizePublicAccessBlockState (Some pab)" "bv_lifecycle v = lc"
      "bv_cors v = co" "bv_policy v = po" "bv_logging v = normalizeAccessLoggingSnapshot (Some lo)" "bv_notifications v = no"
    by (auto elim!: config_view_SomeE)
  show "\<exists>j. jprop cfg ''public-access-block'' = Some j \<and> normalizePublicAccessBlockState (Some j) = bv_public_access_block v"
    and "\<exists>j. jprop cfg ''logging'' = Some j \<and> normalizeAccessLoggingSnapshot (Some j) = bv_logging v"
    and "\<exists>j. jprop cfg ''object-lock'' = Some j"
    using c v by auto
  show "\<exists>j. jprop cfg ''lifecycle'' = Some j \<and> (\<forall>s. rules_of j s = (Inr (bv_lifecycle v), s))"
    and "\<exists>j. jprop cfg ''cors'' = Some j \<and> (\<forall>s. rules_of j s = (Inr (bv_cors v), s))"
    using rules_shape_present [OF c(3)] rules_shape_present [OF c(4)] v by (auto intro: rules_of_shape)
  show "\<exists>j. jprop cfg ''policy'' = Some j \<and> (\<forall>s. policy_of j s = (Inr (bv_policy v), s))"
    and "\<exists>j. jprop cfg ''notifications'' = Some j \<and> (\<forall>s. configuration_of j s = (Inr (bv_notifications v), s))"
    using policy_shape_present [OF c(5)] configuration_shape_present [OF c(7)] v by auto
qed

lemma demo_get_json:
  "reads (demo_view e) bucket_of_ref (getBucketPublicAccessBlock (CEPH_ADMIN_BUCKET_OPS_API (demo_http h other) e))
     (\<lambda>j. normalizePublicAccessBlockState (Some j)) bv_public_access_block"
  "reads (demo_view e) bucket_of_ref (getBucketLogging (CEPH_ADMIN_BUCKET_OPS_API (demo_http h other) e))
     (\<lambda>j. normalizeAccessLoggingSnapshot (Some j)) bv_logging"
  unfolding demo_api bucket_ops_api.simps getCephAdminBucketPublicAccessBlock_def getCephAdminBucketLogging_def
  by (subst io_bind_return [symmetric], rule demo_reads_config, simp add: bucket_resources_def, simp,
      use config_parts in fastforce)+

lemma demo_get_lists:
  "reads (demo_view e) bucket_of_ref (getBucketLifecycle (CEPH_ADMIN_BUCKET_OPS_API (demo_http h other) e)) id bv_lifecycle"
  "reads (demo_view e) bucket_of_ref (getBucketCors (CEPH_ADMIN_BUCKET_OPS_API (demo_http h other) e)) id bv_cors"
  "reads (demo_view e) bucket_of_ref (getBucketPolicy (CEPH_ADMIN_BUCKET_OPS_API (demo_http h other) e)) id bv_policy"
  "reads (demo_view e) bucket_of_ref (getBucketNotifications (CEPH_ADMIN_BUCKET_OPS_API (demo_http h other) e)) id bv_notifications"
  unfolding demo_api bucket_ops_api.simps getCephAdminBucketLifecycle_def getCephAdminBucketCors_def
    getCephAdminBucketPolicy_def getCephAdminBucketNotifications_def
  by (rule demo_reads_config, simp add: bucket_resources_def, simp, simp add: config_parts)+

text \<open>Replacing one part of the configuration.\<close>

lemma rules_shape_written [simp]:
  "rules_shape (Some (JObj [(''rules'', JArr (map JObj rs))])) = Some rs" "rules_shape (Some no_rules) = Some []"
  by (simp_all add: rules_shape_def no_rules_def jmember_def list_all_iff isJsonObject_def comp_def as_rec_def)

lemma config_replace:
  assumes "config_view cfg = Some v"
  shows "rules_shape (Some j) = Some rs \<Longrightarrow> config_view (AList.update ''lifecycle'' j cfg) = Some (v\<lparr>bv_lifecycle := rs\<rparr>)"
    and "rules_shape (Some j) = Some rs \<Longrightarrow> config_view (AList.update ''cors'' j cfg) = Some (v\<lparr>bv_cors := rs\<rparr>)"
    and "policy_shape (Some j) = Some po \<Longrightarrow> config_view (AList.update ''policy'' j cfg) = Some (v\<lparr>bv_policy := po\<rparr>)"
    and "configuration_shape (Some j) = Some c \<Longrightarrow>
        config_view (AList.update ''notifications'' j cfg) = Some (v\<lparr>bv_notifications := c\<rparr>)"
    and "config_view (AList.update ''logging'' j cfg) = Some (v\<lparr>bv_logging := normalizeAccessLoggingSnapshot (Some j)\<rparr>)"
    and "config_view (AList.update ''public-access-block'' j cfg) =
        Some (v\<lparr>bv_public_access_block := normalizePublicAccessBlockState (Some j)\<rparr>)"
    and "config_view (AList.update ''object-lock'' j cfg) =
        Some (v\<lparr>bv_object_lock := current_object_lock \<lparr>versioning_status = None, object_lock = Some j\<rparr>\<rparr>)"
    and "access (Some j) ''status'' = Some st \<Longrightarrow>
        config_view (AList.update ''versioning'' j cfg) = Some (v\<lparr>bv_versioning := normalizeVersioningStatus (status_text st)\<rparr>)"
  using assms by (elim config_view_SomeE; simp add: config_view_def)+

lemma written_snapshots:
  "normalizePublicAccessBlockState (Some (public_access_block_json s)) = s"
  "current_object_lock \<lparr>versioning_status = None, object_lock = Some (object_lock_json l)\<rparr>
     = normalizeObjectLockSnapshot (Some (object_lock_json l))"
  "normalizeAccessLoggingSnapshot (Some (JObj [])) = no_logging"
  "normalizeVersioningStatus (Some (if on then ''Enabled'' else ''Suspended'')) = Some on"
proof -
  have "normalizeVersioningStatus (Some ''Enabled'') = Some True" and "normalizeVersioningStatus (Some ''Suspended'') = Some False"
    by code_simp+
  then show "normalizeVersioningStatus (Some (if on then ''Enabled'' else ''Suspended'')) = Some on" by simp
qed (simp_all add: normalizePublicAccessBlockState_def public_access_block_json_def current_object_lock_def
    normalizeObjectLockSnapshot_def object_lock_json_def jmember_def normalizeAccessLoggingSnapshot_def no_logging_def
    trimmed_text_def)

lemma demo_writes_config:
  assumes "res \<in> set bucket_resources" and "res \<notin> {[], ''quota'', ''tags'', ''versioning''}"
    and "\<And>cfg v. config_view cfg = Some v \<Longrightarrow> jprop cfg res \<noteq> None \<and> config_view (AList.update res (JObj body) cfg) = Some (upd v)"
  shows "writes (demo_view e) bucket_of_ref
      (\<lambda>r. io_seq (demo_dispatch h other PUT (cephAdminBucketPath e (bucket_of_ref r) @ [res]) body) (io_return ())) upd"
  using assms(1)
proof (rule demo_writes)
  fix b :: demo_bucket and v assume "config_view (db_config b) = Some v"
  from assms(3) [OF this] config_put [OF _ assms(2), of b _ h body]
  show "\<exists>resp c. demo_resource h PUT res body b = Some (Inr (resp, b\<lparr>db_config := c\<rparr>)) \<and> config_view c = Some (upd v)"
    by blast
qed

lemma demo_deletes_config:
  assumes "res \<in> set bucket_resources" and "res \<notin> {[], ''tags''}"
    and "\<And>cfg v. config_view cfg = Some v \<Longrightarrow>
        jprop cfg res \<noteq> None \<and> config_view (AList.update res (emptied_resource res) cfg) = Some (upd v)"
  shows "writes (demo_view e) bucket_of_ref
      (\<lambda>r. io_seq (demo_dispatch h other DELETE (cephAdminBucketPath e (bucket_of_ref r) @ [res]) []) (io_return ())) upd"
  using assms(1)
proof (rule demo_writes)
  fix b :: demo_bucket and v assume "config_view (db_config b) = Some v"
  from assms(3) [OF this] config_delete [OF _ assms(2), of b _ h "[]"]
  show "\<exists>resp c. demo_resource h DELETE res [] b = Some (Inr (resp, b\<lparr>db_config := c\<rparr>)) \<and> config_view c = Some (upd v)"
    by blast
qed

lemmas demo_setters = setCephAdminBucketVersioning_def updateCephAdminBucketPublicAccessBlock_def
  updateCephAdminBucketObjectLock_def putCephAdminBucketLifecycle_def deleteCephAdminBucketLifecycle_def
  putCephAdminBucketCors_def deleteCephAdminBucketCors_def putCephAdminBucketPolicy_def deleteCephAdminBucketPolicy_def
  putCephAdminBucketLogging_def deleteCephAdminBucketLogging_def putCephAdminBucketNotifications_def
  deleteCephAdminBucketNotifications_def

lemma demo_set_versioning:
  "writes (demo_view e) bucket_of_ref (\<lambda>r. setBucketVersioning (CEPH_ADMIN_BUCKET_OPS_API (demo_http h other) e) r on)
     (\<lambda>v. v\<lparr>bv_versioning := Some on\<rparr>)"
proof -
  have put: "io_seq (client_put (demo_http h other) p payload ps) (io_return ())
      = io_seq (demo_dispatch h other PUT p (as_rec payload)) (io_return ())" for p payload ps
    using void_put by (simp add: void_def)
  show ?thesis
    unfolding demo_api bucket_ops_api.simps setCephAdminBucketVersioning_def put
  proof (rule demo_writes)
    fix b :: demo_bucket and v assume v: "config_view (db_config b) = Some v"
    let ?j = "JObj [(''enabled'', JBool on), (''status'', JStr (if on then ''Enabled'' else ''Suspended''))]"
    have "access (Some ?j) ''status'' = Some (Some (JStr (if on then ''Enabled'' else ''Suspended'')))"
      by (simp add: access_def jmember_def)
    from config_replace(8) [OF v this] written_snapshots(4) [of on]
    show "\<exists>resp c. demo_resource h PUT ''versioning'' (as_rec (JObj [(''enabled'', JBool on)])) b
         = Some (Inr (resp, b\<lparr>db_config := c\<rparr>)) \<and> config_view c = Some (v\<lparr>bv_versioning := Some on\<rparr>)"
      by (cases on) (force simp: demo_resource_def status_text_def as_rec_def)+
  qed (simp add: bucket_resources_def)
qed

lemma config_present:
  "config_view cfg = Some v \<Longrightarrow>
     res \<in> {''lifecycle'', ''cors'', ''policy'', ''logging'', ''notifications'', ''public-access-block'', ''object-lock''} \<Longrightarrow>
     jprop cfg res \<noteq> None"
  using config_parts [of cfg v] by auto

lemma written_shapes:
  "rules_shape (Some (JObj (as_rec (rules_json rs)))) = Some rs"
  "policy_shape (Some (JObj [(''policy'', JObj pol)])) = Some (Some pol)"
  "policy_shape (Some (JObj [(''policy'', JNull)])) = Some None"
  "configuration_shape (Some (JObj [(''configuration'', JObj c)])) = Some c"
  "JObj (as_rec (public_access_block_json p)) = public_access_block_json p"
  "JObj (as_rec (object_lock_json l)) = object_lock_json l"
  "as_rec (JObj r) = r"
  by (simp_all add: as_rec_def rules_json_def policy_shape_def configuration_shape_def jmember_def
      public_access_block_json_def object_lock_json_def)

lemma demo_puts:
  "writes (demo_view e) bucket_of_ref (\<lambda>r. updateBucketPublicAccessBlock (CEPH_ADMIN_BUCKET_OPS_API (demo_http h other) e) r p)
     (\<lambda>v. v\<lparr>bv_public_access_block := p\<rparr>)"
  "writes (demo_view e) bucket_of_ref (\<lambda>r. updateBucketObjectLock (CEPH_ADMIN_BUCKET_OPS_API (demo_http h other) e) r l)
     (\<lambda>v. v\<lparr>bv_object_lock := normalizeObjectLockSnapshot (Some (object_lock_json l))\<rparr>)"
  "writes (demo_view e) bucket_of_ref (\<lambda>r. putBucketLifecycle (CEPH_ADMIN_BUCKET_OPS_API (demo_http h other) e) r rs)
     (\<lambda>v. v\<lparr>bv_lifecycle := rs\<rparr>)"
  "writes (demo_view e) bucket_of_ref (\<lambda>r. putBucketCors (CEPH_ADMIN_BUCKET_OPS_API (demo_http h other) e) r rs)
     (\<lambda>v. v\<lparr>bv_cors := rs\<rparr>)"
  "writes (demo_view e) bucket_of_ref (\<lambda>r. putBucketPolicy (CEPH_ADMIN_BUCKET_OPS_API (demo_http h other) e) r pol)
     (\<lambda>v. v\<lparr>bv_policy := Some pol\<rparr>)"
  "writes (demo_view e) bucket_of_ref (\<lambda>r. putBucketLogging (CEPH_ADMIN_BUCKET_OPS_API (demo_http h other) e) r (JObj lg))
     (\<lambda>v. v\<lparr>bv_logging := normalizeAccessLoggingSnapshot (Some (JObj lg))\<rparr>)"
  "writes (demo_view e) bucket_of_ref (\<lambda>r. putBucketNotifications (CEPH_ADMIN_BUCKET_OPS_API (demo_http h other) e) r c)
     (\<lambda>v. v\<lparr>bv_notifications := c\<rparr>)"
  unfolding demo_api bucket_ops_api.simps demo_setters void_put
  by (rule demo_writes_config; simp add: bucket_resources_def config_present config_replace written_shapes written_snapshots)+

lemma demo_deletes:
  "writes (demo_view e) bucket_of_ref (deleteBucketLifecycle (CEPH_ADMIN_BUCKET_OPS_API (demo_http h other) e))
     (\<lambda>v. v\<lparr>bv_lifecycle := []\<rparr>)"
  "writes (demo_view e) bucket_of_ref (deleteBucketCors (CEPH_ADMIN_BUCKET_OPS_API (demo_http h other) e))
     (\<lambda>v. v\<lparr>bv_cors := []\<rparr>)"
  "writes (demo_view e) bucket_of_ref (deleteBucketPolicy (CEPH_ADMIN_BUCKET_OPS_API (demo_http h other) e))
     (\<lambda>v. v\<lparr>bv_policy := None\<rparr>)"
  "writes (demo_view e) bucket_of_ref (deleteBucketLogging (CEPH_ADMIN_BUCKET_OPS_API (demo_http h other) e))
     (\<lambda>v. v\<lparr>bv_logging := no_logging\<rparr>)"
  "writes (demo_view e) bucket_of_ref (deleteBucketNotifications (CEPH_ADMIN_BUCKET_OPS_API (demo_http h other) e))
     (\<lambda>v. v\<lparr>bv_notifications := []\<rparr>)"
  unfolding demo_api bucket_ops_api.simps demo_setters delete_call
  by (rule demo_deletes_config; simp add: bucket_resources_def config_present config_replace written_shapes written_snapshots
      emptied_resource_def)+

lemma demo_update_quota:
  assumes "updateBucketQuota (CEPH_ADMIN_BUCKET_OPS_API (demo_http h other) e) = Some update"
  shows "writes (demo_view e) bucket_of_ref (\<lambda>b. update b p) id"
proof -
  have *: "\<exists>t. demo_dispatch h other PUT (cephAdminBucketPath e (bucket_of_ref r) @ [''quota'']) body s = (Inr NoContent, t)
      \<and> demo_view e t = demo_view e s" if "demo_view e s (bucket_of_ref r) = Some v" for r body s v
  proof -
    from that obtain i where i: "scopedBucket s (bucket_of_ref r) e = Inr i" "demo_name (bucket_of_ref r)"
      "config_view (db_config (s ! i)) = Some v" by (rule demo_viewD)
    obtain b where b: "demo_resource h PUT ''quota'' body (s ! i) = Some (Inr (NoContent, b))" "db_name b = db_name (s ! i)"
      "db_endpointId b = db_endpointId (s ! i)" "db_config b = db_config (s ! i)"
      by (simp add: demo_resource_def)
    have "''quota'' \<in> set bucket_resources" by (simp add: bucket_resources_def)
    from dispatch_bucket [OF i(2) this i(1) b(1)] demo_view_update [OF i(1,2) b(2,3)] i(3) b(4) that
    show ?thesis by (auto simp: fun_upd_idem)
  qed
  have eq: "update r q = io_seq (demo_dispatch h other PUT (cephAdminBucketPath e (bucket_of_ref r) @ [''quota''])
      (as_rec (quota_json q))) (io_return ())" for r q
    using assms by (auto simp: demo_api updateCephAdminBucketQuota_def writeCephAdminBucketResourceWithoutResponse_def
        void_put [unfolded void_def])
  show ?thesis unfolding writes_def eq
  proof (intro allI impI)
    fix s b v assume v: "demo_view e s (bucket_of_ref b) = Some v"
    from * [OF v, of "as_rec (quota_json p)"] v show "\<exists>t. io_seq (demo_dispatch h other PUT
        (cephAdminBucketPath e (bucket_of_ref b) @ [''quota'']) (as_rec (quota_json p))) (io_return ()) s = (Inr (), t)
      \<and> demo_view e t = (demo_view e s)(bucket_of_ref b \<mapsto> id v)"
      by (auto simp: fun_upd_idem)
  qed
qed

interpretation demo: quota_store "CEPH_ADMIN_BUCKET_OPS_API (demo_http h other) e" bucket_of_ref "demo_view e"
  for h other e
  by unfold_locales (rule demo_get_properties demo_get_json demo_get_lists demo_set_versioning demo_puts demo_deletes
      | erule demo_update_quota | simp add: CEPH_ADMIN_BUCKET_OPS_API_def; fail)+

end
