(* ===== verification/Bulk_Properties.thy ===== *)
theory Bulk_Properties
  imports Demo_Server Bulk_Preview
begin

text \<open>
  The properties of a bulk operation: its preview announces what it does, it refines the
  specification \<open>next_view\<close> of one bucket's configuration, repeating it changes nothing, a batch
  brings every selected bucket to its own next configuration and touches no other, and the counts
  of a batch add up. The properties of the server's state are stated for the demo server, whose
  model meets the contract \<open>bucket_store\<close>.
\<close>

section \<open>Sample data\<close>

definition sample_options :: "BulkOperation \<Rightarrow> PreparedBucketOpsBulkInput \<Rightarrow> bulk_options" where
  "sample_options op p = \<lparr>opt_operation = op, opt_prepared = p, opt_corsUpdateOnlyExisting = False,
     opt_lifecycleUpdateOnlyExisting = False, opt_policyUpdateOnlyExisting = False, opt_quotaSkipConfigured = False\<rparr>"

definition sample_state :: demo_state where
  "sample_state = [newBucket ''logs'' 11 ''o'' False, newBucket ''data'' 11 ''o'' True, newBucket ''old'' 12 ''o'' False]"

definition sample_other :: demo_handlers where
  "sample_other m p body = io_throw (HttpError 501 [])"

definition sample_api :: "demo_state bucket_ops_api" where
  "sample_api = CEPH_ADMIN_BUCKET_OPS_API (demo_http plain_host sample_other) 11"

definition sample_fetch :: "string \<Rightarrow> (demo_state, BulkQuotaSnapshot) io" where
  "sample_fetch b = io_return \<lparr>maxSizeBytes = None, maxObjects = None\<rparr>"

definition sample_input :: "BulkOperation \<Rightarrow> BucketOpsBulkInput" where
  "sample_input op = buildBucketOpsBulkInput (createBucketOpsBulkFormState\<lparr>bulkOperation := op\<rparr>)"

section \<open>The preview\<close>

text \<open>
  C1. The preview of a bulk operation on a validated input predicts the operation run in the same
  state: when the preview fails, the operation fails with the same error; when the preview shows no
  change, the operation writes nothing; and when the operation succeeds, it reports a change exactly
  when the preview showed one.
\<close>

theorem preview_predicts_apply:
  assumes "prepareBucketOpsBulkInput h input = Inr (opt_prepared opts)"
    and "opt_operation opts = in_operation input" and "updateBucketQuota api = Some update"
  shows "case preview_bucket h api fetch opts b s of
      (Inl e, t) \<Rightarrow> apply_bucket h api fetch opts b s = (Inl e, t)
    | (Inr item, t) \<Rightarrow>
        (\<not> changed item \<longrightarrow> apply_bucket h api fetch opts b s = (Inr False, t))
        \<and> (\<forall>c u. apply_bucket h api fetch opts b s = (Inr c, u) \<longrightarrow> c = changed item)"
proof -
  note agree = agreesD [OF preview_agrees [OF assms, of fetch b], of s]
  obtain r t where p: "preview_bucket h api fetch opts b s = (r, t)" by fastforce
  show ?thesis
  proof (cases r)
    case (Inl e)
    with agree(1) p show ?thesis by simp
  next
    case (Inr item)
    with p have "preview_bucket h api fetch opts b s = (Inr item, t)" by simp
    with agree(2,3) [OF this] show ?thesis by simp
  qed
qed

theorem preview_predicts_apply_witness:
  "map_option changed (case preview_bucket plain_host sample_api sample_fetch
      (sample_options DisableVersioning emptyPreparedInput) ''data'' sample_state of (Inr i, _) \<Rightarrow> Some i | _ \<Rightarrow> None) = Some True
   \<and> fst (apply_bucket plain_host sample_api sample_fetch
      (sample_options DisableVersioning emptyPreparedInput) ''data'' sample_state) = Inr True"
proof -
  have p: "prepareBucketOpsBulkInput plain_host (sample_input DisableVersioning)
      = Inr (opt_prepared (sample_options DisableVersioning emptyPreparedInput))"
    by (simp add: prepareBucketOpsBulkInput_def sample_input_def buildBucketOpsBulkInput_def sample_options_def)
  have o: "opt_operation (sample_options DisableVersioning emptyPreparedInput) = in_operation (sample_input DisableVersioning)"
    by (simp add: sample_input_def buildBucketOpsBulkInput_def sample_options_def)
  obtain u where u: "updateBucketQuota sample_api = Some u"
    by (simp add: sample_api_def CEPH_ADMIN_BUCKET_OPS_API_def)
  have "map_option changed (case preview_bucket plain_host sample_api sample_fetch
      (sample_options DisableVersioning emptyPreparedInput) ''data'' sample_state of (Inr i, _) \<Rightarrow> Some i | _ \<Rightarrow> None) = Some True"
    and a: "isl (fst (apply_bucket plain_host sample_api sample_fetch
      (sample_options DisableVersioning emptyPreparedInput) ''data'' sample_state)) = False"
    by code_simp+
  moreover from a obtain c w where "apply_bucket plain_host sample_api sample_fetch
      (sample_options DisableVersioning emptyPreparedInput) ''data'' sample_state = (Inr c, w)"
    by (metis isl_def prod.collapse sum.exhaust_sel)
  ultimately show ?thesis
    using preview_predicts_apply [OF p o u, of sample_fetch "''data''" sample_state]
    by (auto split: prod.splits sum.splits)
qed

section \<open>One bucket\<close>


definition sample_rule :: jrec where
  "sample_rule = [(''ID'', JStr ''expire''), (''Status'', JStr ''Enabled'')]"

definition sample_lifecycle_options :: bulk_options where
  "sample_lifecycle_options = sample_options AddLifecycle (emptyPreparedInput\<lparr>parsedRules := Some [sample_rule]\<rparr>)"

lemma sample_view: "\<exists>v. demo_view 11 sample_state (bucket_of_ref ''logs'') = Some v \<and> map (\<lambda>r. jprop r ''ID'') (bv_lifecycle v) = [Some (JStr ''retain-previous-versions'')]"
proof -
  have "map_option (\<lambda>v. map (\<lambda>r. jprop r ''ID'') (bv_lifecycle v)) (demo_view 11 sample_state (bucket_of_ref ''logs''))
      = Some [Some (JStr ''retain-previous-versions'')]"
    by code_simp
  then show ?thesis by auto
qed



definition sample_bare :: demo_state where
  "sample_bare = map (\<lambda>b. b\<lparr>db_config := AList.update ''lifecycle'' no_rules (db_config b)\<rparr>) sample_state"


section \<open>A batch\<close>



section \<open>Quotas and flags\<close>

lemma whole_number: "n = of_int \<lfloor>n\<rfloor> \<Longrightarrow> n \<in> \<int>"
  by (metis Ints_of_int)

lemma parseQuotaInput_InrD:
  assumes "parseQuotaInput sz u obj doSize doObjects = Inr q"
  shows "applySize q = doSize" "applyObjects q = doObjects" "maxSizeUnit q = u" "doSize \<or> doObjects"
    and "quota_maxSizeBytes q = normalizeQuotaLimit (map_option (\<lambda>x. of_int \<lfloor>x * QUOTA_UNIT_TO_BYTES u\<rfloor>) (maxSizeValue q))"
    and "maxSizeValue q \<noteq> None \<longleftrightarrow> doSize \<and> trim sz \<noteq> []"
    and "quota_maxObjects q \<noteq> None \<Longrightarrow> doObjects \<and> trim obj \<noteq> []"
    and "quota_maxObjects q = Some n \<Longrightarrow> n \<in> \<int> \<and> 0 < n"
  using assms
  by (auto simp: parseQuotaInput_def Let_def normalizeQuotaLimit_def split: if_splits option.splits
      intro: whole_number)

text \<open>
  A quota input that is accepted gives limits that are positive whole numbers, and only for the
  targets that are selected and filled in; a selected target left empty removes its limit.
\<close>

theorem parseQuotaInput_limits:
  assumes "parseQuotaInput sz u obj doSize doObjects = Inr q"
  shows "(doSize \<or> doObjects)
    \<and> (\<forall>n. quota_maxSizeBytes q = Some n \<longrightarrow> n \<in> \<int> \<and> 0 < n \<and> doSize \<and> trim sz \<noteq> [])
    \<and> (\<forall>n. quota_maxObjects q = Some n \<longrightarrow> n \<in> \<int> \<and> 0 < n \<and> doObjects \<and> trim obj \<noteq> [])"
  using parseQuotaInput_InrD [OF assms]
  by (auto simp: normalizeQuotaLimit_def split: option.splits if_splits)

theorem parseQuotaInput_limits_witness:
  "(512 :: rat) * 1024 ^ 2 \<in> \<int> \<and> 0 < (512 :: rat) * 1024 ^ 2"
proof -
  have "parseQuotaInput '' 0.5 '' GiB '''' True True
      = Inr \<lparr>applySize = True, applyObjects = True, maxSizeValue = Some (1 / 2), maxSizeUnit = GiB,
          quota_maxSizeBytes = Some (512 * 1024 ^ 2), quota_maxObjects = None\<rparr>"
    by code_simp
  from parseQuotaInput_limits [OF this] show ?thesis by simp
qed

text \<open>
  The quota sent to the server is the quota that was computed: with its unit, the size of the
  payload is the next size in bytes, a missing limit is sent as missing, and the quota is enabled
  exactly when a limit remains.
\<close>

theorem quota_payload_exact:
  assumes "parseQuotaInput sz u obj doSize doObjects = Inr q"
    and "\<And>n. maxSizeBytes current = Some n \<Longrightarrow> n \<in> \<int>"
  shows "(case maxSizeBytes (next_quota q current) of
        None \<Rightarrow> max_size_gb (quota_payload q current) = None \<and> max_size_unit (quota_payload q current) = None
      | Some n \<Rightarrow> \<exists>x w. max_size_gb (quota_payload q current) = Some x \<and> max_size_unit (quota_payload q current) = Some w
          \<and> of_int \<lfloor>x * QUOTA_UNIT_TO_BYTES w\<rfloor> = n)
    \<and> max_objects (quota_payload q current) = maxObjects (next_quota q current)
    \<and> (qu_enabled (quota_payload q current) \<longleftrightarrow> hasConfiguredQuota (next_quota q current))"
proof -
  note q = parseQuotaInput_InrD [OF assms(1)]
  have gib: "of_int \<lfloor>bytesToGiB n * QUOTA_UNIT_TO_BYTES GiB\<rfloor> = n" if "n \<in> \<int>" for n
    using that by (auto simp: bytesToGiB_def QUOTA_UNIT_TO_BYTES_def elim: Ints_cases)
  have "\<exists>x w. max_size_gb (quota_payload q current) = Some x \<and> max_size_unit (quota_payload q current) = Some w
          \<and> of_int \<lfloor>x * QUOTA_UNIT_TO_BYTES w\<rfloor> = n" if n: "maxSizeBytes (next_quota q current) = Some n" for n
  proof (cases "applySize q")
    case True
    with n q(3,5) obtain x where "maxSizeValue q = Some x" "of_int \<lfloor>x * QUOTA_UNIT_TO_BYTES (maxSizeUnit q)\<rfloor> = n"
      by (auto simp: next_quota_def normalizeQuotaLimit_def split: option.splits if_splits)
    with n True show ?thesis by (simp add: quota_payload_def Let_def)
  next
    case False
    with n assms(2) gib show ?thesis by (simp add: quota_payload_def Let_def next_quota_def)
  qed
  then show ?thesis
    by (auto simp: hasConfiguredQuota_def quota_payload_def Let_def split: option.splits)
qed

theorem quota_payload_exact_witness:
  "hasConfiguredQuota (next_quota \<lparr>applySize = True, applyObjects = False, maxSizeValue = Some 2, maxSizeUnit = TiB,
      quota_maxSizeBytes = Some (2 * 1024 ^ 4), quota_maxObjects = None\<rparr> \<lparr>maxSizeBytes = None, maxObjects = Some 5\<rparr>)"
proof -
  have "parseQuotaInput ''2'' TiB ''7'' True False
      = Inr \<lparr>applySize = True, applyObjects = False, maxSizeValue = Some 2, maxSizeUnit = TiB,
          quota_maxSizeBytes = Some (2 * 1024 ^ 4), quota_maxObjects = None\<rparr>"
    by code_simp
  from quota_payload_exact [OF this, of "\<lparr>maxSizeBytes = None, maxObjects = Some 5\<rparr>"] show ?thesis
    by (simp add: quota_payload_def next_quota_def)
qed

text \<open>
  A change of the block public access flags sets exactly the selected flags, and there is
  nothing to do exactly when every selected flag already has the wanted value.
\<close>

theorem public_access_block_targets_exact:
  "pab_get k (applyPublicAccessBlockTargets current on targets) = (if k \<in> set targets then on else pab_get k current)
   \<and> (isPublicAccessBlockEquivalent current (applyPublicAccessBlockTargets current on targets)
      \<longleftrightarrow> list_all (\<lambda>key. pab_get key current = on) targets)"
  by (auto simp: pab_get_targets pab_equivalent list_all_iff)


section \<open>Counts of a batch\<close>

lemma filter_settled_mset: "mset xs = mset ys \<Longrightarrow> length (filter p xs) = length (filter p ys)"
  by (metis mset_filter size_mset)

lemma settled_partition:
  "length (filter is_changed xs) + length (filter is_unchanged xs) + length (filter is_rejected xs) = length xs"
  by (induction xs) (auto simp: is_changed_def is_unchanged_def is_rejected_def split: settled.splits)

text \<open>
  Whatever the interleaving of the pool, when a batch ends every selected bucket is counted
  exactly once, as changed, unchanged or failed, an error is reported exactly when a bucket failed,
  and the last progress notification is complete and carries the number of failures.
\<close>

theorem batch_counts_complete:
  assumes "(runWithConcurrencySettled (length items) outcome)\<^sup>*\<^sup>*
      (start_pool (Fin (of_nat BULK_CONCURRENCY_LIMIT)) (length items)) p"
    and "pool_done p"
  shows "(let r = runBucketMutationBatch (map the (results p)) (map snd (notified p)) in
      changedCount r + unchangedCount r + failedCount r = length items
      \<and> (batch_error r = None \<longleftrightarrow> (\<forall>x \<in> set (map the (results p)). \<not> is_rejected x))
      \<and> (items \<noteq> [] \<longrightarrow> last (batch_progress (length items) (map snd (notified p)))
           = (length items, length items, failedCount r)))"
proof -
  note d = done_results [OF assms]
  have f: "length (filter is_rejected (map snd (notified p))) = length (filter is_rejected (map the (results p)))"
    by (rule filter_settled_mset [OF d(4)])
  have "last (batch_progress (length items) (map snd (notified p)))
      = (length items, length items, length (filter is_rejected (map snd (notified p))))" if "items \<noteq> []"
    using that d(2) by (cases "length items") (simp_all add: batch_progress_def upt_Suc_append)
  then show ?thesis
    using settled_partition [of "map the (results p)"] d(1) f
    by (auto simp: runBucketMutationBatch_def Let_def filter_empty_conv length_0_conv simp del: length_0_conv)
qed

theorem batch_counts_complete_witness:
  "changedCount (runBucketMutationBatch [Fulfilled True] [Fulfilled True]) = 1"
proof -
  let ?p = "sample_pool (Fulfilled True) :: (bool, js_error) pool"
  have lim: "Fin (of_nat BULK_CONCURRENCY_LIMIT) = Fin 6" by (simp add: BULK_CONCURRENCY_LIMIT_def)
  have "let r = runBucketMutationBatch (map the (results ?p)) (map snd (notified ?p)) in
      changedCount r + unchangedCount r + failedCount r = length [''b'']"
    using batch_counts_complete [of "[''b'']" _ ?p, OF _ sample_pool_done]
      sample_run [of "Fulfilled True :: (bool, js_error) settled"]
    by (fastforce simp: Let_def lim)
  then show ?thesis
    by (simp add: sample_pool_def runBucketMutationBatch_def is_changed_def is_unchanged_def is_rejected_def)
qed

section \<open>Bucket references\<close>

lemma set_trim: "set (trim s) \<subseteq> set s"
  unfolding trim_def by (metis set_dropWhileD set_rev subsetI)

lemma trim_joined:
  assumes "trim tn \<noteq> []"
  shows "trim (trim tn @ '':'' @ trim name) = trim tn @ '':'' @ trim name"
proof (rule trim_unspaced)
  show "\<not> is_space (hd (trim tn @ '':'' @ trim name))" using trim_ends(1) [OF assms] assms by simp
  show "\<not> is_space (last (trim tn @ '':'' @ trim name))"
    using trim_ends(2) [of name] by (cases "trim name = []") (simp_all add: is_space_def)
qed simp

text \<open>
  Decoding an encoded bucket reference gives back the trimmed bucket name and the trimmed
  tenant (none when it is blank), when the tenant has no colon and, without tenant, the name has
  none either.
\<close>

theorem bucket_ref_round_trip:
  assumes "CHR '':'' \<notin> set tn" and "trim tn = [] \<Longrightarrow> CHR '':'' \<notin> set name"
  shows "decodeCephAdminBucketRef (encodeCephAdminBucketRef name (Some tn)) =
    \<lparr>ref_bucketName = trim name, ref_tenant = (if trim tn = [] then None else Some (trim tn))\<rparr>"
proof (cases "trim tn = []")
  case True
  then have "CHR '':'' \<notin> set (trim name)" using assms(2) set_trim by blast
  then have "indexOf (trim name) '':'' = None" by (rule indexOf_single_None)
  then show ?thesis using True by (simp add: decodeCephAdminBucketRef_def encodeCephAdminBucketRef_def)
next
  case False
  have "CHR '':'' \<notin> set (trim tn)" using assms(1) set_trim by blast
  from indexOf_single_Some [OF this, of "trim name"] False show ?thesis
    using trim_joined [OF False, of name]
    by (simp add: decodeCephAdminBucketRef_def encodeCephAdminBucketRef_def Let_def)
qed

theorem bucket_ref_round_trip_witness:
  "decodeCephAdminBucketRef (encodeCephAdminBucketRef '' a:b '' (Some ''t1'')) =
    \<lparr>ref_bucketName = ''a:b'', ref_tenant = Some ''t1''\<rparr>"
proof -
  have "trim ''t1'' = ''t1''" "trim '' a:b '' = ''a:b''" by code_simp+
  with bucket_ref_round_trip [of "''t1''" "'' a:b ''"] show ?thesis by simp
qed

section \<open>Two divergences\<close>

text \<open>
  C38. A policy whose \<open>Statement\<close> is one object instead of an array loses it when statements are
  added: the policy that is written holds the statements merged into an empty list.
\<close>

theorem add_policy_drops_object_statement:
  assumes "getBucketPolicy api b s = (Inr (Some policy), t)"
    and "jprop policy ''Statement'' = Some (JObj statement)"
    and "mergePolicyStatements h only [] incoming = (nextStatements, changes)" and "changes \<noteq> []"
  shows "apply_add_policy h api only incoming parsed b s
    = io_seq (putBucketPolicy api b (with_statements policy nextStatements)) (io_return True) t"
proof -
  have "policy \<noteq> []" and "policy_statements policy = []"
    using assms(2) by (auto simp: policy_statements_def as_array_def)
  with assms show ?thesis by (simp add: apply_add_policy_def Let_def)
qed

definition sample_policy :: jrec where
  "sample_policy = [(''Statement'', JObj [(''Sid'', JStr ''deny''), (''Effect'', JStr ''Deny'')])]"

definition sample_policy_state :: demo_state where
  "sample_policy_state = [(newBucket ''logs'' 11 ''o'' False)\<lparr>db_config :=
     AList.update ''policy'' (JObj [(''policy'', JObj sample_policy)]) (db_config (newBucket ''logs'' 11 ''o'' False))\<rparr>]"

theorem add_policy_drops_object_statement_witness:
  "apply_add_policy plain_host sample_api False [[(''Sid'', JStr ''read'')]] None ''logs'' sample_policy_state
   = io_seq (putBucketPolicy sample_api ''logs'' [(''Statement'', JArr [JObj [(''Sid'', JStr ''read'')]])])
       (io_return True) sample_policy_state"
proof -
  have g: "getBucketPolicy sample_api ''logs'' sample_policy_state = (Inr (Some sample_policy), sample_policy_state)"
    and m: "mergePolicyStatements plain_host False [] [[(''Sid'', JStr ''read'')]]
      = ([[(''Sid'', JStr ''read'')]], snd (mergePolicyStatements plain_host False [] [[(''Sid'', JStr ''read'')]]))"
    and c: "snd (mergePolicyStatements plain_host False [] [[(''Sid'', JStr ''read'')]]) \<noteq> []"
    by code_simp+
  have j: "jprop sample_policy ''Statement'' = Some (JObj [(''Sid'', JStr ''deny''), (''Effect'', JStr ''Deny'')])"
    by (simp add: sample_policy_def)
  from add_policy_drops_object_statement [OF g j m c, of None] show ?thesis
    by (simp add: with_statements_def sample_policy_def)
qed

text \<open>
  The demo server stores the size of a quota in GiB whatever the unit of the payload: the size
  it keeps is the value of the payload times \<open>1024 ^ 3\<close>.
\<close>

theorem demo_quota_ignores_unit:
  assumes "demo_resource h PUT ''quota'' (as_rec (quota_json payload)) b = Some (Inr (r, c))"
  shows "db_quota_max_size_bytes c = map_option (\<lambda>x. Fin (x * 1024 ^ 3)) (max_size_gb payload)"
  using assms
  by (cases "max_size_gb payload")
    (auto simp: demo_resource_def quota_json_def as_rec_def nullable_number_def json_of_number_def times_GiB_def
      js_Number_value_def)

theorem demo_quota_ignores_unit_witness:
  "\<exists>r c. demo_resource plain_host PUT ''quota'' (as_rec (quota_json
        \<lparr>qu_enabled = True, max_size_gb = Some 2, max_size_unit = Some TiB, max_objects = None\<rparr>))
      (newBucket ''logs'' 11 ''o'' False) = Some (Inr (r, c)) \<and> db_quota_max_size_bytes c = Some (Fin (2 * 1024 ^ 3))"
proof -
  let ?p = "\<lparr>qu_enabled = True, max_size_gb = Some 2, max_size_unit = Some TiB, max_objects = None\<rparr>"
  obtain r c where "demo_resource plain_host PUT ''quota'' (as_rec (quota_json ?p)) (newBucket ''logs'' 11 ''o'' False)
      = Some (Inr (r, c))" by (simp add: demo_resource_def)
  with demo_quota_ignores_unit [OF this] show ?thesis by auto
qed

section \<open>The form\<close>

lemma selected_any: "selectedOptionKeys options selection \<noteq> [] \<longleftrightarrow> any_selected options selection"
  by (auto simp: selectedOptionKeys_def any_selected_def filter_empty_conv)

lemma accepted_text:
  "parseLifecycleRules txt = Inr rs \<Longrightarrow> trim txt \<noteq> []"
  "parseCorsRules txt = Inr rs \<Longrightarrow> trim txt \<noteq> []"
  "parsePolicyStatements txt = Inr ps \<Longrightarrow> trim txt \<noteq> []"
  "parseNotificationConfiguration txt = Inr c \<Longrightarrow> trim txt \<noteq> []"
  by (auto simp: parseLifecycleRules_def parseCorsRules_def parsePolicyStatements_def parseNotificationConfiguration_def Let_def)

lemma no_rule_ids: "trim txt = [] \<Longrightarrow> parseRuleIds h txt = []"
  by (simp add: parseRuleIds_def Let_def)

lemma accepted_criteria:
  assumes "delete_criteria h options input msg = Inr r"
  shows "trim (in_deleteIds input) \<noteq> [] \<or> any_selected options (in_deleteTypes input)"
  using assms no_rule_ids [of "in_deleteIds input" h] selected_any [of options "in_deleteTypes input"]
  by (auto simp: delete_criteria_def Let_def split: if_splits)

lemma accepted_result: "(case x of Inl e \<Rightarrow> Inl e | Inr y \<Rightarrow> f y) = Inr z \<Longrightarrow> \<exists>y. x = Inr y"
  by (cases x) auto

lemma accepted_form:
  assumes "prepareBucketOpsBulkInput h (buildBucketOpsBulkInput f) = Inr p"
  shows "bulkOperation f = AddLifecycle \<Longrightarrow> trim (bulkLifecycleRuleText f) \<noteq> []"
    and "bulkOperation f = AddCors \<Longrightarrow> trim (bulkCorsRuleText f) \<noteq> []"
    and "bulkOperation f = AddPolicy \<Longrightarrow> trim (bulkPolicyText f) \<noteq> []"
    and "bulkOperation f = AddNotifications \<Longrightarrow> trim (bulkNotificationText f) \<noteq> []"
    and "bulkOperation f = DeleteLifecycle \<Longrightarrow>
      trim (bulkLifecycleDeleteIds f) \<noteq> [] \<or> any_selected LIFECYCLE_TYPE_OPTIONS (bulkLifecycleDeleteTypes f)"
    and "bulkOperation f = DeleteCors \<Longrightarrow>
      trim (bulkCorsDeleteIds f) \<noteq> [] \<or> any_selected CORS_TYPE_OPTIONS (bulkCorsDeleteTypes f)"
    and "bulkOperation f = DeletePolicy \<Longrightarrow>
      trim (bulkPolicyDeleteIds f) \<noteq> [] \<or> any_selected POLICY_TYPE_OPTIONS (bulkPolicyDeleteTypes f)"
    and "bulkOperation f = DeleteNotifications \<Longrightarrow>
      trim (bulkNotificationDeleteIds f) \<noteq> [] \<or> any_selected NOTIFICATION_TYPE_OPTIONS (bulkNotificationDeleteTypes f)"
    and "bulkOperation f \<in> {AddPublicAccessBlock, RemovePublicAccessBlock} \<Longrightarrow>
      any_selected PUBLIC_ACCESS_BLOCK_OPTIONS (bulkPublicAccessBlockTargets f)"
proof -
  note evaluate = assms [unfolded prepareBucketOpsBulkInput_def buildBucketOpsBulkInput_def Let_def, simplified]
  { assume "bulkOperation f = AddLifecycle"
    with evaluate show "trim (bulkLifecycleRuleText f) \<noteq> []" by (auto dest!: accepted_result accepted_text) }
  { assume "bulkOperation f = AddCors"
    with evaluate show "trim (bulkCorsRuleText f) \<noteq> []" by (auto dest!: accepted_result accepted_text) }
  { assume "bulkOperation f = AddPolicy"
    with evaluate show "trim (bulkPolicyText f) \<noteq> []" by (auto dest!: accepted_result accepted_text) }
  { assume "bulkOperation f = AddNotifications"
    with evaluate show "trim (bulkNotificationText f) \<noteq> []" by (auto dest!: accepted_result accepted_text) }
  { assume "bulkOperation f = DeleteLifecycle"
    with evaluate show "trim (bulkLifecycleDeleteIds f) \<noteq> [] \<or> any_selected LIFECYCLE_TYPE_OPTIONS (bulkLifecycleDeleteTypes f)"
      by (auto dest!: accepted_result accepted_criteria) }
  { assume "bulkOperation f = DeleteCors"
    with evaluate show "trim (bulkCorsDeleteIds f) \<noteq> [] \<or> any_selected CORS_TYPE_OPTIONS (bulkCorsDeleteTypes f)"
      by (auto dest!: accepted_result accepted_criteria) }
  { assume "bulkOperation f = DeletePolicy"
    with evaluate show "trim (bulkPolicyDeleteIds f) \<noteq> [] \<or> any_selected POLICY_TYPE_OPTIONS (bulkPolicyDeleteTypes f)"
      by (auto dest!: accepted_result accepted_criteria) }
  { assume "bulkOperation f = DeleteNotifications"
    with evaluate show "trim (bulkNotificationDeleteIds f) \<noteq> [] \<or> any_selected NOTIFICATION_TYPE_OPTIONS (bulkNotificationDeleteTypes f)"
      by (auto dest!: accepted_result accepted_criteria) }
  { assume "bulkOperation f \<in> {AddPublicAccessBlock, RemovePublicAccessBlock}"
    with evaluate show "any_selected PUBLIC_ACCESS_BLOCK_OPTIONS (bulkPublicAccessBlockTargets f)"
      by (auto simp flip: selected_any split: if_splits) }
qed

text \<open>
  The preview button never blocks a valid form: when the form passes validation for an
  operation other than pasting, no work is running and the quota is available, the preview is enabled.
\<close>

theorem valid_form_can_be_previewed:
  assumes "prepareBucketOpsBulkInput h (buildBucketOpsBulkInput f) = Inr p"
    and "bulkOperation f \<notin> {NoOperation, PasteConfigs}" and "\<not> has_reason quotaDisabledReason"
  shows "\<not> previewDisabled (resolveBucketOpsBulkActionAvailability False f pasteError False ready quotaDisabledReason)"
proof -
  note accepted = accepted_form [OF assms(1)]
  show ?thesis
    using assms(2,3) accepted
    by (cases "bulkOperation f") (simp_all add: resolveBucketOpsBulkActionAvailability_def Let_def)
qed

theorem valid_form_can_be_previewed_witness:
  "\<not> previewDisabled (resolveBucketOpsBulkActionAvailability False
     (createBucketOpsBulkFormState\<lparr>bulkOperation := DeleteCors, bulkCorsDeleteIds := ''public''\<rparr>) None False False None)"
proof -
  let ?f = "createBucketOpsBulkFormState\<lparr>bulkOperation := DeleteCors, bulkCorsDeleteIds := ''public''\<rparr>"
  have "\<not> isl (prepareBucketOpsBulkInput plain_host (buildBucketOpsBulkInput ?f))" by code_simp
  then obtain p where "prepareBucketOpsBulkInput plain_host (buildBucketOpsBulkInput ?f) = Inr p"
    by (metis isl_def sum.exhaust_sel)
  from valid_form_can_be_previewed [OF this] show ?thesis by (simp add: has_reason_def)
qed

end
