(* ===== verification/Paste_Plan.thy ===== *)
theory Paste_Plan
  imports Bucket_Presentation
begin

text \<open>
  \<open>frontend/src/features/shared/bucketBulkPasteModel.ts\<close>: which copied configuration goes to which
  selected bucket. The mapping the user edits (a \<open>Record<string, string>\<close>) is the association list of
  its own properties; a bucket whose name is a property of \<open>Object.prototype\<close> is outside the model.
  \<open>paste_plan_ok\<close> says what a plan without error is; the plan of a reconciled mapping can only lack
  destinations.
\<close>

section \<open>The plan\<close>

definition isBulkClipboardSameEndpoint :: "BulkConfigClipboard option \<Rightarrow> rat option \<Rightarrow> bool" where
  "isBulkClipboardSameEndpoint clipboard selectedEndpointId =
     (case (clipboard, selectedEndpointId) of
        (Some c, Some e) \<Rightarrow> e \<noteq> 0 \<and> sourceEndpointId c = e | _ \<Rightarrow> False)"

definition plan_failure :: "paste_mode option \<Rightarrow> string \<Rightarrow> BulkPastePlan" where
  "plan_failure m e = \<lparr>plan_mode = m, mappings = [], plan_error = Some e\<rparr>"

definition plan_item :: "BulkConfigClipboardBucket \<Rightarrow> string \<Rightarrow> BulkPastePlanItem" where
  "plan_item source destination =
     \<lparr>sourceBucket = cb_name source, destinationBucket = destination, sourceConfig = source\<rparr>"

definition destinationByNormalized :: "string list \<Rightarrow> (string \<times> string) list" where
  "destinationByNormalized destinationBucketNames =
     fold (\<lambda>d m. AList.update (normalizeBucketName d) d m) destinationBucketNames []"

text \<open>\<open>!destinationByNormalized.get(name)\<close> also rejects an empty name.\<close>

definition find_destination :: "string list \<Rightarrow> string \<Rightarrow> string option" where
  "find_destination destinationBucketNames n =
     (case map_of (destinationByNormalized destinationBucketNames) n of
        None \<Rightarrow> None | Some d \<Rightarrow> if d = [] then None else Some d)"

definition mapped_text :: "(string \<times> string) list \<Rightarrow> string \<Rightarrow> string" where
  "mapped_text mapping source = trim (case map_of mapping source of None \<Rightarrow> [] | Some v \<Rightarrow> v)"

text \<open>The variables the loop over the source buckets fills.\<close>

record plan_state =
  usedDestinations :: "string list"
  unresolvedSources :: "string list"
  duplicateDestinations :: "string list"
  invalidDestinations :: "string list"
  sameBucketConflicts :: "string list"
  plan_mappings :: "BulkPastePlanItem list"

definition empty_plan :: plan_state where
  "empty_plan = \<lparr>usedDestinations = [], unresolvedSources = [], duplicateDestinations = [],
     invalidDestinations = [], sameBucketConflicts = [], plan_mappings = []\<rparr>"

definition plan_source ::
  "bool \<Rightarrow> string list \<Rightarrow> (string \<times> string) list \<Rightarrow> BulkConfigClipboardBucket \<Rightarrow> plan_state \<Rightarrow> plan_state" where
  "plan_source sameEndpoint destinationBucketNames mapping source st =
     (let selectedDestination = mapped_text mapping (cb_name source);
          normalizedDestination = normalizeBucketName selectedDestination in
      if selectedDestination = [] then st\<lparr>unresolvedSources := unresolvedSources st @ [cb_name source]\<rparr>
      else case find_destination destinationBucketNames normalizedDestination of
        None \<Rightarrow> st\<lparr>invalidDestinations := invalidDestinations st @ [selectedDestination]\<rparr>
      | Some d \<Rightarrow>
          if sameEndpoint \<and> normalizedDestination = normalizeBucketName (cb_name source)
          then st\<lparr>sameBucketConflicts := sameBucketConflicts st @ [cb_name source]\<rparr>
          else if normalizedDestination \<in> set (usedDestinations st)
          then st\<lparr>duplicateDestinations := duplicateDestinations st @ [d]\<rparr>
          else st\<lparr>usedDestinations := usedDestinations st @ [normalizedDestination],
                  plan_mappings := plan_mappings st @ [plan_item source d]\<rparr>)"

definition one_to_many_plan :: "bool \<Rightarrow> string list \<Rightarrow> BulkConfigClipboardBucket \<Rightarrow> BulkPastePlan" where
  "one_to_many_plan sameEndpoint destinationBucketNames source =
     (let conflictingDestinations = filter
            (\<lambda>d. normalizeBucketName d = normalizeBucketName (cb_name source)) destinationBucketNames in
      if sameEndpoint \<and> conflictingDestinations \<noteq> []
      then plan_failure (Some OneToMany) (''Copy/paste on the same bucket is not allowed: ''
             @ formatBucketNamesPreview conflictingDestinations @ ''.'')
      else \<lparr>plan_mode = Some OneToMany, mappings = map (plan_item source) destinationBucketNames,
             plan_error = None\<rparr>)"

definition one_to_one_plan ::
  "bool \<Rightarrow> string list \<Rightarrow> (string \<times> string) list \<Rightarrow> BulkConfigClipboardBucket list \<Rightarrow> BulkPastePlan" where
  "one_to_one_plan sameEndpoint destinationBucketNames mapping sources =
     (let st = fold (plan_source sameEndpoint destinationBucketNames mapping) sources empty_plan;
          fail = plan_failure (Some OneToOne) in
      if unresolvedSources st \<noteq> []
      then fail (''Complete the mapping for all source buckets (''
             @ nat_string (length (unresolvedSources st)) @ '' missing).'')
      else if invalidDestinations st \<noteq> []
      then fail (''Some mapped destinations are invalid: ''
             @ formatBucketNamesPreview (invalidDestinations st) @ ''.'')
      else if sameBucketConflicts st \<noteq> []
      then fail (''Copy/paste on the same bucket is not allowed: ''
             @ formatBucketNamesPreview (sameBucketConflicts st) @ ''.'')
      else if duplicateDestinations st \<noteq> []
      then fail ''Each destination bucket can only be used once in 1:1 mapping.''
      else \<lparr>plan_mode = Some OneToOne, mappings = plan_mappings st, plan_error = None\<rparr>)"

definition buildBulkPastePlan ::
  "BulkConfigClipboard option \<Rightarrow> string list \<Rightarrow> (string \<times> string) list \<Rightarrow> string \<Rightarrow> rat option \<Rightarrow>
   BulkPastePlan" where
  "buildBulkPastePlan clipboard destinationBucketNames mapping missingScopeHint selectedEndpointId =
     (case clipboard of
        None \<Rightarrow> plan_failure None ''No copied configuration available.''
      | Some c \<Rightarrow>
          if selectedEndpointId = None \<or> selectedEndpointId = Some 0 then plan_failure None missingScopeHint
          else if \<not> list_ex (features c) BULK_COPY_FEATURE_KEYS
          then plan_failure None ''Clipboard does not include any copied configuration.''
          else if buckets c = [] then plan_failure None ''Copied selection is empty.''
          else if destinationBucketNames = [] then plan_failure None ''Select destination buckets first.''
          else (let sameEndpoint = isBulkClipboardSameEndpoint clipboard selectedEndpointId in
            if length (buckets c) = 1
            then one_to_many_plan sameEndpoint destinationBucketNames (hd (buckets c))
            else if length (buckets c) \<noteq> length destinationBucketNames
            then plan_failure None (''Mapping impossible: source has '' @ nat_string (length (buckets c))
                   @ '' bucket(s), destination has '' @ nat_string (length destinationBucketNames) @ ''.'')
            else one_to_one_plan sameEndpoint destinationBucketNames mapping (buckets c)))"

section \<open>Keeping a mapping\<close>

type_synonym reconcile_state = "(string \<times> string) list \<times> string list"

definition reconcile_previous ::
  "bool \<Rightarrow> string list \<Rightarrow> (string \<times> string) list \<Rightarrow> string \<Rightarrow> reconcile_state \<Rightarrow> reconcile_state" where
  "reconcile_previous sameEndpoint destinationBucketNames previousMapping source st =
     (let previousValue = mapped_text previousMapping source;
          n = normalizeBucketName previousValue; (nxt, used) = st in
      if previousValue = [] then st
      else case find_destination destinationBucketNames n of
        None \<Rightarrow> st
      | Some d \<Rightarrow>
          if sameEndpoint \<and> n = normalizeBucketName source then st
          else if n \<in> set used then st
          else (AList.update source d nxt, used @ [n]))"

definition reconcile_same_name ::
  "string list \<Rightarrow> string \<Rightarrow> reconcile_state \<Rightarrow> reconcile_state" where
  "reconcile_same_name destinationBucketNames source st =
     (let n = normalizeBucketName source; (nxt, used) = st in
      if (case map_of nxt source of None \<Rightarrow> False | Some v \<Rightarrow> v \<noteq> []) then st
      else case find_destination destinationBucketNames n of
        None \<Rightarrow> st
      | Some d \<Rightarrow> if n \<in> set used then st else (AList.update source d nxt, used @ [n]))"

definition reconcile_state ::
  "string list \<Rightarrow> (string \<times> string) list \<Rightarrow> bool \<Rightarrow> string list \<Rightarrow> reconcile_state" where
  "reconcile_state destinationBucketNames previousMapping sameEndpoint sourceBucketNames =
     (let st = fold (reconcile_previous sameEndpoint destinationBucketNames previousMapping) sourceBucketNames ([], []) in
      if sameEndpoint then st else fold (reconcile_same_name destinationBucketNames) sourceBucketNames st)"

definition reconcileBulkPasteMapping ::
  "js_host \<Rightarrow> string list \<Rightarrow> (string \<times> string) list \<Rightarrow> bool \<Rightarrow> string list \<Rightarrow> (string \<times> string) list" where
  "reconcileBulkPasteMapping h destinationBucketNames previousMapping sameEndpoint sourceBucketNames =
     (if length sourceBucketNames \<le> 1 \<or> length sourceBucketNames \<noteq> length destinationBucketNames
      then (if previousMapping = [] then previousMapping else [])
      else (let nxt = fst (reconcile_state destinationBucketNames previousMapping sameEndpoint sourceBucketNames) in
        if areStringMapEqual h previousMapping nxt then previousMapping else nxt))"

section \<open>Destinations\<close>

lemma normalizeBucketName_trim [simp]: "normalizeBucketName (trim s) = normalizeBucketName s"
  by (simp add: normalizeBucketName_def)

lemma normalizeBucketName_Nil_iff: "normalizeBucketName s = [] \<longleftrightarrow> trim s = []"
  by (simp add: normalizeBucketName_def)

lemma destinations_snoc:
  "destinationByNormalized (ds @ [d]) = AList.update (normalizeBucketName d) d (destinationByNormalized ds)"
  by (simp add: destinationByNormalized_def)

lemma destination_lookup:
  "map_of (destinationByNormalized ds) n = Some d \<Longrightarrow> d \<in> set ds \<and> normalizeBucketName d = n"
  by (induction ds rule: rev_induct)
    (auto simp: destinations_snoc destinationByNormalized_def split: if_splits)

lemma destination_present: "d \<in> set ds \<Longrightarrow> \<exists>x. map_of (destinationByNormalized ds) (normalizeBucketName d) = Some x"
  by (induction ds rule: rev_induct) (auto simp: destinations_snoc)

lemma find_destinationD:
  "find_destination ds n = Some d \<Longrightarrow> d \<in> set ds \<and> normalizeBucketName d = n \<and> d \<noteq> []"
  using destination_lookup [of ds n d]
  by (auto simp: find_destination_def split: option.splits if_splits)

text \<open>A name the user could have chosen is found.\<close>

lemma find_destination_ex:
  assumes "d \<in> set ds" and "normalizeBucketName d \<noteq> []"
  shows "\<exists>x. find_destination ds (normalizeBucketName d) = Some x"
proof -
  from destination_present [OF assms(1)] obtain x
    where x: "map_of (destinationByNormalized ds) (normalizeBucketName d) = Some x" by auto
  from destination_lookup [OF x] assms(2) have "normalizeBucketName x \<noteq> []" by simp
  then have "x \<noteq> []" by (auto simp: normalizeBucketName_Nil_iff)
  with x show ?thesis by (simp add: find_destination_def)
qed

section \<open>A plan without error\<close>

definition no_complaint :: "plan_state \<Rightarrow> bool" where
  "no_complaint st \<longleftrightarrow> unresolvedSources st = [] \<and> invalidDestinations st = [] \<and> sameBucketConflicts st = []
     \<and> duplicateDestinations st = []"

definition item_ok :: "bool \<Rightarrow> string list \<Rightarrow> BulkPastePlanItem \<Rightarrow> bool" where
  "item_ok same ds i \<longleftrightarrow> sourceBucket i = cb_name (sourceConfig i) \<and> destinationBucket i \<in> set ds
     \<and> (same \<longrightarrow> normalizeBucketName (destinationBucket i) \<noteq> normalizeBucketName (sourceBucket i))"

lemma plan_source_keeps_complaint: "no_complaint (plan_source same ds m x st) \<Longrightarrow> no_complaint st"
  by (auto simp: plan_source_def no_complaint_def Let_def split: option.splits if_splits)

lemma plan_source_quiet:
  assumes "no_complaint (plan_source same ds m x st)"
  shows "\<exists>d. find_destination ds (normalizeBucketName (mapped_text m (cb_name x))) = Some d
    \<and> (same \<longrightarrow> normalizeBucketName d \<noteq> normalizeBucketName (cb_name x))
    \<and> normalizeBucketName d \<notin> set (usedDestinations st)
    \<and> plan_source same ds m x st = st\<lparr>usedDestinations := usedDestinations st @ [normalizeBucketName d],
        plan_mappings := plan_mappings st @ [plan_item x d]\<rparr>"
  using assms by (auto simp: plan_source_def no_complaint_def Let_def dest: find_destinationD
      split: option.splits if_splits)

lemma plan_fold_quiet:
  assumes "no_complaint (fold (plan_source same ds m) xs empty_plan)"
  shows "map sourceConfig (plan_mappings (fold (plan_source same ds m) xs empty_plan)) = xs
    \<and> usedDestinations (fold (plan_source same ds m) xs empty_plan)
        = map (\<lambda>i. normalizeBucketName (destinationBucket i)) (plan_mappings (fold (plan_source same ds m) xs empty_plan))
    \<and> distinct (usedDestinations (fold (plan_source same ds m) xs empty_plan))
    \<and> list_all (item_ok same ds) (plan_mappings (fold (plan_source same ds m) xs empty_plan))"
  using assms
proof (induction xs rule: rev_induct)
  case (snoc x xs)
  let ?st = "fold (plan_source same ds m) xs empty_plan"
  from snoc.prems have quiet: "no_complaint (plan_source same ds m x ?st)" by simp
  from plan_source_quiet [OF quiet] obtain d where
    d: "find_destination ds (normalizeBucketName (mapped_text m (cb_name x))) = Some d"
    "same \<longrightarrow> normalizeBucketName d \<noteq> normalizeBucketName (cb_name x)"
    "normalizeBucketName d \<notin> set (usedDestinations ?st)"
    and st: "plan_source same ds m x ?st = ?st\<lparr>usedDestinations := usedDestinations ?st @ [normalizeBucketName d],
        plan_mappings := plan_mappings ?st @ [plan_item x d]\<rparr>" by auto
  from snoc.IH [OF plan_source_keeps_complaint [OF quiet]] find_destinationD [OF d(1)] d(2,3)
  show ?case by (simp add: st) (auto simp: plan_item_def item_ok_def)
qed (simp add: empty_plan_def)

text \<open>What a plan without error is.\<close>

definition paste_plan_ok :: "BulkConfigClipboard \<Rightarrow> bool \<Rightarrow> string list \<Rightarrow> BulkPastePlan \<Rightarrow> bool" where
  "paste_plan_ok c same ds p \<longleftrightarrow> mappings p \<noteq> [] \<and> list_all (item_ok same ds) (mappings p)
     \<and> (case plan_mode p of
          Some OneToMany \<Rightarrow> buckets c = map sourceConfig (take 1 (mappings p))
            \<and> list_all (\<lambda>i. sourceConfig i = hd (buckets c)) (mappings p) \<and> map destinationBucket (mappings p) = ds
        | Some OneToOne \<Rightarrow> map sourceConfig (mappings p) = buckets c
            \<and> distinct (map (\<lambda>i. normalizeBucketName (destinationBucket i)) (mappings p))
            \<and> length (mappings p) = length ds
        | None \<Rightarrow> False)"

lemma one_to_many_plan_ok:
  assumes "plan_error (one_to_many_plan same ds x) = None" and "buckets c = [x]" and "ds \<noteq> []"
  shows "paste_plan_ok c same ds (one_to_many_plan same ds x)"
  using assms by (cases ds) (auto simp: one_to_many_plan_def paste_plan_ok_def plan_failure_def Let_def list_all_iff
      item_ok_def plan_item_def filter_empty_conv comp_def split: if_splits)

lemma one_to_one_plan_ok:
  assumes "plan_error (one_to_one_plan same ds m (buckets c)) = None" and "buckets c \<noteq> []"
    and "length (buckets c) = length ds"
  shows "paste_plan_ok c same ds (one_to_one_plan same ds m (buckets c))"
proof -
  let ?st = "fold (plan_source same ds m) (buckets c) empty_plan"
  from assms have quiet: "no_complaint ?st"
    and p: "one_to_one_plan same ds m (buckets c) = \<lparr>plan_mode = Some OneToOne, mappings = plan_mappings ?st, plan_error = None\<rparr>"
    by (auto simp: one_to_one_plan_def plan_failure_def no_complaint_def Let_def split: if_splits)
  note st = plan_fold_quiet [OF quiet]
  from st assms(2) have "plan_mappings ?st \<noteq> []" by (metis list.map_disc_iff)
  moreover from st have "distinct (map (\<lambda>i. normalizeBucketName (destinationBucket i)) (plan_mappings ?st))" by metis
  moreover from st assms(3) have "length (plan_mappings ?st) = length ds" by (metis length_map)
  ultimately show ?thesis using st unfolding p paste_plan_ok_def by simp
qed

lemma plan_failure_simps [simp]:
  "mappings (plan_failure m e) = []" "plan_error (plan_failure m e) = Some e" "plan_mode (plan_failure m e) = m"
  by (simp_all add: plan_failure_def)

lemma build_plan_ok:
  assumes "plan_error (buildBulkPastePlan clip ds m hint e) = None"
  shows "\<exists>c. clip = Some c \<and> paste_plan_ok c (isBulkClipboardSameEndpoint clip e) ds (buildBulkPastePlan clip ds m hint e)"
proof (cases clip)
  case None
  with assms show ?thesis by (simp add: buildBulkPastePlan_def)
next
  case (Some c)
  consider (many) "length (buckets c) = 1"
      "buildBulkPastePlan clip ds m hint e = one_to_many_plan (isBulkClipboardSameEndpoint clip e) ds (hd (buckets c))" "ds \<noteq> []"
    | (one) "buckets c \<noteq> []" "length (buckets c) = length ds"
      "buildBulkPastePlan clip ds m hint e = one_to_one_plan (isBulkClipboardSameEndpoint clip e) ds m (buckets c)"
    using assms Some by (auto simp: buildBulkPastePlan_def Let_def split: if_splits)
  then show ?thesis
  proof cases
    case many
    then obtain x where "buckets c = [x]" by (auto simp: length_Suc_conv)
    with many assms Some one_to_many_plan_ok [of "isBulkClipboardSameEndpoint clip e" ds x c] show ?thesis by simp
  next
    case one
    with assms Some one_to_one_plan_ok [of "isBulkClipboardSameEndpoint clip e" ds m c] show ?thesis by simp
  qed
qed

lemma build_plan_error_empty: "plan_error (buildBulkPastePlan clip ds m hint e) = Some x \<Longrightarrow> mappings (buildBulkPastePlan clip ds m hint e) = []"
  by (cases clip) (auto simp: buildBulkPastePlan_def one_to_many_plan_def one_to_one_plan_def Let_def split: if_splits)

section \<open>A reconciled mapping\<close>

definition reconciled :: "string list \<Rightarrow> bool \<Rightarrow> reconcile_state \<Rightarrow> bool" where
  "reconciled ds same st \<longleftrightarrow> snd st = map (\<lambda>kv. normalizeBucketName (snd kv)) (fst st) \<and> distinct (snd st)
     \<and> distinct (map fst (fst st))
     \<and> (\<forall>(k, v) \<in> set (fst st). find_destination ds (normalizeBucketName v) = Some v
          \<and> (same \<longrightarrow> normalizeBucketName v \<noteq> normalizeBucketName k))"

lemma update_new: "k \<notin> fst ` set al \<Longrightarrow> AList.update k v al = al @ [(k, v)]"
  by (induction al) auto

lemma reconciled_step:
  assumes "reconciled ds same (nxt, used)" and "k \<notin> fst ` set nxt" and "find_destination ds n = Some d" and "n \<notin> set used"
    and "same \<longrightarrow> n \<noteq> normalizeBucketName k"
  shows "reconciled ds same (AList.update k d nxt, used @ [n])"
  using assms find_destinationD [OF assms(3)] by (auto simp: reconciled_def update_new)

text \<open>The first loop keeps previous choices, the second adds buckets of the same name.\<close>

definition keeps_previous :: "(string \<times> string) list \<Rightarrow> reconcile_state \<Rightarrow> bool" where
  "keeps_previous prev st \<longleftrightarrow>
     (\<forall>(k, v) \<in> set (fst st). normalizeBucketName v = normalizeBucketName (mapped_text prev k))"

lemma reconcile_previous_step:
  assumes "reconciled ds same st" and "keeps_previous prev st"
  shows "reconciled ds same (reconcile_previous same ds prev k st) \<and> keeps_previous prev (reconcile_previous same ds prev k st)"
proof -
  obtain nxt used where st: "st = (nxt, used)" by (cases st)
  let ?n = "normalizeBucketName (mapped_text prev k)"
  have new: "k \<notin> fst ` set nxt" if "?n \<notin> set used"
    using assms that by (force simp: st reconciled_def keeps_previous_def)
  show ?thesis
    using assms reconciled_step [of ds same nxt used k ?n] find_destinationD [of ds ?n] new
    by (auto simp: st reconcile_previous_def keeps_previous_def update_new Let_def split: option.splits)
qed

lemma reconcile_same_name_step:
  assumes "reconciled ds False st"
  shows "reconciled ds False (reconcile_same_name ds k st)"
proof -
  obtain nxt used where st: "st = (nxt, used)" by (cases st)
  have "k \<notin> fst ` set nxt" if "\<not> (case map_of nxt k of None \<Rightarrow> False | Some v \<Rightarrow> v \<noteq> [])"
    using assms that find_destinationD
    by (fastforce simp: st reconciled_def split: option.splits dest: map_of_SomeD simp: map_of_eq_None_iff)
  then show ?thesis
    using assms reconciled_step [of ds False nxt used k "normalizeBucketName k"]
    by (auto simp: st reconcile_same_name_def Let_def split: option.splits)
qed

lemma fold_invariant_list: "P st \<Longrightarrow> (\<And>x s. P s \<Longrightarrow> P (f x s)) \<Longrightarrow> P (fold f xs st)"
  by (induction xs arbitrary: st) auto

lemma reconcile_state_ok: "reconciled ds same (reconcile_state ds prev same ss)"
proof -
  let ?P = "\<lambda>st. reconciled ds same st \<and> keeps_previous prev st"
  have "?P ([], [])" by (simp add: reconciled_def keeps_previous_def)
  then have "?P (fold (reconcile_previous same ds prev) ss ([], []))"
    by (rule fold_invariant_list [where P = ?P]) (use reconcile_previous_step in blast)
  then show ?thesis
    using fold_invariant_list [where P = "reconciled ds False" and f = "reconcile_same_name ds"] reconcile_same_name_step
    by (cases same) (simp_all add: reconcile_state_def)
qed

text \<open>The plan depends on the destination of each source only.\<close>

definition same_choices :: "(string \<times> string) list \<Rightarrow> (string \<times> string) list \<Rightarrow> bool" where
  "same_choices m m' \<longleftrightarrow> (\<forall>k. map_of m k = map_of m' k)"

lemma plan_same_choices:
  assumes "same_choices m m'"
  shows "one_to_one_plan same ds m = one_to_one_plan same ds m'"
proof -
  have "mapped_text m = mapped_text m'" using assms by (auto simp: same_choices_def mapped_text_def)
  then have "plan_source same ds m = plan_source same ds m'" by (intro ext) (simp add: plan_source_def)
  then show ?thesis by (intro ext) (simp add: one_to_one_plan_def)
qed

lemma zip_all_eq: "length xs = length ys \<Longrightarrow> list_all (\<lambda>(a, b). a = b \<and> P a) (zip xs ys) \<longleftrightarrow> xs = ys \<and> list_all P xs"
  by (induction xs ys rule: list_induct2) auto

lemma areStringMapEqual_same:
  assumes "areStringMapEqual h m m'"
  shows "same_choices m m'"
proof -
  let ?l = "\<lambda>m k. case map_of m k of None \<Rightarrow> [] | Some v \<Rightarrow> v"
  from assms have keys: "js_sort (localeCompare h) (map fst m) = js_sort (localeCompare h) (map fst m')"
    and vals: "list_all (\<lambda>k. ?l m k = ?l m' k) (js_sort (localeCompare h) (map fst m))"
    by (auto simp: areStringMapEqual_def Let_def zip_all_eq)
  from keys have dom: "fst ` set m = fst ` set m'" by (metis set_js_sort set_map)
  have "map_of m k = map_of m' k" for k
  proof (cases "k \<in> fst ` set m")
    case True
    with dom obtain v v' where "map_of m k = Some v" "map_of m' k = Some v'" by (metis map_of_eq_None_iff not_Some_eq)
    with vals True show ?thesis by (auto simp: list_all_iff)
  next
    case False
    with dom show ?thesis by (metis map_of_eq_None_iff)
  qed
  then show ?thesis by (simp add: same_choices_def)
qed

lemma reconcile_same_choices:
  assumes "length ss > 1" and "length ss = length ds"
  shows "same_choices (reconcileBulkPasteMapping h ds prev same ss) (fst (reconcile_state ds prev same ss))"
  using assms areStringMapEqual_same [of h prev "fst (reconcile_state ds prev same ss)"]
  by (auto simp: reconcileBulkPasteMapping_def Let_def same_choices_def)

lemma unresolved_fold:
  "unresolvedSources (fold (plan_source same ds m) xs st)
     = unresolvedSources st @ filter (\<lambda>k. mapped_text m k = []) (map cb_name xs)"
  by (induction xs arbitrary: st) (auto simp: plan_source_def Let_def split: option.splits)

lemma reconciled_mapped:
  assumes "reconciled ds same st" and "mapped_text (fst st) k \<noteq> []"
  shows "\<exists>v. (k, v) \<in> set (fst st) \<and> find_destination ds (normalizeBucketName (mapped_text (fst st) k)) = Some v
    \<and> normalizeBucketName (mapped_text (fst st) k) = normalizeBucketName v
    \<and> (same \<longrightarrow> normalizeBucketName v \<noteq> normalizeBucketName k)"
  using assms by (force simp: mapped_text_def reconciled_def split: option.splits dest: map_of_SomeD)

lemma reconciled_injective:
  assumes "reconciled ds same st" and "(k, v) \<in> set (fst st)" and "(k', v') \<in> set (fst st)"
    and "normalizeBucketName v = normalizeBucketName v'"
  shows "k = k'"
  using assms unfolding reconciled_def by (metis (no_types, lifting) distinct_map inj_onD prod.inject snd_conv)

lemma reconciled_fold:
  assumes r: "reconciled ds same st" and "distinct (map cb_name xs)"
  shows "invalidDestinations (fold (plan_source same ds (fst st)) xs empty_plan) = []
    \<and> sameBucketConflicts (fold (plan_source same ds (fst st)) xs empty_plan) = []
    \<and> duplicateDestinations (fold (plan_source same ds (fst st)) xs empty_plan) = []
    \<and> (\<forall>n \<in> set (usedDestinations (fold (plan_source same ds (fst st)) xs empty_plan)).
         \<exists>x \<in> set xs. \<exists>v. (cb_name x, v) \<in> set (fst st) \<and> normalizeBucketName v = n)"
  using assms(2)
proof (induction xs rule: rev_induct)
  case (snoc x xs)
  let ?f = "fold (plan_source same ds (fst st)) xs empty_plan"
  from snoc.prems have ih: "invalidDestinations ?f = []" "sameBucketConflicts ?f = []" "duplicateDestinations ?f = []"
    and used: "\<And>n. n \<in> set (usedDestinations ?f) \<Longrightarrow>
      \<exists>x \<in> set xs. \<exists>v. (cb_name x, v) \<in> set (fst st) \<and> normalizeBucketName v = n"
    and new: "cb_name x \<notin> cb_name ` set xs" using snoc.IH by auto
  show ?case
  proof (cases "mapped_text (fst st) (cb_name x) = []")
    case True
    then have "plan_source same ds (fst st) x ?f = ?f\<lparr>unresolvedSources := unresolvedSources ?f @ [cb_name x]\<rparr>"
      by (simp add: plan_source_def)
    then show ?thesis using ih used by simp
  next
    case False
    from reconciled_mapped [OF r False] obtain v where v: "(cb_name x, v) \<in> set (fst st)"
      "find_destination ds (normalizeBucketName (mapped_text (fst st) (cb_name x))) = Some v"
      "normalizeBucketName (mapped_text (fst st) (cb_name x)) = normalizeBucketName v"
      "same \<longrightarrow> normalizeBucketName v \<noteq> normalizeBucketName (cb_name x)" by auto
    have "normalizeBucketName v \<notin> set (usedDestinations ?f)"
      using used [of "normalizeBucketName v"] reconciled_injective [OF r _ v(1)] new by (metis imageI)
    with v False have "plan_source same ds (fst st) x ?f = ?f\<lparr>usedDestinations := usedDestinations ?f
        @ [normalizeBucketName v], plan_mappings := plan_mappings ?f @ [plan_item x v]\<rparr>"
      by (auto simp: plan_source_def Let_def)
    then show ?thesis using ih used v(1) by simp blast
  qed
qed (simp add: empty_plan_def)

lemma reconciled_plan:
  fixes h :: js_host and prev :: "(string \<times> string) list" and sources :: "BulkConfigClipboardBucket list" and same :: bool
  assumes "length sources > 1" and "length sources = length ds" and "distinct (map cb_name sources)"
  defines "m \<equiv> reconcileBulkPasteMapping h ds prev same (map cb_name sources)"
  defines "missing \<equiv> filter (\<lambda>k. mapped_text m k = []) (map cb_name sources)"
  shows "plan_error (one_to_one_plan same ds m sources)
    = (if missing = [] then None else Some (''Complete the mapping for all source buckets (''
         @ nat_string (length missing) @ '' missing).''))"
proof -
  let ?st = "reconcile_state ds prev same (map cb_name sources)"
  have same: "same_choices m (fst ?st)" unfolding m_def by (rule reconcile_same_choices) (use assms in simp_all)
  then have "mapped_text m = mapped_text (fst ?st)" by (auto simp: same_choices_def mapped_text_def)
  then have miss: "missing = unresolvedSources (fold (plan_source same ds (fst ?st)) sources empty_plan)"
    by (simp add: missing_def unresolved_fold empty_plan_def)
  from reconciled_fold [OF reconcile_state_ok [of ds same prev "map cb_name sources"] assms(3)]
  show ?thesis
    unfolding plan_same_choices [OF same] by (simp add: one_to_one_plan_def Let_def miss)
qed

text \<open>Buckets of the same names on another endpoint are mapped without a choice of the user.\<close>

lemma fold_previous_Nil: "fold (reconcile_previous same ds []) ss st = st"
  by (induction ss arbitrary: st) (auto simp: reconcile_previous_def mapped_text_def)

lemma same_name_fold:
  assumes "distinct (map normalizeBucketName ss)"
    and "\<forall>k \<in> set ss. normalizeBucketName k \<noteq> [] \<and> normalizeBucketName k \<in> normalizeBucketName ` set ds"
  shows "fst ` set (fst (fold (reconcile_same_name ds) ss ([], []))) \<subseteq> set ss
    \<and> snd (fold (reconcile_same_name ds) ss ([], [])) = map normalizeBucketName ss
    \<and> (\<forall>k \<in> set ss. \<exists>v. map_of (fst (fold (reconcile_same_name ds) ss ([], []))) k = Some v
          \<and> normalizeBucketName v = normalizeBucketName k)"
  using assms
proof (induction ss rule: rev_induct)
  case (snoc k ss)
  obtain nxt used where st: "fold (reconcile_same_name ds) ss ([], []) = (nxt, used)" by fastforce
  from snoc.IH snoc.prems st have ih: "fst ` set nxt \<subseteq> set ss" "used = map normalizeBucketName ss"
    "\<forall>k \<in> set ss. \<exists>v. map_of nxt k = Some v \<and> normalizeBucketName v = normalizeBucketName k" by auto
  from snoc.prems obtain d where d: "find_destination ds (normalizeBucketName k) = Some d"
    using find_destination_ex by fastforce
  from snoc.prems have new: "normalizeBucketName k \<notin> set used" "k \<notin> set ss" by (auto simp: ih(2))
  then have "k \<notin> fst ` set nxt" using ih(1) by blast
  then have "map_of nxt k = None" by (simp add: map_of_eq_None_iff)
  then have "reconcile_same_name ds k (nxt, used) = (nxt @ [(k, d)], used @ [normalizeBucketName k])"
    using d new \<open>k \<notin> fst ` set nxt\<close> by (simp add: reconcile_same_name_def update_new)
  with ih new(2) find_destinationD [OF d] \<open>map_of nxt k = None\<close> show ?case
    by (auto simp: st map_add_def split: option.splits)
qed simp

lemma plan_follows_mapping:
  "list_all (\<lambda>i. normalizeBucketName (destinationBucket i) = normalizeBucketName (mapped_text m (sourceBucket i)))
     (mappings (one_to_one_plan same ds m xs))"
proof -
  let ?ok = "list_all (\<lambda>i. normalizeBucketName (destinationBucket i) = normalizeBucketName (mapped_text m (sourceBucket i)))"
  have "?ok (plan_mappings (fold (plan_source same ds m) xs empty_plan))"
    by (rule fold_invariant_list [where P = "\<lambda>st. ?ok (plan_mappings st)"])
      (auto simp: empty_plan_def plan_source_def plan_item_def Let_def dest: find_destinationD split: option.splits)
  then show ?thesis by (auto simp: one_to_one_plan_def Let_def)
qed

lemma same_names_mapped:
  assumes "length ss > 1" and "length ss = length ds" and "distinct (map normalizeBucketName ss)"
    and "\<forall>k \<in> set ss. normalizeBucketName k \<noteq> [] \<and> normalizeBucketName k \<in> normalizeBucketName ` set ds"
    and "k \<in> set ss"
  shows "mapped_text (reconcileBulkPasteMapping h ds [] False ss) k \<noteq> []
    \<and> normalizeBucketName (mapped_text (reconcileBulkPasteMapping h ds [] False ss) k) = normalizeBucketName k"
proof -
  have "reconcile_state ds [] False ss = fold (reconcile_same_name ds) ss ([], [])"
    by (simp add: reconcile_state_def fold_previous_Nil)
  with same_name_fold [OF assms(3,4)] assms(5) reconcile_same_choices [OF assms(1,2), of h "[]" False]
  obtain v where v: "map_of (reconcileBulkPasteMapping h ds [] False ss) k = Some v"
    "normalizeBucketName v = normalizeBucketName k"
    unfolding same_choices_def by metis
  moreover from v assms(4,5) have "trim v \<noteq> []" by (metis normalizeBucketName_Nil_iff)
  ultimately show ?thesis by (simp add: mapped_text_def)
qed

section \<open>Properties\<close>

lemma one_to_one_covers:
  assumes "paste_plan_ok c same ds p" and "plan_mode p = Some OneToOne"
  shows "(\<lambda>i. normalizeBucketName (destinationBucket i)) ` set (mappings p) = normalizeBucketName ` set ds"
proof (rule card_subset_eq)
  let ?f = "\<lambda>i. normalizeBucketName (destinationBucket i)"
  from assms have ok: "distinct (map ?f (mappings p))" "length (mappings p) = length ds" "list_all (item_ok same ds) (mappings p)"
    by (auto simp: paste_plan_ok_def)
  from ok(3) show "?f ` set (mappings p) \<subseteq> normalizeBucketName ` set ds" by (auto simp: list_all_iff item_ok_def)
  have "card (normalizeBucketName ` set ds) \<le> length ds" using card_length [of "map normalizeBucketName ds"] by simp
  moreover have "card (?f ` set (mappings p)) = length ds" using distinct_card [OF ok(1)] ok(2) by simp
  ultimately show "card (?f ` set (mappings p)) = card (normalizeBucketName ` set ds)"
    using card_mono [OF finite_imageI [OF finite_set] \<open>?f ` set (mappings p) \<subseteq> normalizeBucketName ` set ds\<close>] by simp
qed simp

definition sample_source :: "string \<Rightarrow> BulkConfigClipboardBucket" where
  "sample_source n = \<lparr>cb_name = n, cb_quota = None, cb_versioningEnabled = Some True, cb_objectLock = None,
     cb_publicAccessBlock = None, cb_lifecycleRules = Some [], cb_corsRules = None, cb_policy = None, cb_accessLogging = None\<rparr>"

definition sample_clipboard :: "string list \<Rightarrow> BulkConfigClipboard" where
  "sample_clipboard ns = \<lparr>copiedAt = ''2026-01-01'', sourceEndpointId = 11, sourceEndpointName = None,
     features = (\<lambda>k. k \<in> {FVersioning, FLifecycle}), buckets = map sample_source ns\<rparr>"

text \<open>
  C5. A plan without error pastes every copied configuration and only selected buckets receive one:
  each item goes from a copied bucket to a selected one, on the same endpoint never to the bucket it
  was copied from. A single source goes to every selected bucket in order; several sources go each
  to a bucket of its own and cover the selection.
\<close>

theorem paste_plan_sound:
  assumes "plan_error (buildBulkPastePlan clip ds m hint e) = None"
  defines "p \<equiv> buildBulkPastePlan clip ds m hint e"
  shows "\<exists>c. clip = Some c \<and> mappings p \<noteq> []
    \<and> (\<forall>i \<in> set (mappings p). sourceConfig i \<in> set (buckets c) \<and> sourceBucket i = cb_name (sourceConfig i)
        \<and> destinationBucket i \<in> set ds
        \<and> (isBulkClipboardSameEndpoint clip e \<longrightarrow>
             normalizeBucketName (destinationBucket i) \<noteq> normalizeBucketName (sourceBucket i)))
    \<and> (plan_mode p = Some OneToMany \<and> length (buckets c) = 1 \<and> map destinationBucket (mappings p) = ds
       \<or> plan_mode p = Some OneToOne \<and> map sourceConfig (mappings p) = buckets c
         \<and> distinct (map (\<lambda>i. normalizeBucketName (destinationBucket i)) (mappings p))
         \<and> (\<lambda>i. normalizeBucketName (destinationBucket i)) ` set (mappings p) = normalizeBucketName ` set ds)"
proof -
  from build_plan_ok [OF assms(1)] obtain c where c: "clip = Some c"
    and ok: "paste_plan_ok c (isBulkClipboardSameEndpoint clip e) ds p" unfolding p_def by blast
  from ok consider (many) "plan_mode p = Some OneToMany" | (one) "plan_mode p = Some OneToOne"
    by (auto simp: paste_plan_ok_def split: option.splits paste_mode.splits)
  then show ?thesis
  proof cases
    case many
    with ok have m: "mappings p \<noteq> []" "buckets c = map sourceConfig (take 1 (mappings p))"
      "\<forall>i \<in> set (mappings p). sourceConfig i = hd (buckets c)" "map destinationBucket (mappings p) = ds"
      "\<forall>i \<in> set (mappings p). item_ok (isBulkClipboardSameEndpoint clip e) ds i"
      by (simp_all add: paste_plan_ok_def list_all_iff)
    from m(1,2) have len: "length (buckets c) = 1" by (cases "mappings p") simp_all
    then have "hd (buckets c) \<in> set (buckets c)" by (cases "buckets c") simp_all
    with m(3) have "\<forall>i \<in> set (mappings p). sourceConfig i \<in> set (buckets c)" by metis
    with m(1,4,5) len many c show ?thesis unfolding item_ok_def by blast
  next
    case one
    with ok have "map sourceConfig (mappings p) = buckets c" by (simp add: paste_plan_ok_def)
    then have "sourceConfig i \<in> set (buckets c)" if "i \<in> set (mappings p)" for i
      using that by (metis image_eqI set_map)
    moreover from ok one have "mappings p \<noteq> []" "map sourceConfig (mappings p) = buckets c"
      "distinct (map (\<lambda>i. normalizeBucketName (destinationBucket i)) (mappings p))"
      "\<forall>i \<in> set (mappings p). item_ok (isBulkClipboardSameEndpoint clip e) ds i"
      by (simp_all add: paste_plan_ok_def list_all_iff)
    ultimately show ?thesis using one_to_one_covers [OF ok one] one c unfolding item_ok_def by blast
  qed
qed

theorem paste_plan_sound_witness:
  "map (\<lambda>i. (sourceBucket i, destinationBucket i)) (mappings (buildBulkPastePlan
      (Some (sample_clipboard [''a'', ''b''])) [''a'', ''B''] [(''a'', ''b''), (''b'', '' A '')] [] (Some 11)))
     = [(''a'', ''B''), (''b'', ''a'')]
   \<and> list_all (\<lambda>i. normalizeBucketName (destinationBucket i) \<noteq> normalizeBucketName (sourceBucket i)) (mappings (buildBulkPastePlan
      (Some (sample_clipboard [''a'', ''b''])) [''a'', ''B''] [(''a'', ''b''), (''b'', '' A '')] [] (Some 11)))"
proof -
  have ok: "plan_error (buildBulkPastePlan (Some (sample_clipboard [''a'', ''b''])) [''a'', ''B'']
      [(''a'', ''b''), (''b'', '' A '')] [] (Some 11)) = None" by code_simp
  have same: "isBulkClipboardSameEndpoint (Some (sample_clipboard [''a'', ''b''])) (Some 11)" by code_simp
  have "map (\<lambda>i. (sourceBucket i, destinationBucket i)) (mappings (buildBulkPastePlan
      (Some (sample_clipboard [''a'', ''b''])) [''a'', ''B''] [(''a'', ''b''), (''b'', '' A '')] [] (Some 11)))
     = [(''a'', ''B''), (''b'', ''a'')]" by code_simp
  then show ?thesis unfolding list_all_iff using paste_plan_sound [OF ok] same by blast
qed

text \<open>
  A plan is either an error with nothing to paste, or at least one item without error: the page
  can rely on the error alone.
\<close>

theorem paste_plan_error_or_items:
  "plan_error (buildBulkPastePlan clip ds m hint e) = None
     \<longleftrightarrow> mappings (buildBulkPastePlan clip ds m hint e) \<noteq> []"
  using build_plan_ok [of clip ds m hint e] build_plan_error_empty [of clip ds m hint e]
  by (cases "plan_error (buildBulkPastePlan clip ds m hint e)") (auto simp: paste_plan_ok_def)

lemma build_one_to_one:
  assumes "e \<noteq> 0" and "list_ex (features c) BULK_COPY_FEATURE_KEYS" and "length (buckets c) > 1"
    and "length (buckets c) = length ds"
  shows "buildBulkPastePlan (Some c) ds m hint (Some e)
    = one_to_one_plan (isBulkClipboardSameEndpoint (Some c) (Some e)) ds m (buckets c)"
  using assms by (auto simp: buildBulkPastePlan_def Let_def)

text \<open>
  A reconciled mapping is never rejected: whatever the previous mapping was, the plan of the
  reconciled one fails only because sources are without destination, and says how many; there is no
  unknown, repeated or forbidden destination left.
\<close>

theorem reconciled_mapping_only_incomplete:
  assumes "e \<noteq> 0" and "list_ex (features c) BULK_COPY_FEATURE_KEYS" and "length (buckets c) > 1"
    and "length (buckets c) = length ds" and "distinct (map cb_name (buckets c))"
  shows "let m = reconcileBulkPasteMapping h ds prev (isBulkClipboardSameEndpoint (Some c) (Some e)) (map cb_name (buckets c));
             missing = filter (\<lambda>k. mapped_text m k = []) (map cb_name (buckets c)) in
    plan_error (buildBulkPastePlan (Some c) ds m hint (Some e))
      = (if missing = [] then None else Some (''Complete the mapping for all source buckets (''
           @ nat_string (length missing) @ '' missing).''))"
  using reconciled_plan [OF assms(3-5)] by (simp add: build_one_to_one [OF assms(1-4)] Let_def)

theorem reconciled_mapping_only_incomplete_witness:
  "plan_error (buildBulkPastePlan (Some (sample_clipboard [''a'', ''b''])) [''a'', ''B'']
      (reconcileBulkPasteMapping plain_host [''a'', ''B''] [(''a'', ''a''), (''b'', ''A'')] True [''a'', ''b'']) [] (Some 11))
     = Some ''Complete the mapping for all source buckets (1 missing).''"
proof -
  let ?c = "sample_clipboard [''a'', ''b'']" and ?ds = "[''a'', ''B'']"
  have h: "list_ex (features ?c) BULK_COPY_FEATURE_KEYS" "1 < length (buckets ?c)" "length (buckets ?c) = length ?ds"
    "distinct (map cb_name (buckets ?c))" "map cb_name (buckets ?c) = [''a'', ''b'']"
    "isBulkClipboardSameEndpoint (Some ?c) (Some 11)" by code_simp+
  have miss: "filter (\<lambda>k. mapped_text (reconcileBulkPasteMapping plain_host ?ds [(''a'', ''a''), (''b'', ''A'')] True
      [''a'', ''b'']) k = []) [''a'', ''b''] = [''a'']" by code_simp
  have "nat_string 1 = ''1''" by code_simp
  then show ?thesis
    using reconciled_mapping_only_incomplete [OF _ h(1-4), of 11 plain_host "[(''a'', ''a''), (''b'', ''A'')]" "[]"]
    unfolding h(5) Let_def eqTrueI [OF h(6)] miss by simp
qed

text \<open>
  Pasting onto the buckets of the same names of another endpoint needs no choice: with an empty
  mapping, reconciliation alone yields a plan without error that sends every configuration to the
  bucket of its own name.
\<close>

theorem same_names_paste_ready:
  assumes "e \<noteq> 0" and "list_ex (features c) BULK_COPY_FEATURE_KEYS" and "length (buckets c) > 1"
    and "length (buckets c) = length ds" and "sourceEndpointId c \<noteq> e"
    and "distinct (map normalizeBucketName (map cb_name (buckets c)))"
    and "\<forall>x \<in> set (buckets c). normalizeBucketName (cb_name x) \<noteq> []
        \<and> normalizeBucketName (cb_name x) \<in> normalizeBucketName ` set ds"
  shows "let p = buildBulkPastePlan (Some c) ds (reconcileBulkPasteMapping h ds [] False (map cb_name (buckets c))) hint (Some e) in
    plan_error p = None \<and> map sourceConfig (mappings p) = buckets c
    \<and> (\<forall>i \<in> set (mappings p). normalizeBucketName (destinationBucket i) = normalizeBucketName (sourceBucket i))"
proof -
  let ?ss = "map cb_name (buckets c)"
  let ?m = "reconcileBulkPasteMapping h ds [] False ?ss"
  have same: "isBulkClipboardSameEndpoint (Some c) (Some e) = False" using assms(5) by (simp add: isBulkClipboardSameEndpoint_def)
  note plan = build_one_to_one [OF assms(1-4), unfolded same]
  have "distinct ?ss" using assms(6) by (metis distinct_map)
  have mapped: "mapped_text ?m k \<noteq> [] \<and> normalizeBucketName (mapped_text ?m k) = normalizeBucketName k" if "k \<in> set ?ss" for k
    using assms(3,4,7) by (intro same_names_mapped [OF _ _ assms(6) _ that]) auto
  then have "filter (\<lambda>k. mapped_text ?m k = []) ?ss = []" by (auto simp: filter_empty_conv)
  then have none: "plan_error (one_to_one_plan False ds ?m (buckets c)) = None"
    using reconciled_plan [OF assms(3,4) \<open>distinct ?ss\<close>, where h = h and prev = "[]" and same = False] by simp
  have "paste_plan_ok c False ds (one_to_one_plan False ds ?m (buckets c))"
    using assms(3,4) by (intro one_to_one_plan_ok [OF none]) auto
  moreover have "plan_mode (one_to_one_plan False ds ?m (buckets c)) = Some OneToOne"
    by (auto simp: one_to_one_plan_def Let_def)
  ultimately have items: "map sourceConfig (mappings (one_to_one_plan False ds ?m (buckets c))) = buckets c"
    "\<forall>i \<in> set (mappings (one_to_one_plan False ds ?m (buckets c))). sourceBucket i = cb_name (sourceConfig i)"
    by (simp_all add: paste_plan_ok_def list_all_iff item_ok_def)
  have "sourceBucket i \<in> set ?ss" if "i \<in> set (mappings (one_to_one_plan False ds ?m (buckets c)))" for i
    using that items by (metis image_eqI set_map)
  with mapped plan_follows_mapping [of ?m False ds "buckets c"] none items(1) show ?thesis
    by (simp add: plan Let_def list_all_iff)
qed

theorem same_names_paste_ready_witness:
  "map (\<lambda>i. (sourceBucket i, destinationBucket i)) (mappings (buildBulkPastePlan (Some (sample_clipboard [''a'', ''b''])) [''B'', ''a'']
      (reconcileBulkPasteMapping plain_host [''B'', ''a''] [] False [''a'', ''b'']) [] (Some 12))) = [(''a'', ''a''), (''b'', ''B'')]
   \<and> plan_error (buildBulkPastePlan (Some (sample_clipboard [''a'', ''b''])) [''B'', ''a'']
      (reconcileBulkPasteMapping plain_host [''B'', ''a''] [] False [''a'', ''b'']) [] (Some 12)) = None"
proof -
  let ?c = "sample_clipboard [''a'', ''b'']" and ?ds = "[''B'', ''a'']"
  have h: "list_ex (features ?c) BULK_COPY_FEATURE_KEYS" "1 < length (buckets ?c)" "length (buckets ?c) = length ?ds"
    "sourceEndpointId ?c \<noteq> 12" "distinct (map normalizeBucketName (map cb_name (buckets ?c)))"
    "\<forall>x \<in> set (buckets ?c). normalizeBucketName (cb_name x) \<noteq> [] \<and> normalizeBucketName (cb_name x) \<in> normalizeBucketName ` set ?ds"
    "map cb_name (buckets ?c) = [''a'', ''b'']" by code_simp+
  have "map (\<lambda>i. (sourceBucket i, destinationBucket i)) (mappings (buildBulkPastePlan (Some ?c) ?ds
      (reconcileBulkPasteMapping plain_host ?ds [] False [''a'', ''b'']) [] (Some 12))) = [(''a'', ''a''), (''b'', ''B'')]"
    by code_simp
  then show ?thesis
    using same_names_paste_ready [OF _ h(1-6), of plain_host "[]"] unfolding h(7) Let_def by simp
qed

end
