(* ===== verification/Paste_Properties.thy ===== *)
theory Paste_Properties
  imports Bulk_Properties Paste_Plan
begin

text \<open>
  The properties of copy and paste: a copied configuration that is pasted is reached, pasting again
  changes nothing, the preview announces what a paste does, a plan gives every destination its own
  configuration, and the quota that is sent is the copied one. Those about the state of the server
  are stated for the demo server, which meets \<open>quota_store\<close>.
\<close>

section \<open>Sample data\<close>

definition sample_fs :: BulkCopyFeatureSelection where
  "sample_fs = (\<lambda>k. k \<noteq> FQuota)"

definition sample_item :: BulkPastePlanItem where
  "sample_item = \<lparr>sourceBucket = ''data'', destinationBucket = ''logs'',
     sourceConfig = (case copy_bucket sample_api sample_fetch False sample_fs ''data'' sample_state of
        (Inr x, _) \<Rightarrow> x | _ \<Rightarrow> sample_source ''data'')\<rparr>"

definition sample_clip :: BulkConfigClipboard where
  "sample_clip = \<lparr>copiedAt = ''2026-01-01'', sourceEndpointId = 11, sourceEndpointName = None,
     features = sample_fs, buckets = [sourceConfig sample_item]\<rparr>"

lemma sample_fetch_reads: "sample_fetch b s = (Inr \<lparr>maxSizeBytes = None, maxObjects = None\<rparr>, s)"
  by (simp add: sample_fetch_def)

lemma sample_views:
  obtains src dst where "demo_view 11 sample_state (bucket_of_ref ''data'') = Some src"
    "demo_view 11 sample_state (bucket_of_ref ''logs'') = Some dst"
    "bv_versioning src = Some True" "bv_versioning dst = Some False"
proof -
  have "map_option bv_versioning (demo_view 11 sample_state (bucket_of_ref ''data'')) = Some (Some True)"
    "map_option bv_versioning (demo_view 11 sample_state (bucket_of_ref ''logs'')) = Some (Some False)" by code_simp+
  then show ?thesis using that by auto
qed

section \<open>Copy and paste\<close>

lemma pasted_view_features:
  assumes "\<And>k. k \<noteq> FQuota \<Longrightarrow> fs k = fs' k"
  shows "pasted_view h fs src v = pasted_view h fs' src v"
  using assms by (simp add: pasted_view_def paste_steps_def step_versioning_def step_object_lock_def
      step_public_access_block_def step_lifecycle_def step_cors_def step_policy_def step_access_logging_def
      cong: option.case_cong)




text \<open>
  C27. The preview of a paste leaves the server alone and announces every change: it shows a change
  exactly when the paste makes one, or when logging is off on both sides and only its prefix differs.
\<close>

theorem paste_preview_announces:
  assumes "demo_view e s (bucket_of_ref (destinationBucket item)) = Some v"
    and "fetch (destinationBucket item) s = (Inr q, s)"
  shows "\<exists>i ch t. buildBucketConfigPastePreview h (CEPH_ADMIN_BUCKET_OPS_API (demo_http h other) e) fetch so (Some c) item s = (Inr i, s)
    \<and> paste_item h (CEPH_ADMIN_BUCKET_OPS_API (demo_http h other) e) fetch so (Some c) item s = (Inr ch, t)
    \<and> changed i = (ch \<or> stale_logging (features c) (sourceConfig item) v) \<and> (ch \<or> t = s)"
proof -
  from demo.preview_shows [where fetch = fetch, OF assms, of h h other so c] demo.paste_refines [where fetch = fetch, OF assms, of h h other so c]
  show ?thesis by fastforce
qed

text \<open>The preview and the paste of the sample differ from the current state.\<close>

lemma sample_paste: "fst (paste_item plain_host sample_api sample_fetch False (Some sample_clip) sample_item sample_state) = Inr True"
  by code_simp


theorem paste_preview_announces_witness:
  "map_sum (\<lambda>_. ()) changed (fst (buildBucketConfigPastePreview plain_host sample_api sample_fetch False (Some sample_clip) sample_item sample_state))
     = Inr True"
proof -
  obtain src dst where v: "demo_view 11 sample_state (bucket_of_ref (destinationBucket sample_item)) = Some dst"
    by (rule sample_views) (simp add: sample_item_def)
  from paste_preview_announces [where fetch = sample_fetch, OF v sample_fetch_reads, of plain_host sample_other False sample_clip]
    sample_paste show ?thesis by (auto simp: sample_api_def)
qed

lemma set_part_off: "set_part False part same upd = None"
  by (simp add: set_part_def split: option.splits)

text \<open>
  The preview of a paste announces a change that is never made: when logging is off in the copied
  configuration and on the bucket, which has no target, and only the stored prefixes differ, the
  preview shows a change while the paste reports none and writes nothing.
\<close>

theorem paste_preview_stale_prefix:
  assumes "demo_view e s (bucket_of_ref (destinationBucket item)) = Some v"
    and "fetch (destinationBucket item) s = (Inr q, s)" and "stale_logging (features c) (sourceConfig item) v"
    and "\<And>k. k \<noteq> FAccessLogging \<Longrightarrow> \<not> features c k"
  shows "(\<exists>i. buildBucketConfigPastePreview h (CEPH_ADMIN_BUCKET_OPS_API (demo_http h other) e) fetch so (Some c) item s = (Inr i, s)
      \<and> changed i)
    \<and> paste_item h (CEPH_ADMIN_BUCKET_OPS_API (demo_http h other) e) fetch so (Some c) item s = (Inr False, s)"
proof -
  have "step_access_logging (features c) (sourceConfig item) v = None"
    using assms(3) by (auto simp: stale_logging_def step_access_logging_def set_part_def split: option.splits)
  then have "\<not> fst (run_steps (paste_steps h (features c) (sourceConfig item)) v)"
    unfolding paste_changes using assms(4) by (simp add: paste_steps_def step_versioning_def step_object_lock_def
        step_public_access_block_def step_lifecycle_def step_cors_def step_policy_def set_part_off)
  moreover have "\<not> quota_differs so (features c) (sourceConfig item) q"
    using assms(4) by (simp add: quota_differs_def split: option.splits)
  ultimately show ?thesis
    using demo.preview_shows [where fetch = fetch, OF assms(1,2), of h h other so c]
      demo.paste_refines [where fetch = fetch, OF assms(1,2), of h h other so c] assms(3) by auto
qed

definition sample_prefix_state :: demo_state where
  "sample_prefix_state = map (\<lambda>b. b\<lparr>db_config := AList.update ''logging'' (JObj [(''enabled'', JBool False),
     (''target_bucket'', JNull), (''target_prefix'', JStr ''old/'')]) (db_config b)\<rparr>) sample_state"

definition sample_logging_item :: BulkPastePlanItem where
  "sample_logging_item = \<lparr>sourceBucket = ''data'', destinationBucket = ''logs'',
     sourceConfig = (sample_source ''data'')\<lparr>cb_accessLogging := Some no_logging\<rparr>\<rparr>"

theorem paste_preview_stale_prefix_witness:
  "paste_item plain_host sample_api sample_fetch False (Some (sample_clip\<lparr>features := (\<lambda>k. k = FAccessLogging)\<rparr>))
      sample_logging_item sample_prefix_state = (Inr False, sample_prefix_state)"
proof -
  let ?c = "sample_clip\<lparr>features := (\<lambda>k. k = FAccessLogging)\<rparr>"
  have "map_option bv_logging (demo_view 11 sample_prefix_state (bucket_of_ref (destinationBucket sample_logging_item)))
      = Some \<lparr>al_enabled = False, target_bucket = None, target_prefix = Some ''old/''\<rparr>" by code_simp
  then obtain v where v: "demo_view 11 sample_prefix_state (bucket_of_ref (destinationBucket sample_logging_item)) = Some v"
    and l: "bv_logging v = \<lparr>al_enabled = False, target_bucket = None, target_prefix = Some ''old/''\<rparr>" by auto
  have stale: "stale_logging (features ?c) (sourceConfig sample_logging_item) v"
    by (simp add: stale_logging_def sample_logging_item_def l no_logging_def logging_on_def truthy_text_def)
  have off: "\<not> features ?c k" if "k \<noteq> FAccessLogging" for k using that by simp
  from paste_preview_stale_prefix [where fetch = sample_fetch and c = ?c, OF v sample_fetch_reads stale off]
  show ?thesis by (simp add: sample_api_def)
qed

section \<open>A plan\<close>

lemma plan_destinations_distinct:
  assumes "paste_plan_ok c same ds p" and "distinct (map f ds)"
  shows "distinct (map (\<lambda>i. f (destinationBucket i)) (mappings p)) \<and> destinationBucket ` set (mappings p) \<subseteq> set ds"
proof -
  have sub: "destinationBucket ` set (mappings p) \<subseteq> set ds"
    using assms(1) by (auto simp: paste_plan_ok_def list_all_iff item_ok_def)
  from assms(1) consider (many) "map destinationBucket (mappings p) = ds"
    | (one) "distinct (map (\<lambda>i. normalizeBucketName (destinationBucket i)) (mappings p))"
    by (auto simp: paste_plan_ok_def split: option.splits paste_mode.splits)
  then have "distinct (map destinationBucket (mappings p))"
  proof cases
    case many
    with assms(2) show ?thesis by (simp add: distinct_map)
  next
    case one
    then show ?thesis by (auto simp: distinct_map inj_on_def)
  qed
  moreover have "inj_on f (destinationBucket ` set (mappings p))"
    using assms(2) sub by (auto simp: distinct_map intro: inj_on_subset)
  ultimately show ?thesis using sub by (auto simp: distinct_map comp_inj_on [unfolded comp_def])
qed



section \<open>The quota and the copy\<close>

text \<open>
  A pasted quota is stored as it was copied: the request that the paste sends makes the demo server
  keep exactly the copied limits.
\<close>

theorem pasted_quota_stored:
  "demo_resource h PUT ''quota'' (as_rec (quota_json (pasted_quota q))) b
     = Some (Inr (NoContent, b\<lparr>db_quota_max_size_bytes := map_option Fin (maxSizeBytes q),
         db_quota_max_objects := map_option Fin (maxObjects q)\<rparr>))"
  by (cases "maxSizeBytes q"; cases "maxObjects q")
    (simp_all add: demo_resource_def quota_json_def pasted_quota_def as_rec_def json_of_number_def nullable_number_def
      js_Number_value_def times_GiB_def bytesToGiB_def Let_def)

lemma settled_values_all:
  "list_all (\<lambda>r. \<not> is_rejected r) rs \<Longrightarrow> map Fulfilled (settled_values rs) = rs"
  by (induction rs) (auto simp: settled_values_def List.map_filter_def is_rejected_def split: settled.splits)

lemma selected_features_ex:
  "selected_features so fs \<noteq> [] \<Longrightarrow> list_ex (fs(FQuota := \<not> so \<and> fs FQuota)) BULK_COPY_FEATURE_KEYS"
  by (auto simp: selected_features_def filter_empty_conv list_ex_iff) metis

text \<open>
  C36. A copy is complete or refused: from the results of a pool that notified each of them, the
  clipboard holds exactly the copied configurations, at least one, with some feature selected, and
  never a quota in the storage operations mode; otherwise nothing was selected, there was no
  bucket, or a bucket failed.
\<close>

theorem copy_complete_or_refused:
  assumes "mset notices = mset res"
  shows "case copyBucketOpsConfigs h copied_at fs so ep epName res notices of
      Inl _ \<Rightarrow> selected_features so fs = [] \<or> res = [] \<or> list_ex is_rejected res
    | Inr (c, _) \<Rightarrow> mset (map Fulfilled (buckets c)) = mset res \<and> buckets c \<noteq> []
        \<and> list_ex (features c) BULK_COPY_FEATURE_KEYS \<and> (so \<longrightarrow> \<not> features c FQuota)"
proof -
  let ?sorted = "js_sort (\<lambda>a b. localeCompare h (cb_name a) (cb_name b)) (settled_values res)"
  have failed: "filter is_rejected notices = [] \<longleftrightarrow> \<not> list_ex is_rejected res"
    using mset_eq_setD [OF assms] by (auto simp: filter_empty_conv list_ex_iff)
  have all: "map Fulfilled (settled_values res) = res" if "\<not> list_ex is_rejected res"
    using that by (intro settled_values_all) (auto simp: list_ex_iff list_all_iff)
  have len: "?sorted = [] \<longleftrightarrow> settled_values res = []" by (metis length_0_conv length_js_sort)
  have sorted: "mset (map Fulfilled ?sorted) = mset res" if "\<not> list_ex is_rejected res"
    using arg_cong [OF all [OF that], of mset] by simp
  show ?thesis
  proof (cases "selected_features so fs = [] \<or> list_ex is_rejected res \<or> settled_values res = []")
    case True
    with failed len all show ?thesis by (auto simp: copyBucketOpsConfigs_def Let_def)
  next
    case False
    with failed len have "\<exists>s. copyBucketOpsConfigs h copied_at fs so ep epName res notices
        = Inr (\<lparr>copiedAt = copied_at, sourceEndpointId = ep, sourceEndpointName = epName,
                features = fs(FQuota := \<not> so \<and> fs FQuota), buckets = ?sorted\<rparr>, s)"
      by (simp add: copyBucketOpsConfigs_def Let_def)
    with False sorted len selected_features_ex [of so fs] show ?thesis by (auto simp del: mset_map fun_upd_apply) simp
  qed
qed

theorem copy_complete_or_refused_witness:
  "\<exists>c s. copyBucketOpsConfigs plain_host ''now'' sample_fs False 11 None
       [Fulfilled (sample_source ''b''), Fulfilled (sample_source ''a'')]
       [Fulfilled (sample_source ''a''), Fulfilled (sample_source ''b'')] = Inr (c, s)
     \<and> mset (map Fulfilled (buckets c) :: (BulkConfigClipboardBucket, js_error) settled list)
        = {#Fulfilled (sample_source ''b''), Fulfilled (sample_source ''a'')#}"
proof -
  let ?r = "copyBucketOpsConfigs plain_host ''now'' sample_fs False 11 None
       [Fulfilled (sample_source ''b''), Fulfilled (sample_source ''a'')]
       [Fulfilled (sample_source ''a''), Fulfilled (sample_source ''b'')]"
  have "\<not> isl ?r" by code_simp
  then obtain c s where r: "?r = Inr (c, s)" by (metis isl_def old.prod.exhaust sum.exhaust)
  with copy_complete_or_refused [of "[Fulfilled (sample_source ''a''), Fulfilled (sample_source ''b'')]"
      "[Fulfilled (sample_source ''b''), Fulfilled (sample_source ''a'')]", where h = plain_host and copied_at = "''now''"
      and fs = sample_fs and so = False and ep = 11 and epName = None]
  show ?thesis by (auto simp: add_mset_commute)
qed

end
