(* ===== verification/Clipboard.thy ===== *)
theory Clipboard
  imports Paste_Preview Json_Roundtrip
begin

text \<open>
  The clipboard of copied configurations in the session storage: \<open>loadBulkConfigClipboard\<close> and
  \<open>persistBulkConfigClipboard\<close> of \<open>frontend/src/features/shared/bucketBulkOperationsModel.ts\<close> over the
  storage helpers of \<open>frontend/src/utils/clientStorage.ts\<close>. A browser storage may be missing, refuse
  access or refuse a value. The calendar is a parameter: \<open>is_date\<close> says that \<open>Date.parse\<close> of a text is a
  number, \<open>now\<close> is the current time as text. A quota limit that is not a number is read as absent.
\<close>

section \<open>Storage\<close>

record web_storage =
  ws_items :: "string \<rightharpoonup> string"
  ws_denied :: bool
  ws_refuses :: "string \<Rightarrow> string \<Rightarrow> bool"

definition readStorageKey :: "web_storage option \<Rightarrow> string \<Rightarrow> string option" where
  "readStorageKey st key = (case st of None \<Rightarrow> None | Some w \<Rightarrow> if ws_denied w then None else ws_items w key)"

definition writeStorageKey :: "web_storage option \<Rightarrow> string \<Rightarrow> string \<Rightarrow> web_storage option" where
  "writeStorageKey st key value = map_option (\<lambda>w.
     if ws_denied w \<or> ws_refuses w key value then w else w\<lparr>ws_items := (ws_items w)(key \<mapsto> value)\<rparr>) st"

definition removeStorageKey :: "web_storage option \<Rightarrow> string \<Rightarrow> web_storage option" where
  "removeStorageKey st key = map_option (\<lambda>w. if ws_denied w then w else w\<lparr>ws_items := (ws_items w)(key := None)\<rparr>) st"

definition parseStoredJson :: "string option \<Rightarrow> json option" where
  "parseStoredJson raw = (case raw of None \<Rightarrow> None | Some t \<Rightarrow> if t = [] then None else json_parse t)"

definition readSessionJsonFromKey :: "web_storage option \<Rightarrow> string \<Rightarrow> json option" where
  "readSessionJsonFromKey st key = parseStoredJson (readStorageKey st key)"

definition writeSessionJsonToKey :: "js_host \<Rightarrow> web_storage option \<Rightarrow> string \<Rightarrow> json \<Rightarrow> web_storage option" where
  "writeSessionJsonToKey h st key value = writeStorageKey st key (stringify h value)"

section \<open>The stored value\<close>

definition json_or_null :: "('a \<Rightarrow> json) \<Rightarrow> 'a option \<Rightarrow> json" where
  "json_or_null f v = (case v of None \<Rightarrow> JNull | Some x \<Rightarrow> f x)"

definition quota_snapshot_json :: "BulkQuotaSnapshot \<Rightarrow> json" where
  "quota_snapshot_json q = JObj [(''maxSizeBytes'', json_of_number (maxSizeBytes q)), (''maxObjects'', json_of_number (maxObjects q))]"

definition clipboard_bucket_json :: "BulkConfigClipboardBucket \<Rightarrow> json" where
  "clipboard_bucket_json b = JObj
     [(''name'', JStr (cb_name b)), (''quota'', json_or_null quota_snapshot_json (cb_quota b)),
      (''versioningEnabled'', json_or_null JBool (cb_versioningEnabled b)),
      (''objectLock'', json_or_null object_lock_json (cb_objectLock b)),
      (''publicAccessBlock'', json_or_null public_access_block_json (cb_publicAccessBlock b)),
      (''lifecycleRules'', json_or_null rules_value (cb_lifecycleRules b)),
      (''corsRules'', json_or_null rules_value (cb_corsRules b)),
      (''policy'', json_or_null JObj (cb_policy b)),
      (''accessLogging'', json_or_null logging_snapshot_json (cb_accessLogging b))]"

definition feature_text :: "BulkCopyFeatureKey \<Rightarrow> string" where
  "feature_text k = (case k of
     FQuota \<Rightarrow> ''quota'' | FVersioning \<Rightarrow> ''versioning'' | FObjectLock \<Rightarrow> ''object_lock''
   | FPublicAccessBlock \<Rightarrow> ''public_access_block'' | FLifecycle \<Rightarrow> ''lifecycle'' | FCors \<Rightarrow> ''cors''
   | FPolicy \<Rightarrow> ''policy'' | FAccessLogging \<Rightarrow> ''access_logging'')"

definition features_json :: "BulkCopyFeatureSelection \<Rightarrow> json" where
  "features_json fs = JObj (map (\<lambda>k. (feature_text k, JBool (fs k))) BULK_COPY_FEATURE_KEYS)"

definition clipboard_json :: "BulkConfigClipboard \<Rightarrow> json" where
  "clipboard_json c = JObj
     [(''version'', JNum (Fin 1)), (''copiedAt'', JStr (copiedAt c)), (''sourceEndpointId'', JNum (Fin (sourceEndpointId c))),
      (''sourceEndpointName'', json_of_string (sourceEndpointName c)), (''features'', features_json (features c)),
      (''buckets'', JArr (map clipboard_bucket_json (buckets c)))]"

section \<open>Loading and storing\<close>

definition parseRuleList :: "json option \<Rightarrow> jrec list option" where
  "parseRuleList value = (case value of Some (JArr vs) \<Rightarrow> Some (map as_rec (filter isJsonObject vs)) | _ \<Rightarrow> None)"

text \<open>\<open>raw && typeof raw === "object"\<close>.\<close>

definition object_like :: "json option \<Rightarrow> bool" where
  "object_like v = (case v of Some (JObj _) \<Rightarrow> True | Some (JArr _) \<Rightarrow> True | _ \<Rightarrow> False)"

definition if_object :: "json option \<Rightarrow> (json option \<Rightarrow> 'a) \<Rightarrow> 'a option" where
  "if_object v f = (if object_like v then Some (f v) else None)"

definition load_bucket :: "json \<Rightarrow> BulkConfigClipboardBucket option" where
  "load_bucket entry =
     (case jmember (Some entry) ''name'' of
        Some (JStr rawName) \<Rightarrow>
          if trim rawName = [] then None
          else (let get = jmember (Some entry) in Some
            \<lparr>cb_name = trim rawName,
             cb_quota = if_object (get ''quota'') (\<lambda>q.
               \<lparr>maxSizeBytes = normalizeQuotaLimit (finite_number (jmember q ''maxSizeBytes'')),
                maxObjects = normalizeQuotaLimit (finite_number (jmember q ''maxObjects''))\<rparr>),
             cb_versioningEnabled = (case get ''versioningEnabled'' of Some (JBool b) \<Rightarrow> Some b | _ \<Rightarrow> None),
             cb_objectLock = if_object (get ''objectLock'') normalizeObjectLockSnapshot,
             cb_publicAccessBlock = if_object (get ''publicAccessBlock'') normalizePublicAccessBlockState,
             cb_lifecycleRules = parseRuleList (get ''lifecycleRules''),
             cb_corsRules = parseRuleList (get ''corsRules''),
             cb_policy = (case get ''policy'' of Some (JObj p) \<Rightarrow> Some p | _ \<Rightarrow> None),
             cb_accessLogging = if_object (get ''accessLogging'') normalizeAccessLoggingSnapshot\<rparr>)
      | _ \<Rightarrow> None)"

definition load_by_name :: "json list \<Rightarrow> (string \<times> BulkConfigClipboardBucket) list" where
  "load_by_name entries = fold (\<lambda>entry m. case load_bucket entry of
     None \<Rightarrow> m | Some b \<Rightarrow> AList.update (toLowerCase (cb_name b)) b m) entries []"

definition by_name :: "js_host \<Rightarrow> BulkConfigClipboardBucket \<Rightarrow> BulkConfigClipboardBucket \<Rightarrow> int" where
  "by_name h a b = localeCompare h (cb_name a) (cb_name b)"

definition load_clipboard :: "js_host \<Rightarrow> (string \<Rightarrow> bool) \<Rightarrow> string \<Rightarrow> json option \<Rightarrow> BulkConfigClipboard option" where
  "load_clipboard h is_date now parsed =
     (if jmember parsed ''version'' \<noteq> Some (JNum (Fin 1)) then None
      else case map_option (js_Number_value h) (jmember parsed ''sourceEndpointId'') of
        Some (Fin endpointId) \<Rightarrow>
          (let loaded = js_sort (by_name h) (map snd (load_by_name
                 (case jmember parsed ''buckets'' of Some (JArr vs) \<Rightarrow> vs | _ \<Rightarrow> []))) in
           if endpointId \<le> 0 \<or> loaded = [] then None
           else Some \<lparr>copiedAt = (case jmember parsed ''copiedAt'' of
                         Some (JStr t) \<Rightarrow> if is_date t then t else now | _ \<Rightarrow> now),
                      sourceEndpointId = endpointId,
                      sourceEndpointName = trimmed_text (jmember parsed ''sourceEndpointName''),
                      features = (\<lambda>k. jmember (jmember parsed ''features'') (feature_text k) = Some (JBool True)),
                      buckets = loaded\<rparr>)
      | _ \<Rightarrow> None)"

definition loadBulkConfigClipboard ::
  "js_host \<Rightarrow> (string \<Rightarrow> bool) \<Rightarrow> string \<Rightarrow> web_storage option \<Rightarrow> string \<Rightarrow> BulkConfigClipboard option" where
  "loadBulkConfigClipboard h is_date now st storageKey =
     load_clipboard h is_date now (readSessionJsonFromKey st storageKey)"

definition persistBulkConfigClipboard ::
  "js_host \<Rightarrow> web_storage option \<Rightarrow> string \<Rightarrow> BulkConfigClipboard option \<Rightarrow> web_storage option" where
  "persistBulkConfigClipboard h st storageKey value = (case value of
     None \<Rightarrow> removeStorageKey st storageKey
   | Some c \<Rightarrow> writeSessionJsonToKey h st storageKey (clipboard_json c))"

section \<open>What is loaded\<close>

definition limits_ok :: "BulkQuotaSnapshot \<Rightarrow> bool" where
  "limits_ok q \<longleftrightarrow> normalizeQuotaLimit (maxSizeBytes q) = maxSizeBytes q \<and> normalizeQuotaLimit (maxObjects q) = maxObjects q"

definition logging_ok :: "BulkAccessLoggingSnapshot \<Rightarrow> bool" where
  "logging_ok l \<longleftrightarrow> normalizeAccessLoggingSnapshot (Some (logging_snapshot_json l)) = l"

definition bucket_ok :: "BulkConfigClipboardBucket \<Rightarrow> bool" where
  "bucket_ok b \<longleftrightarrow> cb_name b \<noteq> [] \<and> trim (cb_name b) = cb_name b \<and> pred_option limits_ok (cb_quota b)
     \<and> pred_option (\<lambda>l. new_object_lock l = l) (cb_objectLock b) \<and> pred_option logging_ok (cb_accessLogging b)"

definition clipboard_ok :: "js_host \<Rightarrow> BulkConfigClipboard \<Rightarrow> bool" where
  "clipboard_ok h c \<longleftrightarrow> sourceEndpointId c > 0 \<and> buckets c \<noteq> [] \<and> list_all bucket_ok (buckets c)
     \<and> distinct (map (\<lambda>b. toLowerCase (cb_name b)) (buckets c))
     \<and> sorted_wrt (\<lambda>a b. by_name h a b \<le> 0) (buckets c)
     \<and> (case sourceEndpointName c of None \<Rightarrow> True | Some n \<Rightarrow> n \<noteq> [] \<and> trim n = n)"

lemma logging_ok_normalized: "logging_ok (normalizeAccessLoggingSnapshot j)"
  by (simp add: logging_ok_def logging_snapshot_json_def normalizeAccessLoggingSnapshot_def jmember_def trimmed_text_again Let_def)

lemma limit_again: "normalizeQuotaLimit (normalizeQuotaLimit v) = normalizeQuotaLimit v"
  by (simp add: normalizeQuotaLimit_def split: option.splits)

lemma load_bucket_parts:
  assumes "load_bucket entry = Some b"
  shows "\<exists>n. cb_name b = trim n \<and> trim n \<noteq> []"
    and "\<exists>j. cb_quota b = if_object j (\<lambda>q. \<lparr>maxSizeBytes = normalizeQuotaLimit (finite_number (jmember q ''maxSizeBytes'')),
           maxObjects = normalizeQuotaLimit (finite_number (jmember q ''maxObjects''))\<rparr>)"
    and "\<exists>j. cb_objectLock b = if_object j normalizeObjectLockSnapshot"
    and "\<exists>j. cb_accessLogging b = if_object j normalizeAccessLoggingSnapshot"
proof -
  from assms obtain n where n: "jmember (Some entry) ''name'' = Some (JStr n)" "trim n \<noteq> []"
    by (auto simp: load_bucket_def split: option.splits json.splits if_splits)
  note b = assms [unfolded load_bucket_def n(1) option.case json.case if_not_P [OF n(2)] Let_def option.inject, symmetric]
  show "\<exists>n. cb_name b = trim n \<and> trim n \<noteq> []" using n(2) by (auto simp: b)
  show "\<exists>j. cb_quota b = if_object j (\<lambda>q. \<lparr>maxSizeBytes = normalizeQuotaLimit (finite_number (jmember q ''maxSizeBytes'')),
           maxObjects = normalizeQuotaLimit (finite_number (jmember q ''maxObjects''))\<rparr>)"
    and "\<exists>j. cb_objectLock b = if_object j normalizeObjectLockSnapshot"
    and "\<exists>j. cb_accessLogging b = if_object j normalizeAccessLoggingSnapshot"
    unfolding b by (simp_all, blast+)
qed

lemma load_bucket_ok:
  assumes "load_bucket entry = Some b"
  shows "bucket_ok b"
  using load_bucket_parts [OF assms]
  by (auto simp: bucket_ok_def if_object_def limits_ok_def limit_again new_object_lock_again logging_ok_normalized)

lemma set_update_subset: "set (AList.update k v m) \<subseteq> insert (k, v) (set m)"
  by (induction m) auto

lemma load_by_name_ok:
  "distinct (map fst (load_by_name es))
   \<and> (\<forall>(k, b) \<in> set (load_by_name es). k = toLowerCase (cb_name b) \<and> bucket_ok b)"
proof (induction es rule: rev_induct)
  case (snoc e es)
  show ?case
  proof (cases "load_bucket e")
    case None
    with snoc show ?thesis by (simp add: load_by_name_def)
  next
    case (Some b)
    let ?m = "load_by_name es"
    have "set (AList.update (toLowerCase (cb_name b)) b ?m) \<subseteq> insert (toLowerCase (cb_name b), b) (set ?m)"
      by (rule set_update_subset)
    with snoc Some load_bucket_ok [OF Some] show ?thesis
      by (auto simp: load_by_name_def distinct_update)
  qed
qed (simp add: load_by_name_def)

lemma load_clipboard_ok:
  assumes "load_clipboard h is_date now parsed = Some c" and "collation_ok h"
  shows "clipboard_ok h c"
proof -
  obtain es where c: "buckets c = js_sort (by_name h) (map snd (load_by_name es))" "buckets c \<noteq> []" "sourceEndpointId c > 0"
    "sourceEndpointName c = trimmed_text (jmember parsed ''sourceEndpointName'')"
    using assms(1) by (auto simp: load_clipboard_def Let_def split: if_splits option.splits js_number.splits)
  have tot: "total_cmp (by_name h)" using assms(2) unfolding total_cmp_def by_name_def collation_ok_def by blast
  note ok = load_by_name_ok [of es]
  from ok have keys: "map (\<lambda>b. toLowerCase (cb_name b)) (map snd (load_by_name es)) = map fst (load_by_name es)"
    by auto
  have "mset (map (\<lambda>b. toLowerCase (cb_name b)) (buckets c)) = mset (map fst (load_by_name es))"
    unfolding c(1) keys [symmetric] by (simp only: mset_map mset_js_sort)
  then have "distinct (map (\<lambda>b. toLowerCase (cb_name b)) (buckets c))"
    using ok by (metis mset_eq_imp_distinct_iff)
  moreover have "list_all bucket_ok (buckets c)" using ok by (auto simp: c(1) list_all_iff)
  moreover have "sorted_wrt (\<lambda>a b. by_name h a b \<le> 0) (buckets c)" unfolding c(1) by (rule sorted_js_sort [OF tot])
  moreover have "case sourceEndpointName c of None \<Rightarrow> True | Some n \<Rightarrow> n \<noteq> [] \<and> trim n = n"
    by (auto simp: c(4) trimmed_text_def split: option.splits json.splits)
  ultimately show ?thesis using c(2,3) by (simp add: clipboard_ok_def)
qed

section \<open>Storing and loading\<close>

lemma if_object_stored:
  "(\<And>x. object_like (Some (f x))) \<Longrightarrow> (\<And>x. v = Some x \<Longrightarrow> g (Some (f x)) = x) \<Longrightarrow> if_object (Some (json_or_null f v)) g = v"
  by (cases v) (auto simp: if_object_def json_or_null_def object_like_def)

lemma rules_stored: "parseRuleList (Some (json_or_null rules_value rs)) = rs"
proof -
  have "map as_rec (filter isJsonObject (map JObj xs)) = xs" for xs
    by (induction xs) (auto simp: isJsonObject_def as_rec_def)
  then show ?thesis by (cases rs) (auto simp: parseRuleList_def json_or_null_def rules_value_def)
qed

lemma load_stored_bucket:
  assumes "bucket_ok b"
  shows "load_bucket (clipboard_bucket_json b) = Some b"
proof -
  have "if_object (Some (json_or_null quota_snapshot_json (cb_quota b)))
      (\<lambda>q. \<lparr>maxSizeBytes = normalizeQuotaLimit (finite_number (jmember q ''maxSizeBytes'')),
           maxObjects = normalizeQuotaLimit (finite_number (jmember q ''maxObjects''))\<rparr>) = cb_quota b"
    using assms by (intro if_object_stored) (auto simp: object_like_def quota_snapshot_json_def bucket_ok_def limits_ok_def
        jmember_def finite_number_again)
  moreover have "if_object (Some (json_or_null object_lock_json (cb_objectLock b))) normalizeObjectLockSnapshot = cb_objectLock b"
    using assms by (intro if_object_stored) (auto simp: object_like_def object_lock_json_def bucket_ok_def new_object_lock_def)
  moreover have "if_object (Some (json_or_null public_access_block_json (cb_publicAccessBlock b))) normalizePublicAccessBlockState
      = cb_publicAccessBlock b"
    by (intro if_object_stored) (auto simp: object_like_def public_access_block_json_def normalizePublicAccessBlockState_def jmember_def)
  moreover have "if_object (Some (json_or_null logging_snapshot_json (cb_accessLogging b))) normalizeAccessLoggingSnapshot
      = cb_accessLogging b"
    using assms by (intro if_object_stored) (auto simp: object_like_def logging_snapshot_json_def bucket_ok_def logging_ok_def)
  moreover have "(case json_or_null JBool (cb_versioningEnabled b) of JBool x \<Rightarrow> Some x | _ \<Rightarrow> None) = cb_versioningEnabled b"
    "(case json_or_null JObj (cb_policy b) of JObj p \<Rightarrow> Some p | _ \<Rightarrow> None) = cb_policy b"
    by (auto simp: json_or_null_def split: option.splits)
  moreover have "cb_name b \<noteq> []" "trim (cb_name b) = cb_name b" using assms by (auto simp: bucket_ok_def)
  ultimately show ?thesis
    by (simp add: load_bucket_def clipboard_bucket_json_def jmember_def rules_stored Let_def)
qed

lemma load_stored_buckets:
  assumes "list_all bucket_ok bs" and "distinct (map (\<lambda>b. toLowerCase (cb_name b)) bs)"
  shows "load_by_name (map clipboard_bucket_json bs) = map (\<lambda>b. (toLowerCase (cb_name b), b)) bs"
  using assms
proof (induction bs rule: rev_induct)
  case (snoc b bs)
  then have "load_by_name (map clipboard_bucket_json bs) = map (\<lambda>b. (toLowerCase (cb_name b), b)) bs" by simp
  moreover have "toLowerCase (cb_name b) \<notin> fst ` set (map (\<lambda>b. (toLowerCase (cb_name b), b)) bs)"
    using snoc.prems(2) by auto
  ultimately show ?case
    using snoc.prems(1) load_stored_bucket [of b] by (simp add: load_by_name_def AList_update_fresh)
qed (simp add: load_by_name_def)

lemma feature_stored: "jmember (Some (features_json fs)) (feature_text k) = Some (JBool (fs k))"
  by (cases k) (simp_all add: features_json_def jmember_def feature_text_def BULK_COPY_FEATURE_KEYS_def)

lemma load_stored:
  assumes "clipboard_ok h c" and "is_date (copiedAt c)"
  shows "load_clipboard h is_date now (Some (clipboard_json c)) = Some c"
proof -
  note ok = assms(1) [unfolded clipboard_ok_def]
  have "js_sort (by_name h) (map snd (load_by_name (map clipboard_bucket_json (buckets c)))) = buckets c"
    using ok by (simp add: load_stored_buckets js_sort_sorted comp_def)
  moreover have "trimmed_text (Some (json_of_string (sourceEndpointName c))) = sourceEndpointName c"
    using ok by (cases "sourceEndpointName c") (auto simp: trimmed_text_def json_of_string_def)
  moreover have "(\<lambda>k. jmember (Some (features_json (features c))) (feature_text k) = Some (JBool True)) = features c"
    by (rule ext) (simp add: feature_stored)
  moreover have "jmember (Some (clipboard_json c)) k = jprop (case clipboard_json c of JObj r \<Rightarrow> r | _ \<Rightarrow> []) k" for k
    by (simp add: jmember_def clipboard_json_def)
  ultimately show ?thesis
    using ok assms(2) by (simp add: load_clipboard_def clipboard_json_def js_Number_value_def)
qed

lemma bucket_ok_source: "bucket_ok b \<Longrightarrow> source_ok b"
proof -
  assume b: "bucket_ok b"
  have "new_logging l = l" if "logging_ok l" "logging_on l" for l
  proof -
    have "trimmed_text (Some (JStr (case target_prefix l of None \<Rightarrow> [] | Some p \<Rightarrow> p))) = trimmed_text (Some (json_of_string (target_prefix l)))"
      by (auto simp: trimmed_text_def json_of_string_def split: option.splits)
    then have "normalizeAccessLoggingSnapshot (Some (JObj (logging_json l))) = normalizeAccessLoggingSnapshot (Some (logging_snapshot_json l))"
      by (simp add: normalizeAccessLoggingSnapshot_def logging_json_def logging_snapshot_json_def jmember_def)
    with that show ?thesis by (simp add: new_logging_def logging_ok_def)
  qed
  with b show "source_ok b" by (auto simp: source_ok_def bucket_ok_def)
qed

section \<open>Properties\<close>

text \<open>
  C31. A stored clipboard is loaded back: when the session storage takes the value, the clipboard that
  was persisted is the one that is loaded, with its buckets in the same order.
\<close>

theorem clipboard_round_trip:
  assumes "clipboard_ok h c" and "json_ok h (clipboard_json c)" and "is_date (copiedAt c)"
    and "\<not> ws_denied w" and "\<not> ws_refuses w key (stringify h (clipboard_json c))"
  shows "loadBulkConfigClipboard h is_date now (persistBulkConfigClipboard h (Some w) key (Some c)) key = Some c"
proof -
  have "stringify h (clipboard_json c) \<noteq> []" by (simp add: clipboard_json_def)
  with assms json_parse_stringify [OF assms(2)] load_stored [OF assms(1), of is_date now] show ?thesis
    by (simp add: loadBulkConfigClipboard_def persistBulkConfigClipboard_def readSessionJsonFromKey_def
        writeSessionJsonToKey_def parseStoredJson_def readStorageKey_def writeStorageKey_def)
qed

definition sample_kept :: BulkConfigClipboard where
  "sample_kept = \<lparr>copiedAt = ''2026-01-01'', sourceEndpointId = 7, sourceEndpointName = Some ''site'',
     features = (\<lambda>k. k = FVersioning), buckets =
       [\<lparr>cb_name = ''logs'', cb_quota = None, cb_versioningEnabled = Some True, cb_objectLock = None,
         cb_publicAccessBlock = None, cb_lifecycleRules = Some [[(''ID'', JStr ''expire'')]], cb_corsRules = None,
         cb_policy = None, cb_accessLogging = Some no_logging\<rparr>]\<rparr>"

definition sample_storage :: web_storage where
  "sample_storage = \<lparr>ws_items = Map.empty, ws_denied = False, ws_refuses = (\<lambda>_ _. False)\<rparr>"

lemma sample_kept_ok: "clipboard_ok h sample_kept"
proof -
  have "trim ''logs'' = ''logs''" "trim ''site'' = ''site''" by code_simp+
  then show ?thesis
    by (simp add: clipboard_ok_def sample_kept_def bucket_ok_def logging_ok_def no_logging_def logging_snapshot_json_def
        normalizeAccessLoggingSnapshot_def jmember_def json_of_string_def trimmed_text_def)
qed

lemma digit_reads:
  assumes "is_digit c" and "stopper r"
  shows "read_number (c # r) = Some (Fin (of_nat (digits_val [c])), r)"
proof -
  have "c \<noteq> CHR ''-''" using assms(1) by (auto simp: is_digit_def)
  then show ?thesis
    using assms by (cases r) (auto simp: read_number_def expect_def read_frac_def read_exp_def stopper_def decimal_def pow10_def)
qed

lemma digit_reads_back: "reads_back plain_host 1 \<and> reads_back plain_host 7"
proof -
  have "numToString plain_host (Fin 1) = ''1''" "numToString plain_host (Fin 7) = ''7''"
    "is_digit (CHR ''1'')" "is_digit (CHR ''7'')" "digits_val ''1'' = 1" "digits_val ''7'' = 7" by code_simp+
  then show ?thesis using digit_reads [of "CHR ''1''"] digit_reads [of "CHR ''7''"] by (simp add: reads_back_def)
qed

lemma sample_kept_json: "json_ok plain_host (clipboard_json sample_kept)"
  using digit_reads_back
  by (simp add: sample_kept_def clipboard_json_def clipboard_bucket_json_def features_json_def BULK_COPY_FEATURE_KEYS_def
      feature_text_def json_or_null_def json_of_string_def rules_value_def logging_snapshot_json_def no_logging_def)

theorem clipboard_round_trip_witness:
  "map_option (map cb_name \<circ> buckets) (loadBulkConfigClipboard plain_host (\<lambda>_. True) []
      (persistBulkConfigClipboard plain_host (Some sample_storage) ''clip'' (Some sample_kept)) ''clip'') = Some [''logs'']"
proof -
  have "\<not> ws_denied sample_storage" "\<not> ws_refuses sample_storage k v" for k v by (simp_all add: sample_storage_def)
  with clipboard_round_trip [of plain_host sample_kept "\<lambda>_. True" sample_storage "''clip''", OF sample_kept_ok sample_kept_json]
  show ?thesis by (simp add: sample_kept_def)
qed


definition sample_tampered :: web_storage where
  "sample_tampered = \<lparr>ws_items = [''clip'' \<mapsto> stringify plain_host (JObj [(''version'', JNum (Fin 1)),
       (''sourceEndpointId'', JStr ''7''), (''buckets'', JArr [JNull, JObj [(''name'', JStr '' b '')],
          JObj [(''name'', JStr ''B''), (''quota'', JObj [])]])])],
     ws_denied = False, ws_refuses = (\<lambda>_ _. False)\<rparr>"


end
