(* ===== verification/Http_Client.thy ===== *)
theory Http_Client
  imports Bulk_Model
begin

text \<open>
  \<open>frontend/src/api/client.ts\<close>: how a request is built, sent, retried after a refresh of the session and
  how a session ends, with \<open>deferRecoveryAuthRedirect\<close> of \<open>frontend/src/auth/recoveryCodeHandoff.ts\<close>,
  \<open>broadcastSessionEnded\<close> of \<open>frontend/src/auth/sessionEvents.ts\<close>, the selected destinations of
  \<open>frontend/src/api/executionDestinationState.ts\<close> and the cached user of \<open>frontend/src/utils/workspaces.ts\<close>.
  The network is a parameter: \<open>fetch\<close> answers a request or fails (with \<open>True\<close> when the timer of the client
  aborted it), \<open>cookies\<close> are those of the document, and \<open>refreshed\<close> says that another tab completed a
  refresh while this one waited for its turn (see \<open>Auth_Refresh\<close>). A URL is its path and its query.
\<close>

section \<open>Requests\<close>

record api_url =
  url_path :: string
  url_query :: "(string \<times> string) list"

record http_request =
  rq_method :: string
  rq_url :: api_url
  rq_headers :: "(string \<times> string) list"
  rq_body :: "string option"

record http_response =
  rs_status :: nat
  rs_headers :: "(string \<times> string) list"
  rs_text :: string

definition response_ok :: "http_response \<Rightarrow> bool" where
  "response_ok r \<longleftrightarrow> 200 \<le> rs_status r \<and> rs_status r \<le> 299"

datatype response_type = RJson | RText | RBlob | RArrayBuffer

datatype response_data = Undefined | DText string | DJson json | DBlob string | DBuffer string

record ApiResponse =
  ar_data :: response_data
  ar_status :: nat
  ar_headers :: "(string \<times> string) list"

record ApiError =
  ae_message :: string
  ae_response :: "ApiResponse option"
  ae_code :: "string option"

text \<open>The values of \<open>params\<close>: one value, several, or \<open>undefined\<close>.\<close>

datatype param_value = PAbsent | POne json | PMany "json list"

record request_config =
  cf_params :: "(string \<times> param_value) list"
  cf_headers :: "(string \<times> string) list"
  cf_responseType :: response_type
  cf_data :: "json option"

definition query_entries :: "js_host \<Rightarrow> string \<Rightarrow> param_value \<Rightarrow> (string \<times> string) list" where
  "query_entries h key value = (case value of
     PAbsent \<Rightarrow> []
   | POne v \<Rightarrow> if v = JNull \<or> v = JStr [] then [] else [(key, js_String h v)]
   | PMany vs \<Rightarrow> map (\<lambda>v. (key, js_String h v)) vs)"

definition buildApiUrl :: "js_host \<Rightarrow> string \<Rightarrow> string \<Rightarrow> (string \<times> param_value) list \<Rightarrow> api_url" where
  "buildApiUrl h base path params =
     \<lparr>url_path = rev (dropWhile (\<lambda>c. c = CHR ''/'') (rev base)) @ ''/'' @ dropWhile (\<lambda>c. c = CHR ''/'') path,
      url_query = concat (map (\<lambda>(k, v). query_entries h k v) params)\<rparr>"

definition includes_text :: "string \<Rightarrow> string \<Rightarrow> bool" where
  "includes_text s p \<longleftrightarrow> indexOf s p \<noteq> None"

definition isAuthEndpoint :: "api_url \<Rightarrow> bool" where
  "isAuthEndpoint url = list_ex (includes_text (url_path url)) [''/auth/login'', ''/auth/bootstrap/'', ''/auth/ldap/'',
     ''/auth/oidc/'', ''/auth/webauthn/'', ''/auth/recovery/'', ''/auth/refresh'', ''/auth/logout'']"

datatype request_profile = Interactive | LongRunning

definition timeoutForRequestProfile :: "request_profile \<Rightarrow> nat" where
  "timeoutForRequestProfile p = (case p of Interactive \<Rightarrow> 15000 | LongRunning \<Rightarrow> 0)"

section \<open>State\<close>

datatype handoff_phase = HandoffIdle | HandoffPending | HandoffReady

record 'n client_state =
  sessionUserCache :: "string option"
  s3SessionEndpoint :: "string option"
  location_path :: string
  handoff :: handoff_phase
  authRedirectDeferred :: bool
  pendingAuthRedirect :: "string option"
  location_replaced :: "string list"
  sessions_ended :: nat
  executionDestinations :: "(string \<times> rat) list"
  sent :: "http_request list"
  net :: 'n

text \<open>The cached user is its \<open>authType\<close>.\<close>

definition deferRecoveryAuthRedirect :: "'n client_state \<Rightarrow> bool \<times> 'n client_state" where
  "deferRecoveryAuthRedirect st =
     (if handoff st = HandoffIdle then (False, st) else (True, st\<lparr>authRedirectDeferred := True\<rparr>))"

definition broadcastSessionEnded :: "'n client_state \<Rightarrow> 'n client_state" where
  "broadcastSessionEnded st = st\<lparr>sessions_ended := Suc (sessions_ended st)\<rparr>"

definition handleAuthRedirect :: "'n client_state \<Rightarrow> 'n client_state" where
  "handleAuthRedirect st =
     (let hadSession = (sessionUserCache st \<noteq> None);
          st1 = broadcastSessionEnded (st\<lparr>s3SessionEndpoint := None, sessionUserCache := None\<rparr>);
          (deferred, st2) = deferRecoveryAuthRedirect st1 in
      if deferred then st2
      else if pendingAuthRedirect st2 = None \<and> location_path st2 \<notin> {''/login'', ''/session-expired''}
      then (let target = (if hadSession then ''/session-expired'' else ''/login'') in
            st2\<lparr>pendingAuthRedirect := Some target, location_replaced := location_replaced st2 @ [target]\<rparr>)
      else st2)"

section \<open>Building a request\<close>

definition param_text :: "js_host \<Rightarrow> (string \<times> param_value) list \<Rightarrow> string \<Rightarrow> string option" where
  "param_text h params k = (case map_of params k of
     Some (POne v) \<Rightarrow> if v = JNull then None else Some (js_String h v)
   | Some (PMany vs) \<Rightarrow> Some (js_String h (JArr vs))
   | _ \<Rightarrow> None)"

definition withWorkspaceExecutionDestination ::
  "js_host \<Rightarrow> 'n client_state \<Rightarrow> (string \<times> param_value) list \<Rightarrow> (string \<times> param_value) list" where
  "withWorkspaceExecutionDestination h st params =
     (if \<not> (startsWith (location_path st) ''/manager'' \<or> startsWith (location_path st) ''/browser'') then params
      else case param_text h params ''context_id'' of
        None \<Rightarrow> params
      | Some contextId \<Rightarrow>
          if contextId = [] then params
          else case map_of (executionDestinations st) contextId of
            None \<Rightarrow> params
          | Some endpointId \<Rightarrow>
              if param_text h params ''execution_endpoint_id'' \<noteq> None then params
              else AList.update ''execution_endpoint_id'' (POne (JNum (Fin endpointId))) params)"

text \<open>The names of headers are in lower case.\<close>

definition set_header :: "string \<Rightarrow> string \<Rightarrow> (string \<times> string) list \<Rightarrow> (string \<times> string) list" where
  "set_header k v hs = AList.update (toLowerCase k) v hs"

definition buildApiFetchHeaders :: "'n client_state \<Rightarrow> (string \<times> string) list" where
  "buildApiFetchHeaders st =
     (if sessionUserCache st = Some ''s3_session''
      then (case s3SessionEndpoint st of
              Some e \<Rightarrow> if e = [] then [] else [(''X-S3-Endpoint'', e)]
            | None \<Rightarrow> [])
      else [])"

definition set_headers :: "(string \<times> string) list \<Rightarrow> (string \<times> string) list \<Rightarrow> (string \<times> string) list" where
  "set_headers extra hs = fold (\<lambda>(k, v). set_header k v) extra hs"

definition buildApiRequestHeaders ::
  "'n client_state \<Rightarrow> (string \<times> string) list \<Rightarrow> string \<Rightarrow> (string \<times> string) list \<Rightarrow> (string \<times> string) list" where
  "buildApiRequestHeaders st cookie_jar method configured =
     (let hs = AList.delete ''authorization'' (set_headers configured (set_headers (buildApiFetchHeaders st) [])) in
      if method \<in> {''GET'', ''HEAD'', ''OPTIONS''} then hs
      else case map_of cookie_jar ''csrf_token'' of
        Some csrf \<Rightarrow> if csrf = [] then hs else set_header ''X-CSRF-Token'' csrf hs
      | None \<Rightarrow> hs)"

text \<open>JSON values and texts; form data, blobs and buffers are outside the model.\<close>

definition requestBody :: "js_host \<Rightarrow> json option \<Rightarrow> (string \<times> string) list \<Rightarrow> string option \<times> (string \<times> string) list" where
  "requestBody h data hs = (case data of
     None \<Rightarrow> (None, hs)
   | Some JNull \<Rightarrow> (None, hs)
   | Some (JStr s) \<Rightarrow> (Some s, hs)
   | Some v \<Rightarrow> (Some (stringify h v), set_header ''Content-Type'' ''application/json'' hs))"

definition parseResponse :: "http_response \<Rightarrow> response_type \<Rightarrow> response_data" where
  "parseResponse r rt =
     (if rs_status r = 204 then Undefined
      else case rt of
        RBlob \<Rightarrow> DBlob (rs_text r) | RArrayBuffer \<Rightarrow> DBuffer (rs_text r) | RText \<Rightarrow> DText (rs_text r)
      | RJson \<Rightarrow>
          if rs_text r = [] then Undefined
          else if includes_text (case map_of (rs_headers r) ''content-type'' of None \<Rightarrow> [] | Some t \<Rightarrow> t) ''json''
          then (case json_parse (rs_text r) of Some v \<Rightarrow> DJson v | None \<Rightarrow> DText (rs_text r))
          else DText (rs_text r))"

section \<open>Sending\<close>

record 'n client_env =
  env_host :: js_host
  env_base :: string
  env_fetch :: "http_request \<Rightarrow> 'n \<Rightarrow> (bool + http_response) \<times> 'n"
  env_cookies :: "'n \<Rightarrow> (string \<times> string) list"
  env_refreshed :: "'n \<Rightarrow> bool"

type_synonym ('n, 'a) call = "'n client_state \<Rightarrow> (ApiError + 'a) \<times> 'n client_state"

definition send :: "'n client_env \<Rightarrow> http_request \<Rightarrow> 'n client_state \<Rightarrow> (bool + http_response) \<times> 'n client_state" where
  "send env rq st = (case env_fetch env rq (net st) of (r, n) \<Rightarrow> (r, st\<lparr>net := n, sent := sent st @ [rq]\<rparr>))"

definition fetch_error :: "string \<Rightarrow> bool \<Rightarrow> ApiError" where
  "fetch_error timeout_text timed_out =
     \<lparr>ae_message = (if timed_out then timeout_text else ''Failed to fetch''), ae_response = None,
      ae_code = (if timed_out then Some ''ETIMEDOUT'' else None)\<rparr>"

definition response_error :: "string \<Rightarrow> http_response \<Rightarrow> response_data \<Rightarrow> ApiError" where
  "response_error text r d = \<lparr>ae_message = text,
     ae_response = Some \<lparr>ar_data = d, ar_status = rs_status r, ar_headers = rs_headers r\<rparr>, ae_code = None\<rparr>"

definition refresh_request :: "'n client_env \<Rightarrow> http_request" where
  "refresh_request env = \<lparr>rq_method = ''POST'', rq_url = buildApiUrl (env_host env) (env_base env) ''/auth/refresh'' [],
     rq_headers = [], rq_body = None\<rparr>"

definition refreshCookies :: "'n client_env \<Rightarrow> ('n, unit) call" where
  "refreshCookies env st =
     (if env_refreshed env (net st) then (Inr (), st)
      else case send env (refresh_request env) st of
        (Inl timed_out, st1) \<Rightarrow> (Inl (fetch_error ''Session refresh timeout'' timed_out), st1)
      | (Inr r, st1) \<Rightarrow>
          if response_ok r then (Inr (), st1)
          else (Inl (response_error ''Unable to refresh session'' r (parseResponse r RJson)), st1))"

definition build_request :: "'n client_env \<Rightarrow> string \<Rightarrow> string \<Rightarrow> json option \<Rightarrow> request_config \<Rightarrow> 'n client_state \<Rightarrow> http_request" where
  "build_request env method path data cfg st =
     (let h = env_host env;
          url = buildApiUrl h (env_base env) path (withWorkspaceExecutionDestination h st (cf_params cfg));
          hs = buildApiRequestHeaders st (env_cookies env (net st)) method (cf_headers cfg);
          (body, hs2) = requestBody h (coalesce data (cf_data cfg)) hs in
      \<lparr>rq_method = method, rq_url = url, rq_headers = hs2, rq_body = body\<rparr>)"

definition expired :: "http_response \<Rightarrow> bool" where
  "expired r \<longleftrightarrow> rs_status r = 401 \<or> rs_status r = 419"

definition error_status :: "ApiError \<Rightarrow> nat" where
  "error_status e = (case ae_response e of None \<Rightarrow> 0 | Some r \<Rightarrow> ar_status r)"

definition finish :: "http_response \<Rightarrow> response_type \<Rightarrow> ApiError + ApiResponse" where
  "finish r rt = (let parsed = parseResponse r rt in
     if response_ok r then Inr \<lparr>ar_data = parsed, ar_status = rs_status r, ar_headers = rs_headers r\<rparr>
     else Inl (response_error (''Request failed with status '' @ nat_string (rs_status r)) r parsed))"

text \<open>
  The flag is \<open>config._retry\<close>. The promise of the repeated request is returned, not awaited, inside the
  \<open>try\<close>: its rejection does not reach the \<open>catch\<close>.
\<close>

function request ::
  "'n client_env \<Rightarrow> string \<Rightarrow> string \<Rightarrow> json option \<Rightarrow> request_config \<Rightarrow> bool \<Rightarrow> ('n, ApiResponse) call" where
  "request env method path data cfg retry st =
     (let rq = build_request env method path data cfg st in
      case send env rq st of
        (Inl timed_out, st1) \<Rightarrow> (Inl (fetch_error ''Request timeout'' timed_out), st1)
      | (Inr r, st1) \<Rightarrow>
          if expired r \<and> \<not> isAuthEndpoint (rq_url rq) \<and> \<not> retry then
            (case refreshCookies env st1 of
               (Inl e, st2) \<Rightarrow> (Inl e, if error_status e \<in> {401, 403, 419} then handleAuthRedirect st2 else st2)
             | (Inr _, st2) \<Rightarrow> request env method path data cfg True st2)
          else (finish r (cf_responseType cfg),
                if expired r \<and> \<not> isAuthEndpoint (rq_url rq) \<and> retry then handleAuthRedirect st1 else st1))"
  by pat_completeness auto

termination
  by (relation "measure (\<lambda>(_, _, _, _, _, retry, _). if retry then 0 else 1)") auto

declare request.simps [simp del]

definition api_get :: "'n client_env \<Rightarrow> string \<Rightarrow> request_config \<Rightarrow> ('n, ApiResponse) call" where
  "api_get env path cfg = request env ''GET'' path None cfg False"

definition api_post :: "'n client_env \<Rightarrow> string \<Rightarrow> json option \<Rightarrow> request_config \<Rightarrow> ('n, ApiResponse) call" where
  "api_post env path data cfg = request env ''POST'' path data cfg False"

definition api_put :: "'n client_env \<Rightarrow> string \<Rightarrow> json option \<Rightarrow> request_config \<Rightarrow> ('n, ApiResponse) call" where
  "api_put env path data cfg = request env ''PUT'' path data cfg False"

definition api_patch :: "'n client_env \<Rightarrow> string \<Rightarrow> json option \<Rightarrow> request_config \<Rightarrow> ('n, ApiResponse) call" where
  "api_patch env path data cfg = request env ''PATCH'' path data cfg False"

definition api_delete :: "'n client_env \<Rightarrow> string \<Rightarrow> request_config \<Rightarrow> ('n, ApiResponse) call" where
  "api_delete env path cfg = request env ''DELETE'' path None cfg False"

section \<open>What a call does to the state\<close>

text \<open>The fields that sending does not touch.\<close>

definition same_session :: "'n client_state \<Rightarrow> 'n client_state \<Rightarrow> bool" where
  "same_session st t \<longleftrightarrow> t\<lparr>net := net st, sent := sent st\<rparr> = st"

lemma same_session_refl [simp]: "same_session st st"
  by (simp add: same_session_def)

lemma same_session_trans: "same_session a b \<Longrightarrow> same_session b c \<Longrightarrow> same_session a c"
  by (cases a; cases b; cases c) (simp add: same_session_def)

lemma send_session: "send env rq st = (r, t) \<Longrightarrow> same_session st t \<and> sent t = sent st @ [rq]"
  by (auto simp: send_def same_session_def split: prod.splits)

lemma refresh_session:
  "refreshCookies env st = (r, t) \<Longrightarrow> same_session st t \<and> (sent t = sent st \<and> r = Inr () \<or> sent t = sent st @ [refresh_request env])"
  by (auto simp: refreshCookies_def dest: send_session split: if_splits prod.splits sum.splits)

lemma same_session_fields:
  "same_session st t \<Longrightarrow> executionDestinations t = executionDestinations st \<and> location_path t = location_path st
     \<and> sessions_ended t = sessions_ended st \<and> pendingAuthRedirect t = pendingAuthRedirect st
     \<and> location_replaced t = location_replaced st \<and> sessionUserCache t = sessionUserCache st"
  by (cases st; cases t) (simp add: same_session_def)

lemma redirect_keeps_sent [simp]: "sent (handleAuthRedirect st) = sent st"
  by (auto simp: handleAuthRedirect_def deferRecoveryAuthRedirect_def broadcastSessionEnded_def Let_def split: prod.splits)

text \<open>The last step of a call, when it is not repeated.\<close>

lemma request_retried:
  assumes "request env m p d cfg True st = (r, t)"
  obtains st1 where "sent st1 = sent st @ [build_request env m p d cfg st]" "same_session st st1"
    "t = st1 \<or> t = handleAuthRedirect st1 \<and> (\<exists>e. r = Inl e \<and> error_status e \<in> {401, 419})"
proof -
  obtain x st1 where s: "send env (build_request env m p d cfg st) st = (x, st1)" by fastforce
  have fin: "\<exists>e. finish y rt = Inl e \<and> error_status e \<in> {401, 419}" if "expired y" for y rt
    using that by (auto simp: finish_def expired_def response_ok_def response_error_def error_status_def Let_def)
  have "t = st1 \<or> t = handleAuthRedirect st1 \<and> (\<exists>e. r = Inl e \<and> error_status e \<in> {401, 419})"
  proof (cases x)
    case (Inl b)
    with assms s show ?thesis by (simp add: request.simps [of env m p d cfg True] Let_def)
  next
    case (Inr y)
    with assms s fin [of y "cf_responseType cfg"] show ?thesis
      by (simp add: request.simps [of env m p d cfg True] Let_def del: insert_iff split: if_splits)
  qed
  with send_session [OF s] that show ?thesis by blast
qed

lemma request_first:
  assumes "request env m p d cfg False st = (r, t)"
  obtains (answered) st1 where "sent st1 = sent st @ [build_request env m p d cfg st]" "same_session st st1" "t = st1"
  | (refused) st2 e where "sent st2 = sent st @ [build_request env m p d cfg st, refresh_request env]" "same_session st st2"
      "r = Inl e" "t = (if error_status e \<in> {401, 403, 419} then handleAuthRedirect st2 else st2)"
  | (repeated) st2 where "sent st2 = sent st @ [build_request env m p d cfg st]
        \<or> sent st2 = sent st @ [build_request env m p d cfg st, refresh_request env]" "same_session st st2"
      "request env m p d cfg True st2 = (r, t)"
proof -
  let ?rq = "build_request env m p d cfg st"
  obtain x st1 where s: "send env ?rq st = (x, st1)" by fastforce
  note sent = send_session [OF s]
  show ?thesis
  proof (cases "\<exists>y. x = Inr y \<and> expired y \<and> \<not> isAuthEndpoint (rq_url ?rq)")
    case False
    with assms s have "t = st1"
      by (cases x) (auto simp: request.simps [of env m p d cfg False] Let_def split: if_splits)
    with sent answered show ?thesis by blast
  next
    case True
    then obtain y where y: "x = Inr y" "expired y" "\<not> isAuthEndpoint (rq_url ?rq)" by blast
    obtain z st2 where z: "refreshCookies env st1 = (z, st2)" by fastforce
    note ref = refresh_session [OF z]
    have same: "same_session st st2" using sent ref same_session_trans by blast
    show ?thesis
    proof (cases z)
      case (Inl e)
      with assms s y z have "r = Inl e" "t = (if error_status e \<in> {401, 403, 419} then handleAuthRedirect st2 else st2)"
        by (auto simp: request.simps [of env m p d cfg False] Let_def split: if_splits)
      moreover have "sent st2 = sent st @ [?rq, refresh_request env]" using ref sent Inl by auto
      ultimately show ?thesis using refused same by blast
    next
      case (Inr u)
      with assms s y z have "request env m p d cfg True st2 = (r, t)"
        by (simp add: request.simps [of env m p d cfg False] Let_def)
      moreover have "sent st2 = sent st @ [?rq] \<or> sent st2 = sent st @ [?rq, refresh_request env]" using ref sent by auto
      ultimately show ?thesis using repeated same by blast
    qed
  qed
qed

text \<open>A repeated request is the same request but for its headers.\<close>

definition same_request :: "http_request \<Rightarrow> http_request \<Rightarrow> bool" where
  "same_request a b \<longleftrightarrow> rq_method a = rq_method b \<and> rq_url a = rq_url b \<and> rq_body a = rq_body b"

lemma body_ignores_headers: "fst (requestBody h d hs) = fst (requestBody h d hs')"
  by (simp add: requestBody_def split: option.splits json.splits)

lemma build_request_same:
  "same_session st t \<Longrightarrow> same_request (build_request env m p d cfg st) (build_request env m p d cfg t)"
proof -
  assume s: "same_session st t"
  have "withWorkspaceExecutionDestination h st ps = withWorkspaceExecutionDestination h t ps" for h ps
    by (simp only: withWorkspaceExecutionDestination_def same_session_fields [OF s])
  then show ?thesis
    by (simp add: same_request_def build_request_def Let_def case_prod_unfold) (rule body_ignores_headers)
qed

section \<open>Properties\<close>


definition redirect_ok :: "'n client_state \<Rightarrow> bool" where
  "redirect_ok st \<longleftrightarrow> (case pendingAuthRedirect st of
     None \<Rightarrow> location_replaced st = []
   | Some target \<Rightarrow> location_replaced st = [target] \<and> target \<in> {''/session-expired'', ''/login''})"

lemma redirect_once:
  assumes "redirect_ok st"
  shows "redirect_ok (handleAuthRedirect st)
    \<and> (\<forall>target. pendingAuthRedirect st = Some target \<longrightarrow> pendingAuthRedirect (handleAuthRedirect st) = Some target)
    \<and> sessions_ended (handleAuthRedirect st) = Suc (sessions_ended st) \<and> sessionUserCache (handleAuthRedirect st) = None"
  using assms by (auto simp: redirect_ok_def handleAuthRedirect_def deferRecoveryAuthRedirect_def broadcastSessionEnded_def
      Let_def split: option.splits)

lemma redirect_ok_session: "same_session st t \<Longrightarrow> redirect_ok t = redirect_ok st"
  by (simp only: redirect_ok_def same_session_fields)


text \<open>A network of answers, taken one after the other.\<close>

definition sample_env :: "http_response list client_env" where
  "sample_env = \<lparr>env_host = plain_host, env_base = ''/api'',
     env_fetch = (\<lambda>rq n. case n of [] \<Rightarrow> (Inl False, []) | r # rs \<Rightarrow> (Inr r, rs)),
     env_cookies = (\<lambda>_. [(''csrf_token'', ''t'')]), env_refreshed = (\<lambda>_. False)\<rparr>"

definition answer :: "nat \<Rightarrow> http_response" where
  "answer n = \<lparr>rs_status = n, rs_headers = [], rs_text = []\<rparr>"

definition sample_client :: "http_response list \<Rightarrow> http_response list client_state" where
  "sample_client rs = \<lparr>sessionUserCache = Some ''password'', s3SessionEndpoint = None, location_path = ''/ceph-admin'',
     handoff = HandoffIdle, authRedirectDeferred = False, pendingAuthRedirect = None, location_replaced = [],
     sessions_ended = 0, executionDestinations = [], sent = [], net = rs\<rparr>"

definition sample_config :: request_config where
  "sample_config = \<lparr>cf_params = [], cf_headers = [(''Authorization'', ''x'')], cf_responseType = RJson, cf_data = None\<rparr>"



end
