(* ===== verification/Auth_Refresh.thy ===== *)
theory Auth_Refresh
  imports Js_Prelude
begin

text \<open>
  \<open>frontend/src/api/authRefreshCoordinator.ts\<close>: how the tabs of a browser agree on who refreshes the
  session when there is no lock manager. The tabs share the local storage, which holds the time of
  the last completed refresh and a lease; a tab runs without interruption from one \<open>await\<close> to the
  next, so the code between two of them is one step. Time is in milliseconds. A timer fires at or after
  its time and at most \<open>late\<close> milliseconds after it, and a refresh ends at most \<open>late\<close> milliseconds
  after its timeout (\<open>AUTH_REFRESH_TIMEOUT_MS\<close> of \<open>frontend/src/api/client.ts\<close>). Tabs are numbered; the number
  stands for the runtime identifier of the owner.
\<close>

section \<open>Shared state\<close>

definition AUTH_REFRESH_LEASE_MS :: nat where
  "AUTH_REFRESH_LEASE_MS = 12000"

definition AUTH_REFRESH_WAIT_MS :: nat where
  "AUTH_REFRESH_WAIT_MS = 50"

definition AUTH_REFRESH_TIMEOUT_MS :: nat where
  "AUTH_REFRESH_TIMEOUT_MS = 8000"

text \<open>
  A tab has not asked yet, sleeps before its next attempt, sleeps after it wrote its lease, refreshes,
  or is done; \<open>observed\<close> is what it read first.
\<close>

datatype tab = NotAsked | Sleeping nat nat | Claimed nat nat | Refreshing nat nat | Returned | Failed

record coord =
  clock :: nat
  storage_denied :: bool
  lease :: "(nat \<times> nat) option"
  completed :: nat
  tabs :: "tab list"

text \<open>Reads and writes of a storage that may refuse access.\<close>

definition marker :: "coord \<Rightarrow> nat" where
  "marker s = (if storage_denied s then 0 else completed s)"

definition read_lease :: "coord \<Rightarrow> (nat \<times> nat) option" where
  "read_lease s = (if storage_denied s then None else lease s)"

definition write_lease :: "(nat \<times> nat) option \<Rightarrow> coord \<Rightarrow> coord" where
  "write_lease l s = (if storage_denied s then s else s\<lparr>lease := l\<rparr>)"

definition markComplete :: "coord \<Rightarrow> coord" where
  "markComplete s = (if storage_denied s then s else s\<lparr>completed := clock s\<rparr>)"

definition set_tab :: "nat \<Rightarrow> tab \<Rightarrow> coord \<Rightarrow> coord" where
  "set_tab i t s = s\<lparr>tabs := (tabs s)[i := t]\<rparr>"

section \<open>The steps of a tab\<close>

text \<open>The head of the loop of \<open>coordinateAuthRefresh\<close>, up to its first \<open>await\<close>.\<close>

definition lease_free :: "coord \<Rightarrow> bool" where
  "lease_free s = (case read_lease s of None \<Rightarrow> True | Some (_, expiresAt) \<Rightarrow> expiresAt \<le> clock s)"

definition attempt :: "nat \<Rightarrow> nat \<Rightarrow> coord \<Rightarrow> coord" where
  "attempt i observed s =
     (if marker s > observed then set_tab i Returned s
      else if lease_free s
      then set_tab i (Claimed observed (clock s + AUTH_REFRESH_WAIT_MS))
             (write_lease (Some (i, clock s + AUTH_REFRESH_LEASE_MS)) s)
      else set_tab i (Sleeping observed (clock s + AUTH_REFRESH_WAIT_MS)) s)"

text \<open>After the sleep of a claim: \<open>executeIfNeeded\<close> when the lease is still there.\<close>

definition confirm :: "nat \<Rightarrow> nat \<Rightarrow> coord \<Rightarrow> coord" where
  "confirm i observed s =
     (if map_option fst (read_lease s) = Some i
      then (if marker s > observed then set_tab i Returned (write_lease None s)
            else set_tab i (Refreshing observed (clock s)) s)
      else set_tab i (Sleeping observed (clock s + AUTH_REFRESH_WAIT_MS)) s)"

definition end_refresh :: "nat \<Rightarrow> bool \<Rightarrow> coord \<Rightarrow> coord" where
  "end_refresh i ok s =
     set_tab i (if ok then Returned else Failed) (write_lease None (if ok then markComplete s else s))"

text \<open>Time may pass as long as no timer is overdue by more than \<open>late\<close>.\<close>

definition in_time :: "nat \<Rightarrow> nat \<Rightarrow> tab \<Rightarrow> bool" where
  "in_time late now t = (case t of
     Claimed _ wake \<Rightarrow> now \<le> wake + late
   | Refreshing _ since \<Rightarrow> now \<le> since + AUTH_REFRESH_TIMEOUT_MS + late
   | _ \<Rightarrow> True)"

inductive coordinateAuthRefresh :: "nat \<Rightarrow> coord \<Rightarrow> coord \<Rightarrow> bool" for late :: nat where
  tick: "list_all (in_time late (clock s + d)) (tabs s) \<Longrightarrow>
     coordinateAuthRefresh late s (s\<lparr>clock := clock s + d\<rparr>)"
| ask: "i < length (tabs s) \<Longrightarrow> tabs s ! i = NotAsked \<Longrightarrow>
     coordinateAuthRefresh late s (attempt i (marker s) s)"
| wake_up: "i < length (tabs s) \<Longrightarrow> tabs s ! i = Sleeping observed wake \<Longrightarrow> wake \<le> clock s \<Longrightarrow>
     coordinateAuthRefresh late s (attempt i observed s)"
| confirmed: "i < length (tabs s) \<Longrightarrow> tabs s ! i = Claimed observed wake \<Longrightarrow> wake \<le> clock s \<Longrightarrow>
     coordinateAuthRefresh late s (confirm i observed s)"
| refreshed: "i < length (tabs s) \<Longrightarrow> tabs s ! i = Refreshing observed since \<Longrightarrow>
     coordinateAuthRefresh late s (end_refresh i ok s)"

inductive_cases coord_stepE: "coordinateAuthRefresh late s t"

definition fresh_tabs :: "nat \<Rightarrow> nat \<Rightarrow> bool \<Rightarrow> nat \<Rightarrow> coord" where
  "fresh_tabs n now denied done = \<lparr>clock = now, storage_denied = denied, lease = None, completed = done,
     tabs = replicate n NotAsked\<rparr>"

section \<open>One tab holds the lease\<close>

text \<open>
  A tab that claimed or refreshes owns the lease, which outlasts its refresh; while a tab refreshes,
  nobody has completed a refresh since it asked.
\<close>

definition holds_lease :: "nat \<Rightarrow> coord \<Rightarrow> nat \<Rightarrow> tab \<Rightarrow> bool" where
  "holds_lease late s i t = (case t of
     Claimed observed wake \<Rightarrow> clock s \<le> wake + late
       \<and> lease s = Some (i, wake + (AUTH_REFRESH_LEASE_MS - AUTH_REFRESH_WAIT_MS))
   | Refreshing observed since \<Rightarrow> clock s \<le> since + AUTH_REFRESH_TIMEOUT_MS + late \<and> since \<le> clock s
       \<and> (\<exists>wake. since \<le> wake + late \<and> lease s = Some (i, wake + (AUTH_REFRESH_LEASE_MS - AUTH_REFRESH_WAIT_MS)))
       \<and> completed s \<le> observed
   | _ \<Rightarrow> True)"

definition active :: "tab \<Rightarrow> bool" where
  "active t = (case t of Claimed _ _ \<Rightarrow> True | Refreshing _ _ \<Rightarrow> True | _ \<Rightarrow> False)"

definition coord_inv :: "nat \<Rightarrow> coord \<Rightarrow> bool" where
  "coord_inv late s \<longleftrightarrow> \<not> storage_denied s \<and> (\<forall>i < length (tabs s). holds_lease late s i (tabs s ! i))"

lemma not_active_holds [simp]: "\<not> active t \<Longrightarrow> holds_lease late s i t"
  by (auto simp: active_def holds_lease_def split: tab.splits)

lemma set_tab_simps [simp]:
  "holds_lease late (set_tab i x s) j t = holds_lease late s j t" "tabs (set_tab i x s) = (tabs s)[i := x]"
  "storage_denied (set_tab i x s) = storage_denied s" "clock (set_tab i x s) = clock s" "lease (set_tab i x s) = lease s"
  by (simp_all add: set_tab_def holds_lease_def cong: tab.case_cong)

lemma holds_lease_owner: "holds_lease late s i t \<Longrightarrow> active t \<Longrightarrow> \<exists>ex. lease s = Some (i, ex)"
  by (auto simp: active_def holds_lease_def split: tab.splits)

text \<open>With timers that are at most 1974 milliseconds late, a lease in use has not expired.\<close>

lemma lease_in_use:
  assumes "holds_lease late s i t" and "active t" and "late < 1975" and "\<not> storage_denied s"
  shows "\<not> lease_free s"
  using assms by (auto simp: active_def holds_lease_def lease_free_def read_lease_def AUTH_REFRESH_LEASE_MS_def
      AUTH_REFRESH_WAIT_MS_def AUTH_REFRESH_TIMEOUT_MS_def split: tab.splits)

lemma coord_inv_owner:
  assumes "coord_inv late s" and "i < length (tabs s)" and "active (tabs s ! i)"
  shows "\<exists>ex. lease s = Some (i, ex)"
  using assms holds_lease_owner by (auto simp: coord_inv_def)

lemma coord_inv_set:
  assumes inv: "coord_inv late s" and "i < length (tabs s)"
    and t: "tabs t = (tabs s)[i := x]" "\<not> storage_denied t"
    and x: "holds_lease late t i x"
    and others: "\<And>j. j < length (tabs s) \<Longrightarrow> j \<noteq> i \<Longrightarrow> active (tabs s ! j) \<Longrightarrow> holds_lease late t j (tabs s ! j)"
  shows "coord_inv late t"
  unfolding coord_inv_def
proof (intro conjI allI impI)
  fix j assume "j < length (tabs t)"
  with t x others show "holds_lease late t j (tabs t ! j)"
    by (cases "j = i"; cases "active (tabs s ! j)") auto
qed (use t in simp)

lemma coord_inv_attempt:
  assumes inv: "coord_inv late s" and i: "i < length (tabs s)" and late: "late < 1975" and quiet: "\<not> active (tabs s ! i)"
  shows "coord_inv late (attempt i observed s)"
proof -
  have nd: "\<not> storage_denied s" and holds: "\<And>j. j < length (tabs s) \<Longrightarrow> holds_lease late s j (tabs s ! j)"
    using inv by (auto simp: coord_inv_def)
  show ?thesis
  proof (cases "marker s > observed \<or> \<not> lease_free s")
    case True
    define x where "x = (if marker s > observed then Returned else Sleeping observed (clock s + AUTH_REFRESH_WAIT_MS))"
    with True have x: "attempt i observed s = set_tab i x s" "\<not> active x"
      by (auto simp: attempt_def active_def)
    show ?thesis unfolding x(1)
      by (rule coord_inv_set [OF inv i, where x = x]) (use nd x holds in simp_all)
  next
    case False
    then have "\<not> active (tabs s ! j)" if "j < length (tabs s)" for j
      using lease_in_use [OF holds [OF that] _ late nd] by blast
    with False nd show ?thesis
      by (intro coord_inv_set [OF inv i]) (auto simp: attempt_def write_lease_def holds_lease_def
          AUTH_REFRESH_LEASE_MS_def AUTH_REFRESH_WAIT_MS_def)
  qed
qed

text \<open>No other tab is active beside the owner of the lease.\<close>

lemma only_owner:
  assumes "coord_inv late s" and "i < length (tabs s)" and "active (tabs s ! i)" and "j < length (tabs s)" and "j \<noteq> i"
  shows "\<not> active (tabs s ! j)"
  using coord_inv_owner [OF assms(1,2,3)] coord_inv_owner [OF assms(1,4)] assms(5) by auto

lemma coord_inv_active_step:
  assumes inv: "coord_inv late s" and i: "i < length (tabs s)" and a: "active (tabs s ! i)"
    and t: "tabs t = (tabs s)[i := x]" "\<not> storage_denied t" and x: "holds_lease late t i x"
  shows "coord_inv late t"
  by (rule coord_inv_set [OF inv i t x]) (use only_owner [OF inv i a] in blast)

lemma coord_inv_step:
  assumes "coordinateAuthRefresh late s t" and inv: "coord_inv late s" and late: "late < 1975"
  shows "coord_inv late t"
  using assms(1)
proof cases
  case (tick d)
  with inv show ?thesis
    by (auto simp: coord_inv_def list_all_length in_time_def holds_lease_def split: tab.splits)
next
  case (ask i)
  with inv late show ?thesis by (simp add: coord_inv_attempt active_def)
next
  case (wake_up i observed wake)
  with inv late show ?thesis by (simp add: coord_inv_attempt active_def)
next
  case (confirmed i observed wake)
  then have a: "active (tabs s ! i)" by (simp add: active_def)
  from inv confirmed have h: "holds_lease late s i (Claimed observed wake)" "\<not> storage_denied s" by (auto simp: coord_inv_def)
  then have own: "map_option fst (read_lease s) = Some i" by (auto simp: holds_lease_def read_lease_def)
  show ?thesis
  proof (cases "marker s > observed")
    case True
    then show ?thesis unfolding confirmed(1) using own h(2)
      by (intro coord_inv_active_step [OF inv confirmed(2) a]) (auto simp: confirm_def set_tab_def write_lease_def active_def)
  next
    case False
    then have "t = set_tab i (Refreshing observed (clock s)) s" using own by (simp add: confirmed(1) confirm_def)
    with False h show ?thesis
      by (intro coord_inv_active_step [OF inv confirmed(2) a]) (auto simp: set_tab_def holds_lease_def marker_def)
  qed
next
  case (refreshed i observed since ok)
  then have a: "active (tabs s ! i)" by (simp add: active_def)
  from inv refreshed show ?thesis unfolding refreshed(1)
    by (intro coord_inv_active_step [OF inv refreshed(2) a, where x = "if ok then Returned else Failed"])
      (auto simp: end_refresh_def set_tab_def write_lease_def markComplete_def active_def coord_inv_def)
qed

lemma coord_inv_reachable:
  assumes "(coordinateAuthRefresh late)\<^sup>*\<^sup>* s t" and "coord_inv late s" and "late < 1975"
  shows "coord_inv late t"
  using assms(1,2) by (induction rule: rtranclp_induct) (auto intro: coord_inv_step [OF _ _ assms(3)])

section \<open>Properties\<close>

lemma fresh_tabs_inv: "coord_inv late (fresh_tabs n now False done)"
  by (simp add: coord_inv_def fresh_tabs_def active_def)

text \<open>
  C26. When the storage works and timers are less than two seconds late, at most one tab refreshes the
  session at any time, and none has completed a refresh since that tab asked for one.
\<close>

theorem one_tab_refreshes:
  assumes "(coordinateAuthRefresh late)\<^sup>*\<^sup>* (fresh_tabs n now False done) s" and "late < 1975"
    and "i < length (tabs s)" and "tabs s ! i = Refreshing observed since"
  shows "completed s \<le> observed
    \<and> (\<forall>j o' since'. j < length (tabs s) \<longrightarrow> tabs s ! j = Refreshing o' since' \<longrightarrow> j = i)"
proof -
  have inv: "coord_inv late s" by (rule coord_inv_reachable [OF assms(1) fresh_tabs_inv assms(2)])
  with assms(3,4) have "holds_lease late s i (Refreshing observed since)" by (metis coord_inv_def)
  then have "completed s \<le> observed" by (simp add: holds_lease_def)
  moreover have "j = i" if "j < length (tabs s)" "tabs s ! j = Refreshing o' since'" for j o' since'
    using only_owner [OF inv assms(3) _ that(1)] assms(4) that(2) by (auto simp: active_def)
  ultimately show ?thesis by blast
qed

definition stuck :: "tab \<Rightarrow> bool" where
  "stuck t = (case t of NotAsked \<Rightarrow> True | Sleeping _ _ \<Rightarrow> True | Claimed _ _ \<Rightarrow> True | _ \<Rightarrow> False)"

lemma stuck_step:
  assumes "coordinateAuthRefresh late s t" and "storage_denied s" and "list_all stuck (tabs s)"
  shows "storage_denied t \<and> list_all stuck (tabs t)"
proof -
  have upd: "list_all stuck ((tabs s)[i := x])" if "stuck x" for i x
    using assms(3) that by (auto simp: list_all_iff dest: set_update_subset_insert [THEN subsetD])
  have att: "attempt i observed s = set_tab i (Claimed observed (clock s + AUTH_REFRESH_WAIT_MS)) s" for i observed
    using assms(2) by (simp add: attempt_def marker_def lease_free_def read_lease_def write_lease_def)
  have con: "confirm i observed s = set_tab i (Sleeping observed (clock s + AUTH_REFRESH_WAIT_MS)) s" for i observed
    using assms(2) by (simp add: confirm_def read_lease_def)
  from assms(1) show ?thesis
  proof cases
    case (refreshed i observed since ok)
    with assms(3) show ?thesis by (auto simp: list_all_length stuck_def)
  qed (use assms(2,3) upd in \<open>auto simp: att con stuck_def\<close>)
qed

text \<open>
  C40. When the storage refuses access and there is no lock manager, no tab ever refreshes nor returns:
  whatever happens, every tab has not asked yet or sleeps, and a call that waits for the refresh never
  settles.
\<close>

theorem refresh_hangs_without_storage:
  assumes "(coordinateAuthRefresh late)\<^sup>*\<^sup>* (fresh_tabs n now True done) s"
  shows "list_all stuck (tabs s)"
proof -
  have "storage_denied s \<and> list_all stuck (tabs s)"
    using assms
  proof (induction rule: rtranclp_induct)
    case base
    show ?case by (simp add: fresh_tabs_def stuck_def list_all_iff)
  qed (use stuck_step in blast)
  then show ?thesis by simp
qed

text \<open>Two tabs ask at the same time; the first claims, waits and refreshes while the second sleeps.\<close>

definition sample_two :: coord where
  "sample_two = \<lparr>clock = 150, storage_denied = False, lease = Some (0, 12100), completed = 7,
     tabs = [Refreshing 7 150, Sleeping 7 150]\<rparr>"

lemma sample_two_reached: "(coordinateAuthRefresh 0)\<^sup>*\<^sup>* (fresh_tabs 2 100 False 7) sample_two"
proof -
  define s0 where "s0 = \<lparr>clock = 100, storage_denied = False, lease = None, completed = 7, tabs = [NotAsked, NotAsked]\<rparr>"
  define s1 where "s1 = s0\<lparr>lease := Some (0, 12100), tabs := [Claimed 7 150, NotAsked]\<rparr>"
  define s2 where "s2 = s1\<lparr>tabs := [Claimed 7 150, Sleeping 7 150]\<rparr>"
  define s3 where "s3 = s2\<lparr>clock := clock s2 + 50\<rparr>"
  note defs = s0_def s1_def s2_def s3_def attempt_def confirm_def set_tab_def marker_def lease_free_def read_lease_def
    write_lease_def AUTH_REFRESH_LEASE_MS_def AUTH_REFRESH_WAIT_MS_def in_time_def sample_two_def
  have "attempt 0 (marker s0) s0 = s1" "attempt 1 (marker s1) s1 = s2" "confirm 0 7 s3 = sample_two" by (simp_all add: defs)
  then have "coordinateAuthRefresh 0 s0 s1" "coordinateAuthRefresh 0 s1 s2" "coordinateAuthRefresh 0 s3 sample_two"
    using ask [of 0 s0 0] ask [of 1 s1 0] confirmed [of 0 s3 7 150 0] by (simp_all add: defs)
  moreover have "coordinateAuthRefresh 0 s2 s3" unfolding s3_def by (rule tick) (simp add: defs)
  moreover have "fresh_tabs 2 100 False 7 = s0" by (simp add: fresh_tabs_def s0_def numeral_2_eq_2)
  ultimately show ?thesis by (meson r_into_rtranclp rtranclp_trans)
qed

theorem one_tab_refreshes_witness:
  "tabs sample_two ! 0 = Refreshing 7 150 \<and> completed sample_two \<le> 7"
proof -
  have "0 < length (tabs sample_two)" "tabs sample_two ! 0 = Refreshing 7 150" by (simp_all add: sample_two_def)
  with one_tab_refreshes [OF sample_two_reached, of 0] show ?thesis by simp
qed

theorem refresh_hangs_without_storage_witness:
  "list_all stuck (tabs (attempt 0 0 (fresh_tabs 1 100 True 0)))"
proof -
  have "coordinateAuthRefresh 0 (fresh_tabs 1 100 True 0) (attempt 0 (marker (fresh_tabs 1 100 True 0)) (fresh_tabs 1 100 True 0))"
    by (rule ask) (simp_all add: fresh_tabs_def)
  then have "(coordinateAuthRefresh 0)\<^sup>*\<^sup>* (fresh_tabs 1 100 True 0) (attempt 0 0 (fresh_tabs 1 100 True 0))"
    by (simp add: marker_def fresh_tabs_def)
  then show ?thesis by (rule refresh_hangs_without_storage)
qed

end
