(* ===== verification/Filter_Details.thy ===== *)
theory Filter_Details
  imports Bucket_Presentation
begin

text \<open>
  \<open>frontend/src/features/cephAdmin/filtering/bucketAdvancedFilter.ts\<close>: the detailed filters of the bucket
  listing, the rules they send, the summary the page shows and the removal of one of them. The filters
  are an object with string values, here a function of the key. The rules and the summary are two long
  lists of cases in the source; they are shown to be two readings of one table of rows, and what
  relates them is proved once for a row.
\<close>

section \<open>The filters\<close>

type_synonym FeatureDetailFilterKey = string
type_synonym FeatureDetailFilters = "FeatureDetailFilterKey \<Rightarrow> string"
type_synonym feature_support = "string \<Rightarrow> bool option"

definition TRI_STATES :: "string list" where
  "TRI_STATES = [''any'', ''true'', ''false'']"

definition LIFECYCLE_NAME_MODES :: "string list" where
  "LIFECYCLE_NAME_MODES = [''any'', ''has_named'', ''has_not_named'']"

definition LIFECYCLE_RULE_STATUSES :: "string list" where
  "LIFECYCLE_RULE_STATUSES = [''Enabled'', ''Disabled'']"

definition PRESENCE_MODES :: "string list" where
  "PRESENCE_MODES = [''any'', ''has'', ''has_not'']"

definition NUMERIC_UI_TO_RULE_OP :: "(string \<times> string) list" where
  "NUMERIC_UI_TO_RULE_OP = [(''='', ''eq''), (''!='', ''neq''), (''>'', ''gt''), (''>='', ''gte''), (''<'', ''lt''), (''<='', ''lte'')]"

definition NUMERIC_UI_OPS :: "string list" where
  "NUMERIC_UI_OPS = [''='', ''!='', ''>'', ''>='', ''<'', ''<='']"

definition LIFECYCLE_RULE_TYPES :: "string list" where
  "LIFECYCLE_RULE_TYPES = [''expiration'', ''delete_markers'', ''noncurrent_expiration'', ''abort_multipart'',
     ''transition'', ''noncurrent_transition'']"

definition LIFECYCLE_RULE_TYPE_LABELS :: "(string \<times> string) list" where
  "LIFECYCLE_RULE_TYPE_LABELS = [(''expiration'', ''Expiration (current versions)''),
     (''delete_markers'', ''Expired object delete markers''),
     (''noncurrent_expiration'', ''Expiration (noncurrent versions)''),
     (''abort_multipart'', ''Abort incomplete multipart uploads''), (''transition'', ''Transitions''),
     (''noncurrent_transition'', ''Noncurrent transitions'')]"

definition NOTIFICATION_RULE_TYPES :: "string list" where
  "NOTIFICATION_RULE_TYPES = [''topic'', ''queue'', ''lambda'']"

definition OBJECT_LOCK_MODES :: "string list" where
  "OBJECT_LOCK_MODES = [[], ''GOVERNANCE'', ''COMPLIANCE'']"

definition notificationFeatureDetailFilterKeys :: "FeatureDetailFilterKey list" where
  "notificationFeatureDetailFilterKeys = [''notificationRuleId'', ''notificationRuleTypeMode'', ''notificationRuleTypeValue'',
     ''notificationTopicName'', ''notificationEventMode'', ''notificationEventValue'', ''notificationFilterPrefixMode'',
     ''notificationFilterPrefixValue'', ''notificationFilterSuffixMode'', ''notificationFilterSuffixValue'',
     ''notificationEventBridgePresent'']"

definition sseFeatureDetailFilterKeys :: "FeatureDetailFilterKey list" where
  "sseFeatureDetailFilterKeys = [''sseAlgorithm'', ''sseKmsKeyId'']"

text \<open>Every field with what it admits and its default.\<close>

datatype field_domain = FreeText | Choice "string list"

definition detail_fields :: "(FeatureDetailFilterKey \<times> field_domain \<times> string) list" where
  "detail_fields = [
    (''lifecycleRuleNameMode'', Choice LIFECYCLE_NAME_MODES, ''any''), (''lifecycleRuleName'', FreeText, []),
     (''lifecycleRuleStatus'', Choice LIFECYCLE_RULE_STATUSES, []),
     (''lifecycleRuleTypeMode'', Choice PRESENCE_MODES, ''any''),
     (''lifecycleRuleTypeValue'', Choice LIFECYCLE_RULE_TYPES, []),
     (''lifecycleExpirationDaysOp'', Choice NUMERIC_UI_OPS, ''=''), (''lifecycleExpirationDays'', FreeText, []),
     (''lifecycleNoncurrentExpirationDaysOp'', Choice NUMERIC_UI_OPS, ''=''),
     (''lifecycleNoncurrentExpirationDays'', FreeText, []),
     (''lifecycleTransitionDaysOp'', Choice NUMERIC_UI_OPS, ''=''), (''lifecycleTransitionDays'', FreeText, []),
     (''lifecycleAbortDaysOp'', Choice NUMERIC_UI_OPS, ''=''), (''lifecycleAbortDays'', FreeText, []),
     (''objectLockMode'', Choice OBJECT_LOCK_MODES, []), (''objectLockRetentionOp'', Choice NUMERIC_UI_OPS, ''>=''),
     (''objectLockRetentionDays'', FreeText, []), (''objectLockRetentionYearsOp'', Choice NUMERIC_UI_OPS, ''>=''),
     (''objectLockRetentionYears'', FreeText, []), (''bpaBlockPublicAcls'', Choice TRI_STATES, ''any''),
     (''bpaIgnorePublicAcls'', Choice TRI_STATES, ''any''), (''bpaBlockPublicPolicy'', Choice TRI_STATES, ''any''),
     (''bpaRestrictPublicBuckets'', Choice TRI_STATES, ''any''), (''corsMethodMode'', Choice PRESENCE_MODES, ''any''),
     (''corsMethodValue'', FreeText, []), (''corsOriginMode'', Choice PRESENCE_MODES, ''any''),
     (''corsOriginValue'', FreeText, []), (''loggingEnabled'', Choice TRI_STATES, ''any''),
     (''loggingTargetBucket'', FreeText, []), (''loggingTargetPrefix'', FreeText, []),
     (''websiteIndexPresent'', Choice TRI_STATES, ''any''), (''websiteIndexDocument'', FreeText, []),
     (''websiteErrorDocument'', FreeText, []), (''websiteRedirectHostPresent'', Choice TRI_STATES, ''any''),
     (''websiteRedirectHost'', FreeText, []), (''websiteRoutingRuleCountOp'', Choice NUMERIC_UI_OPS, ''>=''),
     (''websiteRoutingRuleCount'', FreeText, []), (''policyStatementOp'', Choice NUMERIC_UI_OPS, ''>=''),
     (''policyStatementCount'', FreeText, []), (''policyHasConditions'', Choice TRI_STATES, ''any''),
     (''notificationRuleId'', FreeText, []), (''notificationRuleTypeMode'', Choice PRESENCE_MODES, ''any''),
     (''notificationRuleTypeValue'', Choice NOTIFICATION_RULE_TYPES, []), (''notificationTopicName'', FreeText, []),
     (''notificationEventMode'', Choice PRESENCE_MODES, ''any''), (''notificationEventValue'', FreeText, []),
     (''notificationFilterPrefixMode'', Choice PRESENCE_MODES, ''any''),
     (''notificationFilterPrefixValue'', FreeText, []),
     (''notificationFilterSuffixMode'', Choice PRESENCE_MODES, ''any''),
     (''notificationFilterSuffixValue'', FreeText, []),
     (''notificationEventBridgePresent'', Choice TRI_STATES, ''any''), (''sseAlgorithm'', FreeText, []),
     (''sseKmsKeyId'', FreeText, [])]"

definition defaultFeatureDetailFilters :: FeatureDetailFilters where
  "defaultFeatureDetailFilters k = (case map_of detail_fields k of Some (_, d) \<Rightarrow> d | None \<Rightarrow> [])"

definition asString :: "json option \<Rightarrow> string" where
  "asString v = (case v of Some (JStr s) \<Rightarrow> s | _ \<Rightarrow> [])"

definition sanitizeChoice :: "json option \<Rightarrow> string list \<Rightarrow> string \<Rightarrow> string" where
  "sanitizeChoice v allowed fallback = (case v of Some (JStr s) \<Rightarrow> (if s \<in> set allowed then s else fallback) | _ \<Rightarrow> fallback)"

definition sanitize_field :: "json option \<Rightarrow> field_domain \<Rightarrow> string \<Rightarrow> string" where
  "sanitize_field v dm d = (case dm of FreeText \<Rightarrow> asString v | Choice allowed \<Rightarrow> sanitizeChoice v allowed d)"

text \<open>A value that is not an object, or an array, has none of the fields: every one falls back to its default.\<close>

definition sanitizeFeatureDetailFilters :: "json option \<Rightarrow> FeatureDetailFilters" where
  "sanitizeFeatureDetailFilters value k = (case map_of detail_fields k of
     Some (dm, d) \<Rightarrow> sanitize_field (jmember value k) dm d | None \<Rightarrow> [])"

section \<open>The rules\<close>

definition detail_rule :: "string \<Rightarrow> string \<Rightarrow> string \<Rightarrow> json \<Rightarrow> jrec" where
  "detail_rule feature param op v = [(''feature'', JStr feature), (''param'', JStr param), (''op'', JStr op), (''value'', v)]"

definition pushTriStateRule :: "string \<Rightarrow> string \<Rightarrow> string \<Rightarrow> jrec list" where
  "pushTriStateRule triState feature param =
     (if triState = ''any'' then [] else [detail_rule feature param ''eq'' (JBool (triState = ''true''))])"

text \<open>An operator outside the table has no rule operator: the entry is \<open>undefined\<close> and is not sent.\<close>

definition pushNumericRule :: "string \<Rightarrow> string \<Rightarrow> string \<Rightarrow> string \<Rightarrow> jrec list" where
  "pushNumericRule rawValue op feature param =
     (let trimmed = trim rawValue in
      if trimmed = [] then []
      else case js_Number trimmed of
        Fin q \<Rightarrow> [[(''feature'', JStr feature), (''param'', JStr param)]
          @ (case map_of NUMERIC_UI_TO_RULE_OP op of Some o' \<Rightarrow> [(''op'', JStr o')] | None \<Rightarrow> [])
          @ [(''value'', JNum (Fin q))]]
      | _ \<Rightarrow> [])"

definition pushTextRule :: "string \<Rightarrow> string \<Rightarrow> string \<Rightarrow> string \<Rightarrow> jrec list" where
  "pushTextRule rawValue feature param op =
     (let v = trim rawValue in if v = [] then [] else [detail_rule feature param op (JStr v)])"

definition has_op :: "string \<Rightarrow> string" where
  "has_op mode = (if mode = ''has'' then ''has'' else ''has_not'')"

definition pushPresenceRule :: "string \<Rightarrow> string \<Rightarrow> string \<Rightarrow> string \<Rightarrow> jrec list" where
  "pushPresenceRule mode rawValue feature param =
     (if mode = ''any'' then []
      else let v = trim rawValue in if v = [] then [] else [detail_rule feature param (has_op mode) (JStr v)])"

text \<open>The cases that are written out in \<open>buildFeatureDetailRules\<close>: the name of a rule, a choice, a type.\<close>

definition name_rule :: "string \<Rightarrow> string \<Rightarrow> jrec list" where
  "name_rule mode rawValue =
     (let v = trim rawValue in
      if mode \<noteq> ''any'' \<and> v \<noteq> []
      then [detail_rule ''lifecycle_rules'' ''lifecycle_rule_id'' ''eq'' (JStr v)
              @ (if mode = ''has_not_named'' then [(''quantifier'', JStr ''none'')] else [])]
      else [])"

definition choice_rule :: "string \<Rightarrow> string \<Rightarrow> string \<Rightarrow> jrec list" where
  "choice_rule v feature param = (if v = [] then [] else [detail_rule feature param ''eq'' (JStr v)])"

definition type_rule :: "string \<Rightarrow> string \<Rightarrow> string \<Rightarrow> string \<Rightarrow> jrec list" where
  "type_rule mode v feature param =
     (if mode \<noteq> ''any'' \<and> v \<noteq> [] then [detail_rule feature param (has_op mode) (JStr v)] else [])"

definition buildFeatureDetailRules :: "FeatureDetailFilters \<Rightarrow> feature_support \<Rightarrow> jrec list" where
  "buildFeatureDetailRules f featureSupport =
     name_rule (f ''lifecycleRuleNameMode'') (f ''lifecycleRuleName'')
     @ choice_rule (f ''lifecycleRuleStatus'') ''lifecycle_rules'' ''lifecycle_rule_status''
     @ type_rule (f ''lifecycleRuleTypeMode'') (f ''lifecycleRuleTypeValue'') ''lifecycle_rules'' ''lifecycle_rule_type''
     @ pushNumericRule (f ''lifecycleExpirationDays'') (f ''lifecycleExpirationDaysOp'') ''lifecycle_rules'' ''lifecycle_expiration_days''
     @ pushNumericRule (f ''lifecycleNoncurrentExpirationDays'') (f ''lifecycleNoncurrentExpirationDaysOp'')
         ''lifecycle_rules'' ''lifecycle_noncurrent_expiration_days''
     @ pushNumericRule (f ''lifecycleTransitionDays'') (f ''lifecycleTransitionDaysOp'') ''lifecycle_rules'' ''lifecycle_transition_days''
     @ pushNumericRule (f ''lifecycleAbortDays'') (f ''lifecycleAbortDaysOp'') ''lifecycle_rules'' ''lifecycle_abort_multipart_days''
     @ choice_rule (f ''objectLockMode'') ''object_lock'' ''object_lock_mode''
     @ pushNumericRule (f ''objectLockRetentionDays'') (f ''objectLockRetentionOp'') ''object_lock'' ''object_lock_retention_days''
     @ pushNumericRule (f ''objectLockRetentionYears'') (f ''objectLockRetentionYearsOp'') ''object_lock'' ''object_lock_retention_years''
     @ pushTriStateRule (f ''bpaBlockPublicAcls'') ''block_public_access'' ''bpa_block_public_acls''
     @ pushTriStateRule (f ''bpaIgnorePublicAcls'') ''block_public_access'' ''bpa_ignore_public_acls''
     @ pushTriStateRule (f ''bpaBlockPublicPolicy'') ''block_public_access'' ''bpa_block_public_policy''
     @ pushTriStateRule (f ''bpaRestrictPublicBuckets'') ''block_public_access'' ''bpa_restrict_public_buckets''
     @ pushPresenceRule (f ''corsMethodMode'') (f ''corsMethodValue'') ''cors'' ''cors_allowed_method''
     @ pushPresenceRule (f ''corsOriginMode'') (f ''corsOriginValue'') ''cors'' ''cors_allowed_origin''
     @ pushTriStateRule (f ''loggingEnabled'') ''access_logging'' ''logging_enabled''
     @ pushTextRule (f ''loggingTargetBucket'') ''access_logging'' ''logging_target_bucket'' ''eq''
     @ pushTextRule (f ''loggingTargetPrefix'') ''access_logging'' ''logging_target_prefix'' ''contains''
     @ pushTriStateRule (f ''websiteIndexPresent'') ''static_website'' ''website_index_present''
     @ pushTextRule (f ''websiteIndexDocument'') ''static_website'' ''website_index_document'' ''contains''
     @ pushTextRule (f ''websiteErrorDocument'') ''static_website'' ''website_error_document'' ''contains''
     @ pushTriStateRule (f ''websiteRedirectHostPresent'') ''static_website'' ''website_redirect_host_present''
     @ pushTextRule (f ''websiteRedirectHost'') ''static_website'' ''website_redirect_host'' ''contains''
     @ pushNumericRule (f ''websiteRoutingRuleCount'') (f ''websiteRoutingRuleCountOp'') ''static_website'' ''website_routing_rule_count''
     @ pushNumericRule (f ''policyStatementCount'') (f ''policyStatementOp'') ''bucket_policy'' ''policy_statement_count''
     @ pushTriStateRule (f ''policyHasConditions'') ''bucket_policy'' ''policy_has_conditions''
     @ (if featureSupport ''notifications'' = Some False then []
        else pushTextRule (f ''notificationRuleId'') ''notifications'' ''notification_rule_id'' ''contains''
          @ type_rule (f ''notificationRuleTypeMode'') (f ''notificationRuleTypeValue'') ''notifications'' ''notification_rule_type''
          @ pushTextRule (f ''notificationTopicName'') ''notifications'' ''notification_topic_name'' ''contains''
          @ pushPresenceRule (f ''notificationEventMode'') (f ''notificationEventValue'') ''notifications'' ''notification_event''
          @ pushPresenceRule (f ''notificationFilterPrefixMode'') (f ''notificationFilterPrefixValue'')
              ''notifications'' ''notification_filter_prefix''
          @ pushPresenceRule (f ''notificationFilterSuffixMode'') (f ''notificationFilterSuffixValue'')
              ''notifications'' ''notification_filter_suffix''
          @ pushTriStateRule (f ''notificationEventBridgePresent'') ''notifications'' ''notification_eventbridge_present'')
     @ (if featureSupport ''server_side_encryption'' = Some False then []
        else pushTextRule (f ''sseAlgorithm'') ''server_side_encryption'' ''sse_algorithm'' ''contains''
          @ pushTextRule (f ''sseKmsKeyId'') ''server_side_encryption'' ''sse_kms_key_id'' ''contains'')"

definition hasFeatureDetailFilters :: "FeatureDetailFilters \<Rightarrow> feature_support \<Rightarrow> bool" where
  "hasFeatureDetailFilters f featureSupport \<longleftrightarrow> length (buildFeatureDetailRules f featureSupport) > 0"

section \<open>The summary\<close>

type_synonym detail_item = "FeatureDetailFilterKey \<times> string"

definition name_item :: "string \<Rightarrow> string \<Rightarrow> detail_item list" where
  "name_item mode rawValue = (let v = trim rawValue in
     (if mode = ''has_named'' \<and> v \<noteq> [] then [(''lifecycleRuleName'', ''Lifecycle rule name: '' @ v)] else [])
     @ (if mode = ''has_not_named'' \<and> v \<noteq> [] then [(''lifecycleRuleName'', ''Lifecycle rule name absent: '' @ v)] else []))"

definition choice_item :: "string \<Rightarrow> FeatureDetailFilterKey \<Rightarrow> string \<Rightarrow> detail_item list" where
  "choice_item v field label = (if v = [] then [] else [(field, label @ '': '' @ v)])"

definition type_item :: "string \<Rightarrow> string \<Rightarrow> string \<Rightarrow> FeatureDetailFilterKey \<Rightarrow> string \<Rightarrow> detail_item list" where
  "type_item mode v shown field label =
     (if mode \<noteq> ''any'' \<and> v \<noteq> [] then [(field, label @ '' '' @ mode @ '': '' @ shown)] else [])"

definition numeric_item :: "string \<Rightarrow> string \<Rightarrow> FeatureDetailFilterKey \<Rightarrow> string \<Rightarrow> detail_item list" where
  "numeric_item rawValue op field label =
     (if trim rawValue = [] then [] else [(field, label @ '' '' @ op @ '' '' @ trim rawValue)])"

definition tri_item :: "string \<Rightarrow> FeatureDetailFilterKey \<Rightarrow> string \<Rightarrow> detail_item list" where
  "tri_item v field label = (if v = ''any'' then [] else [(field, label @ '': '' @ v)])"

definition text_item :: "string \<Rightarrow> FeatureDetailFilterKey \<Rightarrow> string \<Rightarrow> detail_item list" where
  "text_item rawValue field label = (if trim rawValue = [] then [] else [(field, label @ '': '' @ trim rawValue)])"

definition presence_item :: "string \<Rightarrow> string \<Rightarrow> FeatureDetailFilterKey \<Rightarrow> string \<Rightarrow> detail_item list" where
  "presence_item mode rawValue field label =
     (if mode \<noteq> ''any'' \<and> trim rawValue \<noteq> [] then [(field, label @ '' '' @ mode @ '': '' @ trim rawValue)] else [])"

definition type_label :: "string \<Rightarrow> string" where
  "type_label v = (case map_of LIFECYCLE_RULE_TYPE_LABELS v of Some l \<Rightarrow> l | None \<Rightarrow> v)"

definition featureDetailSummaryItems :: "FeatureDetailFilters \<Rightarrow> detail_item list" where
  "featureDetailSummaryItems f =
     name_item (f ''lifecycleRuleNameMode'') (f ''lifecycleRuleName'')
     @ choice_item (f ''lifecycleRuleStatus'') ''lifecycleRuleStatus'' ''Lifecycle rule status''
     @ type_item (f ''lifecycleRuleTypeMode'') (f ''lifecycleRuleTypeValue'') (type_label (f ''lifecycleRuleTypeValue''))
         ''lifecycleRuleTypeValue'' ''Lifecycle rule type''
     @ numeric_item (f ''lifecycleAbortDays'') (f ''lifecycleAbortDaysOp'') ''lifecycleAbortDays'' ''Lifecycle abort days''
     @ numeric_item (f ''lifecycleExpirationDays'') (f ''lifecycleExpirationDaysOp'') ''lifecycleExpirationDays'' ''Lifecycle expiration days''
     @ numeric_item (f ''lifecycleNoncurrentExpirationDays'') (f ''lifecycleNoncurrentExpirationDaysOp'')
         ''lifecycleNoncurrentExpirationDays'' ''Lifecycle noncurrent expiration days''
     @ numeric_item (f ''lifecycleTransitionDays'') (f ''lifecycleTransitionDaysOp'') ''lifecycleTransitionDays'' ''Lifecycle transition days''
     @ choice_item (f ''objectLockMode'') ''objectLockMode'' ''Object Lock mode''
     @ numeric_item (f ''objectLockRetentionDays'') (f ''objectLockRetentionOp'') ''objectLockRetentionDays'' ''Object Lock retention days''
     @ numeric_item (f ''objectLockRetentionYears'') (f ''objectLockRetentionYearsOp'') ''objectLockRetentionYears''
         ''Object Lock retention years''
     @ tri_item (f ''bpaBlockPublicAcls'') ''bpaBlockPublicAcls'' ''BPA block public ACLs''
     @ tri_item (f ''bpaIgnorePublicAcls'') ''bpaIgnorePublicAcls'' ''BPA ignore public ACLs''
     @ tri_item (f ''bpaBlockPublicPolicy'') ''bpaBlockPublicPolicy'' ''BPA block public policy''
     @ tri_item (f ''bpaRestrictPublicBuckets'') ''bpaRestrictPublicBuckets'' ''BPA restrict public buckets''
     @ presence_item (f ''corsMethodMode'') (f ''corsMethodValue'') ''corsMethodValue'' ''CORS method''
     @ presence_item (f ''corsOriginMode'') (f ''corsOriginValue'') ''corsOriginValue'' ''CORS origin''
     @ tri_item (f ''loggingEnabled'') ''loggingEnabled'' ''Logging enabled''
     @ text_item (f ''loggingTargetBucket'') ''loggingTargetBucket'' ''Logging target bucket''
     @ text_item (f ''loggingTargetPrefix'') ''loggingTargetPrefix'' ''Logging target prefix contains''
     @ tri_item (f ''websiteIndexPresent'') ''websiteIndexPresent'' ''Website index present''
     @ text_item (f ''websiteIndexDocument'') ''websiteIndexDocument'' ''Website index document contains''
     @ text_item (f ''websiteErrorDocument'') ''websiteErrorDocument'' ''Website error document contains''
     @ tri_item (f ''websiteRedirectHostPresent'') ''websiteRedirectHostPresent'' ''Website redirect host present''
     @ text_item (f ''websiteRedirectHost'') ''websiteRedirectHost'' ''Website redirect host contains''
     @ numeric_item (f ''websiteRoutingRuleCount'') (f ''websiteRoutingRuleCountOp'') ''websiteRoutingRuleCount'' ''Website routing rules''
     @ numeric_item (f ''policyStatementCount'') (f ''policyStatementOp'') ''policyStatementCount'' ''Policy statements''
     @ tri_item (f ''policyHasConditions'') ''policyHasConditions'' ''Policy has conditions''
     @ text_item (f ''notificationRuleId'') ''notificationRuleId'' ''Notification rule ID contains''
     @ type_item (f ''notificationRuleTypeMode'') (f ''notificationRuleTypeValue'') (f ''notificationRuleTypeValue'')
         ''notificationRuleTypeValue'' ''Notification rule type''
     @ text_item (f ''notificationTopicName'') ''notificationTopicName'' ''Notification topic contains''
     @ presence_item (f ''notificationEventMode'') (f ''notificationEventValue'') ''notificationEventValue'' ''Notification event''
     @ presence_item (f ''notificationFilterPrefixMode'') (f ''notificationFilterPrefixValue'') ''notificationFilterPrefixValue''
         ''Notification prefix''
     @ presence_item (f ''notificationFilterSuffixMode'') (f ''notificationFilterSuffixValue'') ''notificationFilterSuffixValue''
         ''Notification suffix''
     @ tri_item (f ''notificationEventBridgePresent'') ''notificationEventBridgePresent'' ''Notification EventBridge present''
     @ text_item (f ''sseAlgorithm'') ''sseAlgorithm'' ''SSE algorithm contains''
     @ text_item (f ''sseKmsKeyId'') ''sseKmsKeyId'' ''SSE KMS key contains''"

definition featureDetailSummary :: "FeatureDetailFilters \<Rightarrow> string list" where
  "featureDetailSummary f = map snd (featureDetailSummaryItems f)"

definition clearFeatureDetailField :: "FeatureDetailFilters \<Rightarrow> FeatureDetailFilterKey \<Rightarrow> FeatureDetailFilters" where
  "clearFeatureDetailField f key = f(key := defaultFeatureDetailFilters key)"

section \<open>One table for both\<close>

text \<open>
  A row is one filter: the field that removes it, the fields it reads, the feature and the parameter of
  its rule, the rule it sends and the item it shows.
\<close>

record detail_row =
  row_field :: FeatureDetailFilterKey
  row_reads :: "FeatureDetailFilterKey list"
  row_feature :: string
  row_param :: string
  row_rule :: "FeatureDetailFilters \<Rightarrow> jrec list"
  row_item :: "FeatureDetailFilters \<Rightarrow> detail_item list"

definition name_row :: detail_row where
  "name_row = \<lparr>row_field = ''lifecycleRuleName'', row_reads = [''lifecycleRuleNameMode'', ''lifecycleRuleName''],
     row_feature = ''lifecycle_rules'', row_param = ''lifecycle_rule_id'',
     row_rule = (\<lambda>f. name_rule (f ''lifecycleRuleNameMode'') (f ''lifecycleRuleName'')),
     row_item = (\<lambda>f. name_item (f ''lifecycleRuleNameMode'') (f ''lifecycleRuleName''))\<rparr>"

definition choice_row :: "string \<Rightarrow> string \<Rightarrow> string \<Rightarrow> string \<Rightarrow> detail_row" where
  "choice_row field label feature param = \<lparr>row_field = field, row_reads = [field], row_feature = feature, row_param = param,
     row_rule = (\<lambda>f. choice_rule (f field) feature param), row_item = (\<lambda>f. choice_item (f field) field label)\<rparr>"

definition type_row :: "string \<Rightarrow> string \<Rightarrow> (string \<Rightarrow> string) \<Rightarrow> string \<Rightarrow> string \<Rightarrow> string \<Rightarrow> detail_row" where
  "type_row mode field shown label feature param = \<lparr>row_field = field, row_reads = [mode, field], row_feature = feature, row_param = param,
     row_rule = (\<lambda>f. type_rule (f mode) (f field) feature param),
     row_item = (\<lambda>f. type_item (f mode) (f field) (shown (f field)) field label)\<rparr>"

definition numeric_row :: "string \<Rightarrow> string \<Rightarrow> string \<Rightarrow> string \<Rightarrow> string \<Rightarrow> detail_row" where
  "numeric_row field op label feature param = \<lparr>row_field = field, row_reads = [field, op], row_feature = feature, row_param = param,
     row_rule = (\<lambda>f. pushNumericRule (f field) (f op) feature param), row_item = (\<lambda>f. numeric_item (f field) (f op) field label)\<rparr>"

definition tri_row :: "string \<Rightarrow> string \<Rightarrow> string \<Rightarrow> string \<Rightarrow> detail_row" where
  "tri_row field label feature param = \<lparr>row_field = field, row_reads = [field], row_feature = feature, row_param = param,
     row_rule = (\<lambda>f. pushTriStateRule (f field) feature param), row_item = (\<lambda>f. tri_item (f field) field label)\<rparr>"

definition text_row :: "string \<Rightarrow> string \<Rightarrow> string \<Rightarrow> string \<Rightarrow> string \<Rightarrow> detail_row" where
  "text_row field label feature param op = \<lparr>row_field = field, row_reads = [field], row_feature = feature, row_param = param,
     row_rule = (\<lambda>f. pushTextRule (f field) feature param op), row_item = (\<lambda>f. text_item (f field) field label)\<rparr>"

definition presence_row :: "string \<Rightarrow> string \<Rightarrow> string \<Rightarrow> string \<Rightarrow> string \<Rightarrow> detail_row" where
  "presence_row mode field label feature param = \<lparr>row_field = field, row_reads = [mode, field], row_feature = feature, row_param = param,
     row_rule = (\<lambda>f. pushPresenceRule (f mode) (f field) feature param),
     row_item = (\<lambda>f. presence_item (f mode) (f field) field label)\<rparr>"

lemmas row_defs = name_row_def choice_row_def type_row_def numeric_row_def tri_row_def text_row_def presence_row_def

definition lifecycle_rows :: "detail_row list" where
  "lifecycle_rows = [
     numeric_row ''lifecycleExpirationDays'' ''lifecycleExpirationDaysOp'' ''Lifecycle expiration days''
       ''lifecycle_rules'' ''lifecycle_expiration_days'',
     numeric_row ''lifecycleNoncurrentExpirationDays'' ''lifecycleNoncurrentExpirationDaysOp''
       ''Lifecycle noncurrent expiration days'' ''lifecycle_rules'' ''lifecycle_noncurrent_expiration_days'',
     numeric_row ''lifecycleTransitionDays'' ''lifecycleTransitionDaysOp'' ''Lifecycle transition days''
       ''lifecycle_rules'' ''lifecycle_transition_days'']"

definition abort_row :: detail_row where
  "abort_row = numeric_row ''lifecycleAbortDays'' ''lifecycleAbortDaysOp'' ''Lifecycle abort days''
     ''lifecycle_rules'' ''lifecycle_abort_multipart_days''"

definition first_rows :: "detail_row list" where
  "first_rows = [name_row,
     choice_row ''lifecycleRuleStatus'' ''Lifecycle rule status'' ''lifecycle_rules'' ''lifecycle_rule_status'',
     type_row ''lifecycleRuleTypeMode'' ''lifecycleRuleTypeValue'' type_label ''Lifecycle rule type''
       ''lifecycle_rules'' ''lifecycle_rule_type'']"

definition later_rows :: "detail_row list" where
  "later_rows = [
     choice_row ''objectLockMode'' ''Object Lock mode'' ''object_lock'' ''object_lock_mode'',
     numeric_row ''objectLockRetentionDays'' ''objectLockRetentionOp'' ''Object Lock retention days'' ''object_lock'' ''object_lock_retention_days'',
     numeric_row ''objectLockRetentionYears'' ''objectLockRetentionYearsOp'' ''Object Lock retention years'' ''object_lock'' ''object_lock_retention_years'',
     tri_row ''bpaBlockPublicAcls'' ''BPA block public ACLs'' ''block_public_access'' ''bpa_block_public_acls'',
     tri_row ''bpaIgnorePublicAcls'' ''BPA ignore public ACLs'' ''block_public_access'' ''bpa_ignore_public_acls'',
     tri_row ''bpaBlockPublicPolicy'' ''BPA block public policy'' ''block_public_access'' ''bpa_block_public_policy'',
     tri_row ''bpaRestrictPublicBuckets'' ''BPA restrict public buckets'' ''block_public_access'' ''bpa_restrict_public_buckets'',
     presence_row ''corsMethodMode'' ''corsMethodValue'' ''CORS method'' ''cors'' ''cors_allowed_method'',
     presence_row ''corsOriginMode'' ''corsOriginValue'' ''CORS origin'' ''cors'' ''cors_allowed_origin'',
     tri_row ''loggingEnabled'' ''Logging enabled'' ''access_logging'' ''logging_enabled'',
     text_row ''loggingTargetBucket'' ''Logging target bucket'' ''access_logging'' ''logging_target_bucket'' ''eq'',
     text_row ''loggingTargetPrefix'' ''Logging target prefix contains'' ''access_logging'' ''logging_target_prefix'' ''contains'',
     tri_row ''websiteIndexPresent'' ''Website index present'' ''static_website'' ''website_index_present'',
     text_row ''websiteIndexDocument'' ''Website index document contains'' ''static_website'' ''website_index_document'' ''contains'',
     text_row ''websiteErrorDocument'' ''Website error document contains'' ''static_website'' ''website_error_document'' ''contains'',
     tri_row ''websiteRedirectHostPresent'' ''Website redirect host present'' ''static_website'' ''website_redirect_host_present'',
     text_row ''websiteRedirectHost'' ''Website redirect host contains'' ''static_website'' ''website_redirect_host'' ''contains'',
     numeric_row ''websiteRoutingRuleCount'' ''websiteRoutingRuleCountOp'' ''Website routing rules'' ''static_website'' ''website_routing_rule_count'',
     numeric_row ''policyStatementCount'' ''policyStatementOp'' ''Policy statements'' ''bucket_policy'' ''policy_statement_count'',
     tri_row ''policyHasConditions'' ''Policy has conditions'' ''bucket_policy'' ''policy_has_conditions'',
     text_row ''notificationRuleId'' ''Notification rule ID contains'' ''notifications'' ''notification_rule_id'' ''contains'',
     type_row ''notificationRuleTypeMode'' ''notificationRuleTypeValue'' id ''Notification rule type'' ''notifications'' ''notification_rule_type'',
     text_row ''notificationTopicName'' ''Notification topic contains'' ''notifications'' ''notification_topic_name'' ''contains'',
     presence_row ''notificationEventMode'' ''notificationEventValue'' ''Notification event'' ''notifications'' ''notification_event'',
     presence_row ''notificationFilterPrefixMode'' ''notificationFilterPrefixValue'' ''Notification prefix'' ''notifications'' ''notification_filter_prefix'',
     presence_row ''notificationFilterSuffixMode'' ''notificationFilterSuffixValue'' ''Notification suffix'' ''notifications'' ''notification_filter_suffix'',
     tri_row ''notificationEventBridgePresent'' ''Notification EventBridge present'' ''notifications'' ''notification_eventbridge_present'',
     text_row ''sseAlgorithm'' ''SSE algorithm contains'' ''server_side_encryption'' ''sse_algorithm'' ''contains'',
     text_row ''sseKmsKeyId'' ''SSE KMS key contains'' ''server_side_encryption'' ''sse_kms_key_id'' ''contains'']"

definition detail_rows :: "detail_row list" where
  "detail_rows = first_rows @ lifecycle_rows @ [abort_row] @ later_rows"

definition summary_rows :: "detail_row list" where
  "summary_rows = first_rows @ [abort_row] @ lifecycle_rows @ later_rows"

lemmas rows_defs = detail_rows_def summary_rows_def first_rows_def lifecycle_rows_def abort_row_def later_rows_def

text \<open>Only the last two features can be unsupported.\<close>

definition row_supported :: "feature_support \<Rightarrow> detail_row \<Rightarrow> bool" where
  "row_supported s r \<longleftrightarrow> row_feature r \<notin> {''notifications'', ''server_side_encryption''} \<or> s (row_feature r) \<noteq> Some False"

lemma set_summary_rows: "set summary_rows = set detail_rows"
  by (auto simp: detail_rows_def summary_rows_def)

lemma rules_table:
  "buildFeatureDetailRules f s = concat (map (\<lambda>r. if row_supported s r then row_rule r f else []) detail_rows)"
  by (simp add: buildFeatureDetailRules_def rows_defs row_defs row_supported_def)

lemma summary_table: "featureDetailSummaryItems f = concat (map (\<lambda>r. row_item r f) summary_rows)"
  by (simp add: featureDetailSummaryItems_def rows_defs row_defs)

section \<open>What holds of every row\<close>

definition row_ok :: "detail_row \<Rightarrow> bool" where
  "row_ok r \<longleftrightarrow>
     (\<forall>f k v. k \<notin> set (row_reads r) \<longrightarrow> row_rule r (f(k := v)) = row_rule r f \<and> row_item r (f(k := v)) = row_item r f)
     \<and> (\<forall>f. row_rule r (clearFeatureDetailField f (row_field r)) = [] \<and> row_item r (clearFeatureDetailField f (row_field r)) = [])
     \<and> (\<forall>f. list_all (\<lambda>x. jprop x ''param'' = Some (JStr (row_param r))) (row_rule r f))
     \<and> (\<forall>f. list_all (\<lambda>i. fst i = row_field r) (row_item r f))"

lemmas rule_defs = name_rule_def choice_rule_def type_rule_def pushNumericRule_def pushTriStateRule_def pushTextRule_def
  pushPresenceRule_def Let_def

lemmas item_defs = name_item_def choice_item_def type_item_def numeric_item_def tri_item_def text_item_def presence_item_def Let_def

lemma row_okI:
  assumes "\<And>f k v. \<forall>x \<in> set (row_reads r). x \<noteq> k \<Longrightarrow> row_rule r (f(k := v)) = row_rule r f \<and> row_item r (f(k := v)) = row_item r f"
    and "\<And>f. f (row_field r) = defaultFeatureDetailFilters (row_field r) \<Longrightarrow> row_rule r f = [] \<and> row_item r f = []"
    and "\<And>f. list_all (\<lambda>x. jprop x ''param'' = Some (JStr (row_param r))) (row_rule r f) \<and> list_all (\<lambda>i. fst i = row_field r) (row_item r f)"
  shows "row_ok r"
  unfolding row_ok_def by (intro conjI allI impI) (use assms in \<open>auto simp: clearFeatureDetailField_def\<close>)

lemma name_row_ok: "defaultFeatureDetailFilters ''lifecycleRuleName'' = [] \<Longrightarrow> row_ok name_row"
  by (rule row_okI, simp add: name_row_def, simp_all add: name_row_def rule_defs item_defs detail_rule_def split: js_number.split option.split)

lemma choice_row_ok: "defaultFeatureDetailFilters k = [] \<Longrightarrow> row_ok (choice_row k l ft p)"
  by (rule row_okI, simp add: choice_row_def, simp_all add: choice_row_def rule_defs item_defs detail_rule_def split: js_number.split option.split)

lemma type_row_ok: "defaultFeatureDetailFilters k = [] \<Longrightarrow> row_ok (type_row m k sh l ft p)"
  by (rule row_okI, simp add: type_row_def, simp_all add: type_row_def rule_defs item_defs detail_rule_def split: js_number.split option.split)

lemma numeric_row_ok: "defaultFeatureDetailFilters k = [] \<Longrightarrow> row_ok (numeric_row k op l ft p)"
  by (rule row_okI, simp add: numeric_row_def, simp_all add: numeric_row_def rule_defs item_defs detail_rule_def split: js_number.split option.split)

lemma tri_row_ok: "defaultFeatureDetailFilters k = ''any'' \<Longrightarrow> row_ok (tri_row k l ft p)"
  by (rule row_okI, simp add: tri_row_def, simp_all add: tri_row_def rule_defs item_defs detail_rule_def split: js_number.split option.split)

lemma text_row_ok: "defaultFeatureDetailFilters k = [] \<Longrightarrow> row_ok (text_row k l ft p op)"
  by (rule row_okI, simp add: text_row_def, simp_all add: text_row_def rule_defs item_defs detail_rule_def split: js_number.split option.split)

lemma presence_row_ok: "defaultFeatureDetailFilters k = [] \<Longrightarrow> row_ok (presence_row m k l ft p)"
  by (rule row_okI, simp add: presence_row_def, simp_all add: presence_row_def rule_defs item_defs detail_rule_def split: js_number.split option.split)

lemma free_defaults:
  "list_all (\<lambda>k. defaultFeatureDetailFilters k = []) [''lifecycleRuleName'', ''lifecycleExpirationDays'', ''lifecycleNoncurrentExpirationDays'',
     ''lifecycleTransitionDays'', ''lifecycleAbortDays'', ''lifecycleRuleStatus'', ''objectLockMode'',
     ''objectLockRetentionDays'', ''objectLockRetentionYears'', ''loggingTargetBucket'', ''loggingTargetPrefix'',
     ''websiteIndexDocument'', ''websiteErrorDocument'', ''websiteRedirectHost'', ''websiteRoutingRuleCount'',
     ''policyStatementCount'', ''notificationRuleId'', ''notificationTopicName'', ''sseAlgorithm'',
     ''sseKmsKeyId'', ''lifecycleRuleTypeValue'', ''corsMethodValue'', ''corsOriginValue'',
     ''notificationRuleTypeValue'', ''notificationEventValue'', ''notificationFilterPrefixValue'',
     ''notificationFilterSuffixValue'']"
  by code_simp

lemma tri_defaults:
  "list_all (\<lambda>k. defaultFeatureDetailFilters k = ''any'') [''bpaBlockPublicAcls'', ''bpaIgnorePublicAcls'', ''bpaBlockPublicPolicy'', ''bpaRestrictPublicBuckets'',
     ''loggingEnabled'', ''websiteIndexPresent'', ''websiteRedirectHostPresent'', ''policyHasConditions'',
     ''notificationEventBridgePresent'']"
  by code_simp

lemma rows_ok: "list_all row_ok detail_rows"
  by (simp add: rows_defs name_row_ok choice_row_ok type_row_ok numeric_row_ok tri_row_ok text_row_ok presence_row_ok
      free_defaults [simplified] tri_defaults [simplified])

lemma rows_distinct:
  "distinct (concat (map row_reads detail_rows))" "distinct (map row_field detail_rows)" "distinct (map row_param detail_rows)"
  by (simp_all add: rows_defs row_defs)

lemma rows_read_own: "list_all (\<lambda>r. row_field r \<in> set (row_reads r)) detail_rows"
  by (simp add: rows_defs row_defs)

section \<open>Removing a filter\<close>

lemma distinct_concat_same:
  "distinct (concat (map g xs)) \<Longrightarrow> x \<in> set xs \<Longrightarrow> y \<in> set xs \<Longrightarrow> a \<in> set (g x) \<Longrightarrow> a \<in> set (g y) \<Longrightarrow> x = y"
  by (induction xs) auto

lemma row_clear:
  assumes "r \<in> set detail_rows" and "r' \<in> set detail_rows"
  shows "row_item r' (clearFeatureDetailField f (row_field r)) = (if r' = r then [] else row_item r' f)"
    and "row_rule r' (clearFeatureDetailField f (row_field r)) = (if r' = r then [] else row_rule r' f)"
proof -
  have ok: "row_ok r'" and own: "row_field r \<in> set (row_reads r)"
    using assms rows_ok rows_read_own by (simp_all add: list_all_iff)
  have "row_field r \<notin> set (row_reads r')" if "r' \<noteq> r"
    using distinct_concat_same [OF rows_distinct(1) assms own] that by blast
  then show "row_item r' (clearFeatureDetailField f (row_field r)) = (if r' = r then [] else row_item r' f)"
    and "row_rule r' (clearFeatureDetailField f (row_field r)) = (if r' = r then [] else row_rule r' f)"
    using ok by (auto simp: row_ok_def clearFeatureDetailField_def)
qed

lemma filter_all_or_none:
  "list_all (\<lambda>x. P x = b) xs \<Longrightarrow> filter P xs = (if b then xs else [])"
  by (induction xs) auto

lemma row_same_field: "r \<in> set detail_rows \<Longrightarrow> r' \<in> set detail_rows \<Longrightarrow> row_field r = row_field r' \<longleftrightarrow> r = r'"
  using rows_distinct(2) by (auto simp: distinct_map inj_on_def)

lemma row_same_param: "r \<in> set detail_rows \<Longrightarrow> r' \<in> set detail_rows \<Longrightarrow> row_param r = row_param r' \<longleftrightarrow> r = r'"
  using rows_distinct(3) by (auto simp: distinct_map inj_on_def)

text \<open>Clearing the field of a row drops its item and its rule, and nothing else.\<close>

lemma summary_clear:
  assumes "r \<in> set detail_rows"
  shows "featureDetailSummaryItems (clearFeatureDetailField f (row_field r)) = filter (\<lambda>i. fst i \<noteq> row_field r) (featureDetailSummaryItems f)"
proof -
  have "row_item r' (clearFeatureDetailField f (row_field r)) = filter (\<lambda>i. fst i \<noteq> row_field r) (row_item r' f)"
    if "r' \<in> set summary_rows" for r'
  proof -
    have r': "r' \<in> set detail_rows" using that by (simp add: set_summary_rows)
    then have "list_all (\<lambda>i. fst i = row_field r') (row_item r' f)" using rows_ok by (auto simp: list_all_iff row_ok_def)
    then have "list_all (\<lambda>i. (fst i \<noteq> row_field r) = (r' \<noteq> r)) (row_item r' f)"
      by (rule list.pred_mono_strong) (use row_same_field [OF assms r'] in auto)
    from filter_all_or_none [OF this] show ?thesis by (simp add: row_clear(1) [OF assms r'])
  qed
  then show ?thesis by (simp add: summary_table filter_concat comp_def cong: map_cong)
qed

lemma rules_clear:
  assumes "r \<in> set detail_rows"
  shows "buildFeatureDetailRules (clearFeatureDetailField f (row_field r)) s
    = filter (\<lambda>x. jprop x ''param'' \<noteq> Some (JStr (row_param r))) (buildFeatureDetailRules f s)"
proof -
  have "row_rule r' (clearFeatureDetailField f (row_field r)) = filter (\<lambda>x. jprop x ''param'' \<noteq> Some (JStr (row_param r))) (row_rule r' f)"
    if r': "r' \<in> set detail_rows" for r'
  proof -
    have "list_all (\<lambda>x. jprop x ''param'' = Some (JStr (row_param r'))) (row_rule r' f)" using r' rows_ok by (auto simp: list_all_iff row_ok_def)
    then have "list_all (\<lambda>x. (jprop x ''param'' \<noteq> Some (JStr (row_param r))) = (r' \<noteq> r)) (row_rule r' f)"
      by (rule list.pred_mono_strong) (use row_same_param [OF assms r'] in auto)
    from filter_all_or_none [OF this] show ?thesis by (simp add: row_clear(2) [OF assms r'])
  qed
  then show ?thesis by (simp add: rules_table filter_concat comp_def if_distrib [of "filter _"] cong: map_cong if_cong)
qed

lemma summary_item_row:
  assumes "i \<in> set (featureDetailSummaryItems f)"
  obtains r where "r \<in> set detail_rows" and "row_field r = fst i" and "i \<in> set (row_item r f)"
proof -
  from assms obtain r where r: "r \<in> set detail_rows" "i \<in> set (row_item r f)" by (auto simp: summary_table set_summary_rows)
  with rows_ok have "row_field r = fst i" by (force simp: list_all_iff row_ok_def)
  with r that show ?thesis by blast
qed

section \<open>Rules and items\<close>

text \<open>
  With a known mode for the name of a rule, a row sends a rule exactly when it shows an item, except that
  the text of a number may not be one.
\<close>

definition numeric_detail_fields :: "FeatureDetailFilterKey list" where
  "numeric_detail_fields = [''lifecycleExpirationDays'', ''lifecycleNoncurrentExpirationDays'', ''lifecycleTransitionDays'', ''lifecycleAbortDays'', ''objectLockRetentionDays'', ''objectLockRetentionYears'', ''websiteRoutingRuleCount'', ''policyStatementCount'']"

definition is_finite_text :: "string \<Rightarrow> bool" where
  "is_finite_text s = (case js_Number (trim s) of Fin _ \<Rightarrow> True | _ \<Rightarrow> False)"

definition row_agrees :: "FeatureDetailFilters \<Rightarrow> detail_row \<Rightarrow> bool" where
  "row_agrees f r \<longleftrightarrow> (row_rule r f \<noteq> []) = (row_item r f \<noteq> []
     \<and> (row_field r \<in> set numeric_detail_fields \<longrightarrow> is_finite_text (f (row_field r))))"

lemma name_row_agrees:
  "f ''lifecycleRuleNameMode'' \<in> set LIFECYCLE_NAME_MODES \<Longrightarrow> row_agrees f name_row"
  by (auto simp: row_agrees_def name_row_def rule_defs item_defs numeric_detail_fields_def LIFECYCLE_NAME_MODES_def)

lemma numeric_row_agrees: "k \<in> set numeric_detail_fields \<Longrightarrow> row_agrees f (numeric_row k op l ft p)"
  by (simp add: row_agrees_def numeric_row_def rule_defs item_defs is_finite_text_def split: js_number.split)

lemma other_rows_agree:
  assumes "k \<notin> set numeric_detail_fields"
  shows "row_agrees f (choice_row k l ft p)" "row_agrees f (type_row m k sh l ft p)" "row_agrees f (tri_row k l ft p)"
    "row_agrees f (text_row k l ft p op)" "row_agrees f (presence_row m k l ft p)"
  using assms by (simp_all add: row_agrees_def choice_row_def type_row_def tri_row_def text_row_def presence_row_def rule_defs item_defs)

lemma rows_agree: "f ''lifecycleRuleNameMode'' \<in> set LIFECYCLE_NAME_MODES \<Longrightarrow> list_all (row_agrees f) detail_rows"
  by (simp add: rows_defs name_row_agrees numeric_row_agrees other_rows_agree numeric_detail_fields_def)

text \<open>No filter is hidden: a rule that is sent belongs to an item of the summary.\<close>

lemma rules_shown:
  assumes "f ''lifecycleRuleNameMode'' \<in> set LIFECYCLE_NAME_MODES" and "featureDetailSummaryItems f = []"
  shows "buildFeatureDetailRules f s = []"
proof -
  have "row_rule r f = []" if "r \<in> set detail_rows" for r
    using that rows_agree [where f = f, OF assms(1)] assms(2) by (auto simp: summary_table set_summary_rows list_all_iff row_agrees_def)
  then show ?thesis by (auto simp: rules_table)
qed

section \<open>Stored filters\<close>

definition field_ok :: "string \<Rightarrow> field_domain \<Rightarrow> string \<Rightarrow> bool" where
  "field_ok v dm d = (case dm of FreeText \<Rightarrow> True | Choice allowed \<Rightarrow> v \<in> set allowed \<or> v = d)"

definition detail_ok :: "FeatureDetailFilterKey \<Rightarrow> string \<Rightarrow> bool" where
  "detail_ok k v = (case map_of detail_fields k of Some (dm, d) \<Rightarrow> field_ok v dm d | None \<Rightarrow> v = [])"

definition details_ok :: "FeatureDetailFilters \<Rightarrow> bool" where
  "details_ok f \<longleftrightarrow> (\<forall>k. detail_ok k (f k))"

definition details_json :: "FeatureDetailFilters \<Rightarrow> json" where
  "details_json f = JObj (map (\<lambda>(k, _). (k, JStr (f k))) detail_fields)"

lemma sanitize_field_ok: "field_ok (sanitize_field v dm d) dm d"
  by (simp add: field_ok_def sanitize_field_def sanitizeChoice_def split: field_domain.splits option.splits json.splits)

lemma sanitize_field_id: "field_ok v dm d \<Longrightarrow> sanitize_field (Some (JStr v)) dm d = v"
  by (auto simp: field_ok_def sanitize_field_def sanitizeChoice_def asString_def split: field_domain.splits)

lemma sanitized_details_ok: "details_ok (sanitizeFeatureDetailFilters v)"
  by (simp add: details_ok_def detail_ok_def sanitizeFeatureDetailFilters_def sanitize_field_ok split: option.split)

lemma map_of_details: "map_of (map (\<lambda>(k, _). (k, JStr (f k))) xs) k = map_option (\<lambda>_. JStr (f k)) (map_of xs k)"
  by (induction xs) auto

lemma details_round_trip: "details_ok f \<Longrightarrow> sanitizeFeatureDetailFilters (Some (details_json f)) = f"
proof (rule ext)
  fix k
  assume "details_ok f"
  then have "detail_ok k (f k)" by (simp add: details_ok_def)
  then show "sanitizeFeatureDetailFilters (Some (details_json f)) k = f k"
    by (auto simp: detail_ok_def sanitizeFeatureDetailFilters_def details_json_def jmember_def jprop_def map_of_details sanitize_field_id
        split: option.splits)
qed

lemma default_details_ok: "details_ok defaultFeatureDetailFilters"
  by (simp add: details_ok_def detail_ok_def defaultFeatureDetailFilters_def field_ok_def split: option.split field_domain.split)

lemma details_ok_name_mode: "details_ok f \<Longrightarrow> f ''lifecycleRuleNameMode'' \<in> set LIFECYCLE_NAME_MODES"
proof -
  assume "details_ok f"
  then have "detail_ok ''lifecycleRuleNameMode'' (f ''lifecycleRuleNameMode'')" unfolding details_ok_def by blast
  then show ?thesis by (auto simp: detail_ok_def detail_fields_def field_ok_def LIFECYCLE_NAME_MODES_def)
qed

lemma clear_details_ok: "details_ok f \<Longrightarrow> details_ok (clearFeatureDetailField f k)"
  using default_details_ok by (simp add: details_ok_def clearFeatureDetailField_def)

end
