(* ===== verification/Filter_Text.thy ===== *)
theory Filter_Text
  imports Json_Roundtrip
begin

text \<open>
  The texts of the listing's filters: \<open>frontend/src/features/shared/advancedFilterShared.tsx\<close> (its
  functions; the rendering is not modelled), \<open>utils/textMatch.ts\<close> and \<open>utils/numbers.ts\<close>. A text is a
  list when it has a comma or a line break, and a list is matched exactly.
\<close>

section \<open>Keeping the first of each key\<close>

text \<open>The loops with a \<open>seen\<close> set.\<close>

fun first_by :: "('a \<Rightarrow> 'k) \<Rightarrow> 'k list \<Rightarrow> 'a list \<Rightarrow> 'a list" where
  "first_by k seen [] = []"
| "first_by k seen (x # xs) = (if k x \<in> set seen then first_by k seen xs else x # first_by k (k x # seen) xs)"

lemma first_by_keys: "k ` set (first_by k seen xs) = k ` set xs - set seen"
  by (induction k seen xs rule: first_by.induct) auto

lemma first_by_subset: "set (first_by k seen xs) \<subseteq> set xs"
  by (induction k seen xs rule: first_by.induct) auto

lemma first_by_distinct: "distinct (map k (first_by k seen xs))"
proof (induction k seen xs rule: first_by.induct)
  case (2 k seen x xs)
  then show ?case using first_by_keys [of k "k x # seen" xs] by auto
qed simp

lemma first_by_id: "distinct (map k xs) \<Longrightarrow> k ` set xs \<inter> set seen = {} \<Longrightarrow> first_by k seen xs = xs"
proof (induction xs arbitrary: seen)
  case (Cons x xs)
  then have "first_by k (k x # seen) xs = xs" by (intro Cons.IH) auto
  with Cons.prems show ?case by auto
qed simp

lemma first_by_Nil_iff: "first_by k [] xs = [] \<longleftrightarrow> xs = []"
  by (cases xs) auto

section \<open>Matching\<close>

datatype TextMatchMode = Contains | Exact

text \<open>Candidates are texts, numbers, \<open>null\<close> or absent.\<close>

definition matchesExactTextCandidate :: "js_host \<Rightarrow> json option list \<Rightarrow> string \<Rightarrow> bool" where
  "matchesExactTextCandidate h candidates query =
     (let needle = toLowerCase (trim query) in
      needle = [] \<or> list_ex (\<lambda>c. toLowerCase (trim (case coalesce c (Some (JStr [])) of
         Some v \<Rightarrow> js_String h v | None \<Rightarrow> [])) = needle) candidates)"

definition list_separator :: "char \<Rightarrow> bool" where
  "list_separator c \<longleftrightarrow> c = CHR 0x0A \<or> c = CHR '',''"

definition list_entries :: "string \<Rightarrow> string list" where
  "list_entries v = filter (\<lambda>s. s \<noteq> []) (map trim (split_on list_separator v))"

record ParsedExactListInput =
  pe_values :: "string list"
  pe_listProvided :: bool

definition parseExactListInput :: "string \<Rightarrow> ParsedExactListInput" where
  "parseExactListInput v =
     (let raw = trim v in
      if raw = [] then \<lparr>pe_values = [], pe_listProvided = False\<rparr>
      else if \<not> list_ex list_separator v then \<lparr>pe_values = [raw], pe_listProvided = False\<rparr>
      else \<lparr>pe_values = first_by toLowerCase [] (list_entries v), pe_listProvided = True\<rparr>)"

record text_filter_state =
  tf_value :: string
  tf_parsed :: ParsedExactListInput
  tf_forcesExact :: bool
  tf_effectiveMode :: TextMatchMode

definition resolveTextFilterInputState :: "string \<Rightarrow> TextMatchMode \<Rightarrow> text_filter_state" where
  "resolveTextFilterInputState v mode =
     (let parsed = parseExactListInput v; forcesExact = (pe_listProvided parsed \<and> pe_values parsed \<noteq> []) in
      \<lparr>tf_value = trim v, tf_parsed = parsed, tf_forcesExact = forcesExact,
       tf_effectiveMode = (if forcesExact then Exact else mode)\<rparr>)"

record quick_filter_state =
  qf_active :: bool
  qf_appliedParsed :: ParsedExactListInput
  qf_draftParsed :: ParsedExactListInput
  qf_draftForcesExact :: bool
  qf_effectiveMode :: TextMatchMode
  qf_effectiveSearchValue :: string
  qf_modeForDisplay :: TextMatchMode
  qf_pending :: bool

definition resolveQuickTextFilterState :: "string \<Rightarrow> string \<Rightarrow> TextMatchMode \<Rightarrow> quick_filter_state" where
  "resolveQuickTextFilterState draftValue appliedValue mode =
     (let draft = resolveTextFilterInputState draftValue mode;
          applied = resolveTextFilterInputState appliedValue mode in
      \<lparr>qf_active = (length (tf_value applied) > 0), qf_appliedParsed = tf_parsed applied, qf_draftParsed = tf_parsed draft,
       qf_draftForcesExact = tf_forcesExact draft, qf_effectiveMode = tf_effectiveMode applied,
       qf_effectiveSearchValue = (if tf_effectiveMode applied = Contains then appliedValue else []),
       qf_modeForDisplay = tf_effectiveMode draft, qf_pending = (tf_value draft \<noteq> tf_value applied)\<rparr>)"

definition text_pending :: "text_filter_state \<Rightarrow> text_filter_state \<Rightarrow> bool" where
  "text_pending draft applied \<longleftrightarrow> tf_value draft \<noteq> tf_value applied
     \<or> length (tf_value draft) > 0 \<and> tf_effectiveMode draft \<noteq> tf_effectiveMode applied"

definition field_rule :: "string \<Rightarrow> string \<Rightarrow> json \<Rightarrow> jrec" where
  "field_rule field op v = [(''field'', JStr field), (''op'', JStr op), (''value'', v)]"

definition texts_json :: "string list \<Rightarrow> json" where
  "texts_json xs = JArr (map JStr xs)"

definition buildTextFieldRules :: "string \<Rightarrow> string \<Rightarrow> TextMatchMode \<Rightarrow> jrec list" where
  "buildTextFieldRules field rawValue mode =
     (let st = resolveTextFilterInputState rawValue mode; vs = pe_values (tf_parsed st) in
      if vs = [] then []
      else if pe_listProvided (tf_parsed st)
      then (if length vs = 1 then [field_rule field ''eq'' (JStr (hd vs))] else [field_rule field ''in'' (texts_json vs)])
      else [field_rule field (if tf_effectiveMode st = Exact then ''eq'' else ''contains'') (JStr (hd vs))])"

definition buildQuickTextFilterRules :: "string \<Rightarrow> string \<Rightarrow> TextMatchMode \<Rightarrow> jrec list" where
  "buildQuickTextFilterRules field rawValue mode =
     (let st = resolveTextFilterInputState rawValue mode in
      if pe_values (tf_parsed st) = [] \<or> tf_effectiveMode st \<noteq> Exact then [] else buildTextFieldRules field rawValue Exact)"

definition shouldShowActiveFilterSummary :: "nat \<Rightarrow> bool \<Rightarrow> bool \<Rightarrow> bool \<Rightarrow> bool" where
  "shouldShowActiveFilterSummary itemCount quickFilterActive hasNonQuickFilters quickFilterListProvided \<longleftrightarrow>
     itemCount > 0 \<and> (itemCount > 1 \<or> \<not> quickFilterActive \<or> hasNonQuickFilters \<or> quickFilterListProvided)"

definition serializeAdvancedFilterRules :: "js_host \<Rightarrow> jrec list \<Rightarrow> string" where
  "serializeAdvancedFilterRules h rules = stringify h (JObj [(''match'', JStr ''all''), (''rules'', JArr (map JObj rules))])"

definition formatTextMatchModeLabel :: "TextMatchMode \<Rightarrow> string" where
  "formatTextMatchModeLabel mode = (if mode = Exact then ''exact'' else ''contains'')"

definition formatListPreview :: "string list \<Rightarrow> nat \<Rightarrow> string" where
  "formatListPreview values limit =
     (if values = [] then [] else if length values \<le> limit then join '', '' values
      else join '', '' (take limit values) @ '' +'' @ nat_string (length values - limit))"

definition formatTextFilterSummary :: "string \<Rightarrow> string \<Rightarrow> TextMatchMode \<Rightarrow> string option" where
  "formatTextFilterSummary label rawValue mode =
     (let st = resolveTextFilterInputState rawValue mode; vs = pe_values (tf_parsed st) in
      if vs = [] then None
      else if pe_listProvided (tf_parsed st) then Some (label @ '' exact list: '' @ formatListPreview vs 2)
      else Some (label @ '' '' @ formatTextMatchModeLabel (tf_effectiveMode st) @ '': '' @ hd vs))"

section \<open>Progress\<close>

definition clampNumber :: "rat \<Rightarrow> rat \<Rightarrow> rat \<Rightarrow> rat" where
  "clampNumber v lo hi = min hi (max lo v)"

definition clampPercentage :: "rat \<Rightarrow> rat" where
  "clampPercentage v = clampNumber v 0 100"

definition js_round :: "rat \<Rightarrow> rat" where
  "js_round q = of_int \<lfloor>q + 1 / 2\<rfloor>"

definition MAX_SAFE_INTEGER :: rat where
  "MAX_SAFE_INTEGER = 9007199254740991"

record AdvancedSearchProgress =
  pr_percent :: rat
  pr_stage :: string
  pr_message :: string
  pr_processed :: rat
  pr_total :: rat

text \<open>An absent number reads as \<open>NaN\<close>, an absent text as empty. The progress is active and determinate.\<close>

definition progressFromAdvancedSearchEvent ::
  "js_number \<Rightarrow> string \<Rightarrow> string \<Rightarrow> js_number \<Rightarrow> js_number \<Rightarrow> AdvancedSearchProgress" where
  "progressFromAdvancedSearchEvent rawPercent stage message rawProcessed rawTotal =
     (let total = (case rawTotal of Fin q \<Rightarrow> max 0 (js_round q) | _ \<Rightarrow> 0) in
      \<lparr>pr_percent = (case rawPercent of Fin q \<Rightarrow> clampPercentage (js_round q) | _ \<Rightarrow> 0), pr_stage = stage,
       pr_message = (if message = [] then ''Running advanced search...'' else message),
       pr_processed = (case rawProcessed of
           Fin q \<Rightarrow> max 0 (min (if total = 0 then MAX_SAFE_INTEGER else total) (js_round q)) | _ \<Rightarrow> 0),
       pr_total = total\<rparr>)"

lemma progress_bounds:
  "let p = progressFromAdvancedSearchEvent pc st m done tot in
     0 \<le> pr_percent p \<and> pr_percent p \<le> 100 \<and> 0 \<le> pr_processed p \<and> 0 \<le> pr_total p
     \<and> (pr_total p > 0 \<longrightarrow> pr_processed p \<le> pr_total p)"
  by (auto simp: progressFromAdvancedSearchEvent_def clampPercentage_def clampNumber_def Let_def split: js_number.split)

section \<open>Lemmas\<close>

lemma parse_list_values:
  "v \<in> set (pe_values (parseExactListInput raw)) \<Longrightarrow> v \<noteq> [] \<and> trim v = v"
  using first_by_subset [of toLowerCase "[]" "list_entries raw"]
  by (auto simp: parseExactListInput_def Let_def list_entries_def split: if_splits)

lemma parse_list_distinct: "distinct (map toLowerCase (pe_values (parseExactListInput raw)))"
  by (simp add: parseExactListInput_def Let_def first_by_distinct)

lemma parse_list_blank: "trim raw = [] \<Longrightarrow> pe_values (parseExactListInput raw) = []"
  by (simp add: parseExactListInput_def)

lemma parse_list_empty: "parseExactListInput [] = \<lparr>pe_values = [], pe_listProvided = False\<rparr>"
  by (simp add: parseExactListInput_def)

lemma text_rules_summary:
  "formatTextFilterSummary label raw mode = None \<longleftrightarrow> buildTextFieldRules field raw mode = []"
  by (simp add: formatTextFilterSummary_def buildTextFieldRules_def Let_def)

lemma effective_mode_effective:
  "resolveTextFilterInputState raw (tf_effectiveMode (resolveTextFilterInputState raw mode)) = resolveTextFilterInputState raw mode"
  by (simp add: resolveTextFilterInputState_def Let_def)

lemma text_rules_Nil [simp]: "buildTextFieldRules field [] mode = []"
  by (simp add: buildTextFieldRules_def resolveTextFilterInputState_def parse_list_empty Let_def)

lemma text_rules_field: "r \<in> set (buildTextFieldRules field raw mode) \<Longrightarrow> jprop r ''field'' = Some (JStr field)"
  by (auto simp: buildTextFieldRules_def field_rule_def Let_def split: if_splits)

end
