(* ===== verification/Advanced_Filter.thy ===== *)
theory Advanced_Filter
  imports Filter_Details Filter_Text
begin

text \<open>
  \<open>frontend/src/features/shared/bucketOpsAdvancedFilterModel.ts\<close> and \<open>quotaAdvancedFilterModel.ts\<close>: the
  advanced filter of the bucket listing, the query it sends, the reading of a stored filter and the
  removal of what an endpoint does not support. The numeric fields are an object of texts; the state of
  a feature is the stored value itself, which the reader does not convert.
\<close>

section \<open>State\<close>

record AdvancedFilterState =
  contextIds :: "string list"
  endpointNames :: "string list"
  af_tenant :: string
  tenantMatchMode :: TextMatchMode
  af_owner :: string
  ownerMatchMode :: TextMatchMode
  af_ownerName :: string
  ownerNameMatchMode :: TextMatchMode
  ownerNameScope :: string
  ownerSuspended :: string
  s3Tags :: string
  s3TagsMatchMode :: TextMatchMode
  af_numeric :: "string \<Rightarrow> string"
  af_features :: "string \<Rightarrow> json"
  featureDetails :: FeatureDetailFilters

definition FEATURE_LABELS :: "(string \<times> string) list" where
  "FEATURE_LABELS = [(''versioning'', ''Versioning''), (''object_lock'', ''Object Lock''),
     (''block_public_access'', ''Block public access''), (''lifecycle_rules'', ''Lifecycle rules''),
     (''static_website'', ''Static website''), (''bucket_policy'', ''Bucket policy''), (''cors'', ''CORS''),
     (''access_logging'', ''Access logging''), (''notifications'', ''Notifications''),
     (''server_side_encryption'', ''Server-side encryption'')]"

definition FEATURE_KEYS :: "string list" where
  "FEATURE_KEYS = map fst FEATURE_LABELS"

definition FEATURE_FILTER_STATES :: "string list" where
  "FEATURE_FILTER_STATES = [''any'', ''enabled'', ''disabled'', ''suspended'', ''disabled_or_suspended'']"

record numeric_rule =
  stateField :: string
  apiField :: string
  nr_op :: string
  requiresStats :: bool

definition num_rule :: "string \<Rightarrow> string \<Rightarrow> string \<Rightarrow> bool \<Rightarrow> numeric_rule" where
  "num_rule s a p r = \<lparr>stateField = s, apiField = a, nr_op = p, requiresStats = r\<rparr>"

text \<open>The last component is \<open>usagePercentage\<close>.\<close>

definition quotaAdvancedFilterRules :: "(string \<times> string \<times> string \<times> bool) list" where
  "quotaAdvancedFilterRules = [
     (''minQuotaBytes'', ''quota_max_size_bytes'', ''gte'', False), (''maxQuotaBytes'', ''quota_max_size_bytes'', ''lte'', False),
     (''minQuotaObjects'', ''quota_max_objects'', ''gte'', False), (''maxQuotaObjects'', ''quota_max_objects'', ''lte'', False),
     (''minQuotaUsageSizePercent'', ''quota_usage_size_percent'', ''gte'', True),
     (''maxQuotaUsageSizePercent'', ''quota_usage_size_percent'', ''lte'', True),
     (''minQuotaUsageObjectPercent'', ''quota_usage_object_percent'', ''gte'', True),
     (''maxQuotaUsageObjectPercent'', ''quota_usage_object_percent'', ''lte'', True)]"

definition quotaBaseAdvancedNumericFields :: "string list" where
  "quotaBaseAdvancedNumericFields = map fst (filter (\<lambda>(_, _, _, u). \<not> u) quotaAdvancedFilterRules)"

definition quotaUsageAdvancedNumericFields :: "string list" where
  "quotaUsageAdvancedNumericFields = map fst (filter (\<lambda>(_, _, _, u). u) quotaAdvancedFilterRules)"

definition quotaAdvancedNumericFields :: "string list" where
  "quotaAdvancedNumericFields = quotaBaseAdvancedNumericFields @ quotaUsageAdvancedNumericFields"

definition hasQuotaAdvancedFilters :: "(string \<Rightarrow> string) \<Rightarrow> bool \<Rightarrow> bool" where
  "hasQuotaAdvancedFilters advanced allowUsageFilters =
     list_ex (\<lambda>(k, _, _, u). (\<not> u \<or> allowUsageFilters) \<and> trim (advanced k) \<noteq> []) quotaAdvancedFilterRules"

text \<open>A number is sent when the trimmed text is a finite one.\<close>

definition numeric_field_rule :: "string \<Rightarrow> string \<Rightarrow> string \<Rightarrow> jrec list" where
  "numeric_field_rule rawValue api op =
     (if trim rawValue = [] then []
      else case js_Number (trim rawValue) of Fin q \<Rightarrow> [field_rule api op (JNum (Fin q))] | _ \<Rightarrow> [])"

definition appendQuotaAdvancedFilterRules :: "jrec list \<Rightarrow> (string \<Rightarrow> string) \<Rightarrow> bool \<Rightarrow> jrec list" where
  "appendQuotaAdvancedFilterRules rules advanced allowUsageFilters = rules @ concat (map
     (\<lambda>(k, api, op, u). if u \<and> \<not> allowUsageFilters then [] else numeric_field_rule (advanced k) api op) quotaAdvancedFilterRules)"

definition numericRules :: "numeric_rule list" where
  "numericRules = [
     num_rule ''minUsedBytes'' ''used_bytes'' ''gte'' True, num_rule ''maxUsedBytes'' ''used_bytes'' ''lte'' True,
     num_rule ''minObjects'' ''object_count'' ''gte'' True, num_rule ''maxObjects'' ''object_count'' ''lte'' True]
   @ map (\<lambda>(k, api, op, _). num_rule k api op True) quotaAdvancedFilterRules
   @ [num_rule ''minOwnerUsedBytes'' ''owner_used_bytes'' ''gte'' True,
     num_rule ''maxOwnerUsedBytes'' ''owner_used_bytes'' ''lte'' True,
     num_rule ''minOwnerObjects'' ''owner_object_count'' ''gte'' True,
     num_rule ''maxOwnerObjects'' ''owner_object_count'' ''lte'' True,
     num_rule ''minOwnerQuotaUsageSizePercent'' ''owner_quota_usage_size_percent'' ''gte'' True,
     num_rule ''maxOwnerQuotaUsageSizePercent'' ''owner_quota_usage_size_percent'' ''lte'' True,
     num_rule ''minOwnerQuotaUsageObjectPercent'' ''owner_quota_usage_object_percent'' ''gte'' True,
     num_rule ''maxOwnerQuotaUsageObjectPercent'' ''owner_quota_usage_object_percent'' ''lte'' True,
     num_rule ''minOwnerQuotaBytes'' ''owner_quota_max_size_bytes'' ''gte'' False,
     num_rule ''maxOwnerQuotaBytes'' ''owner_quota_max_size_bytes'' ''lte'' False,
     num_rule ''minOwnerQuotaObjects'' ''owner_quota_max_objects'' ''gte'' False,
     num_rule ''maxOwnerQuotaObjects'' ''owner_quota_max_objects'' ''lte'' False]"

definition defaultAdvancedFilter :: AdvancedFilterState where
  "defaultAdvancedFilter = \<lparr>contextIds = [], endpointNames = [], af_tenant = [], tenantMatchMode = Contains, af_owner = [],
     ownerMatchMode = Contains, af_ownerName = [], ownerNameMatchMode = Contains, ownerNameScope = ''any'', ownerSuspended = ''any'',
     s3Tags = [], s3TagsMatchMode = Contains, af_numeric = (\<lambda>_. []), af_features = (\<lambda>_. JStr ''any''),
     featureDetails = defaultFeatureDetailFilters\<rparr>"

section \<open>Helpers\<close>

definition formatStorageOpsContextKindLabel :: "string \<Rightarrow> string" where
  "formatStorageOpsContextKindLabel kind =
     (if kind = ''account'' then ''Account'' else if kind = ''connection'' then ''Connection''
      else if kind = ''s3_user'' then ''S3 user'' else ''Any'')"

definition toStorageOpsContextKind :: "string \<Rightarrow> string" where
  "toStorageOpsContextKind kind = (if kind = ''portal_account'' then ''account'' else kind)"

text \<open>\<open>None\<close> is the \<open>TypeError\<close> of a state that is not a text.\<close>

definition formatFeatureFilterStateLabel :: "json \<Rightarrow> string option" where
  "formatFeatureFilterStateLabel state = (case state of
     JStr s \<Rightarrow> Some (if s = ''disabled_or_suspended'' then ''Disabled or Suspended''
                     else case s of [] \<Rightarrow> [] | c # cs \<Rightarrow> toUpperCase [c] @ cs)
   | _ \<Rightarrow> None)"

definition buildAdvancedFilterSecondarySectionState :: "nat \<Rightarrow> nat \<Rightarrow> nat \<Rightarrow> bool \<times> bool \<times> bool" where
  "buildAdvancedFilterSecondarySectionState metrics featureStates details = (metrics \<noteq> 0, featureStates \<noteq> 0, details \<noteq> 0)"

definition parseS3TagExpressions :: "string \<Rightarrow> string list" where
  "parseS3TagExpressions v = first_by toLowerCase [] (list_entries v)"

definition UNIT_SEPARATOR :: string where
  "UNIT_SEPARATOR = [CHR 0x1F]"

definition serializeS3TagExpressions :: "js_host \<Rightarrow> string list \<Rightarrow> string" where
  "serializeS3TagExpressions h values = join UNIT_SEPARATOR (js_sort (localeCompare h) (map toLowerCase values))"

definition normalizeAdvancedSelectionValues :: "string list \<Rightarrow> string list" where
  "normalizeAdvancedSelectionValues values = first_by id [] (filter (\<lambda>v. v \<noteq> []) (map trim values))"

definition serializeAdvancedSelectionValues :: "js_host \<Rightarrow> string list \<Rightarrow> string" where
  "serializeAdvancedSelectionValues h values =
     join UNIT_SEPARATOR (js_sort (localeCompare h) (normalizeAdvancedSelectionValues values))"

definition addExactStringListRule :: "string \<Rightarrow> string list \<Rightarrow> jrec list" where
  "addExactStringListRule field values = (case values of
     [] \<Rightarrow> [] | [v] \<Rightarrow> [field_rule field ''eq'' (JStr v)] | _ \<Rightarrow> [field_rule field ''in'' (texts_json values)])"

section \<open>The query\<close>

definition tag_rules :: "AdvancedFilterState \<Rightarrow> jrec list" where
  "tag_rules adv =
     (let op = (if tf_effectiveMode (resolveTextFilterInputState (s3Tags adv) (s3TagsMatchMode adv)) = Exact then ''eq'' else ''contains'') in
      map (\<lambda>e. field_rule ''tag'' op (JStr e)) (parseS3TagExpressions (s3Tags adv)))"

definition numeric_rules :: "AdvancedFilterState \<Rightarrow> bool \<Rightarrow> jrec list" where
  "numeric_rules adv allowStats = concat (map (\<lambda>n. if requiresStats n \<and> \<not> allowStats then []
     else numeric_field_rule (af_numeric adv (stateField n)) (apiField n) (nr_op n)) numericRules)"

definition feature_on :: "feature_support \<Rightarrow> AdvancedFilterState \<Rightarrow> string \<Rightarrow> bool" where
  "feature_on support adv k \<longleftrightarrow> support k \<noteq> Some False \<and> af_features adv k \<noteq> JStr ''any''"

definition feature_rules :: "AdvancedFilterState \<Rightarrow> feature_support \<Rightarrow> jrec list" where
  "feature_rules adv support =
     map (\<lambda>k. [(''feature'', JStr k), (''state'', af_features adv k)]) (filter (feature_on support adv) FEATURE_KEYS)"

definition advanced_rules :: "AdvancedFilterState \<Rightarrow> bool \<Rightarrow> bool \<Rightarrow> feature_support \<Rightarrow> jrec list" where
  "advanced_rules adv isStorageOps allowStats support =
     (if isStorageOps then addExactStringListRule ''context_id'' (normalizeAdvancedSelectionValues (contextIds adv))
        @ addExactStringListRule ''endpoint_name'' (normalizeAdvancedSelectionValues (endpointNames adv)) else [])
     @ buildTextFieldRules ''tenant'' (af_tenant adv) (tenantMatchMode adv)
     @ buildTextFieldRules ''owner'' (af_owner adv) (ownerMatchMode adv)
     @ buildTextFieldRules ''owner_name'' (af_ownerName adv) (ownerNameMatchMode adv)
     @ (if ownerNameScope adv \<noteq> ''any'' then [field_rule ''owner_kind'' ''eq'' (JStr (ownerNameScope adv))] else [])
     @ (if ownerSuspended adv \<noteq> ''any'' then [field_rule ''owner_suspended'' ''eq'' (JBool (ownerSuspended adv = ''true''))] else [])
     @ tag_rules adv @ numeric_rules adv allowStats @ feature_rules adv support
     @ buildFeatureDetailRules (featureDetails adv) support"

definition buildAdvancedFilterPayload ::
  "js_host \<Rightarrow> string \<Rightarrow> TextMatchMode \<Rightarrow> AdvancedFilterState option \<Rightarrow> string list option \<Rightarrow> bool \<Rightarrow> bool \<Rightarrow> feature_support
   \<Rightarrow> string option" where
  "buildAdvancedFilterPayload h basicFilter mode advanced taggedBuckets isStorageOps allowStats support =
     (let parsed = parseExactListInput basicFilter;
          trimmedFilter = (case pe_values parsed of [] \<Rightarrow> [] | v # _ \<Rightarrow> v) in
      if advanced = None \<and> taggedBuckets = None then
        (if pe_values parsed = [] then None
         else if \<not> pe_listProvided parsed \<and> mode = Contains then Some trimmedFilter
         else if pe_listProvided parsed \<and> length (pe_values parsed) > 1
         then Some (serializeAdvancedFilterRules h [field_rule ''name'' ''in'' (texts_json (pe_values parsed))])
         else Some (serializeAdvancedFilterRules h [field_rule ''name'' ''eq'' (JStr trimmedFilter)]))
      else
        (let rules = buildTextFieldRules ''name'' basicFilter mode
              @ (case advanced of None \<Rightarrow> [] | Some adv \<Rightarrow> advanced_rules adv isStorageOps allowStats support)
              @ (case taggedBuckets of None \<Rightarrow> []
                 | Some names \<Rightarrow> [field_rule (if isStorageOps then ''bucket_identity'' else ''name'') ''in'' (texts_json names)]) in
         if rules = [] then (if trimmedFilter = [] then None else Some trimmedFilter)
         else Some (serializeAdvancedFilterRules h rules)))"

definition hasAdvancedFilters :: "AdvancedFilterState option \<Rightarrow> bool \<Rightarrow> bool \<Rightarrow> feature_support \<Rightarrow> bool" where
  "hasAdvancedFilters advanced isStorageOps allowStats support = (case advanced of
     None \<Rightarrow> False
   | Some adv \<Rightarrow>
       isStorageOps \<and> (normalizeAdvancedSelectionValues (contextIds adv) \<noteq> []
         \<or> normalizeAdvancedSelectionValues (endpointNames adv) \<noteq> [])
       \<or> trim (af_tenant adv) \<noteq> [] \<or> trim (af_owner adv) \<noteq> [] \<or> trim (af_ownerName adv) \<noteq> []
       \<or> ownerNameScope adv \<noteq> ''any'' \<or> ownerSuspended adv \<noteq> ''any'' \<or> parseS3TagExpressions (s3Tags adv) \<noteq> []
       \<or> list_ex (\<lambda>n. (\<not> requiresStats n \<or> allowStats) \<and> af_numeric adv (stateField n) \<noteq> []) numericRules
       \<or> list_ex (feature_on support adv) FEATURE_KEYS
       \<or> hasFeatureDetailFilters (featureDetails adv) support)"

section \<open>Stored filters\<close>

definition sanitizeStringArray :: "json option \<Rightarrow> string list" where
  "sanitizeStringArray v = (case v of
     Some (JArr vs) \<Rightarrow> concat (map (\<lambda>x. case x of JStr s \<Rightarrow> (if trim s = [] then [] else [s]) | _ \<Rightarrow> []) vs)
   | _ \<Rightarrow> [])"

definition parseMatchMode :: "json option \<Rightarrow> TextMatchMode" where
  "parseMatchMode v = (if v = Some (JStr ''exact'') then Exact else Contains)"

definition parse_choice :: "string list \<Rightarrow> json option \<Rightarrow> string" where
  "parse_choice allowed v = (case v of Some (JStr s) \<Rightarrow> (if s \<in> set allowed then s else ''any'') | _ \<Rightarrow> ''any'')"

text \<open>
  The state of a feature is accepted by its text, \<open>String(raw)\<close>, and stored as it is: a list with one
  accepted state passes.
\<close>

definition sanitize_feature :: "js_host \<Rightarrow> json option \<Rightarrow> json" where
  "sanitize_feature h raw = (case raw of
     Some v \<Rightarrow> if js_String h v \<in> set FEATURE_FILTER_STATES then v else JStr ''any''
   | None \<Rightarrow> JStr ''any'')"

definition sanitizeAdvancedFilter :: "js_host \<Rightarrow> json option \<Rightarrow> AdvancedFilterState" where
  "sanitizeAdvancedFilter h v =
     (let get = jmember v in
      \<lparr>contextIds = normalizeAdvancedSelectionValues (sanitizeStringArray (get ''contextIds'')),
       endpointNames = normalizeAdvancedSelectionValues (sanitizeStringArray (get ''endpointNames'')),
       af_tenant = asString (get ''tenant''), tenantMatchMode = parseMatchMode (get ''tenantMatchMode''),
       af_owner = asString (get ''owner''), ownerMatchMode = parseMatchMode (get ''ownerMatchMode''),
       af_ownerName = asString (get ''ownerName''), ownerNameMatchMode = parseMatchMode (get ''ownerNameMatchMode''),
       ownerNameScope = parse_choice [''account'', ''user''] (get ''ownerNameScope''),
       ownerSuspended = parse_choice [''true'', ''false''] (get ''ownerSuspended''),
       s3Tags = asString (get ''s3Tags''), s3TagsMatchMode = parseMatchMode (get ''s3TagsMatchMode''),
       af_numeric = (\<lambda>k. if k \<in> set (map stateField numericRules) then asString (get k) else []),
       af_features = (\<lambda>k. if k \<in> set FEATURE_KEYS then sanitize_feature h (jmember (get ''features'') k) else JStr ''any''),
       featureDetails = sanitizeFeatureDetailFilters (get ''featureDetails'')\<rparr>)"

definition clear_fields :: "FeatureDetailFilterKey list \<Rightarrow> FeatureDetailFilters \<Rightarrow> FeatureDetailFilters" where
  "clear_fields ks f = fold (\<lambda>k f. if f k = defaultFeatureDetailFilters k then f else clearFeatureDetailField f k) ks f"

definition stripUnsupportedAdvancedFeatureFilters :: "AdvancedFilterState \<Rightarrow> feature_support \<Rightarrow> AdvancedFilterState" where
  "stripUnsupportedAdvancedFeatureFilters adv support = adv\<lparr>
     af_features := (\<lambda>k. if support k \<noteq> Some False \<or> af_features adv k = JStr ''any'' then af_features adv k else JStr ''any''),
     featureDetails :=
       (let d1 = (if support ''notifications'' \<noteq> Some False then featureDetails adv
                  else clear_fields notificationFeatureDetailFilterKeys (featureDetails adv)) in
        if support ''server_side_encryption'' \<noteq> Some False then d1 else clear_fields sseFeatureDetailFilterKeys d1)\<rparr>"

section \<open>Which filters are active\<close>

lemma numeric_rule_text: "numeric_field_rule raw api op \<noteq> [] \<Longrightarrow> trim raw \<noteq> []"
  by (auto simp: numeric_field_rule_def split: if_splits)

lemma text_rules_text: "buildTextFieldRules field raw mode \<noteq> [] \<Longrightarrow> trim raw \<noteq> []"
  using parse_list_blank [of raw] by (auto simp: buildTextFieldRules_def resolveTextFilterInputState_def Let_def)

lemma exact_list_rule_Nil [simp]: "addExactStringListRule field vs = [] \<longleftrightarrow> vs = []"
  by (simp add: addExactStringListRule_def split: list.split)

lemma tag_rules_Nil: "tag_rules adv = [] \<longleftrightarrow> parseS3TagExpressions (s3Tags adv) = []"
  by (simp add: tag_rules_def Let_def)

lemma feature_rules_Nil: "feature_rules adv support = [] \<longleftrightarrow> \<not> list_ex (feature_on support adv) FEATURE_KEYS"
  by (auto simp: feature_rules_def filter_empty_conv list_ex_iff)

text \<open>Without active filters the advanced filter adds no rule.\<close>

lemma inactive_no_rules:
  assumes "\<not> hasAdvancedFilters (Some adv) so stats support"
  shows "advanced_rules adv so stats support = []"
proof -
  have "numeric_rules adv stats = []"
    using assms numeric_rule_text by (fastforce simp: numeric_rules_def hasAdvancedFilters_def list_ex_iff)
  moreover have "buildTextFieldRules ''tenant'' (af_tenant adv) m = []" "buildTextFieldRules ''owner'' (af_owner adv) m = []"
    "buildTextFieldRules ''owner_name'' (af_ownerName adv) m = []" for m
    using assms text_rules_text by (fastforce simp: hasAdvancedFilters_def)+
  ultimately show ?thesis
    using assms by (auto simp: advanced_rules_def hasAdvancedFilters_def tag_rules_Nil feature_rules_Nil hasFeatureDetailFilters_def)
qed

section \<open>Unsupported features\<close>

lemma clear_fields_apply:
  "clear_fields ks f k = (if k \<in> set ks then defaultFeatureDetailFilters k else f k)"
proof -
  have "fold (\<lambda>k f. if f k = defaultFeatureDetailFilters k then f else clearFeatureDetailField f k) ks g k
    = (if k \<in> set ks then defaultFeatureDetailFilters k else g k)" for g
    by (induction ks arbitrary: g) (auto simp: clearFeatureDetailField_def)
  then show ?thesis by (simp add: clear_fields_def)
qed

lemma clear_fields_id:
  "list_all (\<lambda>k. k \<notin> set ks) (row_reads r) \<Longrightarrow> row_ok r \<Longrightarrow> row_rule r (clear_fields ks f) = row_rule r f"
proof -
  have "row_rule r (fold (\<lambda>k f. if f k = defaultFeatureDetailFilters k then f else clearFeatureDetailField f k) ks g) = row_rule r g"
    if "list_all (\<lambda>k. k \<notin> set ks) (row_reads r)" "row_ok r" for g
    using that
  proof (induction ks arbitrary: g)
    case (Cons k ks)
    have "k \<notin> set (row_reads r)" using Cons.prems(1) by (auto simp: list_all_iff)
    then have "row_rule r (clearFeatureDetailField g k) = row_rule r g" using Cons.prems(2) by (simp add: row_ok_def clearFeatureDetailField_def)
    with Cons show ?case by (simp add: list_all_iff)
  qed simp
  then show "list_all (\<lambda>k. k \<notin> set ks) (row_reads r) \<Longrightarrow> row_ok r \<Longrightarrow> ?thesis" by (simp add: clear_fields_def)
qed

text \<open>The fields cleared for a feature are those its rows read.\<close>

lemma clear_fields_rows:
  "list_all (\<lambda>r. if row_feature r = ''notifications''
       then list_all (\<lambda>k. k \<in> set notificationFeatureDetailFilterKeys) (row_reads r)
       else list_all (\<lambda>k. k \<notin> set notificationFeatureDetailFilterKeys) (row_reads r)) detail_rows"
  "list_all (\<lambda>r. if row_feature r = ''server_side_encryption''
       then list_all (\<lambda>k. k \<in> set sseFeatureDetailFilterKeys) (row_reads r)
       else list_all (\<lambda>k. k \<notin> set sseFeatureDetailFilterKeys) (row_reads r)) detail_rows"
  by (simp_all add: rows_defs row_defs notificationFeatureDetailFilterKeys_def sseFeatureDetailFilterKeys_def)

definition strip_details :: "feature_support \<Rightarrow> FeatureDetailFilters \<Rightarrow> FeatureDetailFilters" where
  "strip_details support f =
     (let d1 = (if support ''notifications'' \<noteq> Some False then f else clear_fields notificationFeatureDetailFilterKeys f) in
      if support ''server_side_encryption'' \<noteq> Some False then d1 else clear_fields sseFeatureDetailFilterKeys d1)"

lemma row_rule_default:
  assumes "row_ok r" and "f (row_field r) = defaultFeatureDetailFilters (row_field r)"
  shows "row_rule r f = []"
proof -
  have "clearFeatureDetailField f (row_field r) = f" using assms(2) by (auto simp: clearFeatureDetailField_def fun_upd_idem)
  with assms(1) show ?thesis by (metis row_ok_def)
qed

lemma strip_details_row:
  assumes r: "r \<in> set detail_rows"
  shows "row_rule r (strip_details support f) = (if row_supported support r then row_rule r f else [])"
proof -
  have ok: "row_ok r" and own: "row_field r \<in> set (row_reads r)" using r rows_ok rows_read_own by (simp_all add: list_all_iff)
  have n: "row_feature r = ''notifications'' \<Longrightarrow> row_field r \<in> set notificationFeatureDetailFilterKeys"
    "row_feature r \<noteq> ''notifications'' \<Longrightarrow> list_all (\<lambda>k. k \<notin> set notificationFeatureDetailFilterKeys) (row_reads r)"
    using r own clear_fields_rows(1) by (fastforce simp: list_all_iff split: if_splits)+
  have s: "row_feature r = ''server_side_encryption'' \<Longrightarrow> row_field r \<in> set sseFeatureDetailFilterKeys"
    "row_feature r \<noteq> ''server_side_encryption'' \<Longrightarrow> list_all (\<lambda>k. k \<notin> set sseFeatureDetailFilterKeys) (row_reads r)"
    using r own clear_fields_rows(2) by (fastforce simp: list_all_iff split: if_splits)+
  have gone: "row_rule r (clear_fields ks g) = []" if "row_field r \<in> set ks" for ks g
    using row_rule_default [OF ok] that by (simp add: clear_fields_apply)
  show ?thesis
  proof (cases "row_feature r = ''notifications''")
    case True
    then show ?thesis using n(1) s(2) gone clear_fields_id [OF _ ok]
      by (auto simp: strip_details_def row_supported_def Let_def)
  next
    case no: False
    then show ?thesis
    proof (cases "row_feature r = ''server_side_encryption''")
      case True
      then show ?thesis using n(2) s(1) gone clear_fields_id [OF _ ok] by (auto simp: strip_details_def row_supported_def Let_def)
    next
      case False
      with no show ?thesis using n(2) s(2) clear_fields_id [OF _ ok] by (auto simp: strip_details_def row_supported_def Let_def)
    qed
  qed
qed

lemma strip_other_fields [simp]:
  "contextIds (stripUnsupportedAdvancedFeatureFilters adv support) = contextIds adv"
  "endpointNames (stripUnsupportedAdvancedFeatureFilters adv support) = endpointNames adv"
  "af_tenant (stripUnsupportedAdvancedFeatureFilters adv support) = af_tenant adv"
  "tenantMatchMode (stripUnsupportedAdvancedFeatureFilters adv support) = tenantMatchMode adv"
  "af_owner (stripUnsupportedAdvancedFeatureFilters adv support) = af_owner adv"
  "ownerMatchMode (stripUnsupportedAdvancedFeatureFilters adv support) = ownerMatchMode adv"
  "af_ownerName (stripUnsupportedAdvancedFeatureFilters adv support) = af_ownerName adv"
  "ownerNameMatchMode (stripUnsupportedAdvancedFeatureFilters adv support) = ownerNameMatchMode adv"
  "ownerNameScope (stripUnsupportedAdvancedFeatureFilters adv support) = ownerNameScope adv"
  "ownerSuspended (stripUnsupportedAdvancedFeatureFilters adv support) = ownerSuspended adv"
  "s3Tags (stripUnsupportedAdvancedFeatureFilters adv support) = s3Tags adv"
  "s3TagsMatchMode (stripUnsupportedAdvancedFeatureFilters adv support) = s3TagsMatchMode adv"
  "af_numeric (stripUnsupportedAdvancedFeatureFilters adv support) = af_numeric adv"
  by (simp_all add: stripUnsupportedAdvancedFeatureFilters_def)

text \<open>
  Dropping the filters an endpoint does not support does not change what is asked: the stripped filter
  sends, under any support that refuses no more, the rules the original sends under the given one.
\<close>

theorem strip_keeps_query:
  assumes "\<forall>k. support' k = Some False \<longrightarrow> support k = Some False"
  shows "advanced_rules (stripUnsupportedAdvancedFeatureFilters adv support) so stats support' = advanced_rules adv so stats support"
proof -
  let ?s = "stripUnsupportedAdvancedFeatureFilters adv support"
  have d: "featureDetails ?s = strip_details support (featureDetails adv)"
    by (simp add: stripUnsupportedAdvancedFeatureFilters_def strip_details_def Let_def)
  have on: "feature_on support' ?s = feature_on support adv"
    using assms by (auto simp: feature_on_def fun_eq_iff stripUnsupportedAdvancedFeatureFilters_def)
  have "feature_rules ?s support' = feature_rules adv support"
    unfolding feature_rules_def on by (rule map_cong) (auto simp: feature_on_def stripUnsupportedAdvancedFeatureFilters_def)
  moreover have "buildFeatureDetailRules (featureDetails ?s) support' = buildFeatureDetailRules (featureDetails adv) support"
    unfolding rules_table d using assms by (auto simp: strip_details_row row_supported_def intro!: arg_cong [where f = concat] map_cong)
  moreover have "numeric_rules ?s stats = numeric_rules adv stats" by (simp add: numeric_rules_def cong: if_cong)
  ultimately show ?thesis by (simp add: advanced_rules_def tag_rules_def)
qed

theorem strip_keeps_query_witness:
  "advanced_rules (stripUnsupportedAdvancedFeatureFilters (defaultAdvancedFilter\<lparr>af_features := (\<lambda>_. JStr ''enabled''),
       featureDetails := defaultFeatureDetailFilters(''sseAlgorithm'' := ''aes'')\<rparr>)
       (\<lambda>k. if k = ''server_side_encryption'' then Some False else None)) False True (\<lambda>_. None)
   = advanced_rules (defaultAdvancedFilter\<lparr>af_features := (\<lambda>_. JStr ''enabled''),
       featureDetails := defaultFeatureDetailFilters(''sseAlgorithm'' := ''aes'')\<rparr>) False True
       (\<lambda>k. if k = ''server_side_encryption'' then Some False else None)"
  by (rule strip_keeps_query) simp

section \<open>Reading back what was stored\<close>

text \<open>The numeric fields in the order of \<open>defaultAdvancedFilter\<close>.\<close>

definition numeric_state_fields :: "string list" where
  "numeric_state_fields = [''minUsedBytes'', ''maxUsedBytes'', ''minObjects'', ''maxObjects''] @ map fst quotaAdvancedFilterRules
     @ [''minOwnerUsedBytes'', ''maxOwnerUsedBytes'', ''minOwnerObjects'', ''maxOwnerObjects'', ''minOwnerQuotaBytes'',
        ''maxOwnerQuotaBytes'', ''minOwnerQuotaObjects'', ''maxOwnerQuotaObjects'', ''minOwnerQuotaUsageSizePercent'',
        ''maxOwnerQuotaUsageSizePercent'', ''minOwnerQuotaUsageObjectPercent'', ''maxOwnerQuotaUsageObjectPercent'']"

definition mode_json :: "TextMatchMode \<Rightarrow> json" where
  "mode_json m = JStr (formatTextMatchModeLabel m)"

definition advanced_filter_json :: "AdvancedFilterState \<Rightarrow> json" where
  "advanced_filter_json adv = JObj ([(''contextIds'', texts_json (contextIds adv)), (''endpointNames'', texts_json (endpointNames adv)),
      (''tenant'', JStr (af_tenant adv)), (''tenantMatchMode'', mode_json (tenantMatchMode adv)),
      (''owner'', JStr (af_owner adv)), (''ownerMatchMode'', mode_json (ownerMatchMode adv)),
      (''ownerName'', JStr (af_ownerName adv)), (''ownerNameMatchMode'', mode_json (ownerNameMatchMode adv)),
      (''ownerNameScope'', JStr (ownerNameScope adv)), (''ownerSuspended'', JStr (ownerSuspended adv)),
      (''s3Tags'', JStr (s3Tags adv)), (''s3TagsMatchMode'', mode_json (s3TagsMatchMode adv))]
    @ map (\<lambda>k. (k, JStr (af_numeric adv k))) numeric_state_fields
    @ [(''features'', JObj (map (\<lambda>k. (k, af_features adv k)) FEATURE_KEYS)), (''featureDetails'', details_json (featureDetails adv))])"

definition ids_ok :: "string list \<Rightarrow> bool" where
  "ids_ok ids \<longleftrightarrow> distinct ids \<and> list_all (\<lambda>i. i \<noteq> [] \<and> trim i = i) ids"

definition feature_state_ok :: "js_host \<Rightarrow> json \<Rightarrow> bool" where
  "feature_state_ok h v \<longleftrightarrow> js_String h v \<in> set FEATURE_FILTER_STATES"

definition advanced_ok :: "js_host \<Rightarrow> AdvancedFilterState \<Rightarrow> bool" where
  "advanced_ok h adv \<longleftrightarrow> ids_ok (contextIds adv) \<and> ids_ok (endpointNames adv)
     \<and> ownerNameScope adv \<in> {''any'', ''account'', ''user''} \<and> ownerSuspended adv \<in> {''any'', ''true'', ''false''}
     \<and> (\<forall>k. k \<notin> set numeric_state_fields \<longrightarrow> af_numeric adv k = [])
     \<and> (\<forall>k. if k \<in> set FEATURE_KEYS then feature_state_ok h (af_features adv k) else af_features adv k = JStr ''any'')
     \<and> details_ok (featureDetails adv)"

lemma numeric_fields_same: "set (map stateField numericRules) = set numeric_state_fields"
  by (auto simp: numericRules_def numeric_state_fields_def quotaAdvancedFilterRules_def num_rule_def)

lemma normalized_ids_ok: "ids_ok (normalizeAdvancedSelectionValues vs)"
  using first_by_distinct [of id "[]" "filter (\<lambda>v. v \<noteq> []) (map trim vs)"]
    first_by_subset [of id "[]" "filter (\<lambda>v. v \<noteq> []) (map trim vs)"]
  by (auto simp: ids_ok_def normalizeAdvancedSelectionValues_def list_all_iff)

lemma normalize_ids_id: "ids_ok ids \<Longrightarrow> normalizeAdvancedSelectionValues ids = ids"
proof -
  assume ok: "ids_ok ids"
  then have "map trim ids = ids" by (auto simp: ids_ok_def list_all_iff intro: map_idI)
  moreover have "filter (\<lambda>v. v \<noteq> []) ids = ids" using ok by (auto simp: ids_ok_def list_all_iff intro: filter_True)
  ultimately show ?thesis using ok by (simp add: normalizeAdvancedSelectionValues_def ids_ok_def first_by_id)
qed

lemma sanitize_ids: "ids_ok ids \<Longrightarrow> sanitizeStringArray (Some (texts_json ids)) = ids"
  by (induction ids) (auto simp: ids_ok_def sanitizeStringArray_def texts_json_def)

lemma sanitized_ok: "advanced_ok h (sanitizeAdvancedFilter h v)"
proof -
  have "''any'' \<in> set FEATURE_FILTER_STATES" by (simp add: FEATURE_FILTER_STATES_def)
  then have f: "feature_state_ok h (sanitize_feature h w)" for w
    by (simp add: sanitize_feature_def feature_state_ok_def split: option.split)
  show ?thesis unfolding advanced_ok_def sanitizeAdvancedFilter_def Let_def numeric_fields_same
    by (simp add: normalized_ids_ok sanitized_details_ok f)
      (auto simp: parse_choice_def split: option.splits json.splits)
qed

lemma map_of_map_keys: "map_of (map (\<lambda>k. (k, g k)) ks) k = (if k \<in> set ks then Some (g k) else None)"
  by (induction ks) auto

lemma asString_text [simp]: "asString (Some (JStr s)) = s"
  by (simp add: asString_def)

lemma mode_round_trip [simp]: "parseMatchMode (Some (mode_json m)) = m"
  by (cases m) (simp_all add: parseMatchMode_def mode_json_def formatTextMatchModeLabel_def)

lemma numeric_member:
  "k \<in> set numeric_state_fields \<Longrightarrow> jmember (Some (advanced_filter_json adv)) k = Some (JStr (af_numeric adv k))"
proof -
  assume k: "k \<in> set numeric_state_fields"
  then have "k \<notin> {''contextIds'', ''endpointNames'', ''tenant'', ''tenantMatchMode'', ''owner'', ''ownerMatchMode'', ''ownerName'',
      ''ownerNameMatchMode'', ''ownerNameScope'', ''ownerSuspended'', ''s3Tags'', ''s3TagsMatchMode''}"
    by (auto simp: numeric_state_fields_def quotaAdvancedFilterRules_def)
  with k show ?thesis by (simp add: advanced_filter_json_def jmember_def jprop_def map_of_map_keys map_add_def)
qed

lemma feature_member:
  "k \<in> set FEATURE_KEYS \<Longrightarrow> jmember (jmember (Some (advanced_filter_json adv)) ''features'') k = Some (af_features adv k)"
proof -
  have "''features'' \<notin> set numeric_state_fields" by (simp add: numeric_state_fields_def quotaAdvancedFilterRules_def)
  then show "k \<in> set FEATURE_KEYS \<Longrightarrow> ?thesis" by (simp add: advanced_filter_json_def jmember_def jprop_def map_of_map_keys map_add_def)
qed

lemma details_member: "jmember (Some (advanced_filter_json adv)) ''featureDetails'' = Some (details_json (featureDetails adv))"
proof -
  have "''featureDetails'' \<notin> set numeric_state_fields" by (simp add: numeric_state_fields_def quotaAdvancedFilterRules_def)
  then show ?thesis by (simp add: advanced_filter_json_def jmember_def jprop_def map_of_map_keys map_add_def)
qed

lemma advanced_round_trip:
  assumes "advanced_ok h adv"
  shows "sanitizeAdvancedFilter h (Some (advanced_filter_json adv)) = adv"
proof -
  have num: "(\<lambda>k. if k \<in> set numeric_state_fields then asString (jmember (Some (advanced_filter_json adv)) k) else []) = af_numeric adv"
    using assms by (auto simp: numeric_member advanced_ok_def fun_eq_iff)
  have feat: "(\<lambda>k. if k \<in> set FEATURE_KEYS then sanitize_feature h (jmember (jmember (Some (advanced_filter_json adv)) ''features'') k)
      else JStr ''any'') = af_features adv"
    using assms by (auto simp: feature_member advanced_ok_def fun_eq_iff sanitize_feature_def feature_state_ok_def split: if_splits)
  have scope: "parse_choice [''account'', ''user''] (Some (JStr (ownerNameScope adv))) = ownerNameScope adv"
    "parse_choice [''true'', ''false''] (Some (JStr (ownerSuspended adv))) = ownerSuspended adv"
    using assms by (auto simp: advanced_ok_def parse_choice_def)
  have ids: "normalizeAdvancedSelectionValues (sanitizeStringArray (Some (texts_json (contextIds adv)))) = contextIds adv"
    "normalizeAdvancedSelectionValues (sanitizeStringArray (Some (texts_json (endpointNames adv)))) = endpointNames adv"
    using assms by (auto simp: advanced_ok_def sanitize_ids normalize_ids_id)
  have det: "sanitizeFeatureDetailFilters (Some (details_json (featureDetails adv))) = featureDetails adv"
    using assms by (simp add: advanced_ok_def details_round_trip)
  show ?thesis
    unfolding sanitizeAdvancedFilter_def Let_def numeric_fields_same num feat details_member det
    by (simp add: advanced_filter_json_def jmember_def scope ids)
qed

end
