(* ===== verification/Filter_Summary.thy ===== *)
theory Filter_Summary
  imports Advanced_Filter
begin

text \<open>
  \<open>frontend/src/features/shared/bucketOpsFilterSummary.ts\<close>: the items the page shows for the active
  filters, and the comparison of a draft with the applied filter; and the state of
  \<open>useBucketOpsFilterController.ts\<close> with its operations. An item carries the action that removes it.
\<close>

section \<open>Items\<close>

datatype ActiveFilterRemoveAction =
    RemoveQuick | RemoveTagMode | RemoveTag nat | RemoveContextIds | RemoveEndpointNames | RemoveText string
  | RemoveOwnerSuspended | RemoveOwnerScope | RemoveNumeric string | RemoveFeature string | RemoveDetail string

record ActiveFilterSummaryItem =
  si_id :: string
  si_label :: string
  si_remove :: ActiveFilterRemoveAction

definition summary_item :: "string \<Rightarrow> string \<Rightarrow> ActiveFilterRemoveAction \<Rightarrow> ActiveFilterSummaryItem" where
  "summary_item i l a = \<lparr>si_id = i, si_label = l, si_remove = a\<rparr>"

text \<open>The last two components are \<open>format === "percent"\<close> and \<open>requiresUsage\<close>.\<close>

definition NUMERIC_SUMMARY_DEFINITIONS :: "(string \<times> string \<times> bool \<times> bool) list" where
  "NUMERIC_SUMMARY_DEFINITIONS = [
     (''minUsedBytes'', ''Used bytes >='', False, True), (''maxUsedBytes'', ''Used bytes <='', False, True),
     (''minObjects'', ''Objects >='', False, True), (''maxObjects'', ''Objects <='', False, True),
     (''minQuotaBytes'', ''Quota bytes >='', False, True), (''maxQuotaBytes'', ''Quota bytes <='', False, True),
     (''minQuotaObjects'', ''Quota objects >='', False, True), (''maxQuotaObjects'', ''Quota objects <='', False, True),
     (''minQuotaUsageSizePercent'', ''Quota usage size % >='', True, True),
     (''maxQuotaUsageSizePercent'', ''Quota usage size % <='', True, True),
     (''minQuotaUsageObjectPercent'', ''Quota usage objects % >='', True, True),
     (''maxQuotaUsageObjectPercent'', ''Quota usage objects % <='', True, True),
     (''minOwnerUsedBytes'', ''Owner used bytes >='', False, True), (''maxOwnerUsedBytes'', ''Owner used bytes <='', False, True),
     (''minOwnerObjects'', ''Owner objects >='', False, True), (''maxOwnerObjects'', ''Owner objects <='', False, True),
     (''minOwnerQuotaUsageSizePercent'', ''Owner quota usage size % >='', True, True),
     (''maxOwnerQuotaUsageSizePercent'', ''Owner quota usage size % <='', True, True),
     (''minOwnerQuotaUsageObjectPercent'', ''Owner quota usage objects % >='', True, True),
     (''maxOwnerQuotaUsageObjectPercent'', ''Owner quota usage objects % <='', True, True),
     (''minOwnerQuotaBytes'', ''Owner quota bytes >='', False, False), (''maxOwnerQuotaBytes'', ''Owner quota bytes <='', False, False),
     (''minOwnerQuotaObjects'', ''Owner quota objects >='', False, False),
     (''maxOwnerQuotaObjects'', ''Owner quota objects <='', False, False)]"

definition effectiveTextMatchMode :: "string \<Rightarrow> TextMatchMode \<Rightarrow> TextMatchMode" where
  "effectiveTextMatchMode v mode = tf_effectiveMode (resolveTextFilterInputState v mode)"

definition formatNumericSummaryValue :: "js_host \<Rightarrow> string \<Rightarrow> bool \<Rightarrow> string" where
  "formatNumericSummaryValue h v percent = (case js_Number v of
     Fin q \<Rightarrow> if percent then numToString h (Fin q) @ ''%'' else formatNumber h (Some q)
   | _ \<Rightarrow> v)"

record summary_context =
  sc_isStorageOps :: bool
  sc_usageFeatureEnabled :: bool
  sc_featureSupport :: feature_support
  sc_contextLabelById :: "string \<Rightarrow> string option"

definition scope_items :: "summary_context \<Rightarrow> AdvancedFilterState \<Rightarrow> ActiveFilterSummaryItem list" where
  "scope_items ctx adv =
     (if \<not> sc_isStorageOps ctx then []
      else (let ids = normalizeAdvancedSelectionValues (contextIds adv); names = normalizeAdvancedSelectionValues (endpointNames adv) in
        (if ids = [] then [] else [summary_item ''context-ids''
            (''Contexts: '' @ formatNamesPreview 2 (map (\<lambda>i. case sc_contextLabelById ctx i of Some l \<Rightarrow> l | None \<Rightarrow> i) ids)) RemoveContextIds])
        @ (if names = [] then [] else [summary_item ''endpoint-names'' (''Endpoints: '' @ formatNamesPreview 2 names) RemoveEndpointNames])))"

definition text_summary :: "string \<Rightarrow> string \<Rightarrow> string \<Rightarrow> TextMatchMode \<Rightarrow> string \<Rightarrow> ActiveFilterSummaryItem list" where
  "text_summary ident label v mode field =
     (case formatTextFilterSummary label v (effectiveTextMatchMode v mode) of
        None \<Rightarrow> [] | Some s \<Rightarrow> if s = [] then [] else [summary_item ident s (RemoveText field)])"

definition owner_items :: "AdvancedFilterState \<Rightarrow> ActiveFilterSummaryItem list" where
  "owner_items adv =
     text_summary ''tenant'' ''Tenant'' (af_tenant adv) (tenantMatchMode adv) ''tenant''
     @ text_summary ''owner'' ''Owner'' (af_owner adv) (ownerMatchMode adv) ''owner''
     @ text_summary ''owner-name'' ''Owner name'' (af_ownerName adv) (ownerNameMatchMode adv) ''ownerName''
     @ (if ownerNameScope adv = ''any'' then [] else [summary_item ''owner-kind''
          (''Owner kind: '' @ (if ownerNameScope adv = ''account'' then ''Accounts'' else ''Users'')) RemoveOwnerScope])
     @ (if ownerSuspended adv = ''any'' then [] else [summary_item ''owner-suspended''
          (''Owner suspended: '' @ (if ownerSuspended adv = ''true'' then ''Yes'' else ''No'')) RemoveOwnerSuspended])"

definition tag_items :: "AdvancedFilterState \<Rightarrow> ActiveFilterSummaryItem list" where
  "tag_items adv = (let tags = parseS3TagExpressions (s3Tags adv) in
     if tags = [] then []
     else [summary_item ''s3-tags'' (''S3 tags '' @ formatTextMatchModeLabel (effectiveTextMatchMode (s3Tags adv) (s3TagsMatchMode adv))
            @ '': '' @ formatNamesPreview 2 tags) (RemoveText ''s3Tags'')])"

definition numeric_items :: "js_host \<Rightarrow> summary_context \<Rightarrow> AdvancedFilterState \<Rightarrow> ActiveFilterSummaryItem list" where
  "numeric_items h ctx adv = concat (map (\<lambda>(k, label, percent, requiresUsage).
     let v = trim (af_numeric adv k) in
     if requiresUsage \<and> \<not> sc_usageFeatureEnabled ctx \<or> v = [] then []
     else [summary_item (''num-'' @ k) (label @ '' '' @ formatNumericSummaryValue h v percent) (RemoveNumeric k)]) NUMERIC_SUMMARY_DEFINITIONS)"

text \<open>\<open>None\<close>: the label of a state that is not a text throws.\<close>

definition feature_item :: "AdvancedFilterState \<Rightarrow> string \<Rightarrow> ActiveFilterSummaryItem option" where
  "feature_item adv k = map_option
     (\<lambda>l. summary_item (''feature-'' @ k) ((case map_of FEATURE_LABELS k of Some f \<Rightarrow> f | None \<Rightarrow> ''undefined'') @ '': '' @ l) (RemoveFeature k))
     (formatFeatureFilterStateLabel (af_features adv k))"

definition feature_items :: "summary_context \<Rightarrow> AdvancedFilterState \<Rightarrow> ActiveFilterSummaryItem list option" where
  "feature_items ctx adv = those (map (feature_item adv) (filter (feature_on (sc_featureSupport ctx) adv) FEATURE_KEYS))"

definition detail_items :: "AdvancedFilterState \<Rightarrow> ActiveFilterSummaryItem list" where
  "detail_items adv = map (\<lambda>(field, label). summary_item (''feature-detail-'' @ field) label (RemoveDetail field))
     (featureDetailSummaryItems (featureDetails adv))"

definition buildAdvancedFilterSummaryItems ::
  "js_host \<Rightarrow> summary_context \<Rightarrow> AdvancedFilterState \<Rightarrow> ActiveFilterSummaryItem list option" where
  "buildAdvancedFilterSummaryItems h ctx adv =
     map_option (\<lambda>fs. scope_items ctx adv @ owner_items adv @ tag_items adv @ numeric_items h ctx adv @ fs @ detail_items adv)
       (feature_items ctx adv)"

definition tag_filter_items :: "nat list \<Rightarrow> (nat \<Rightarrow> string option) \<Rightarrow> bool \<Rightarrow> ActiveFilterSummaryItem list" where
  "tag_filter_items tagFilters tagLabelById matchAll =
     (let tags = js_set tagFilters in
      (if length tags > 1 then [summary_item ''tag-mode'' (''UI tags mode: '' @ (if matchAll then ''AND'' else ''OR'')) RemoveTagMode] else [])
      @ map (\<lambda>t. summary_item (''tag-'' @ nat_string t)
          (''UI tag: '' @ (case tagLabelById t of Some l \<Rightarrow> l | None \<Rightarrow> ''#'' @ nat_string t)) (RemoveTag t)) tags)"

definition quick_items :: "string \<Rightarrow> TextMatchMode \<Rightarrow> ActiveFilterSummaryItem list" where
  "quick_items v mode =
     (if trim v = [] then []
      else case formatTextFilterSummary ''Name'' v (effectiveTextMatchMode v mode) of
        None \<Rightarrow> [] | Some l \<Rightarrow> if l = [] then [] else [summary_item ''quick'' l RemoveQuick])"

definition buildBucketOpsActiveFilterSummaryItems ::
  "js_host \<Rightarrow> string \<Rightarrow> TextMatchMode \<Rightarrow> nat list \<Rightarrow> (nat \<Rightarrow> string option) \<Rightarrow> bool \<Rightarrow> AdvancedFilterState option \<Rightarrow> summary_context
   \<Rightarrow> ActiveFilterSummaryItem list option" where
  "buildBucketOpsActiveFilterSummaryItems h quickValue quickMode tagFilters tagLabelById matchAll advanced ctx =
     map_option (\<lambda>items. quick_items quickValue quickMode @ tag_filter_items tagFilters tagLabelById matchAll @ items)
       (if hasAdvancedFilters advanced (sc_isStorageOps ctx) (sc_usageFeatureEnabled ctx) (sc_featureSupport ctx)
        then (case advanced of None \<Rightarrow> Some [] | Some adv \<Rightarrow> buildAdvancedFilterSummaryItems h ctx adv) else Some [])"

definition buildBucketOpsDraftFilterSummaryItems ::
  "js_host \<Rightarrow> AdvancedFilterState \<Rightarrow> summary_context \<Rightarrow> (string \<times> string) list option" where
  "buildBucketOpsDraftFilterSummaryItems h adv ctx =
     map_option (map (\<lambda>i. (''draft-'' @ si_id i, si_label i))) (buildAdvancedFilterSummaryItems h ctx adv)"

section \<open>A draft against the applied filter\<close>

record filter_comparison =
  fc_contextPending :: bool
  fc_endpointPending :: bool
  fc_tenantPending :: bool
  fc_ownerPending :: bool
  fc_ownerNamePending :: bool
  fc_ownerSuspendedPending :: bool
  fc_s3TagsPending :: bool

text \<open>A filter that is not applied compares as empty texts, \<open>contains\<close> and \<open>any\<close>: the default filter.\<close>

definition buildBucketOpsAdvancedFilterComparison :: "js_host \<Rightarrow> AdvancedFilterState option \<Rightarrow> AdvancedFilterState \<Rightarrow> filter_comparison" where
  "buildBucketOpsAdvancedFilterComparison h applied draft =
     (let ap = (case applied of Some a \<Rightarrow> a | None \<Rightarrow> defaultAdvancedFilter);
          ids = normalizeAdvancedSelectionValues;
          same = (\<lambda>a b. serializeAdvancedSelectionValues h a = serializeAdvancedSelectionValues h b);
          pending = (\<lambda>v m. text_pending (resolveTextFilterInputState (v draft) (m draft)) (resolveTextFilterInputState (v ap) (m ap)));
          tags = (\<lambda>a. parseS3TagExpressions (s3Tags a));
          tagMode = (\<lambda>a. tf_effectiveMode (resolveTextFilterInputState (s3Tags a) (s3TagsMatchMode a))) in
      \<lparr>fc_contextPending = (\<not> same (ids (contextIds draft)) (ids (contextIds ap))),
       fc_endpointPending = (\<not> same (ids (endpointNames draft)) (ids (endpointNames ap))),
       fc_tenantPending = pending af_tenant tenantMatchMode, fc_ownerPending = pending af_owner ownerMatchMode,
       fc_ownerNamePending = (ownerNameScope draft \<noteq> ownerNameScope ap \<or> pending af_ownerName ownerNameMatchMode),
       fc_ownerSuspendedPending = (ownerSuspended draft \<noteq> ownerSuspended ap),
       fc_s3TagsPending = (serializeS3TagExpressions h (tags draft) \<noteq> serializeS3TagExpressions h (tags ap)
          \<or> length (tags draft) > 0 \<and> tagMode draft \<noteq> tagMode ap)\<rparr>)"

section \<open>The controller\<close>

text \<open>The field is one of \<open>tenant\<close>, \<open>owner\<close>, \<open>ownerName\<close> and \<open>s3Tags\<close>.\<close>

definition set_text :: "string \<Rightarrow> string \<Rightarrow> AdvancedFilterState \<Rightarrow> AdvancedFilterState" where
  "set_text field v adv =
     (if field = ''tenant'' then adv\<lparr>af_tenant := v\<rparr> else if field = ''owner'' then adv\<lparr>af_owner := v\<rparr>
      else if field = ''ownerName'' then adv\<lparr>af_ownerName := v\<rparr> else if field = ''s3Tags'' then adv\<lparr>s3Tags := v\<rparr>
      else adv\<lparr>af_numeric := (af_numeric adv)(field := v)\<rparr>)"

definition clearAdvancedFilterAction :: "AdvancedFilterState \<Rightarrow> ActiveFilterRemoveAction \<Rightarrow> AdvancedFilterState" where
  "clearAdvancedFilterAction adv action = (case action of
     RemoveOwnerScope \<Rightarrow> adv\<lparr>ownerNameScope := ''any''\<rparr>
   | RemoveOwnerSuspended \<Rightarrow> adv\<lparr>ownerSuspended := ''any''\<rparr>
   | RemoveContextIds \<Rightarrow> adv\<lparr>contextIds := []\<rparr>
   | RemoveEndpointNames \<Rightarrow> adv\<lparr>endpointNames := []\<rparr>
   | RemoveText field \<Rightarrow> set_text field [] adv
   | RemoveNumeric field \<Rightarrow> adv\<lparr>af_numeric := (af_numeric adv)(field := [])\<rparr>
   | RemoveDetail field \<Rightarrow> adv\<lparr>featureDetails := clearFeatureDetailField (featureDetails adv) field\<rparr>
   | RemoveFeature k \<Rightarrow> adv\<lparr>af_features := (af_features adv)(k := JStr ''any'')\<rparr>
   | _ \<Rightarrow> adv)"

record filter_controller =
  fl_filter :: string
  fl_filterValue :: string
  fl_quickFilterMode :: TextMatchMode
  fl_advancedDraft :: AdvancedFilterState
  fl_advancedApplied :: "AdvancedFilterState option"
  fl_tagFilters :: "nat list"
  fl_tagMatchAll :: bool
  fl_page :: nat
  fl_showAdvancedFilter :: bool

definition updateAdvancedField :: "string \<Rightarrow> string \<Rightarrow> filter_controller \<Rightarrow> filter_controller" where
  "updateAdvancedField field v st = st\<lparr>fl_advancedDraft := set_text field v (fl_advancedDraft st)\<rparr>"

text \<open>The other edits of the draft: the mode of a text, the kind of owner, its suspension, a feature and a detail.\<close>

definition openAdvancedFilterDrawer :: "filter_controller \<Rightarrow> filter_controller" where
  "openAdvancedFilterDrawer st = st\<lparr>fl_showAdvancedFilter := True\<rparr>"

definition in_draft :: "(AdvancedFilterState \<Rightarrow> AdvancedFilterState) \<Rightarrow> filter_controller \<Rightarrow> filter_controller" where
  "in_draft f st = st\<lparr>fl_advancedDraft := f (fl_advancedDraft st)\<rparr>"

definition updateAdvancedMatchMode :: "string \<Rightarrow> TextMatchMode \<Rightarrow> filter_controller \<Rightarrow> filter_controller" where
  "updateAdvancedMatchMode field v = in_draft (\<lambda>adv.
     if field = ''tenantMatchMode'' then adv\<lparr>tenantMatchMode := v\<rparr> else if field = ''ownerMatchMode'' then adv\<lparr>ownerMatchMode := v\<rparr>
     else if field = ''ownerNameMatchMode'' then adv\<lparr>ownerNameMatchMode := v\<rparr> else adv\<lparr>s3TagsMatchMode := v\<rparr>)"

definition updateAdvancedOwnerNameScope :: "string \<Rightarrow> filter_controller \<Rightarrow> filter_controller" where
  "updateAdvancedOwnerNameScope v = in_draft (\<lambda>adv. adv\<lparr>ownerNameScope := v\<rparr>)"

definition updateAdvancedOwnerSuspended :: "string \<Rightarrow> filter_controller \<Rightarrow> filter_controller" where
  "updateAdvancedOwnerSuspended v = in_draft (\<lambda>adv. adv\<lparr>ownerSuspended := v\<rparr>)"

definition updateFeatureFilter :: "string \<Rightarrow> json \<Rightarrow> filter_controller \<Rightarrow> filter_controller" where
  "updateFeatureFilter k v = in_draft (\<lambda>adv. adv\<lparr>af_features := (af_features adv)(k := v)\<rparr>)"

definition updateFeatureDetailFilter :: "string \<Rightarrow> string \<Rightarrow> filter_controller \<Rightarrow> filter_controller" where
  "updateFeatureDetailFilter field v = in_draft (\<lambda>adv. adv\<lparr>featureDetails := (featureDetails adv)(field := v)\<rparr>)"

definition updateQuickFilterDraft :: "string \<Rightarrow> filter_controller \<Rightarrow> filter_controller" where
  "updateQuickFilterDraft v st = st\<lparr>fl_filter := v\<rparr>"

definition updateTagFilterMode :: "bool \<Rightarrow> filter_controller \<Rightarrow> filter_controller" where
  "updateTagFilterMode v st = st\<lparr>fl_tagMatchAll := v, fl_page := 1\<rparr>"

definition closeAdvancedFilterDrawer :: "filter_controller \<Rightarrow> filter_controller" where
  "closeAdvancedFilterDrawer st = st\<lparr>fl_advancedDraft := (case fl_advancedApplied st of Some a \<Rightarrow> a | None \<Rightarrow> defaultAdvancedFilter),
     fl_showAdvancedFilter := False\<rparr>"

definition applyAdvancedFilter :: "filter_controller \<Rightarrow> filter_controller" where
  "applyAdvancedFilter st = st\<lparr>fl_advancedApplied := Some (fl_advancedDraft st), fl_page := 1, fl_showAdvancedFilter := False\<rparr>"

definition resetAdvancedFilter :: "filter_controller \<Rightarrow> filter_controller" where
  "resetAdvancedFilter st = st\<lparr>fl_advancedDraft := defaultAdvancedFilter, fl_advancedApplied := None, fl_page := 1\<rparr>"

definition toggleQuickFilterMode :: "filter_controller \<Rightarrow> filter_controller" where
  "toggleQuickFilterMode st =
     (if qf_draftForcesExact (resolveQuickTextFilterState (fl_filter st) (fl_filterValue st) (fl_quickFilterMode st)) then st
      else st\<lparr>fl_quickFilterMode := (if fl_quickFilterMode st = Contains then Exact else Contains), fl_page := 1\<rparr>)"

definition resetAllFilters :: "filter_controller \<Rightarrow> filter_controller" where
  "resetAllFilters st = \<lparr>fl_filter = [], fl_filterValue = [], fl_quickFilterMode = Contains, fl_advancedDraft = defaultAdvancedFilter,
     fl_advancedApplied = None, fl_tagFilters = [], fl_tagMatchAll = False, fl_page = 1, fl_showAdvancedFilter = False\<rparr>"

definition addTagFilter :: "nat \<Rightarrow> filter_controller \<Rightarrow> filter_controller" where
  "addTagFilter t st = st\<lparr>fl_tagFilters := (if t \<in> set (fl_tagFilters st) then fl_tagFilters st else fl_tagFilters st @ [t]), fl_page := 1\<rparr>"

definition removeTagFilter :: "nat \<Rightarrow> filter_controller \<Rightarrow> filter_controller" where
  "removeTagFilter t st = st\<lparr>fl_tagFilters := filter (\<lambda>x. x \<noteq> t) (fl_tagFilters st), fl_page := 1\<rparr>"

definition removeActiveFilterItem :: "ActiveFilterRemoveAction \<Rightarrow> filter_controller \<Rightarrow> filter_controller" where
  "removeActiveFilterItem action st = (case action of
     RemoveQuick \<Rightarrow> st\<lparr>fl_filter := [], fl_filterValue := [], fl_page := 1\<rparr>
   | RemoveTagMode \<Rightarrow> st\<lparr>fl_tagMatchAll := False, fl_page := 1\<rparr>
   | RemoveTag t \<Rightarrow> removeTagFilter t st
   | _ \<Rightarrow> st\<lparr>fl_advancedDraft := clearAdvancedFilterAction (fl_advancedDraft st) action,
           fl_advancedApplied := map_option (\<lambda>a. clearAdvancedFilterAction a action) (fl_advancedApplied st), fl_page := 1\<rparr>)"

text \<open>What the listing asks for: \<open>advanced_filter\<close> and \<open>filter\<close>.\<close>

definition advancedFilterParam :: "js_host \<Rightarrow> summary_context \<Rightarrow> filter_controller \<Rightarrow> string option" where
  "advancedFilterParam h ctx st =
     (let mode = qf_effectiveMode (resolveQuickTextFilterState (fl_filter st) (fl_filterValue st) (fl_quickFilterMode st)) in
      buildAdvancedFilterPayload h (if mode = Exact then fl_filterValue st else []) mode (fl_advancedApplied st) None
        (sc_isStorageOps ctx) (sc_usageFeatureEnabled ctx) (sc_featureSupport ctx))"

definition search_param :: "filter_controller \<Rightarrow> string option" where
  "search_param st =
     (let v = trim (qf_effectiveSearchValue (resolveQuickTextFilterState (fl_filter st) (fl_filterValue st) (fl_quickFilterMode st))) in
      if v = [] then None else Some v)"

definition active_items :: "js_host \<Rightarrow> summary_context \<Rightarrow> (nat \<Rightarrow> string option) \<Rightarrow> filter_controller \<Rightarrow> ActiveFilterSummaryItem list option" where
  "active_items h ctx labels st =
     buildBucketOpsActiveFilterSummaryItems h (fl_filterValue st)
       (qf_effectiveMode (resolveQuickTextFilterState (fl_filter st) (fl_filterValue st) (fl_quickFilterMode st))) (fl_tagFilters st) labels (fl_tagMatchAll st)
       (fl_advancedApplied st) ctx"

end
