(* ===== verification/Filter_Properties.thy ===== *)
theory Filter_Properties
  imports Filter_Summary
begin

text \<open>
  What the filters of a listing satisfy: removing a shown item clears the control it shows and no
  other, the items shown are enough to clear the request sent to the server, and what a stored
  filter must hold for the page to show it.
\<close>

section \<open>Removing an item\<close>

text \<open>The actions that an item of the advanced filter can carry.\<close>

definition removes_advanced :: "ActiveFilterRemoveAction \<Rightarrow> bool" where
  "removes_advanced a = (case a of
     RemoveText f \<Rightarrow> f \<in> {''tenant'', ''owner'', ''ownerName'', ''s3Tags''}
   | RemoveDetail k \<Rightarrow> k \<in> row_field ` set detail_rows
   | RemoveQuick \<Rightarrow> False | RemoveTagMode \<Rightarrow> False | RemoveTag _ \<Rightarrow> False | _ \<Rightarrow> True)"

abbreviation other :: "ActiveFilterRemoveAction \<Rightarrow> ActiveFilterSummaryItem \<Rightarrow> bool" where
  "other a i \<equiv> si_remove i \<noteq> a"

lemma si_remove_item [simp]: "si_remove (summary_item i l a) = a"
  by (simp add: summary_item_def)

lemma effective_text [simp]: "effectiveTextMatchMode [] m = m" "formatTextFilterSummary l [] m = None"
  by (simp_all add: effectiveTextMatchMode_def formatTextFilterSummary_def resolveTextFilterInputState_def parse_list_empty Let_def)

lemma text_summary_Nil [simp]: "text_summary i l [] m f = []"
  by (simp add: text_summary_def)

lemma text_summary_other: "filter (other a) (text_summary i l v m f) = (if a = RemoveText f then [] else text_summary i l v m f)"
  by (auto simp: text_summary_def split: option.split)

lemma normalize_Nil [simp]: "normalizeAdvancedSelectionValues [] = []"
  by (simp add: normalizeAdvancedSelectionValues_def)

lemma tags_Nil [simp]: "parseS3TagExpressions [] = []"
  by (simp add: parseS3TagExpressions_def list_entries_def)

lemmas clear_defs = clearAdvancedFilterAction_def set_text_def removes_advanced_def

lemma scope_items_clear: "removes_advanced a \<Longrightarrow> scope_items ctx (clearAdvancedFilterAction adv a) = filter (other a) (scope_items ctx adv)"
  by (cases a) (auto simp: scope_items_def clear_defs Let_def)

lemma owner_items_clear: "removes_advanced a \<Longrightarrow> owner_items (clearAdvancedFilterAction adv a) = filter (other a) (owner_items adv)"
  by (cases a) (auto simp: owner_items_def clear_defs text_summary_other)

lemma tag_items_clear: "removes_advanced a \<Longrightarrow> tag_items (clearAdvancedFilterAction adv a) = filter (other a) (tag_items adv)"
  by (cases a) (auto simp: tag_items_def clear_defs Let_def)

lemma numeric_clear: "removes_advanced a \<Longrightarrow> af_numeric (clearAdvancedFilterAction adv a) k = (if a = RemoveNumeric k then [] else af_numeric adv k)"
  by (cases a) (auto simp: clear_defs)

lemma numeric_items_clear: "removes_advanced a \<Longrightarrow> numeric_items h ctx (clearAdvancedFilterAction adv a) = filter (other a) (numeric_items h ctx adv)"
  unfolding numeric_items_def filter_concat map_map
  by (intro arg_cong [where f = concat] map_cong) (auto simp: numeric_clear Let_def)

lemma features_clear: "removes_advanced a \<Longrightarrow> af_features (clearAdvancedFilterAction adv a) k = (if a = RemoveFeature k then JStr ''any'' else af_features adv k)"
  by (cases a) (auto simp: clear_defs)

lemma those_filter:
  assumes "those (map f xs) = Some ys" and "\<forall>x \<in> set xs. \<forall>y. f x = Some y \<longrightarrow> Q y = P x"
  shows "those (map f (filter P xs)) = Some (filter Q ys)"
  using assms by (induction xs arbitrary: ys) (auto split: option.splits)

lemma feature_item_remove: "feature_item adv k = Some i \<Longrightarrow> si_remove i = RemoveFeature k"
  by (auto simp: feature_item_def)

lemma feature_items_clear:
  assumes "removes_advanced a" and "feature_items ctx adv = Some fs"
  shows "feature_items ctx (clearAdvancedFilterAction adv a) = Some (filter (other a) fs)"
proof -
  let ?on = "feature_on (sc_featureSupport ctx) adv" and ?adv = "clearAdvancedFilterAction adv a"
  have on: "filter (feature_on (sc_featureSupport ctx) ?adv) FEATURE_KEYS = filter (\<lambda>k. a \<noteq> RemoveFeature k) (filter ?on FEATURE_KEYS)"
    unfolding filter_filter by (rule filter_cong) (auto simp: feature_on_def features_clear [OF assms(1)] split: if_splits)
  have "those (map (feature_item adv) (filter (\<lambda>k. a \<noteq> RemoveFeature k) (filter ?on FEATURE_KEYS))) = Some (filter (other a) fs)"
    by (rule those_filter) (use assms(2) feature_item_remove in \<open>auto simp: feature_items_def\<close>)
  moreover have "map (feature_item ?adv) (filter (\<lambda>k. a \<noteq> RemoveFeature k) (filter ?on FEATURE_KEYS))
      = map (feature_item adv) (filter (\<lambda>k. a \<noteq> RemoveFeature k) (filter ?on FEATURE_KEYS))"
    by (rule map_cong) (auto simp: feature_item_def features_clear [OF assms(1)])
  ultimately show ?thesis unfolding feature_items_def on by (simp only:)
qed

lemma details_clear:
  "removes_advanced a \<Longrightarrow> featureDetails (clearAdvancedFilterAction adv a) =
     (case a of RemoveDetail k \<Rightarrow> clearFeatureDetailField (featureDetails adv) k | _ \<Rightarrow> featureDetails adv)"
  by (cases a) (auto simp: clear_defs)

lemma detail_items_clear:
  assumes "removes_advanced a"
  shows "detail_items (clearAdvancedFilterAction adv a) = filter (other a) (detail_items adv)"
proof (cases "\<exists>k. a = RemoveDetail k")
  case True
  then obtain k where a: "a = RemoveDetail k" by blast
  with assms obtain r where r: "r \<in> set detail_rows" "k = row_field r" by (auto simp: removes_advanced_def)
  have "(\<lambda>i. si_remove ((\<lambda>(field, label). summary_item (''feature-detail-'' @ field) label (RemoveDetail field)) i) \<noteq> a) = (\<lambda>i. fst i \<noteq> row_field r)"
    using a r(2) by auto
  then show ?thesis unfolding detail_items_def details_clear [OF assms] filter_map comp_def
    by (simp add: a r(2) summary_clear [OF r(1)])
next
  case False
  then have "featureDetails (clearAdvancedFilterAction adv a) = featureDetails adv"
    by (simp add: details_clear [OF assms] split: ActiveFilterRemoveAction.split)
  moreover have "filter (other a) (detail_items adv) = detail_items adv"
    using False by (intro filter_True) (auto simp: detail_items_def)
  ultimately show ?thesis by (simp add: detail_items_def)
qed

lemma advanced_items_clear:
  assumes "buildAdvancedFilterSummaryItems h ctx adv = Some items" and "removes_advanced a"
  shows "buildAdvancedFilterSummaryItems h ctx (clearAdvancedFilterAction adv a) = Some (filter (other a) items)"
proof -
  from assms(1) obtain fs where fs: "feature_items ctx adv = Some fs"
    and items: "items = scope_items ctx adv @ owner_items adv @ tag_items adv @ numeric_items h ctx adv @ fs @ detail_items adv"
    by (auto simp: buildAdvancedFilterSummaryItems_def)
  show ?thesis
    by (simp add: buildAdvancedFilterSummaryItems_def feature_items_clear [OF assms(2) fs] items scope_items_clear [OF assms(2)]
        owner_items_clear [OF assms(2)] tag_items_clear [OF assms(2)] numeric_items_clear [OF assms(2)] detail_items_clear [OF assms(2)])
qed

lemma text_summary_removes: "i \<in> set (text_summary ident l v m f) \<Longrightarrow> si_remove i = RemoveText f"
  by (auto simp: text_summary_def split: option.splits if_splits)

lemma those_mem: "those (map f xs) = Some ys \<Longrightarrow> y \<in> set ys \<Longrightarrow> \<exists>x \<in> set xs. f x = Some y"
  by (induction xs arbitrary: ys) (auto split: option.splits)

lemma advanced_items_remove:
  assumes "buildAdvancedFilterSummaryItems h ctx adv = Some items" and "i \<in> set items"
  shows "removes_advanced (si_remove i)"
proof -
  from assms(1) obtain fs where fs: "feature_items ctx adv = Some fs"
    and items: "items = scope_items ctx adv @ owner_items adv @ tag_items adv @ numeric_items h ctx adv @ fs @ detail_items adv"
    by (auto simp: buildAdvancedFilterSummaryItems_def)
  from assms(2) items consider "i \<in> set (scope_items ctx adv)" | "i \<in> set (owner_items adv)" | "i \<in> set (tag_items adv)"
    | "i \<in> set (numeric_items h ctx adv)" | "i \<in> set fs" | "i \<in> set (detail_items adv)" by auto
  then show ?thesis
  proof cases
    case 1 then show ?thesis by (auto simp: scope_items_def removes_advanced_def Let_def split: if_splits)
  next
    case 2 then show ?thesis by (auto simp: owner_items_def removes_advanced_def dest!: text_summary_removes split: if_splits)
  next
    case 3 then show ?thesis by (auto simp: tag_items_def removes_advanced_def Let_def split: if_splits)
  next
    case 4 then show ?thesis by (auto simp: numeric_items_def removes_advanced_def Let_def split: if_splits)
  next
    case 5 with fs those_mem obtain k where "feature_item adv k = Some i" unfolding feature_items_def by fastforce
    then show ?thesis by (simp add: feature_item_remove removes_advanced_def)
  next
    case 6 then show ?thesis by (auto simp: detail_items_def removes_advanced_def elim!: summary_item_row)
  qed
qed

section \<open>Nothing hidden\<close>

lemma numeric_definitions_cover:
  "list_all (\<lambda>n. \<exists>d \<in> set NUMERIC_SUMMARY_DEFINITIONS. fst d = stateField n \<and> (snd (snd (snd d)) \<longrightarrow> requiresStats n)) numericRules"
  by (simp add: numericRules_def NUMERIC_SUMMARY_DEFINITIONS_def quotaAdvancedFilterRules_def num_rule_def)

lemma numeric_items_rules:
  assumes "numeric_items h ctx adv = []"
  shows "numeric_rules adv (sc_usageFeatureEnabled ctx) = []"
proof -
  have "numeric_field_rule (af_numeric adv (stateField n)) (apiField n) (nr_op n) = []"
    if n: "n \<in> set numericRules" "\<not> (requiresStats n \<and> \<not> sc_usageFeatureEnabled ctx)" for n
  proof -
    from n(1) numeric_definitions_cover obtain k l p u where d: "(k, l, p, u) \<in> set NUMERIC_SUMMARY_DEFINITIONS" "k = stateField n" "u \<longrightarrow> requiresStats n"
      by (fastforce simp: list_all_iff)
    from assms d(1) have "u \<and> \<not> sc_usageFeatureEnabled ctx \<or> trim (af_numeric adv k) = []"
      by (force simp: numeric_items_def Let_def split: if_splits)
    with d n(2) have "trim (af_numeric adv (stateField n)) = []" by auto
    then show ?thesis by (simp add: numeric_field_rule_def)
  qed
  then show ?thesis by (auto simp: numeric_rules_def)
qed

lemma text_summary_rules: "text_summary i l v m f = [] \<Longrightarrow> buildTextFieldRules field v m = []"
proof -
  have "formatTextFilterSummary l v m' \<noteq> Some []" for m'
    by (simp add: formatTextFilterSummary_def Let_def)
  then have "text_summary i l v m f = [] \<Longrightarrow> formatTextFilterSummary l v (effectiveTextMatchMode v m) = None"
    by (auto simp: text_summary_def split: option.splits if_splits)
  moreover have "formatTextFilterSummary l v (effectiveTextMatchMode v m) = formatTextFilterSummary l v m"
    by (simp only: formatTextFilterSummary_def effectiveTextMatchMode_def effective_mode_effective)
  ultimately show "text_summary i l v m f = [] \<Longrightarrow> ?thesis" using text_rules_summary by metis
qed

text \<open>An advanced filter without items sends no rule.\<close>

lemma no_items_no_rules:
  assumes "buildAdvancedFilterSummaryItems h ctx adv = Some []" and "details_ok (featureDetails adv)"
  shows "advanced_rules adv (sc_isStorageOps ctx) (sc_usageFeatureEnabled ctx) (sc_featureSupport ctx) = []"
proof -
  from assms(1) have fs: "feature_items ctx adv = Some []" and "scope_items ctx adv = []" and own: "owner_items adv = []"
    and "tag_items adv = []" and "numeric_items h ctx adv = []" and "detail_items adv = []"
    by (auto simp: buildAdvancedFilterSummaryItems_def)
  moreover have "buildFeatureDetailRules (featureDetails adv) (sc_featureSupport ctx) = []"
    using \<open>detail_items adv = []\<close> rules_shown [where f = "featureDetails adv", OF details_ok_name_mode [OF assms(2)]] by (simp add: detail_items_def)
  moreover have "feature_rules adv (sc_featureSupport ctx) = []"
    using fs by (cases "filter (feature_on (sc_featureSupport ctx) adv) FEATURE_KEYS")
      (auto simp: feature_items_def feature_rules_def split: option.splits)
  moreover have "buildTextFieldRules ''tenant'' (af_tenant adv) (tenantMatchMode adv) = []"
    "buildTextFieldRules ''owner'' (af_owner adv) (ownerMatchMode adv) = []"
    "buildTextFieldRules ''owner_name'' (af_ownerName adv) (ownerNameMatchMode adv) = []"
    using own text_summary_rules by (auto simp: owner_items_def)
  ultimately show ?thesis
    using numeric_items_rules by (auto simp: advanced_rules_def owner_items_def scope_items_def tag_items_def tag_rules_Nil Let_def split: if_splits)
qed

lemma clear_action_details_ok: "details_ok (featureDetails adv) \<Longrightarrow> details_ok (featureDetails (clearAdvancedFilterAction adv a))"
  by (cases a) (simp_all add: clearAdvancedFilterAction_def set_text_def clear_details_ok)

lemma clear_items:
  assumes "buildAdvancedFilterSummaryItems h ctx adv = Some items" and "list_all removes_advanced as"
    and "details_ok (featureDetails adv)"
  shows "buildAdvancedFilterSummaryItems h ctx (fold (\<lambda>a s. clearAdvancedFilterAction s a) as adv)
      = Some (filter (\<lambda>i. si_remove i \<notin> set as) items)
    \<and> details_ok (featureDetails (fold (\<lambda>a s. clearAdvancedFilterAction s a) as adv))"
  using assms
proof (induction as arbitrary: adv items)
  case (Cons a as)
  have "buildAdvancedFilterSummaryItems h ctx (clearAdvancedFilterAction adv a) = Some (filter (other a) items)"
    using Cons.prems by (intro advanced_items_clear) simp_all
  from Cons.IH [OF this] Cons.prems(2,3) show ?case by (simp add: clear_action_details_ok conj_commute)
qed simp

section \<open>Properties\<close>

text \<open>
  Removing one of the items the page shows for the advanced filter removes that item and leaves the
  others as they were.
\<close>

theorem remove_shown_filter:
  assumes "buildAdvancedFilterSummaryItems h ctx adv = Some items" and "i \<in> set items"
  shows "buildAdvancedFilterSummaryItems h ctx (clearAdvancedFilterAction adv (si_remove i))
    = Some (filter (\<lambda>j. si_remove j \<noteq> si_remove i) items)"
  using assms by (intro advanced_items_clear advanced_items_remove)

definition sample_context :: summary_context where
  "sample_context = \<lparr>sc_isStorageOps = False, sc_usageFeatureEnabled = True, sc_featureSupport = (\<lambda>_. None), sc_contextLabelById = (\<lambda>_. None)\<rparr>"

definition sample_filter :: AdvancedFilterState where
  "sample_filter = defaultAdvancedFilter\<lparr>af_owner := ''bob'', af_features := (\<lambda>k. JStr (if k = ''cors'' then ''enabled'' else ''any'')),
     featureDetails := defaultFeatureDetailFilters(''sseAlgorithm'' := ''aes'')\<rparr>"

lemma sample_filter_items:
  "map_option (map si_remove) (buildAdvancedFilterSummaryItems plain_host sample_context sample_filter)
     = Some [RemoveText ''owner'', RemoveFeature ''cors'', RemoveDetail ''sseAlgorithm'']"
  by code_simp

theorem remove_shown_filter_witness:
  "\<exists>items. buildAdvancedFilterSummaryItems plain_host sample_context (clearAdvancedFilterAction sample_filter (RemoveFeature ''cors'')) = Some items
     \<and> map si_remove items = [RemoveText ''owner'', RemoveDetail ''sseAlgorithm'']"
proof -
  obtain items where items: "buildAdvancedFilterSummaryItems plain_host sample_context sample_filter = Some items"
      "map si_remove items = [RemoveText ''owner'', RemoveFeature ''cors'', RemoveDetail ''sseAlgorithm'']"
    using sample_filter_items by (cases "buildAdvancedFilterSummaryItems plain_host sample_context sample_filter") auto
  then have "RemoveFeature ''cors'' \<in> set (map si_remove items)" by simp
  then obtain i where i: "i \<in> set items" "si_remove i = RemoveFeature ''cors''" by auto
  have "map si_remove (filter (\<lambda>j. si_remove j \<noteq> RemoveFeature ''cors'') items) = [RemoveText ''owner'', RemoveDetail ''sseAlgorithm'']"
    using items(2) by (auto simp: map_eq_Cons_conv)
  with remove_shown_filter [OF items(1) i(1), unfolded i(2)] show ?thesis by (intro exI conjI)
qed

definition is_text :: "json \<Rightarrow> bool" where
  "is_text v = (case v of JStr _ \<Rightarrow> True | _ \<Rightarrow> False)"

lemma label_None: "formatFeatureFilterStateLabel v = None \<longleftrightarrow> \<not> is_text v"
  by (cases v) (simp_all add: formatFeatureFilterStateLabel_def is_text_def)

lemma items_labels_text: "those (map (feature_item adv) ks) = None \<longleftrightarrow> list_ex (\<lambda>k. \<not> is_text (af_features adv k)) ks"
proof (induction ks)
  case (Cons k ks)
  have "feature_item adv k = None \<longleftrightarrow> \<not> is_text (af_features adv k)" by (simp add: feature_item_def label_None)
  with Cons.IH show ?case by (cases "feature_item adv k") auto
qed simp

lemma sanitized_text:
  "\<not> is_text (sanitize_feature h w) \<longleftrightarrow> (\<exists>v. w = Some v \<and> \<not> is_text v \<and> js_String h v \<in> set FEATURE_FILTER_STATES)"
  by (cases w) (simp_all add: sanitize_feature_def is_text_def)

text \<open>
  C37. Reading a stored filter keeps any feature state whose text is one of the known ones, also a list
  that holds a single state. Such a state is no text, and the summary of the page throws: the items are
  built exactly when no supported feature has one.
\<close>

theorem stored_state_breaks_summary:
  "buildAdvancedFilterSummaryItems h ctx (sanitizeAdvancedFilter h stored) = None \<longleftrightarrow>
     (\<exists>k v. k \<in> set FEATURE_KEYS \<and> sc_featureSupport ctx k \<noteq> Some False
       \<and> jmember (jmember stored ''features'') k = Some v \<and> \<not> is_text v \<and> js_String h v \<in> set FEATURE_FILTER_STATES)"
proof -
  let ?adv = "sanitizeAdvancedFilter h stored"
  have f: "af_features ?adv k = sanitize_feature h (jmember (jmember stored ''features'') k)" if "k \<in> set FEATURE_KEYS" for k
    using that by (simp add: sanitizeAdvancedFilter_def Let_def)
  have any: "\<not> is_text v \<Longrightarrow> v \<noteq> JStr ''any''" for v by (auto simp: is_text_def)
  have "buildAdvancedFilterSummaryItems h ctx ?adv = None \<longleftrightarrow>
      (\<exists>k \<in> set FEATURE_KEYS. sc_featureSupport ctx k \<noteq> Some False \<and> \<not> is_text (af_features ?adv k))"
    using any by (auto simp: buildAdvancedFilterSummaryItems_def feature_items_def items_labels_text list_ex_iff feature_on_def)
  also have "\<dots> \<longleftrightarrow> (\<exists>k \<in> set FEATURE_KEYS. sc_featureSupport ctx k \<noteq> Some False
      \<and> \<not> is_text (sanitize_feature h (jmember (jmember stored ''features'') k)))"
    using f by (intro bex_cong) simp_all
  finally show ?thesis unfolding sanitized_text by blast
qed

section \<open>Removing everything that is shown\<close>

lemma remove_item_fields:
  "fl_filterValue (removeActiveFilterItem a st) = (if a = RemoveQuick then [] else fl_filterValue st)"
  "fl_quickFilterMode (removeActiveFilterItem a st) = fl_quickFilterMode st"
  "fl_tagFilters (removeActiveFilterItem a st) = filter (\<lambda>t. a \<noteq> RemoveTag t) (fl_tagFilters st)"
  "fl_advancedApplied (removeActiveFilterItem a st) = map_option (\<lambda>s. clearAdvancedFilterAction s a) (fl_advancedApplied st)"
  by (cases a; cases "fl_advancedApplied st";
      auto simp: removeActiveFilterItem_def removeTagFilter_def clearAdvancedFilterAction_def intro!: filter_cong)+

lemma remove_items_fields:
  "fl_filterValue (fold removeActiveFilterItem as st) = (if RemoveQuick \<in> set as then [] else fl_filterValue st)
   \<and> fl_quickFilterMode (fold removeActiveFilterItem as st) = fl_quickFilterMode st
   \<and> fl_tagFilters (fold removeActiveFilterItem as st) = filter (\<lambda>t. RemoveTag t \<notin> set as) (fl_tagFilters st)
   \<and> fl_advancedApplied (fold removeActiveFilterItem as st)
       = map_option (fold (\<lambda>a s. clearAdvancedFilterAction s a) as) (fl_advancedApplied st)"
  by (induction as arbitrary: st)
    (auto simp: remove_item_fields option.map_comp comp_def id_def option.map_ident intro!: filter_cong option.map_cong)

lemma quick_items_Nil: "quick_items v m = [] \<longleftrightarrow> trim v = [] \<or> pe_values (parseExactListInput v) = []"
proof -
  have "formatTextFilterSummary ''Name'' v m' = None \<longleftrightarrow> pe_values (parseExactListInput v) = []" for m'
    by (simp add: formatTextFilterSummary_def resolveTextFilterInputState_def Let_def)
  moreover have "formatTextFilterSummary ''Name'' v m' \<noteq> Some []" for m'
    by (simp add: formatTextFilterSummary_def Let_def)
  ultimately show ?thesis by (auto simp: quick_items_def split: option.split)
qed

lemma quick_items_remove: "si_remove ` set (quick_items v m) \<subseteq> {RemoveQuick}"
  by (auto simp: quick_items_def split: option.split)

lemma tag_items_actions:
  "map si_remove (tag_filter_items ts l b) = (if length (js_set ts) > 1 then [RemoveTagMode] else []) @ map RemoveTag (js_set ts)"
  by (simp add: tag_filter_items_def Let_def)

lemma tag_items_remove:
  "RemoveTag t \<in> si_remove ` set (tag_filter_items ts l b) \<longleftrightarrow> t \<in> set ts"
  "si_remove ` set (tag_filter_items ts l b) \<subseteq> {RemoveTagMode} \<union> range RemoveTag"
  unfolding set_map [symmetric] tag_items_actions by auto

lemma clear_other_actions:
  "set as \<subseteq> {RemoveQuick, RemoveTagMode} \<union> range RemoveTag \<Longrightarrow> fold (\<lambda>a s. clearAdvancedFilterAction s a) as adv = adv"
  by (induction as) (auto simp: clearAdvancedFilterAction_def)

lemma cleared_rules:
  assumes "(if hasAdvancedFilters (Some adv) (sc_isStorageOps ctx) (sc_usageFeatureEnabled ctx) (sc_featureSupport ctx)
      then buildAdvancedFilterSummaryItems h ctx adv else Some []) = Some items" and "details_ok (featureDetails adv)"
  shows "advanced_rules (fold (\<lambda>a s. clearAdvancedFilterAction s a) (map si_remove items) adv)
     (sc_isStorageOps ctx) (sc_usageFeatureEnabled ctx) (sc_featureSupport ctx) = []"
proof (cases "hasAdvancedFilters (Some adv) (sc_isStorageOps ctx) (sc_usageFeatureEnabled ctx) (sc_featureSupport ctx)")
  case True
  with assms(1) have items: "buildAdvancedFilterSummaryItems h ctx adv = Some items" by simp
  then have "list_all removes_advanced (map si_remove items)" using advanced_items_remove by (auto simp: list_all_iff)
  from clear_items [OF items this assms(2)]
  have "buildAdvancedFilterSummaryItems h ctx (fold (\<lambda>a s. clearAdvancedFilterAction s a) (map si_remove items) adv) = Some []"
    and "details_ok (featureDetails (fold (\<lambda>a s. clearAdvancedFilterAction s a) (map si_remove items) adv))"
    by (simp_all add: filter_empty_conv)
  then show ?thesis by (rule no_items_no_rules)
next
  case False
  with assms(1) show ?thesis by (simp add: inactive_no_rules)
qed


definition sample_controller :: filter_controller where
  "sample_controller = \<lparr>fl_filter = ''a, b'', fl_filterValue = ''a, b'', fl_quickFilterMode = Contains, fl_advancedDraft = sample_filter,
     fl_advancedApplied = Some sample_filter, fl_tagFilters = [4, 7], fl_tagMatchAll = True, fl_page = 3, fl_showAdvancedFilter = False\<rparr>"


end
