(* ===== verification/List_State.thy ===== *)
theory List_State
  imports Clipboard Filter_Summary
begin

text \<open>
  \<open>frontend/src/features/shared/bucketOpsListState.ts\<close>: the columns of the bucket listing and the state of
  a listing kept in the local storage, one entry per endpoint; and \<open>useBucketOpsListState.ts\<close>: the state
  of the hook, what it restores for a scope (endpoint, storage keys, owner link) and its effects, each of
  which is a function of the state it rendered with. The order of the entries of the stored object is not
  modelled: it shows only in the text.
\<close>

section \<open>Columns\<close>

definition BUCKET_CORE_COLUMN_OPTIONS :: "(string \<times> string) list" where
  "BUCKET_CORE_COLUMN_OPTIONS = [
     (''context_name'', ''Context''), (''context_kind'', ''Kind''), (''endpoint_name'', ''Endpoint''),
     (''ui_tags'', ''UI tags''), (''tenant'', ''Tenant''), (''owner'', ''Owner''), (''owner_name'', ''Owner name''),
     (''owner_suspended'', ''Owner suspended''), (''used_bytes'', ''Used''), (''object_count'', ''Objects''),
     (''owner_used_bytes'', ''Owner used''), (''owner_object_count'', ''Owner objects''), (''tags'', ''S3 Tags'')]"

definition BUCKET_QUOTA_COLUMN_GROUPS :: "(string \<times> string \<times> (string \<times> string) list) list" where
  "BUCKET_QUOTA_COLUMN_GROUPS = [
     (''bucket_quota'', ''Bucket quota'', [
       (''quota_max_size_bytes'', ''Quota''), (''quota_usage_size_percent'', ''Quota %''),
       (''quota_max_objects'', ''Object quota''), (''quota_usage_object_percent'', ''Object quota %''),
       (''quota_status'', ''Quota status'')]),
     (''owner_quota'', ''Owner quota'', [
       (''owner_quota_max_size_bytes'', ''Owner quota''), (''owner_quota_usage_size_percent'', ''Owner quota %''),
       (''owner_quota_max_objects'', ''Owner object quota''),
       (''owner_quota_usage_object_percent'', ''Owner object quota %'')])]"

record FeatureDetailColumnOption =
  fo_id :: string
  fo_label :: string
  fo_feature :: string
  fo_include :: string

definition detail_column :: "string \<Rightarrow> string \<Rightarrow> string \<Rightarrow> string \<Rightarrow> FeatureDetailColumnOption" where
  "detail_column i l f c = \<lparr>fo_id = i, fo_label = l, fo_feature = f, fo_include = c\<rparr>"

definition FEATURE_DETAIL_COLUMN_OPTIONS :: "FeatureDetailColumnOption list" where
  "FEATURE_DETAIL_COLUMN_OPTIONS = [
     detail_column ''object_lock_mode'' ''Object Lock mode'' ''object_lock'' ''object_lock_mode'',
     detail_column ''object_lock_retention_days'' ''Object Lock retention days'' ''object_lock'' ''object_lock_retention_days'',
     detail_column ''object_lock_retention_years'' ''Object Lock retention years'' ''object_lock'' ''object_lock_retention_years'',
     detail_column ''bpa_block_public_acls'' ''BPA block public ACLs'' ''block_public_access'' ''bpa_block_public_acls'',
     detail_column ''bpa_ignore_public_acls'' ''BPA ignore public ACLs'' ''block_public_access'' ''bpa_ignore_public_acls'',
     detail_column ''bpa_block_public_policy'' ''BPA block public policy'' ''block_public_access'' ''bpa_block_public_policy'',
     detail_column ''bpa_restrict_public_buckets'' ''BPA restrict public buckets'' ''block_public_access'' ''bpa_restrict_public_buckets'',
     detail_column ''lifecycle_expiration_days'' ''Lifecycle expiration days'' ''lifecycle_rules'' ''lifecycle_expiration_days'',
     detail_column ''lifecycle_noncurrent_expiration_days'' ''Lifecycle noncurrent expiration days'' ''lifecycle_rules'' ''lifecycle_noncurrent_expiration_days'',
     detail_column ''lifecycle_transition_days'' ''Lifecycle transition days'' ''lifecycle_rules'' ''lifecycle_transition_days'',
     detail_column ''lifecycle_abort_multipart_days'' ''Lifecycle abort multipart days'' ''lifecycle_rules'' ''lifecycle_abort_multipart_days'',
     detail_column ''cors_allowed_methods'' ''CORS allowed methods'' ''cors'' ''cors_allowed_methods'',
     detail_column ''cors_allowed_origins'' ''CORS allowed origins'' ''cors'' ''cors_allowed_origins'',
     detail_column ''website_index_document'' ''Website index document'' ''static_website'' ''website_index_document'',
     detail_column ''website_error_document'' ''Website error document'' ''static_website'' ''website_error_document'',
     detail_column ''website_redirect_host'' ''Website redirect host'' ''static_website'' ''website_redirect_host'',
     detail_column ''website_routing_rule_count'' ''Website routing rules'' ''static_website'' ''website_routing_rule_count'',
     detail_column ''policy_statement_count'' ''Policy statements'' ''bucket_policy'' ''policy_statement_count'',
     detail_column ''policy_has_conditions'' ''Policy has conditions'' ''bucket_policy'' ''policy_has_conditions'',
     detail_column ''logging_target_bucket'' ''Logging target bucket'' ''access_logging'' ''logging_target_bucket'',
     detail_column ''logging_target_prefix'' ''Logging target prefix'' ''access_logging'' ''logging_target_prefix'',
     detail_column ''notification_topic_names'' ''Notification topic names'' ''notifications'' ''notification_topic_names'',
     detail_column ''sse_algorithms'' ''SSE algorithms'' ''server_side_encryption'' ''sse_algorithms'',
     detail_column ''sse_kms_key_ids'' ''SSE KMS key IDs'' ''server_side_encryption'' ''sse_kms_key_ids'']"

definition CONTEXT_COLUMN_IDS :: "string list" where
  "CONTEXT_COLUMN_IDS = [''context_name'', ''context_kind'', ''endpoint_name'']"

definition STANDARD_COLUMN_IDS :: "string list" where
  "STANDARD_COLUMN_IDS = [
     ''tenant'', ''owner'', ''owner_name'', ''owner_suspended'', ''owner_used_bytes'', ''owner_object_count'',
     ''owner_quota_max_size_bytes'', ''owner_quota_max_objects'', ''owner_quota_usage_size_percent'',
     ''owner_quota_usage_object_percent'', ''used_bytes'', ''object_count'', ''quota_max_size_bytes'',
     ''quota_max_objects'', ''quota_usage_size_percent'', ''quota_usage_object_percent'', ''tags'', ''ui_tags'',
     ''versioning'', ''object_lock'', ''block_public_access'', ''lifecycle_rules'', ''static_website'',
     ''bucket_policy'', ''cors'', ''access_logging'', ''notifications'', ''server_side_encryption'',
     ''object_lock_mode'', ''object_lock_retention_days'', ''object_lock_retention_years'',
     ''bpa_block_public_acls'', ''bpa_ignore_public_acls'', ''bpa_block_public_policy'',
     ''bpa_restrict_public_buckets'', ''cors_allowed_methods'', ''cors_allowed_origins'', ''logging_target_bucket'',
     ''logging_target_prefix'', ''website_index_document'', ''website_error_document'', ''website_redirect_host'',
     ''website_routing_rule_count'', ''policy_statement_count'', ''policy_has_conditions'',
     ''lifecycle_expiration_days'', ''lifecycle_noncurrent_expiration_days'', ''lifecycle_transition_days'',
     ''lifecycle_abort_multipart_days'', ''notification_topic_names'', ''sse_algorithms'', ''sse_kms_key_ids'',
     ''quota_status'']"

section \<open>Local storage\<close>

definition readClientStorageKey :: "web_storage option \<Rightarrow> string \<Rightarrow> string option" where
  "readClientStorageKey st key = readStorageKey st key"

definition writeClientStorageKey :: "web_storage option \<Rightarrow> string \<Rightarrow> string \<Rightarrow> web_storage option" where
  "writeClientStorageKey st key value = writeStorageKey st key value"

definition readClientJsonFromKey :: "web_storage option \<Rightarrow> string \<Rightarrow> json option" where
  "readClientJsonFromKey st key = parseStoredJson (readClientStorageKey st key)"

definition writeClientJsonToKey :: "js_host \<Rightarrow> web_storage option \<Rightarrow> string \<Rightarrow> json \<Rightarrow> web_storage option" where
  "writeClientJsonToKey h st key value = writeClientStorageKey st key (stringify h value)"

definition allowed_columns :: "bool \<Rightarrow> string list" where
  "allowed_columns includeContextColumns =
     (if includeContextColumns then CONTEXT_COLUMN_IDS @ STANDARD_COLUMN_IDS else STANDARD_COLUMN_IDS)"

definition loadVisibleColumns :: "web_storage option \<Rightarrow> string \<Rightarrow> string list \<Rightarrow> bool \<Rightarrow> string list" where
  "loadVisibleColumns st storageKey defaultColumns includeContextColumns =
     (case readClientJsonFromKey st storageKey of
        Some (JArr vs) \<Rightarrow>
          (let cleaned = concat (map (\<lambda>v. case v of JStr s \<Rightarrow> if s \<in> set (allowed_columns includeContextColumns) then [s] else [] | _ \<Rightarrow> []) vs) in
           if length cleaned > 0 then cleaned else defaultColumns)
      | _ \<Rightarrow> defaultColumns)"

definition persistVisibleColumns :: "js_host \<Rightarrow> web_storage option \<Rightarrow> string \<Rightarrow> string list \<Rightarrow> web_storage option" where
  "persistVisibleColumns h st storageKey value = writeClientJsonToKey h st storageKey (texts_json value)"

section \<open>The state of a listing\<close>

text \<open>\<open>ls_tagMatchAll\<close> is \<open>tagFilterMode === "all"\<close>, \<open>ls_descending\<close> is \<open>sort.direction === "desc"\<close>.\<close>

record BucketListState =
  ls_filter :: string
  ls_quickFilterMode :: TextMatchMode
  ls_advancedApplied :: "AdvancedFilterState option"
  ls_tagFilters :: "nat list"
  ls_tagMatchAll :: bool
  ls_page :: nat
  ls_pageSize :: nat
  ls_sortField :: string
  ls_descending :: bool

definition DEFAULT_PAGE_SIZE :: nat where
  "DEFAULT_PAGE_SIZE = 25"

definition SORT_FIELDS :: "string list" where
  "SORT_FIELDS = [''name'', ''tenant'', ''owner'', ''used_bytes'', ''object_count'']"

text \<open>The field and whether the direction is \<open>desc\<close>.\<close>

definition DEFAULT_SORT :: "string \<times> bool" where
  "DEFAULT_SORT = (''name'', False)"

definition normalizeUiTagValues :: "string list \<Rightarrow> string list" where
  "normalizeUiTagValues values = first_by toLowerCase [] (filter (\<lambda>v. v \<noteq> []) (map trim values))"

definition parseUiTags :: "string \<Rightarrow> string list" where
  "parseUiTags v = normalizeUiTagValues (split_on (\<lambda>c. c = CHR '','') v)"

definition sanitizeSort :: "json option \<Rightarrow> string \<times> bool" where
  "sanitizeSort v =
     (if \<not> object_like v then DEFAULT_SORT
      else ((case jmember v ''field'' of Some (JStr f) \<Rightarrow> if f \<in> set SORT_FIELDS then f else fst DEFAULT_SORT | _ \<Rightarrow> fst DEFAULT_SORT),
            jmember v ''direction'' = Some (JStr ''desc'')))"

definition sanitizePositiveInteger :: "json option \<Rightarrow> nat \<Rightarrow> nat option \<Rightarrow> nat" where
  "sanitizePositiveInteger v fallback maximum = (case v of
     Some (JNum (Fin q)) \<Rightarrow>
       if \<lfloor>q\<rfloor> < 1 then fallback else (case maximum of Some m \<Rightarrow> min (nat \<lfloor>q\<rfloor>) m | None \<Rightarrow> nat \<lfloor>q\<rfloor>)
   | _ \<Rightarrow> fallback)"

definition readStateStore :: "web_storage option \<Rightarrow> string \<Rightarrow> jrec" where
  "readStateStore st storageKey = (case readClientJsonFromKey st storageKey of Some (JObj r) \<Rightarrow> r | _ \<Rightarrow> [])"

text \<open>An element of \<open>data.tagFilters\<close> that is a positive integer.\<close>

definition tag_id :: "json \<Rightarrow> nat list" where
  "tag_id v = (case v of JNum (Fin q) \<Rightarrow> if of_int \<lfloor>q\<rfloor> = q \<and> q > 0 then [nat \<lfloor>q\<rfloor>] else [] | _ \<Rightarrow> [])"

definition tag_ids :: "json option \<Rightarrow> nat list" where
  "tag_ids v = (case v of Some (JArr vs) \<Rightarrow> js_set (concat (map tag_id vs)) | _ \<Rightarrow> [])"

definition load_state :: "js_host \<Rightarrow> json option \<Rightarrow> BucketListState" where
  "load_state h data =
     (let get = jmember data; sort = sanitizeSort (get ''sort'') in
      \<lparr>ls_filter = asString (get ''filter''), ls_quickFilterMode = parseMatchMode (get ''quickFilterMode''),
       ls_advancedApplied = (if truthy (get ''advancedApplied'') then Some (sanitizeAdvancedFilter h (get ''advancedApplied'')) else None),
       ls_tagFilters = tag_ids (get ''tagFilters''), ls_tagMatchAll = (get ''tagFilterMode'' = Some (JStr ''all'')),
       ls_page = sanitizePositiveInteger (get ''page'') 1 None,
       ls_pageSize = sanitizePositiveInteger (get ''pageSize'') DEFAULT_PAGE_SIZE (Some 200),
       ls_sortField = fst sort, ls_descending = snd sort\<rparr>)"

text \<open>\<open>String(endpointId)\<close>; the identifier \<open>0\<close> is none.\<close>

definition endpoint_key :: "js_host \<Rightarrow> rat \<Rightarrow> string" where
  "endpoint_key h e = numToString h (Fin e)"

definition loadBucketListState :: "js_host \<Rightarrow> web_storage option \<Rightarrow> string \<Rightarrow> rat option \<Rightarrow> BucketListState option" where
  "loadBucketListState h st storageKey endpointId = (case endpointId of
     None \<Rightarrow> None
   | Some e \<Rightarrow>
       if e = 0 then None
       else case jprop (readStateStore st storageKey) (endpoint_key h e) of
         Some (JObj r) \<Rightarrow> Some (load_state h (Some (JObj r))) | _ \<Rightarrow> None)"

definition list_state_json :: "BucketListState \<Rightarrow> json" where
  "list_state_json s = JObj
     [(''filter'', JStr (ls_filter s)), (''quickFilterMode'', mode_json (ls_quickFilterMode s)),
      (''advancedApplied'', json_or_null advanced_filter_json (ls_advancedApplied s)),
      (''tagFilters'', JArr (map (\<lambda>t. JNum (Fin (of_nat t))) (ls_tagFilters s))),
      (''tagFilterMode'', JStr (if ls_tagMatchAll s then ''all'' else ''any'')),
      (''page'', JNum (Fin (of_nat (ls_page s)))), (''pageSize'', JNum (Fin (of_nat (ls_pageSize s)))),
      (''sort'', JObj [(''field'', JStr (ls_sortField s)), (''direction'', JStr (if ls_descending s then ''desc'' else ''asc''))])]"

definition stored_lists :: "js_host \<Rightarrow> web_storage option \<Rightarrow> string \<Rightarrow> rat \<Rightarrow> BucketListState \<Rightarrow> json" where
  "stored_lists h st storageKey e value = JObj (AList.update (endpoint_key h e) (list_state_json value) (readStateStore st storageKey))"

definition persistBucketListState ::
  "js_host \<Rightarrow> web_storage option \<Rightarrow> string \<Rightarrow> rat option \<Rightarrow> BucketListState \<Rightarrow> web_storage option" where
  "persistBucketListState h st storageKey endpointId value = (case endpointId of
     None \<Rightarrow> st
   | Some e \<Rightarrow> if e = 0 then st else writeClientJsonToKey h st storageKey (stored_lists h st storageKey e value))"

section \<open>The hook\<close>

text \<open>
  What the page passes to the hook. The identity of a scope is the text of the options a restoration
  reads.
\<close>

record list_options =
  lo_stateKey :: string
  lo_columnsKey :: string
  lo_defaultColumns :: "string list"
  lo_isStorageOps :: bool
  lo_ownerQuery :: "string option"
  lo_scopeId :: "rat option"
  lo_support :: feature_support
  lo_snsEnabled :: bool
  lo_sseEnabled :: bool
  lo_websiteEnabled :: bool

definition createScopeIdentity :: "js_host \<Rightarrow> list_options \<Rightarrow> string" where
  "createScopeIdentity h opts = stringify h (JArr
     [JStr (lo_stateKey opts), JStr (lo_columnsKey opts), texts_json (lo_defaultColumns opts), JBool (lo_isStorageOps opts),
      json_or_null JStr (lo_ownerQuery opts), json_or_null (\<lambda>e. JNum (Fin e)) (lo_scopeId opts)])"

text \<open>The state with \<open>restoredFilterRef\<close>, which is set with every restored state.\<close>

record list_hook =
  lh_list :: BucketListState
  lh_draft :: AdvancedFilterState
  lh_filterValue :: string
  lh_columns :: "string list"
  lh_scopeIdentity :: string
  lh_restoredFilter :: "string option"

definition empty_list_state :: BucketListState where
  "empty_list_state = \<lparr>ls_filter = [], ls_quickFilterMode = Contains, ls_advancedApplied = None, ls_tagFilters = [],
     ls_tagMatchAll = False, ls_page = 1, ls_pageSize = DEFAULT_PAGE_SIZE, ls_sortField = fst DEFAULT_SORT,
     ls_descending = snd DEFAULT_SORT\<rparr>"

definition restored_list :: "js_host \<Rightarrow> web_storage option \<Rightarrow> list_options \<Rightarrow> BucketListState" where
  "restored_list h st opts =
     (let kept = (case loadBucketListState h st (lo_stateKey opts) (lo_scopeId opts) of Some s \<Rightarrow> s | None \<Rightarrow> empty_list_state) in
      case lo_ownerQuery opts of
        Some (c # cs) \<Rightarrow> kept\<lparr>ls_filter := [], ls_quickFilterMode := Contains,
          ls_advancedApplied := Some (defaultAdvancedFilter\<lparr>af_owner := c # cs, ownerMatchMode := Exact\<rparr>),
          ls_tagFilters := [], ls_tagMatchAll := False, ls_page := 1\<rparr>
      | _ \<Rightarrow> kept)"

definition restoreListState :: "js_host \<Rightarrow> web_storage option \<Rightarrow> list_options \<Rightarrow> string \<Rightarrow> list_hook" where
  "restoreListState h st opts scopeIdentity =
     (let kept = restored_list h st opts in
      \<lparr>lh_list = kept, lh_draft = (case ls_advancedApplied kept of Some a \<Rightarrow> a | None \<Rightarrow> defaultAdvancedFilter),
       lh_filterValue = trim (ls_filter kept),
       lh_columns = loadVisibleColumns st (lo_columnsKey opts) (lo_defaultColumns opts) (lo_isStorageOps opts),
       lh_scopeIdentity = scopeIdentity, lh_restoredFilter = Some (ls_filter kept)\<rparr>)"

text \<open>The first render.\<close>

definition mount :: "js_host \<Rightarrow> web_storage option \<Rightarrow> list_options \<Rightarrow> list_hook" where
  "mount h st opts = restoreListState h st opts (createScopeIdentity h opts)"

text \<open>A setter takes a function of the current value; a value that stays the same leaves the state alone.\<close>

definition createSetter :: "('s \<Rightarrow> 'a) \<Rightarrow> ('a \<Rightarrow> 's \<Rightarrow> 's) \<Rightarrow> ('a \<Rightarrow> 'a) \<Rightarrow> 's \<Rightarrow> 's" where
  "createSetter get put action previous =
     (let v = action (get previous) in if v = get previous then previous else put v previous)"

definition in_list :: "(BucketListState \<Rightarrow> BucketListState) \<Rightarrow> list_hook \<Rightarrow> list_hook" where
  "in_list f hk = hk\<lparr>lh_list := f (lh_list hk)\<rparr>"

definition setAdvancedApplied :: "(AdvancedFilterState option \<Rightarrow> AdvancedFilterState option) \<Rightarrow> list_hook \<Rightarrow> list_hook" where
  "setAdvancedApplied = createSetter (\<lambda>hk. ls_advancedApplied (lh_list hk)) (\<lambda>v. in_list (\<lambda>s. s\<lparr>ls_advancedApplied := v\<rparr>))"

definition setAdvancedDraft :: "(AdvancedFilterState \<Rightarrow> AdvancedFilterState) \<Rightarrow> list_hook \<Rightarrow> list_hook" where
  "setAdvancedDraft = createSetter lh_draft (\<lambda>v hk. hk\<lparr>lh_draft := v\<rparr>)"

definition setFilter :: "(string \<Rightarrow> string) \<Rightarrow> list_hook \<Rightarrow> list_hook" where
  "setFilter = createSetter (\<lambda>hk. ls_filter (lh_list hk)) (\<lambda>v. in_list (\<lambda>s. s\<lparr>ls_filter := v\<rparr>))"

definition setFilterValue :: "(string \<Rightarrow> string) \<Rightarrow> list_hook \<Rightarrow> list_hook" where
  "setFilterValue = createSetter lh_filterValue (\<lambda>v hk. hk\<lparr>lh_filterValue := v\<rparr>)"

definition setPage :: "(nat \<Rightarrow> nat) \<Rightarrow> list_hook \<Rightarrow> list_hook" where
  "setPage = createSetter (\<lambda>hk. ls_page (lh_list hk)) (\<lambda>v. in_list (\<lambda>s. s\<lparr>ls_page := v\<rparr>))"

definition setPageSize :: "(nat \<Rightarrow> nat) \<Rightarrow> list_hook \<Rightarrow> list_hook" where
  "setPageSize = createSetter (\<lambda>hk. ls_pageSize (lh_list hk)) (\<lambda>v. in_list (\<lambda>s. s\<lparr>ls_pageSize := v\<rparr>))"

definition setQuickFilterMode :: "(TextMatchMode \<Rightarrow> TextMatchMode) \<Rightarrow> list_hook \<Rightarrow> list_hook" where
  "setQuickFilterMode = createSetter (\<lambda>hk. ls_quickFilterMode (lh_list hk)) (\<lambda>v. in_list (\<lambda>s. s\<lparr>ls_quickFilterMode := v\<rparr>))"

definition setSort :: "(string \<times> bool \<Rightarrow> string \<times> bool) \<Rightarrow> list_hook \<Rightarrow> list_hook" where
  "setSort = createSetter (\<lambda>hk. (ls_sortField (lh_list hk), ls_descending (lh_list hk)))
     (\<lambda>v. in_list (\<lambda>s. s\<lparr>ls_sortField := fst v, ls_descending := snd v\<rparr>))"

definition setTagFilterMode :: "(bool \<Rightarrow> bool) \<Rightarrow> list_hook \<Rightarrow> list_hook" where
  "setTagFilterMode = createSetter (\<lambda>hk. ls_tagMatchAll (lh_list hk)) (\<lambda>v. in_list (\<lambda>s. s\<lparr>ls_tagMatchAll := v\<rparr>))"

definition setTagFilters :: "(nat list \<Rightarrow> nat list) \<Rightarrow> list_hook \<Rightarrow> list_hook" where
  "setTagFilters = createSetter (\<lambda>hk. ls_tagFilters (lh_list hk)) (\<lambda>v. in_list (\<lambda>s. s\<lparr>ls_tagFilters := v\<rparr>))"

definition setVisibleColumns :: "(string list \<Rightarrow> string list) \<Rightarrow> list_hook \<Rightarrow> list_hook" where
  "setVisibleColumns = createSetter lh_columns (\<lambda>v hk. hk\<lparr>lh_columns := v\<rparr>)"

text \<open>The timer that was scheduled for a scope fires.\<close>

definition debounced :: "string \<Rightarrow> list_hook \<Rightarrow> list_hook" where
  "debounced scheduled hk =
     (if lh_scopeIdentity hk \<noteq> scheduled then hk
      else hk\<lparr>lh_filterValue := trim (ls_filter (lh_list hk)), lh_restoredFilter := None,
        lh_list := (lh_list hk)\<lparr>ls_page := (if lh_restoredFilter hk = Some (ls_filter (lh_list hk)) then ls_page (lh_list hk) else 1)\<rparr>\<rparr>)"

definition restore_effect :: "js_host \<Rightarrow> web_storage option \<Rightarrow> list_options \<Rightarrow> list_hook \<Rightarrow> list_hook" where
  "restore_effect h st opts hk =
     (if lh_scopeIdentity hk = createScopeIdentity h opts then hk else restoreListState h st opts (createScopeIdentity h opts))"

definition persist_columns_effect :: "js_host \<Rightarrow> list_options \<Rightarrow> list_hook \<Rightarrow> web_storage option \<Rightarrow> web_storage option" where
  "persist_columns_effect h opts hk st =
     (if lh_scopeIdentity hk \<noteq> createScopeIdentity h opts then st
      else persistVisibleColumns h st (lo_columnsKey opts) (lh_columns hk))"

definition persistCurrentListState :: "js_host \<Rightarrow> list_options \<Rightarrow> list_hook \<Rightarrow> web_storage option \<Rightarrow> web_storage option" where
  "persistCurrentListState h opts hk st =
     (if lh_scopeIdentity hk \<noteq> createScopeIdentity h opts \<or> lo_scopeId opts = None then st
      else persistBucketListState h st (lo_stateKey opts) (lo_scopeId opts) (lh_list hk))"

definition strip_effect :: "list_options \<Rightarrow> list_hook \<Rightarrow> list_hook" where
  "strip_effect opts hk = hk\<lparr>lh_draft := stripUnsupportedAdvancedFeatureFilters (lh_draft hk) (lo_support opts),
     lh_list := (lh_list hk)\<lparr>ls_advancedApplied :=
       map_option (\<lambda>a. stripUnsupportedAdvancedFeatureFilters a (lo_support opts)) (ls_advancedApplied (lh_list hk))\<rparr>\<rparr>"

definition feature_shown :: "list_options \<Rightarrow> string \<Rightarrow> bool" where
  "feature_shown opts k =
     (if k = ''static_website'' then lo_websiteEnabled opts else if k = ''notifications'' then lo_snsEnabled opts
      else if k = ''server_side_encryption'' then lo_sseEnabled opts else True)"

text \<open>The column of a feature, or the one of a detail of a feature.\<close>

definition column_shown :: "list_options \<Rightarrow> string \<Rightarrow> bool" where
  "column_shown opts column =
     (if column \<in> {''static_website'', ''notifications'', ''server_side_encryption''} then feature_shown opts column
      else case List.find (\<lambda>d. fo_id d = column) FEATURE_DETAIL_COLUMN_OPTIONS of
        Some d \<Rightarrow> feature_shown opts (fo_feature d) | None \<Rightarrow> True)"

definition hide_columns_effect :: "list_options \<Rightarrow> list_hook \<Rightarrow> list_hook" where
  "hide_columns_effect opts hk = hk\<lparr>lh_columns := filter (column_shown opts) (lh_columns hk)\<rparr>"

text \<open>
  The effects after a render of the state \<open>hk\<close> with the options \<open>opts\<close>, in their order; \<open>opts0\<close> and \<open>hk0\<close>
  are those of the render before. An effect runs when one of its dependencies changed; the writes read
  the rendered state, the others update the next one.
\<close>

definition scope_changed :: "js_host \<Rightarrow> list_options \<Rightarrow> list_hook \<Rightarrow> list_options \<Rightarrow> list_hook \<Rightarrow> bool" where
  "scope_changed h opts0 hk0 opts hk \<longleftrightarrow>
     createScopeIdentity h opts0 \<noteq> createScopeIdentity h opts \<or> lh_scopeIdentity hk0 \<noteq> lh_scopeIdentity hk"

definition list_commit ::
  "js_host \<Rightarrow> list_options \<times> list_hook \<Rightarrow> list_options \<times> list_hook \<Rightarrow> web_storage option \<Rightarrow> list_hook \<times> web_storage option" where
  "list_commit h rendered current st =
     (let (opts0, hk0) = rendered; (opts, hk) = current; moved = scope_changed h opts0 hk0 opts hk;
          next1 = (if moved then restore_effect h st opts hk else hk);
          st1 = (if moved \<or> lh_columns hk0 \<noteq> lh_columns hk then persist_columns_effect h opts hk st else st);
          st2 = (if moved \<or> lh_list hk0 \<noteq> lh_list hk then persistCurrentListState h opts hk st1 else st1);
          next2 = (if lo_support opts0 \<noteq> lo_support opts \<or> lh_scopeIdentity hk0 \<noteq> lh_scopeIdentity hk
                   then strip_effect opts next1 else next1);
          next3 = (if (lo_snsEnabled opts0, lo_sseEnabled opts0, lo_websiteEnabled opts0)
                        \<noteq> (lo_snsEnabled opts, lo_sseEnabled opts, lo_websiteEnabled opts)
                      \<or> lh_scopeIdentity hk0 \<noteq> lh_scopeIdentity hk
                   then hide_columns_effect opts next2 else next2) in
      (next3, st2))"

section \<open>What is loaded\<close>

text \<open>A state that the page can have: the pages start at one and hold at most 200 buckets.\<close>

definition list_state_ok :: "js_host \<Rightarrow> BucketListState \<Rightarrow> bool" where
  "list_state_ok h s \<longleftrightarrow> pred_option (advanced_ok h) (ls_advancedApplied s)
     \<and> distinct (ls_tagFilters s) \<and> 0 \<notin> set (ls_tagFilters s) \<and> 1 \<le> ls_page s \<and> 1 \<le> ls_pageSize s \<and> ls_pageSize s \<le> 200
     \<and> ls_sortField s \<in> set SORT_FIELDS"

lemma js_set_id: "distinct xs \<Longrightarrow> js_set xs = xs"
  by (simp add: js_set_def distinct_remdups_id)

lemma positive_integer: "1 \<le> d \<Longrightarrow> 1 \<le> sanitizePositiveInteger v d m \<or> m = Some 0"
  by (auto simp: sanitizePositiveInteger_def le_nat_iff split: option.split json.split js_number.split)

lemma positive_integer_max: "d \<le> m \<Longrightarrow> sanitizePositiveInteger v d (Some m) \<le> m"
  by (auto simp: sanitizePositiveInteger_def split: option.split json.split js_number.split)

lemma positive_integer_again: "1 \<le> n \<Longrightarrow> sanitizePositiveInteger (Some (JNum (Fin (of_nat n)))) d None = n"
  "1 \<le> n \<Longrightarrow> n \<le> m \<Longrightarrow> sanitizePositiveInteger (Some (JNum (Fin (of_nat n)))) d (Some m) = n"
  by (simp_all add: sanitizePositiveInteger_def)

lemma tag_ids_ok: "distinct (tag_ids v) \<and> 0 \<notin> set (tag_ids v)"
  by (auto simp: tag_ids_def tag_id_def split: option.split json.splits js_number.splits if_splits)

lemma tag_ids_again:
  assumes "distinct ts" and "0 \<notin> set ts"
  shows "tag_ids (Some (JArr (map (\<lambda>t. JNum (Fin (of_nat t))) ts))) = ts"
proof -
  have "tag_id (JNum (Fin (of_nat t))) = [t]" if "t \<noteq> 0" for t
    using that of_int_of_nat_eq [of t, where 'a = rat, symmetric] by (auto simp: tag_id_def)
  then have "concat (map (tag_id \<circ> (\<lambda>t. JNum (Fin (of_nat t)))) ts) = ts"
    using assms(2) by (induction ts) auto
  then show ?thesis using assms(1) by (simp add: tag_ids_def js_set_id)
qed

lemma sort_ok: "fst (sanitizeSort v) \<in> set SORT_FIELDS"
  by (auto simp: sanitizeSort_def DEFAULT_SORT_def SORT_FIELDS_def split: option.split json.split)

lemma sort_again:
  "f \<in> set SORT_FIELDS \<Longrightarrow> sanitizeSort (Some (JObj [(''field'', JStr f), (''direction'', JStr (if d then ''desc'' else ''asc''))])) = (f, d)"
  by (simp add: sanitizeSort_def object_like_def jmember_def)

lemma load_state_ok: "list_state_ok h (load_state h v)"
  using tag_ids_ok sort_ok positive_integer [of 1 _ None] positive_integer [of DEFAULT_PAGE_SIZE _ "Some 200"] positive_integer_max [of DEFAULT_PAGE_SIZE 200]
  by (auto simp: list_state_ok_def load_state_def sanitized_ok DEFAULT_PAGE_SIZE_def Let_def)

lemma stored_filter_truthy: "truthy (Some (advanced_filter_json adv))"
  by (simp add: advanced_filter_json_def)

lemma load_state_again: "list_state_ok h s \<Longrightarrow> load_state h (Some (list_state_json s)) = s"
  by (cases "ls_advancedApplied s")
    (simp_all add: load_state_def list_state_json_def jmember_def json_or_null_def list_state_ok_def positive_integer_again
      tag_ids_again sort_again advanced_round_trip stored_filter_truthy)


lemma default_filter_ok: "advanced_ok h (defaultAdvancedFilter\<lparr>af_owner := o', ownerMatchMode := m\<rparr>)"
proof -
  have "''any'' \<in> set FEATURE_FILTER_STATES" by (simp add: FEATURE_FILTER_STATES_def)
  then show ?thesis by (simp add: advanced_ok_def defaultAdvancedFilter_def ids_ok_def feature_state_ok_def default_details_ok)
qed

lemma load_list_ok: "loadBucketListState h st key e = Some s \<Longrightarrow> list_state_ok h s"
  by (auto simp: loadBucketListState_def load_state_ok split: option.splits json.splits if_splits)

lemma restored_list_ok: "list_state_ok h (restored_list h st opts)"
proof -
  have "list_state_ok h empty_list_state"
    by (simp add: list_state_ok_def empty_list_state_def DEFAULT_PAGE_SIZE_def DEFAULT_SORT_def SORT_FIELDS_def)
  then have "list_state_ok h (case loadBucketListState h st (lo_stateKey opts) (lo_scopeId opts) of Some s \<Rightarrow> s | None \<Rightarrow> empty_list_state)"
    using load_list_ok by (auto split: option.split)
  then show ?thesis
    using default_filter_ok by (auto simp: restored_list_def Let_def list_state_ok_def split: option.split list.split)
qed

lemma clear_fields_ok: "details_ok f \<Longrightarrow> details_ok (clear_fields ks f)"
  unfolding clear_fields_def by (induction ks arbitrary: f) (simp_all add: clear_details_ok)

lemma strip_ok: "advanced_ok h adv \<Longrightarrow> advanced_ok h (stripUnsupportedAdvancedFeatureFilters adv support)"
proof -
  let ?s = "stripUnsupportedAdvancedFeatureFilters adv support"
  assume ok: "advanced_ok h adv"
  have "''any'' \<in> set FEATURE_FILTER_STATES" by (simp add: FEATURE_FILTER_STATES_def)
  then have "if k \<in> set FEATURE_KEYS then feature_state_ok h (af_features ?s k) else af_features ?s k = JStr ''any''" for k
    using ok [unfolded advanced_ok_def, THEN conjunct2, THEN conjunct2, THEN conjunct2, THEN conjunct2, THEN conjunct2, THEN conjunct1, THEN spec, of k]
    by (auto simp: stripUnsupportedAdvancedFeatureFilters_def feature_state_ok_def)
  moreover have "details_ok (featureDetails ?s)"
    using ok by (simp add: advanced_ok_def stripUnsupportedAdvancedFeatureFilters_def clear_fields_ok Let_def)
  ultimately show "advanced_ok h ?s" using ok unfolding advanced_ok_def strip_other_fields by blast
qed

lemma strip_effect_ok: "list_state_ok h (lh_list hk) \<Longrightarrow> list_state_ok h (lh_list (strip_effect opts hk))"
  by (cases "ls_advancedApplied (lh_list hk)") (auto simp: list_state_ok_def strip_effect_def strip_ok)

lemma clear_fields_idem: "clear_fields ks (clear_fields ks f) = clear_fields ks f"
  by (simp add: fun_eq_iff clear_fields_apply)

lemma strip_idem:
  "stripUnsupportedAdvancedFeatureFilters (stripUnsupportedAdvancedFeatureFilters adv support) support
     = stripUnsupportedAdvancedFeatureFilters adv support"
  by (simp add: stripUnsupportedAdvancedFeatureFilters_def Let_def fun_eq_iff clear_fields_apply)

lemma strip_effect_idem: "strip_effect opts (strip_effect opts hk) = strip_effect opts hk"
  by (simp add: strip_effect_def strip_idem option.map_comp comp_def)

section \<open>The storage\<close>

text \<open>A storage that can be read and takes every value.\<close>

definition takes_values :: "web_storage \<Rightarrow> bool" where
  "takes_values w \<longleftrightarrow> \<not> ws_denied w \<and> (\<forall>k v. \<not> ws_refuses w k v)"

definition stored :: "web_storage \<Rightarrow> string \<Rightarrow> string \<Rightarrow> web_storage" where
  "stored w key v = w\<lparr>ws_items := (ws_items w)(key \<mapsto> v)\<rparr>"

lemma takes_stored [simp]: "takes_values (stored w key v) = takes_values w"
  by (simp add: takes_values_def stored_def)

lemma write_json: "takes_values w \<Longrightarrow> writeClientJsonToKey h (Some w) key v = Some (stored w key (stringify h v))"
  by (simp add: writeClientJsonToKey_def writeClientStorageKey_def writeStorageKey_def takes_values_def stored_def)

lemma read_stored: "takes_values w \<Longrightarrow> json_ok h v \<Longrightarrow> readClientJsonFromKey (Some (stored w key (stringify h v))) key = Some v"
proof -
  assume v: "takes_values w" "json_ok h v"
  obtain c cs where "stringify h v = c # cs" using stringify_start [OF v(2)] .
  with v show ?thesis
    using json_parse_stringify [OF v(2)]
    by (simp add: readClientJsonFromKey_def readClientStorageKey_def readStorageKey_def parseStoredJson_def takes_values_def stored_def)
qed

lemma read_other: "key' \<noteq> key \<Longrightarrow> readClientJsonFromKey (Some (stored w key' t)) key = readClientJsonFromKey (Some w) key"
  by (simp add: readClientJsonFromKey_def readClientStorageKey_def readStorageKey_def stored_def)

lemma store_stored:
  "takes_values w \<Longrightarrow> json_ok h (JObj r) \<Longrightarrow> readStateStore (Some (stored w key (stringify h (JObj r)))) key = r"
  by (simp add: readStateStore_def read_stored del: stringify.simps json_ok.simps)

lemma store_other: "key' \<noteq> key \<Longrightarrow> readStateStore (Some (stored w key' t)) key = readStateStore (Some w) key"
  by (simp add: readStateStore_def read_other)

lemma load_entry:
  "loadBucketListState h st key (Some e) = (if e = 0 then None else
     (case jprop (readStateStore st key) (endpoint_key h e) of Some (JObj r) \<Rightarrow> Some (load_state h (Some (JObj r))) | _ \<Rightarrow> None))"
  by (simp add: loadBucketListState_def)

text \<open>The entries of a store that holds what was written for an endpoint.\<close>

lemma load_updated:
  assumes "readStateStore st' key = AList.update (endpoint_key h e) (list_state_json s) (readStateStore st key)"
    and "list_state_ok h s"
  shows "e \<noteq> 0 \<Longrightarrow> loadBucketListState h st' key (Some e) = Some s"
    and "endpoint_key h e' \<noteq> endpoint_key h e \<Longrightarrow> loadBucketListState h st' key (Some e') = loadBucketListState h st key (Some e')"
proof -
  have "\<exists>r. list_state_json s = JObj r" by (simp add: list_state_json_def)
  then show "e \<noteq> 0 \<Longrightarrow> loadBucketListState h st' key (Some e) = Some s"
    using load_state_again [OF assms(2)] by (auto simp: load_entry assms(1) jprop_update)
qed (simp add: load_entry assms(1) jprop_update)

lemma persist_list:
  assumes "takes_values w" and "e \<noteq> 0" and "json_ok h (stored_lists h (Some w) key e s)"
  obtains t where "persistBucketListState h (Some w) key (Some e) s = Some (stored w key t)"
    and "readStateStore (Some (stored w key t)) key = AList.update (endpoint_key h e) (list_state_json s) (readStateStore (Some w) key)"
  using assms by (simp add: persistBucketListState_def write_json stored_lists_def store_stored del: stringify.simps json_ok.simps)

section \<open>Properties\<close>

text \<open>
  C33. A listing's state survives a reload: when the storage takes the value, the state that was persisted
  for an endpoint is the one loaded for it, and what is stored for any other endpoint is left alone.
\<close>

theorem list_state_round_trip:
  assumes "takes_values w" and "list_state_ok h s" and "e \<noteq> 0" and "json_ok h (stored_lists h (Some w) key e s)"
  shows "loadBucketListState h (persistBucketListState h (Some w) key (Some e) s) key (Some e) = Some s
    \<and> (endpoint_key h e' \<noteq> endpoint_key h e \<longrightarrow>
        loadBucketListState h (persistBucketListState h (Some w) key (Some e) s) key (Some e') = loadBucketListState h (Some w) key (Some e'))"
proof -
  obtain t where "persistBucketListState h (Some w) key (Some e) s = Some (stored w key t)"
    and u: "readStateStore (Some (stored w key t)) key = AList.update (endpoint_key h e) (list_state_json s) (readStateStore (Some w) key)"
    using persist_list [OF assms(1,3,4)] .
  with load_updated [OF u assms(2)] assms(3) show ?thesis by simp
qed


lemma setters:
  "setFilter (\<lambda>_. v) hk = hk\<lparr>lh_list := (lh_list hk)\<lparr>ls_filter := v\<rparr>\<rparr>"
  "setPage (\<lambda>_. p) hk = hk\<lparr>lh_list := (lh_list hk)\<lparr>ls_page := p\<rparr>\<rparr>"
  by (auto simp: setFilter_def setPage_def createSetter_def in_list_def Let_def)

text \<open>
  A restored page is kept: the timer of the search field leaves the restored state as it is, so that
  nothing is asked twice; after another text was typed the listing starts at its first page, and once the
  timer has fired also when the restored text was typed again.
\<close>

theorem restored_page_kept:
  "let hk = mount h st opts; restored = ls_filter (lh_list hk); fire = debounced (lh_scopeIdentity hk) in
     fire hk = hk\<lparr>lh_restoredFilter := None\<rparr>
     \<and> fire (setFilter (\<lambda>_. v) hk) = hk\<lparr>lh_filterValue := trim v, lh_restoredFilter := None,
         lh_list := (lh_list hk)\<lparr>ls_filter := v, ls_page := (if v = restored then ls_page (lh_list hk) else 1)\<rparr>\<rparr>
     \<and> ls_page (lh_list (fire (setFilter (\<lambda>_. restored) (setFilter (\<lambda>_. v) (setPage (\<lambda>_. p) (fire hk)))))) = 1"
  by (simp add: mount_def restoreListState_def debounced_def setters Let_def)

definition sample_list :: BucketListState where
  "sample_list = \<lparr>ls_filter = ''logs'', ls_quickFilterMode = Exact, ls_advancedApplied = None, ls_tagFilters = [7],
     ls_tagMatchAll = True, ls_page = 7, ls_pageSize = 25, ls_sortField = ''owner'', ls_descending = True\<rparr>"

lemma two_digits_read:
  assumes "is_digit c" and "is_digit d" and "c \<noteq> CHR ''0''" and "stopper r"
  shows "read_number (c # d # r) = Some (Fin (of_nat (digits_val [c, d])), r)"
proof -
  have "c \<noteq> CHR ''-''" using assms(1) by (auto simp: is_digit_def)
  then show ?thesis
    using assms by (cases r) (auto simp: read_number_def expect_def read_frac_def read_exp_def stopper_def decimal_def pow10_def)
qed

lemma page_size_reads_back: "reads_back plain_host 25"
proof -
  have "numToString plain_host (Fin 25) = ''25''" "is_digit (CHR ''2'')" "is_digit (CHR ''5'')" "digits_val ''25'' = 25" by code_simp+
  then show ?thesis using two_digits_read [of "CHR ''2''" "CHR ''5''"] by (simp add: reads_back_def)
qed

lemma sample_storage_takes: "takes_values sample_storage"
  by (simp add: takes_values_def sample_storage_def)

lemma sample_storage_empty: "readStateStore (Some sample_storage) key = []"
  by (simp add: readStateStore_def readClientJsonFromKey_def readClientStorageKey_def readStorageKey_def parseStoredJson_def sample_storage_def)

theorem list_state_round_trip_witness:
  "loadBucketListState plain_host (persistBucketListState plain_host (Some sample_storage) ''lists'' (Some 7) sample_list) ''lists'' (Some 7)
     = Some sample_list
   \<and> loadBucketListState plain_host (persistBucketListState plain_host (Some sample_storage) ''lists'' (Some 7) sample_list) ''lists'' (Some 1)
     = None"
proof -
  have ok: "list_state_ok plain_host sample_list"
    by (simp add: list_state_ok_def sample_list_def SORT_FIELDS_def)
  have js: "json_ok plain_host (stored_lists plain_host (Some sample_storage) ''lists'' 7 sample_list)"
    using digit_reads_back page_size_reads_back
    by (simp add: stored_lists_def sample_storage_empty list_state_json_def sample_list_def json_or_null_def mode_json_def)
  have "endpoint_key plain_host 1 \<noteq> endpoint_key plain_host 7" by code_simp
  moreover have "loadBucketListState plain_host (Some sample_storage) ''lists'' (Some 1) = None"
    by (simp add: load_entry sample_storage_empty jprop_def)
  ultimately show ?thesis
    using list_state_round_trip [OF sample_storage_takes ok _ js, of 1] by simp
qed

section \<open>Another scope\<close>

lemma effects_commute: "strip_effect opts (hide_columns_effect opts' hk) = hide_columns_effect opts' (strip_effect opts hk)"
  by (simp add: strip_effect_def hide_columns_effect_def)

lemma hide_idem: "hide_columns_effect opts (hide_columns_effect opts hk) = hide_columns_effect opts hk"
  by (simp add: hide_columns_effect_def)

lemma effect_fields [simp]:
  "lh_scopeIdentity (strip_effect opts hk) = lh_scopeIdentity hk" "lh_scopeIdentity (hide_columns_effect opts hk) = lh_scopeIdentity hk"
  "lh_list (hide_columns_effect opts hk) = lh_list hk"
  by (simp_all add: strip_effect_def hide_columns_effect_def)

lemma mount_scope [simp]: "lh_scopeIdentity (mount h st opts) = createScopeIdentity h opts"
  by (simp add: mount_def restoreListState_def Let_def)

text \<open>The commit in which the scope changes restores and writes nothing.\<close>

lemma first_commit:
  assumes "lh_scopeIdentity hk = createScopeIdentity h opts0" and "createScopeIdentity h opts0 \<noteq> createScopeIdentity h opts"
    and "list_commit h (opts0, hk) (opts, hk) st = (hk1, st1)"
  shows "st1 = st" and "hide_columns_effect opts (strip_effect opts hk1) = hide_columns_effect opts (strip_effect opts (mount h st opts))"
    and "lh_scopeIdentity hk1 = createScopeIdentity h opts"
    and "lh_list hk1 = lh_list (mount h st opts) \<or> lh_list hk1 = lh_list (strip_effect opts (mount h st opts))"
  using assms
  by (auto simp: list_commit_def scope_changed_def Let_def restore_effect_def mount_def [symmetric] persist_columns_effect_def
      persistCurrentListState_def strip_effect_idem effects_commute hide_idem)

text \<open>The next one writes the restored state and applies the effects.\<close>

lemma second_commit:
  assumes "lh_scopeIdentity hk \<noteq> createScopeIdentity h opts" and "lh_scopeIdentity hk1 = createScopeIdentity h opts"
    and "list_commit h (opts, hk) (opts, hk1) st = (hk2, st2)"
  shows "st2 = persistCurrentListState h opts hk1 (persist_columns_effect h opts hk1 st)"
    and "hk2 = hide_columns_effect opts (strip_effect opts hk1)"
  using assms by (auto simp: list_commit_def scope_changed_def Let_def restore_effect_def)

lemma third_commit:
  assumes "lh_scopeIdentity hk2 = lh_scopeIdentity hk1" and "list_commit h (opts, hk1) (opts, hk2) st = (hk3, st3)"
  shows "hk3 = hk2"
    and "\<exists>cols. st3 = (if lh_list hk1 \<noteq> lh_list hk2 then persistCurrentListState h opts hk2 else id)
      ((if cols then persist_columns_effect h opts hk2 else id) st)"
proof -
  have "hk3 = hk2 \<and> st3 = (if lh_list hk1 \<noteq> lh_list hk2 then persistCurrentListState h opts hk2 else id)
      ((if lh_columns hk1 \<noteq> lh_columns hk2 then persist_columns_effect h opts hk2 else id) st)"
    using assms by (simp add: list_commit_def scope_changed_def Let_def split: if_splits) auto
  then show "hk3 = hk2" and "\<exists>cols. st3 = (if lh_list hk1 \<noteq> lh_list hk2 then persistCurrentListState h opts hk2 else id)
      ((if cols then persist_columns_effect h opts hk2 else id) st)" by blast+
qed

lemma columns_written:
  assumes "takes_values w" and "lo_columnsKey opts \<noteq> lo_stateKey opts"
  obtains w' where "persist_columns_effect h opts hk (Some w) = Some w'" and "takes_values w'"
    and "readStateStore (Some w') (lo_stateKey opts) = readStateStore (Some w) (lo_stateKey opts)"
  using assms by (cases "lh_scopeIdentity hk = createScopeIdentity h opts")
    (auto simp: persist_columns_effect_def persistVisibleColumns_def write_json store_other)

lemma list_written:
  assumes "takes_values w" and "lo_scopeId opts = Some e" and "e \<noteq> 0" and "lh_scopeIdentity hk = createScopeIdentity h opts"
    and "json_ok h (JObj (AList.update (endpoint_key h e) (list_state_json (lh_list hk)) (readStateStore (Some w) (lo_stateKey opts))))"
  obtains w' where "persistCurrentListState h opts hk (Some w) = Some w'" and "takes_values w'"
    and "readStateStore (Some w') (lo_stateKey opts)
       = AList.update (endpoint_key h e) (list_state_json (lh_list hk)) (readStateStore (Some w) (lo_stateKey opts))"
proof -
  obtain t where "persistBucketListState h (Some w) (lo_stateKey opts) (Some e) (lh_list hk) = Some (stored w (lo_stateKey opts) t)"
    and "readStateStore (Some (stored w (lo_stateKey opts) t)) (lo_stateKey opts)
      = AList.update (endpoint_key h e) (list_state_json (lh_list hk)) (readStateStore (Some w) (lo_stateKey opts))"
    using persist_list [OF assms(1,3) assms(5) [folded stored_lists_def]] .
  with that [of "stored w (lo_stateKey opts) t"] assms(1,2,4) show ?thesis by (simp add: persistCurrentListState_def)
qed

text \<open>Writing the columns and the list, then what changed of them: the store ends with the last list.\<close>

lemma settled_store:
  fixes h :: js_host and opts :: list_options and e :: rat
  defines "put \<equiv> \<lambda>s r. AList.update (endpoint_key h e) (list_state_json s) r"
  assumes w: "takes_values w" and e: "lo_scopeId opts = Some e" "e \<noteq> 0" and keys: "lo_columnsKey opts \<noteq> lo_stateKey opts"
    and scope: "lh_scopeIdentity hk1 = createScopeIdentity h opts" "lh_scopeIdentity hk2 = createScopeIdentity h opts"
    and js: "json_ok h (JObj (put (lh_list hk1) (readStateStore (Some w) (lo_stateKey opts))))"
      "json_ok h (JObj (put (lh_list hk2) (readStateStore (Some w) (lo_stateKey opts))))"
    and two: "st2 = persistCurrentListState h opts hk1 (persist_columns_effect h opts hk1 (Some w))"
    and three: "st3 = (if lh_list hk1 \<noteq> lh_list hk2 then persistCurrentListState h opts hk2 else id)
      ((if cols then persist_columns_effect h opts hk2 else id) st2)"
  shows "readStateStore st3 (lo_stateKey opts) = put (lh_list hk2) (readStateStore (Some w) (lo_stateKey opts))"
proof -
  let ?key = "lo_stateKey opts"
  let ?r = "readStateStore (Some w) ?key"
  obtain w1 where w1: "persist_columns_effect h opts hk1 (Some w) = Some w1" "takes_values w1" "readStateStore (Some w1) ?key = ?r"
    by (rule columns_written [OF w keys])
  from w1 js(1) obtain w2 where w2: "st2 = Some w2" "takes_values w2" "readStateStore (Some w2) ?key = put (lh_list hk1) ?r"
    unfolding two put_def by (metis list_written [OF w1(2) e scope(1)])
  obtain w3 where w3: "(if cols then persist_columns_effect h opts hk2 else id) st2 = Some w3" "takes_values w3"
    "readStateStore (Some w3) ?key = put (lh_list hk1) ?r"
  proof (cases cols)
    case True
    obtain w' where "persist_columns_effect h opts hk2 (Some w2) = Some w'" "takes_values w'"
      "readStateStore (Some w') ?key = readStateStore (Some w2) ?key" by (rule columns_written [OF w2(2) keys])
    with that True w2 show ?thesis by simp
  next
    case False
    with that w2 show ?thesis by simp
  qed
  have again: "put (lh_list hk2) (put (lh_list hk1) ?r) = put (lh_list hk2) ?r" by (simp add: put_def update_last)
  show ?thesis
  proof (cases "lh_list hk1 = lh_list hk2")
    case True
    with w3 three show ?thesis by simp
  next
    case False
    have "json_ok h (JObj (put (lh_list hk2) (readStateStore (Some w3) ?key)))" unfolding w3(3) again by (rule js(2))
    from list_written [OF w3(2) e scope(2) this [unfolded put_def]] obtain w' where "persistCurrentListState h opts hk2 (Some w3) = Some w'"
      "readStateStore (Some w') ?key = put (lh_list hk2) (readStateStore (Some w3) ?key)" unfolding put_def by metis
    with False three w3 again show ?thesis by simp
  qed
qed

text \<open>
  C22. Changing the scope keeps the stored lists. The render that finds a new endpoint writes nothing of the
  old listing; the effects settle on the restored state, less what the new endpoint does not support, in
  two more renders, and what is then stored for the endpoint is the state shown, so that a reload shows
  the same; what is stored for every other endpoint is left alone.
\<close>

theorem scope_switch_keeps_lists:
  assumes "takes_values w" and "lo_scopeId opts = Some e" and "e \<noteq> 0" and "lo_columnsKey opts \<noteq> lo_stateKey opts"
    and "lh_scopeIdentity hk = createScopeIdentity h opts0" and "createScopeIdentity h opts0 \<noteq> createScopeIdentity h opts"
    and "json_ok h (stored_lists h (Some w) (lo_stateKey opts) e (lh_list (mount h (Some w) opts)))"
    and "json_ok h (stored_lists h (Some w) (lo_stateKey opts) e (lh_list (strip_effect opts (mount h (Some w) opts))))"
    and "list_commit h (opts0, hk) (opts, hk) (Some w) = (hk1, st1)"
    and "list_commit h (opts, hk) (opts, hk1) st1 = (hk2, st2)"
    and "list_commit h (opts, hk1) (opts, hk2) st2 = (hk3, st3)"
  shows "st1 = Some w \<and> hk3 = hk2 \<and> hk3 = hide_columns_effect opts (strip_effect opts (mount h (Some w) opts))
    \<and> loadBucketListState h st3 (lo_stateKey opts) (Some e) = Some (lh_list hk3)
    \<and> (endpoint_key h e' \<noteq> endpoint_key h e \<longrightarrow>
         loadBucketListState h st3 (lo_stateKey opts) (Some e') = loadBucketListState h (Some w) (lo_stateKey opts) (Some e'))"
proof -
  let ?m = "mount h (Some w) opts" and ?key = "lo_stateKey opts"
  note one = first_commit [OF assms(5,6,9)]
  have two: "st2 = persistCurrentListState h opts hk1 (persist_columns_effect h opts hk1 (Some w))"
    and hk2: "hk2 = hide_columns_effect opts (strip_effect opts ?m)"
    using second_commit [OF _ one(3) assms(10)] assms(5,6) one(1,2) by simp_all
  then have scope2: "lh_scopeIdentity hk2 = createScopeIdentity h opts" and l2: "lh_list hk2 = lh_list (strip_effect opts ?m)" by simp_all
  have hk3: "hk3 = hk2" using third_commit(1) [OF _ assms(11)] one(3) scope2 by simp
  obtain cols where three: "st3 = (if lh_list hk1 \<noteq> lh_list hk2 then persistCurrentListState h opts hk2 else id)
      ((if cols then persist_columns_effect h opts hk2 else id) st2)"
    using third_commit(2) [OF _ assms(11)] one(3) scope2 by auto
  have js: "json_ok h (JObj (AList.update (endpoint_key h e) (list_state_json s) (readStateStore (Some w) ?key)))"
    if "s = lh_list hk1 \<or> s = lh_list hk2" for s
    using that one(4) assms(7,8) by (auto simp: stored_lists_def l2 simp del: json_ok.simps)
  have ok: "list_state_ok h (lh_list hk2)"
    unfolding l2 by (rule strip_effect_ok) (simp add: mount_def restoreListState_def Let_def restored_list_ok)
  note store = settled_store [OF assms(1-4) one(3) scope2 js js two three, simplified]
  note loads = load_updated [OF store ok]
  show ?thesis using one(1) hk2 hk3 loads(1) [OF assms(3)] loads(2) [of e'] by simp
qed

definition sample_options :: "rat \<Rightarrow> bool \<Rightarrow> list_options" where
  "sample_options e sns = \<lparr>lo_stateKey = ''lists'', lo_columnsKey = ''columns'', lo_defaultColumns = [''owner'', ''notifications''],
     lo_isStorageOps = False, lo_ownerQuery = None, lo_scopeId = Some e,
     lo_support = (\<lambda>k. if k = ''notifications'' then Some sns else None), lo_snsEnabled = sns, lo_sseEnabled = True,
     lo_websiteEnabled = True\<rparr>"

theorem scope_switch_keeps_lists_witness:
  "let h = plain_host; hk = mount h (Some sample_storage) (sample_options 1 True); there = sample_options 7 False;
       (hk1, st1) = list_commit h (sample_options 1 True, hk) (there, hk) (Some sample_storage);
       (hk2, st2) = list_commit h (there, hk) (there, hk1) st1; (hk3, st3) = list_commit h (there, hk1) (there, hk2) st2 in
   st1 = Some sample_storage \<and> lh_columns hk3 = [''owner''] \<and> loadBucketListState h st3 ''lists'' (Some 7) = Some empty_list_state"
proof -
  let ?h = plain_host and ?here = "sample_options 1 True" and ?there = "sample_options 7 False"
  let ?m = "mount ?h (Some sample_storage) ?there"
  obtain hk1 st1 where c1: "list_commit ?h (?here, mount ?h (Some sample_storage) ?here) (?there, mount ?h (Some sample_storage) ?here) (Some sample_storage) = (hk1, st1)"
    by (metis surj_pair)
  obtain hk2 st2 where c2: "list_commit ?h (?there, mount ?h (Some sample_storage) ?here) (?there, hk1) st1 = (hk2, st2)" by (metis surj_pair)
  obtain hk3 st3 where c3: "list_commit ?h (?there, hk1) (?there, hk2) st2 = (hk3, st3)" by (metis surj_pair)
  have there: "lo_scopeId ?there = Some 7" "lo_columnsKey ?there \<noteq> lo_stateKey ?there" "lo_stateKey ?there = ''lists''" "lo_ownerQuery ?there = None"
    by (simp_all add: sample_options_def)
  have lm: "lh_list ?m = empty_list_state"
    by (simp add: mount_def restoreListState_def restored_list_def there load_entry sample_storage_empty jprop_def Let_def)
  then have ls: "lh_list (strip_effect ?there ?m) = empty_list_state" by (simp add: strip_effect_def empty_list_state_def)
  have js: "json_ok ?h (stored_lists ?h (Some sample_storage) ''lists'' 7 empty_list_state)"
    using digit_reads_back page_size_reads_back
    by (simp add: stored_lists_def sample_storage_empty list_state_json_def empty_list_state_def json_or_null_def mode_json_def
        DEFAULT_PAGE_SIZE_def DEFAULT_SORT_def)
  have "createScopeIdentity ?h ?here \<noteq> createScopeIdentity ?h ?there" by code_simp
  note switch = scope_switch_keeps_lists [OF sample_storage_takes there(1) _ there(2) mount_scope this _ _ c1 c2 c3, of 1, unfolded there(3) lm ls, simplified]
  have "lh_columns ?m = [''owner'', ''notifications'']"
    by (simp add: mount_def restoreListState_def Let_def sample_options_def loadVisibleColumns_def readClientJsonFromKey_def
        readClientStorageKey_def readStorageKey_def parseStoredJson_def sample_storage_def)
  moreover have "filter (column_shown ?there) [''owner'', ''notifications''] = [''owner'']"
    by (simp add: column_shown_def feature_shown_def FEATURE_DETAIL_COLUMN_OPTIONS_def detail_column_def sample_options_def)
  moreover have "lh_columns hk3 = filter (column_shown ?there) (lh_columns ?m)"
    using conjunct1 [OF conjunct2 [OF conjunct2 [OF switch [OF js]]]] by (simp add: hide_columns_effect_def strip_effect_def)
  ultimately have "lh_columns hk3 = [''owner'']" by simp
  moreover have "lh_list hk3 = empty_list_state" using conjunct1 [OF conjunct2 [OF conjunct2 [OF switch [OF js]]]] ls by simp
  ultimately show ?thesis unfolding Let_def c1 prod.case c2 c3 using switch [OF js] by simp
qed

end
