(* ===== verification/Selection.thy ===== *)
theory Selection
  imports List_State Bucket_Api
begin

text \<open>
  The selection of buckets: \<open>frontend/src/features/shared/bucketOpsSelectionModel.ts\<close> with the keys, the
  counts and the targets of the operations; the loader of all filtered buckets,
  \<open>bucketOpsFilteredBucketLoader.ts\<close>; and the state of \<open>useBucketOpsSelection.ts\<close> with its operations, in
  which a load that was overtaken is still on its way. A JavaScript set is the list of its elements in
  the order they were added.
\<close>

section \<open>Keys and targets\<close>

definition tenant_prop :: "CephAdminBucket \<Rightarrow> string option" where
  "tenant_prop b = (case jprop b ''tenant'' of Some (JStr s) \<Rightarrow> Some s | _ \<Rightarrow> None)"

definition or_empty :: "string option \<Rightarrow> string" where
  "or_empty v = (case v of Some s \<Rightarrow> s | None \<Rightarrow> [])"

definition getBucketOpsSelectionKey :: "js_host \<Rightarrow> bool \<Rightarrow> CephAdminBucket \<Rightarrow> string" where
  "getBucketOpsSelectionKey h isStorageOps b =
     (if isStorageOps then string_prop b ''name''
      else stringify h (texts_json [trim (or_empty (tenant_prop b)), string_prop b ''name'']))"

text \<open>The bucket name and the tenant.\<close>

definition decodeCephAdminSelectionKey :: "string \<Rightarrow> (string \<times> string option) option" where
  "decodeCephAdminSelectionKey v = (case json_parse v of
     Some (JArr [JStr tenant, JStr bucketName]) \<Rightarrow>
       if trim bucketName = [] then None
       else Some (trim bucketName, if trim tenant = [] then None else Some (trim tenant))
   | _ \<Rightarrow> None)"

record BucketOperationUiTarget =
  ut_bucketName :: string
  ut_tenant :: "string option"
  ut_contextId :: "string option"
  ut_contextName :: "string option"

text \<open>The context and the name of each bucket; a target without context throws.\<close>

fun buildStorageOpsBucketTargets :: "BucketOperationUiTarget list \<Rightarrow> js_error + (string \<times> string) list" where
  "buildStorageOpsBucketTargets [] = Inr []"
| "buildStorageOpsBucketTargets (t # ts) =
     (let contextId = trim (or_empty (ut_contextId t)) in
      if contextId = [] then Inl (JsErr (''Missing context for bucket '' @ ut_bucketName t @ ''.''))
      else (case buildStorageOpsBucketTargets ts of
        Inl e \<Rightarrow> Inl e | Inr rest \<Rightarrow> Inr ((contextId, ut_bucketName t) # rest)))"

text \<open>The name and the tenant of each bucket.\<close>

definition buildCephAdminRgwBucketTargets :: "BucketOperationUiTarget list \<Rightarrow> (string \<times> string) list" where
  "buildCephAdminRgwBucketTargets targets = map (\<lambda>t. (ut_bucketName t, trim (or_empty (ut_tenant t)))) targets"

section \<open>The projection\<close>

text \<open>\<open>new Map(items.map(...))\<close>: the last bucket of a key, at the place of the first.\<close>

definition by_selection_key :: "js_host \<Rightarrow> bool \<Rightarrow> CephAdminBucket list \<Rightarrow> (string \<times> CephAdminBucket) list" where
  "by_selection_key h isStorageOps items = fold (\<lambda>b m. AList.update (getBucketOpsSelectionKey h isStorageOps b) b m) items []"

definition storage_target :: "(string \<times> CephAdminBucket) list \<Rightarrow> string \<Rightarrow> BucketOperationUiTarget" where
  "storage_target itemByKey selectedName = (case map_of itemByKey selectedName of
     Some b \<Rightarrow> \<lparr>ut_bucketName = getStorageOpsBucketName b, ut_tenant = None, ut_contextId = Some (getStorageOpsContextId b),
       ut_contextName = (if getStorageOpsContextName b = [] then None else Some (getStorageOpsContextName b))\<rparr>
   | None \<Rightarrow> (case decodeStorageOpsBucketRef selectedName of
       Some r \<Rightarrow> \<lparr>ut_bucketName = sor_bucketName r, ut_tenant = None, ut_contextId = Some (sor_contextId r), ut_contextName = None\<rparr>
     | None \<Rightarrow> \<lparr>ut_bucketName = selectedName, ut_tenant = None, ut_contextId = Some [], ut_contextName = None\<rparr>))"

definition ceph_target :: "(string \<times> CephAdminBucket) list \<Rightarrow> string \<Rightarrow> BucketOperationUiTarget list" where
  "ceph_target itemByKey selectionKey = (case map_of itemByKey selectionKey of
     Some b \<Rightarrow> [\<lparr>ut_bucketName = string_prop b ''name'', ut_tenant = tenant_prop b, ut_contextId = None, ut_contextName = None\<rparr>]
   | None \<Rightarrow> (case decodeCephAdminSelectionKey selectionKey of
       Some (n, t) \<Rightarrow> [\<lparr>ut_bucketName = n, ut_tenant = t, ut_contextId = None, ut_contextName = None\<rparr>]
     | None \<Rightarrow> []))"

definition selected_targets :: "js_host \<Rightarrow> bool \<Rightarrow> CephAdminBucket list \<Rightarrow> string list \<Rightarrow> BucketOperationUiTarget list" where
  "selected_targets h isStorageOps items selected =
     (let keys = js_sort (localeCompare h) selected; itemByKey = by_selection_key h isStorageOps items in
      if isStorageOps then filter (\<lambda>t. trim (ut_bucketName t) \<noteq> []) (map (storage_target itemByKey) keys)
      else concat (map (ceph_target itemByKey) keys))"

text \<open>The references of the selected buckets, which the bulk operations take.\<close>

definition selected_refs :: "js_host \<Rightarrow> bool \<Rightarrow> string list \<Rightarrow> string list" where
  "selected_refs h isStorageOps selected = js_sort (localeCompare h) (filter (\<lambda>s. s \<noteq> []) (map
     (\<lambda>k. if isStorageOps then k else (case decodeCephAdminSelectionKey k of
        Some (n, t) \<Rightarrow> encodeCephAdminBucketRef n t | None \<Rightarrow> []))
     (js_sort (localeCompare h) selected)))"

text \<open>The comparison of labels up to case and accents, \<open>baseCompare\<close>, belongs to the host.\<close>

definition ui_tags :: "CephAdminBucket \<Rightarrow> jrec list" where
  "ui_tags b = (case jprop b ''ui_tags'' of Some (JArr vs) \<Rightarrow> map as_rec vs | _ \<Rightarrow> [])"

definition compare_tags :: "(string \<Rightarrow> string \<Rightarrow> int) \<Rightarrow> jrec \<Rightarrow> jrec \<Rightarrow> int" where
  "compare_tags baseCompare l r =
     (let c = baseCompare (string_prop l ''label'') (string_prop r ''label'') in
      if c \<noteq> 0 then c
      else (case (number_prop l ''id'', number_prop r ''id'') of
        (Some a, Some b) \<Rightarrow> (if a < b then - 1 else if a = b then 0 else 1) | _ \<Rightarrow> 0))"

definition selected_ui_tags :: "js_host \<Rightarrow> (string \<Rightarrow> string \<Rightarrow> int) \<Rightarrow> bool \<Rightarrow> CephAdminBucket list \<Rightarrow> string list \<Rightarrow> jrec list" where
  "selected_ui_tags h baseCompare isStorageOps items selected =
     (let itemByKey = by_selection_key h isStorageOps items;
          tags = concat (map (\<lambda>k. case map_of itemByKey k of Some b \<Rightarrow> ui_tags b | None \<Rightarrow> []) (js_sort (localeCompare h) selected)) in
      js_sort (compare_tags baseCompare) (map snd (fold (\<lambda>t m. AList.update (jprop t ''id'') t m) tags [])))"

record selection_projection =
  allSelectedOnFiltered :: bool
  fullyResolvedFilteredSelection :: bool
  headerChecked :: bool
  headerIndeterminate :: bool
  hiddenSelectedCount :: nat
  selectedBucketList :: "string list"
  selectedCount :: nat
  selectedOnFilteredCount :: nat
  selectedOnPageCount :: nat
  selectedOperationTargets :: "BucketOperationUiTarget list"
  selectedUiTagSuggestions :: "jrec list"

text \<open>The resolved names come with the key of the query they were loaded for.\<close>

definition buildBucketOpsSelectionProjection ::
  "js_host \<Rightarrow> (string \<Rightarrow> string \<Rightarrow> int) \<Rightarrow> (string \<times> string list) option \<Rightarrow> bool \<Rightarrow> CephAdminBucket list \<Rightarrow> string list \<Rightarrow> string \<Rightarrow> nat
   \<Rightarrow> selection_projection" where
  "buildBucketOpsSelectionProjection h baseCompare resolved isStorageOps items selected queryKey tot =
     (let onPage = length (filter (\<lambda>b. getBucketOpsSelectionKey h isStorageOps b \<in> set selected) items);
          names = (case resolved of Some (k, ns) \<Rightarrow> if k = queryKey then ns else [] | None \<Rightarrow> []);
          hasResolved = (names \<noteq> []);
          onFiltered = (if hasResolved then length (filter (\<lambda>n. n \<in> set selected) names) else onPage);
          allFiltered = (hasResolved \<and> tot > 0 \<and> length names = tot \<and> onFiltered = tot);
          allOnPage = (length items > 0 \<and> onPage = length items) in
      \<lparr>allSelectedOnFiltered = allFiltered,
       fullyResolvedFilteredSelection = (allFiltered \<and> length selected = tot \<and> length names = tot),
       headerChecked = (if hasResolved then allFiltered else allOnPage),
       headerIndeterminate = (if hasResolved then onFiltered > 0 \<and> \<not> allFiltered else onPage > 0 \<and> \<not> allOnPage),
       hiddenSelectedCount = length selected - onPage, selectedBucketList = selected_refs h isStorageOps selected,
       selectedCount = length selected, selectedOnFilteredCount = onFiltered, selectedOnPageCount = onPage,
       selectedOperationTargets = selected_targets h isStorageOps items selected,
       selectedUiTagSuggestions = selected_ui_tags h baseCompare isStorageOps items selected\<rparr>)"

section \<open>Loading all filtered buckets\<close>

record bucket_page =
  pg_items :: "CephAdminBucket list"
  pg_has_next :: bool
  pg_total :: int

text \<open>
  The loop over the pages; \<open>None\<close> when it does not end. \<open>listPage\<close> is the listing with the parameters of
  the query and pages of 200; the notification of progress is left out.
\<close>

definition add_buckets :: "(CephAdminBucket \<Rightarrow> string) \<Rightarrow> CephAdminBucket list \<Rightarrow> (string \<times> CephAdminBucket) list \<Rightarrow> (string \<times> CephAdminBucket) list" where
  "add_buckets key items m = fold (\<lambda>b m. AList.update (key b) b m) items m"

partial_function (option) load_pages ::
  "(CephAdminBucket \<Rightarrow> string) \<Rightarrow> (nat \<Rightarrow> ('s, bucket_page) io) \<Rightarrow> int option \<Rightarrow> nat \<Rightarrow> (string \<times> CephAdminBucket) list \<Rightarrow> 's
   \<Rightarrow> ((js_error + (string \<times> CephAdminBucket) list) \<times> 's) option" where
  "load_pages key listPage expected nextPage byName s = (case listPage nextPage s of
     (Inl e, t) \<Rightarrow> Some (Inl e, t)
   | (Inr response, t) \<Rightarrow>
      (let byName' = add_buckets key (pg_items response) byName;
           expected' = (if pg_total response \<ge> 0 then Some (pg_total response) else expected) in
       if \<not> pg_has_next response then Some (Inr byName', t)
       else if expected' \<noteq> None \<and> int (length byName') \<ge> the expected' then Some (Inr byName', t)
       else load_pages key listPage expected' (nextPage + 1) byName' t))"

definition loadBucketOpsFilteredBuckets ::
  "(CephAdminBucket \<Rightarrow> string) \<Rightarrow> (nat \<Rightarrow> ('s, bucket_page) io) \<Rightarrow> int option \<Rightarrow> 's
   \<Rightarrow> ((js_error + (string \<times> CephAdminBucket) list) \<times> 's) option" where
  "loadBucketOpsFilteredBuckets key listPage initialTotal =
     load_pages key listPage (case initialTotal of Some t \<Rightarrow> if t \<ge> 0 then Some t else None | None \<Rightarrow> None) 1 []"

section \<open>The hook\<close>

text \<open>The key of the query the names are loaded for; the order of the rows does not matter to it.\<close>

definition selectionQueryKey :: "js_host \<Rightarrow> rat option \<Rightarrow> string \<Rightarrow> TextMatchMode \<Rightarrow> string option \<Rightarrow> nat list \<Rightarrow> bool \<Rightarrow> bool \<Rightarrow> string" where
  "selectionQueryKey h scopeId filterValue quickFilterMode advanced tagFilters matchAll withStats = stringify h (JObj
     [(''endpoint'', json_or_null (\<lambda>e. JNum (Fin e)) scopeId),
      (''filter'', if trim filterValue = [] then JNull else JStr (trim filterValue)), (''quickFilterMode'', mode_json quickFilterMode),
      (''advanced'', case advanced of Some (c # cs) \<Rightarrow> JStr (c # cs) | _ \<Rightarrow> JNull),
      (''uiTagIds'', JArr (map (\<lambda>t. JNum (Fin (of_nat t))) tagFilters)),
      (''uiTagMatch'', JStr (if matchAll then ''all'' else ''any'')), (''withStats'', JBool withStats)])"

text \<open>
  A load on its way: the token of its run, what it is for, the key of the query it was started for and
  the names when the cache had them. The resolved names and the cache (state and references of the hook)
  are set and dropped together and are one field here.
\<close>

record selection_load =
  sl_token :: nat
  sl_checked :: bool
  sl_key :: string
  sl_cached :: "string list option"

record selection_hook =
  sh_queryKey :: string
  sh_selected :: "string list"
  sh_resolved :: "(string \<times> string list) option"
  sh_progress :: "(nat \<times> nat) option"
  sh_run :: nat
  sh_loads :: "selection_load list"

definition fresh_selection :: "string \<Rightarrow> selection_hook" where
  "fresh_selection key = \<lparr>sh_queryKey = key, sh_selected = [], sh_resolved = None, sh_progress = None, sh_run = 0, sh_loads = []\<rparr>"

definition invalidateResolvedNames :: "selection_hook \<Rightarrow> selection_hook" where
  "invalidateResolvedNames st = st\<lparr>sh_resolved := None\<rparr>"

definition invalidateSelectionCache :: "selection_hook \<Rightarrow> selection_hook" where
  "invalidateSelectionCache st = (invalidateResolvedNames (st\<lparr>sh_run := sh_run st + 1\<rparr>))\<lparr>sh_progress := None\<rparr>"

text \<open>A render with another query: the effect of the last one is cleaned up, which also counts the run.\<close>

definition query_changed :: "string \<Rightarrow> selection_hook \<Rightarrow> selection_hook" where
  "query_changed key st =
     (if key = sh_queryKey st then st
      else invalidateSelectionCache (st\<lparr>sh_queryKey := key, sh_run := sh_run st + 1\<rparr>))"

text \<open>A render with the total of the listing.\<close>

definition total_changed :: "nat \<Rightarrow> selection_hook \<Rightarrow> selection_hook" where
  "total_changed tot st = (case sh_resolved st of
     Some (k, names) \<Rightarrow> if k \<noteq> sh_queryKey st \<or> tot = length names then st else invalidateResolvedNames st
   | None \<Rightarrow> st)"

definition resetSelectedBuckets :: "selection_hook \<Rightarrow> selection_hook" where
  "resetSelectedBuckets st = st\<lparr>sh_run := sh_run st + 1, sh_selected := [], sh_progress := None\<rparr>"

definition set_add :: "string \<Rightarrow> string list \<Rightarrow> string list" where
  "set_add x xs = (if x \<in> set xs then xs else xs @ [x])"

definition toggleSelection :: "js_host \<Rightarrow> bool \<Rightarrow> CephAdminBucket \<Rightarrow> selection_hook \<Rightarrow> selection_hook" where
  "toggleSelection h isStorageOps b st =
     (let key = getBucketOpsSelectionKey h isStorageOps b in
      st\<lparr>sh_selected := (if key \<in> set (sh_selected st) then removeAll key (sh_selected st) else set_add key (sh_selected st))\<rparr>)"

text \<open>
  \<open>setSelectionForFilteredResults\<close> up to its first wait: it starts a run; a load of names that the cache
  holds reports them as complete.
\<close>

definition start_select :: "bool \<Rightarrow> nat \<Rightarrow> selection_hook \<Rightarrow> selection_hook" where
  "start_select checked tot st =
     (let token = sh_run st + 1;
          cached = (case sh_resolved st of Some (k, names) \<Rightarrow> if k = sh_queryKey st then Some names else None | None \<Rightarrow> None) in
      st\<lparr>sh_run := token, sh_progress := Some (case cached of Some names \<Rightarrow> (length names, length names) | None \<Rightarrow> (0, tot)),
         sh_loads := \<lparr>sl_token = token, sl_checked = checked, sl_key = sh_queryKey st, sl_cached = cached\<rparr> # sh_loads st\<rparr>)"

definition load_progress :: "selection_load \<Rightarrow> nat \<Rightarrow> nat \<Rightarrow> selection_hook \<Rightarrow> selection_hook" where
  "load_progress l completed tot st =
     (if sh_run st = sl_token l then st\<lparr>sh_progress := map_option (\<lambda>_. (completed, tot)) (sh_progress st)\<rparr> else st)"

definition select_names :: "bool \<Rightarrow> string list \<Rightarrow> string list \<Rightarrow> string list" where
  "select_names checked names current = fold (\<lambda>n xs. if checked then set_add n xs else removeAll n xs) names current"

text \<open>
  The end of a load, with the names or an error, and the storing of the names at the end of
  \<open>loadAllFilteredBucketNames\<close>; a run that was overtaken changes nothing.
\<close>

definition load_returns :: "selection_load \<Rightarrow> js_error + string list \<Rightarrow> selection_hook \<Rightarrow> selection_hook" where
  "load_returns l result st =
     (let st' = st\<lparr>sh_loads := remove1 l (sh_loads st)\<rparr> in
      if sh_run st \<noteq> sl_token l then st'
      else (case result of
        Inl _ \<Rightarrow> st'\<lparr>sh_progress := None\<rparr>
      | Inr loaded \<Rightarrow>
          (let names = (case sl_cached l of Some c \<Rightarrow> c | None \<Rightarrow> loaded) in
           st'\<lparr>sh_resolved := (if sl_cached l = None then Some (sl_key l, names) else sh_resolved st),
               sh_selected := select_names (sl_checked l) names (sh_selected st), sh_progress := None\<rparr>)))"

text \<open>What can happen to the hook, in any order.\<close>

inductive selection_step :: "selection_hook \<Rightarrow> selection_hook \<Rightarrow> bool" where
  step_query: "selection_step st (query_changed key st)"
| step_total: "selection_step st (total_changed tot st)"
| step_invalidate: "selection_step st (invalidateSelectionCache st)"
| step_reset: "selection_step st (resetSelectedBuckets st)"
| step_toggle: "selection_step st (toggleSelection h so b st)"
| step_start: "selection_step st (start_select checked tot st)"
| step_progress: "l \<in> set (sh_loads st) \<Longrightarrow> sl_cached l = None \<Longrightarrow> selection_step st (load_progress l completed tot st)"
| step_return: "l \<in> set (sh_loads st) \<Longrightarrow> selection_step st (load_returns l result st)"

section \<open>The selection keeps up with the query\<close>

definition selection_inv :: "selection_hook \<Rightarrow> bool" where
  "selection_inv st \<longleftrightarrow> distinct (sh_selected st) \<and> list_all (\<lambda>l. sl_token l \<le> sh_run st) (sh_loads st)
     \<and> list_all (\<lambda>l. sl_token l = sh_run st \<longrightarrow> sl_key l = sh_queryKey st) (sh_loads st)
     \<and> pred_option (\<lambda>(k, _). k = sh_queryKey st) (sh_resolved st)
     \<and> (sh_progress st \<noteq> None \<longrightarrow> list_ex (\<lambda>l. sl_token l = sh_run st) (sh_loads st))
     \<and> distinct (map sl_token (sh_loads st))"

lemma distinct_set_add: "distinct xs \<Longrightarrow> distinct (set_add x xs)"
  by (simp add: set_add_def)

lemma select_names_props:
  "set (select_names c names xs) = (if c then set xs \<union> set names else set xs - set names)"
  "distinct xs \<Longrightarrow> distinct (select_names c names xs)"
proof -
  show "set (select_names c names xs) = (if c then set xs \<union> set names else set xs - set names)"
    unfolding select_names_def by (induction names arbitrary: xs) (auto simp: set_add_def)
  show "distinct xs \<Longrightarrow> distinct (select_names c names xs)"
    unfolding select_names_def by (induction names arbitrary: xs) (auto simp: distinct_set_add distinct_removeAll)
qed

lemma load_returns_inv:
  assumes inv: "selection_inv st" and l: "l \<in> set (sh_loads st)"
  shows "selection_inv (load_returns l result st)"
proof (cases "sh_run st = sl_token l")
  case True
  have tok: "sl_token m \<noteq> sl_token l" if "m \<in> set (remove1 l (sh_loads st))" for m
  proof -
    have "distinct (sh_loads st)" using inv by (simp add: selection_inv_def distinct_map)
    then have "m \<noteq> l \<and> m \<in> set (sh_loads st)" using that by auto
    with l inv show ?thesis by (auto simp: selection_inv_def distinct_map inj_on_def)
  qed
  moreover have "distinct (map sl_token (remove1 l (sh_loads st)))"
    using inv by (auto simp: selection_inv_def distinct_map intro: inj_on_subset)
  ultimately show ?thesis
    using inv l True by (auto simp: selection_inv_def load_returns_def Let_def list_all_iff select_names_props split: sum.split option.split)
next
  case False
  have "distinct (map sl_token (remove1 l (sh_loads st)))"
    using inv by (auto simp: selection_inv_def distinct_map intro: inj_on_subset)
  moreover have "list_ex (\<lambda>m. sl_token m = sh_run st) (remove1 l (sh_loads st))" if "list_ex (\<lambda>m. sl_token m = sh_run st) (sh_loads st)"
  proof -
    from that obtain m where m: "m \<in> set (sh_loads st)" "sl_token m = sh_run st" by (auto simp: list_ex_iff)
    with False have "m \<noteq> l" by auto
    with m show ?thesis by (auto simp: list_ex_iff intro!: bexI [of _ m])
  qed
  ultimately show ?thesis using inv False
    by (auto simp: selection_inv_def load_returns_def list_all_iff Let_def dest: notin_set_remove1 set_remove1_subset [THEN subsetD])
qed

lemma selection_step_inv: "selection_step st st' \<Longrightarrow> selection_inv st \<Longrightarrow> selection_inv st'"
proof (induction rule: selection_step.induct)
  case (step_query st key)
  then show ?case
    by (cases "key = sh_queryKey st")
      (auto simp: query_changed_def invalidateSelectionCache_def invalidateResolvedNames_def selection_inv_def list_all_iff)
next
  case (step_total st tot)
  then show ?case by (auto simp: total_changed_def invalidateResolvedNames_def selection_inv_def split: option.splits)
next
  case (step_invalidate st)
  then show ?case by (auto simp: invalidateSelectionCache_def invalidateResolvedNames_def selection_inv_def list_all_iff)
next
  case (step_reset st)
  then show ?case by (auto simp: resetSelectedBuckets_def selection_inv_def list_all_iff)
next
  case (step_toggle st h so b)
  then show ?case by (auto simp: toggleSelection_def selection_inv_def Let_def distinct_removeAll distinct_set_add)
next
  case (step_start st checked tot)
  then show ?case by (auto simp: start_select_def selection_inv_def Let_def list_all_iff)
next
  case (step_progress l st completed tot)
  then show ?case by (auto simp: load_progress_def selection_inv_def)
next
  case (step_return l st result)
  then show ?case by (simp add: load_returns_inv)
qed

lemma selection_inv_reachable: "selection_step\<^sup>*\<^sup>* (fresh_selection key) st \<Longrightarrow> selection_inv st"
proof (induction rule: rtranclp_induct)
  case base
  then show ?case by (simp add: selection_inv_def fresh_selection_def)
qed (rule selection_step_inv)

section \<open>All pages\<close>

text \<open>A server that lists \<open>xs\<close> in pages of 200.\<close>

definition page_of :: "CephAdminBucket list \<Rightarrow> nat \<Rightarrow> bucket_page" where
  "page_of xs p = \<lparr>pg_items = take 200 (drop ((p - 1) * 200) xs), pg_has_next = p * 200 < length xs, pg_total = int (length xs)\<rparr>"

lemma add_buckets_append: "add_buckets key (xs @ ys) m = add_buckets key ys (add_buckets key xs m)"
  by (simp add: add_buckets_def)

lemma add_buckets_keys:
  "set (map fst (add_buckets key xs m)) = set (map fst m) \<union> key ` set xs"
  "distinct (map fst m) \<Longrightarrow> distinct (map fst (add_buckets key xs m))"
proof -
  show "set (map fst (add_buckets key xs m)) = set (map fst m) \<union> key ` set xs"
    unfolding add_buckets_def by (induction xs arbitrary: m) (auto simp: dom_update)
  show "distinct (map fst m) \<Longrightarrow> distinct (map fst (add_buckets key xs m))"
    unfolding add_buckets_def by (induction xs arbitrary: m) (auto simp: distinct_update)
qed

lemma add_buckets_length: "length (add_buckets key xs []) \<le> length xs"
proof -
  have "length (map fst (add_buckets key xs [])) = card (set (map fst (add_buckets key xs [])))"
    using add_buckets_keys(2) [where m = "[]" and key = key and xs = xs] by (intro distinct_card [symmetric]) simp
  then have "length (add_buckets key xs []) = card (set (map fst (add_buckets key xs [])))" by simp
  also have "\<dots> \<le> length xs" unfolding add_buckets_keys(1) by (simp add: card_image_le [THEN order_trans] card_length)
  finally show ?thesis .
qed

lemma load_pages_all:
  assumes "\<And>p. listPage p s = (Inr (page_of xs p), s)" and "p > 0"
  shows "\<exists>m. load_pages key listPage e p (add_buckets key (take ((p - 1) * 200) xs) []) s = Some (Inr m, s)
    \<and> set (map fst m) = key ` set xs \<and> distinct (map fst m)"
  using assms(2)
proof (induction "length xs - p * 200" arbitrary: p e rule: less_induct)
  case less
  let ?m = "add_buckets key (take (p * 200) xs) []"
  have m: "add_buckets key (pg_items (page_of xs p)) (add_buckets key (take ((p - 1) * 200) xs) []) = ?m"
  proof -
    have "p * 200 = (p - 1) * 200 + 200" using less.prems by (cases p) auto
    then have "take (p * 200) xs = take ((p - 1) * 200) xs @ take 200 (drop ((p - 1) * 200) xs)" by (simp add: take_add)
    then show ?thesis by (simp add: page_of_def add_buckets_append)
  qed
  have all: "set (map fst (add_buckets key ys [])) = key ` set ys \<and> distinct (map fst (add_buckets key ys []))" for ys
    using add_buckets_keys [where key = key and xs = ys and m = "[]"] by simp
  have page_next: "pg_has_next (page_of xs p) = (p * 200 < length xs)" "pg_total (page_of xs p) = int (length xs)"
    by (simp_all add: page_of_def)
  consider "\<not> p * 200 < length xs" | "p * 200 < length xs" "length xs \<le> length ?m" | "p * 200 < length xs" "\<not> length xs \<le> length ?m" by blast
  then show ?case
  proof cases
    case 1
    then show ?thesis using all [of xs] by (subst load_pages.simps) (simp add: assms(1) m [simplified] page_next Let_def)
  next
    case 2
    with add_buckets_length [of key "take (p * 200) xs"] show ?thesis by simp
  next
    case 3
    have "\<exists>m. load_pages key listPage (Some (int (length xs))) (p + 1) (add_buckets key (take ((p + 1 - 1) * 200) xs) []) s = Some (Inr m, s)
      \<and> set (map fst m) = key ` set xs \<and> distinct (map fst m)"
      using 3 by (intro less.hyps) auto
    moreover have "load_pages key listPage e p (add_buckets key (take ((p - 1) * 200) xs) []) s
      = load_pages key listPage (Some (int (length xs))) (p + 1) ?m s"
      using 3 by (subst load_pages.simps) (simp add: assms(1) m [simplified] page_next Let_def)
    ultimately show ?thesis by simp
  qed
qed

lemma load_filtered_all:
  assumes "\<And>p. listPage p s = (Inr (page_of xs p), s)"
  shows "\<exists>m. loadBucketOpsFilteredBuckets key listPage initial s = Some (Inr m, s) \<and> set (map fst m) = key ` set xs \<and> distinct (map fst m)"
  using load_pages_all [where listPage = listPage and p = 1, OF assms] by (simp add: loadBucketOpsFilteredBuckets_def add_buckets_def)

section \<open>Which buckets are operated on\<close>

lemma selection_key_parts:
  assumes "getBucketOpsSelectionKey h False a = getBucketOpsSelectionKey h False b"
  shows "string_prop a ''name'' = string_prop b ''name''" and "trim (or_empty (tenant_prop a)) = trim (or_empty (tenant_prop b))"
proof -
  have "json_parse (getBucketOpsSelectionKey h False x) = Some (texts_json [trim (or_empty (tenant_prop x)), string_prop x ''name''])" for x
    unfolding getBucketOpsSelectionKey_def if_False by (rule json_parse_stringify) (simp add: texts_json_def)
  with assms have "texts_json [trim (or_empty (tenant_prop a)), string_prop a ''name''] = texts_json [trim (or_empty (tenant_prop b)), string_prop b ''name'']"
    by (metis option.inject)
  then show "string_prop a ''name'' = string_prop b ''name''" and "trim (or_empty (tenant_prop a)) = trim (or_empty (tenant_prop b))"
    by (simp_all add: texts_json_def)
qed

lemma decode_selection_key:
  assumes "trim (string_prop b ''name'') \<noteq> []"
  shows "decodeCephAdminSelectionKey (getBucketOpsSelectionKey h False b) = Some (trim (string_prop b ''name''),
    if trim (or_empty (tenant_prop b)) = [] then None else Some (trim (or_empty (tenant_prop b))))"
proof -
  have "json_parse (getBucketOpsSelectionKey h False b) = Some (texts_json [trim (or_empty (tenant_prop b)), string_prop b ''name''])"
    unfolding getBucketOpsSelectionKey_def if_False by (rule json_parse_stringify) (simp add: texts_json_def)
  with assms show ?thesis by (simp add: decodeCephAdminSelectionKey_def texts_json_def)
qed

lemma by_selection_key_key: "map_of (by_selection_key h so items) k = Some b \<Longrightarrow> getBucketOpsSelectionKey h so b = k"
proof -
  have "\<forall>(k, b) \<in> set m. getBucketOpsSelectionKey h so b = k \<Longrightarrow>
    \<forall>(k, b) \<in> set (fold (\<lambda>b m. AList.update (getBucketOpsSelectionKey h so b) b m) items m). getBucketOpsSelectionKey h so b = k" for m
  proof (induction items arbitrary: m)
    case (Cons b items)
    have "\<forall>(k, b) \<in> set (AList.update (getBucketOpsSelectionKey h so b) b m). getBucketOpsSelectionKey h so b = k"
      using Cons.prems set_update_subset [of "getBucketOpsSelectionKey h so b" b m] by fastforce
    then show ?case using Cons.IH by simp
  qed simp
  from this [of "[]"] show "map_of (by_selection_key h so items) k = Some b \<Longrightarrow> ?thesis"
    by (auto simp: by_selection_key_def dest!: map_of_SomeD)
qed

definition bucket_id :: "CephAdminBucket \<Rightarrow> string \<times> string" where
  "bucket_id b = (string_prop b ''name'', trim (or_empty (tenant_prop b)))"

definition trimmed_name :: "CephAdminBucket \<Rightarrow> bool" where
  "trimmed_name b \<longleftrightarrow> string_prop b ''name'' \<noteq> [] \<and> trim (string_prop b ''name'') = string_prop b ''name''"

lemma ceph_target_id:
  assumes "trimmed_name b"
  shows "buildCephAdminRgwBucketTargets (ceph_target (by_selection_key h False items) (getBucketOpsSelectionKey h False b)) = [bucket_id b]"
proof (cases "map_of (by_selection_key h False items) (getBucketOpsSelectionKey h False b)")
  case None
  with assms decode_selection_key [of b h] show ?thesis
    by (auto simp: ceph_target_def buildCephAdminRgwBucketTargets_def bucket_id_def trimmed_name_def or_empty_def)
next
  case (Some c)
  from selection_key_parts [OF by_selection_key_key [OF this]] Some show ?thesis
    by (simp add: ceph_target_def buildCephAdminRgwBucketTargets_def bucket_id_def)
qed

section \<open>Properties\<close>


definition sample_found :: "CephAdminBucket list" where
  "sample_found = [[(''name'', JStr ''logs''), (''tenant'', JStr ''ops'')], [(''name'', JStr ''raw''), (''tenant'', JNull)]]"


text \<open>
  C18. The selection keeps up with the query: in every order of clicks, renders and loads the resolved names
  belong to the query shown, the load that may still change the selection was started for it, the progress
  is shown only while that load is on its way, and the end of any other load changes nothing.
\<close>

theorem stale_loads_ignored:
  assumes "selection_step\<^sup>*\<^sup>* (fresh_selection key) st"
  shows "distinct (sh_selected st) \<and> pred_option (\<lambda>(k, _). k = sh_queryKey st) (sh_resolved st)
    \<and> list_all (\<lambda>l. sl_token l \<noteq> sh_run st \<or> sl_key l = sh_queryKey st) (sh_loads st)
    \<and> (sh_progress st = None \<or> list_ex (\<lambda>l. sl_token l = sh_run st) (sh_loads st))
    \<and> list_all (\<lambda>l. sl_token l = sh_run st \<or> load_returns l result st = st\<lparr>sh_loads := remove1 l (sh_loads st)\<rparr>) (sh_loads st)"
  using selection_inv_reachable [OF assms]
  by (cases "sh_progress st") (auto simp: selection_inv_def list_all_iff load_returns_def Let_def)

theorem stale_loads_ignored_witness:
  "let st = query_changed ''q2'' (start_select True 5 (fresh_selection ''q1'')) in
     sh_loads st \<noteq> [] \<and> load_returns (hd (sh_loads st)) (Inr [''logs'']) st = st\<lparr>sh_loads := []\<rparr>"
proof -
  let ?one = "start_select True 5 (fresh_selection ''q1'')" and ?l = "\<lparr>sl_token = 1, sl_checked = True, sl_key = ''q1'', sl_cached = None\<rparr>"
  have "selection_step (fresh_selection ''q1'') ?one" "selection_step ?one (query_changed ''q2'' ?one)" by (rule step_start step_query)+
  then have r: "selection_step\<^sup>*\<^sup>* (fresh_selection ''q1'') (query_changed ''q2'' ?one)" by simp
  have l: "sh_loads (query_changed ''q2'' ?one) = [?l]" "sh_run (query_changed ''q2'' ?one) = 3"
    by (simp_all add: query_changed_def start_select_def fresh_selection_def invalidateSelectionCache_def invalidateResolvedNames_def Let_def)
  with stale_loads_ignored [OF r, of "Inr [''logs'']"] show ?thesis by (simp add: Let_def)
qed

text \<open>
  C21. Selecting the filtered results selects all of them: when the server lists the buckets of the query in
  pages of 200, the loop over the pages ends, and after it every one is selected, with what was selected
  before; the box in the header is then checked and not undetermined, if no two of them have the same key.
\<close>

theorem select_all_filtered:
  assumes "selection_step\<^sup>*\<^sup>* (fresh_selection key) st" and "l \<in> set (sh_loads st)" and "sl_token l = sh_run st"
    and "sl_checked l" and "sl_cached l = None"
    and "\<And>p. listPage p s = (Inr (page_of xs p), s)"
    and "distinct (map (getBucketOpsSelectionKey h so) xs)" and "xs \<noteq> []"
  shows "\<exists>found. loadBucketOpsFilteredBuckets (getBucketOpsSelectionKey h so) listPage initial s = Some (Inr found, s)
    \<and> (let st' = load_returns l (Inr (map fst found)) st;
           p = buildBucketOpsSelectionProjection h cmp (sh_resolved st') so items (sh_selected st') (sh_queryKey st') (length xs) in
       set (sh_selected st') = set (sh_selected st) \<union> getBucketOpsSelectionKey h so ` set xs
       \<and> headerChecked p \<and> \<not> headerIndeterminate p \<and> sh_progress st' = None)"
proof -
  let ?key = "getBucketOpsSelectionKey h so"
  obtain found where found: "loadBucketOpsFilteredBuckets ?key listPage initial s = Some (Inr found, s)"
    "set (map fst found) = ?key ` set xs" "distinct (map fst found)"
    using load_filtered_all [where listPage = listPage and xs = xs, OF assms(6)] by blast
  have "length (map fst found) = card (?key ` set xs)" using found(2,3) distinct_card by metis
  also have "\<dots> = length xs" using assms(7) by (metis distinct_card length_map set_map)
  finally have len: "length found = length xs" by simp
  let ?st = "load_returns l (Inr (map fst found)) st"
  have q: "sl_key l = sh_queryKey st" using selection_inv_reachable [OF assms(1)] assms(2,3) by (auto simp: selection_inv_def list_all_iff)
  have st: "sh_selected ?st = select_names True (map fst found) (sh_selected st)" "sh_resolved ?st = Some (sl_key l, map fst found)"
    "sh_queryKey ?st = sl_key l" "sh_progress ?st = None"
    using assms(3-5) q by (simp_all add: load_returns_def Let_def)
  have sel: "set (sh_selected ?st) = set (sh_selected st) \<union> ?key ` set xs" unfolding st(1) select_names_props(1) found(2) by simp
  then have all: "filter (\<lambda>n. n \<in> set (sh_selected ?st)) (map fst found) = map fst found" using found(2) by (intro filter_True) auto
  have "map fst found \<noteq> []" "length xs > 0" using len assms(8) by auto
  then have "headerChecked (buildBucketOpsSelectionProjection h cmp (sh_resolved ?st) so items (sh_selected ?st) (sh_queryKey ?st) (length xs))
      \<and> \<not> headerIndeterminate (buildBucketOpsSelectionProjection h cmp (sh_resolved ?st) so items (sh_selected ?st) (sh_queryKey ?st) (length xs))"
    using all len unfolding st(2,3) by (simp add: buildBucketOpsSelectionProjection_def Let_def)
  with found(1) sel st(4) show ?thesis by (auto simp: Let_def)
qed

theorem select_all_filtered_witness:
  "let st = start_select True 2 (fresh_selection ''q''); key = getBucketOpsSelectionKey plain_host False in
   \<exists>found. loadBucketOpsFilteredBuckets key (\<lambda>p s. (Inr (page_of sample_found p), s)) (Some 2) () = Some (Inr found, ())
     \<and> set (sh_selected (load_returns (hd (sh_loads st)) (Inr (map fst found)) st)) = key ` set sample_found"
proof -
  let ?st = "start_select True 2 (fresh_selection ''q'')" and ?l = "\<lparr>sl_token = 1, sl_checked = True, sl_key = ''q'', sl_cached = None\<rparr>"
  have "selection_step (fresh_selection ''q'') ?st" by (rule step_start)
  then have r: "selection_step\<^sup>*\<^sup>* (fresh_selection ''q'') ?st" by simp
  have l: "sh_loads ?st = [?l]" "sh_run ?st = 1" "sh_selected ?st = []" by (simp_all add: start_select_def fresh_selection_def Let_def)
  have d: "distinct (map (getBucketOpsSelectionKey plain_host False) sample_found)" "sample_found \<noteq> []" by code_simp+
  show ?thesis
    using select_all_filtered [OF r _ _ _ _ _ d, where l = ?l and listPage = "\<lambda>p s. (Inr (page_of sample_found p), s)"
        and s = "()" and initial = "Some 2" and cmp = "\<lambda>_ _. 0" and items = "[]"] l by (auto simp: Let_def)
qed

end
