(* ===== verification/Preview_Sections.thy ===== *)
theory Preview_Sections
  imports Bulk_Properties Clipboard Filter_Text
begin

text \<open>
  \<open>frontend/src/features/shared/bucketBulkPreviewModel.ts\<close>: how the items of a preview are shown and
  exported. The lines of an item are cut into sections at lines such as \<open>[Quota]\<close>, the sections of both
  sides are paired by their label up to case, and a section is changed when a line is toned or the two
  sides differ. The properties relate what is shown to what the preview of a bulk operation announces.
\<close>

section \<open>Sections\<close>

record BulkPreviewSection =
  ps_key :: string
  ps_label :: string
  ps_before :: "BulkPreviewLine list"
  ps_after :: "BulkPreviewLine list"
  ps_changed :: bool
  ps_error :: "string option"

definition sectionLabelForOperation :: "BulkOperation \<Rightarrow> string" where
  "sectionLabelForOperation operation = (case operation of
     SetQuota \<Rightarrow> ''Quota''
   | AddPublicAccessBlock \<Rightarrow> ''Block Public Access'' | RemovePublicAccessBlock \<Rightarrow> ''Block Public Access''
   | EnableVersioning \<Rightarrow> ''Versioning'' | DisableVersioning \<Rightarrow> ''Versioning''
   | AddLifecycle \<Rightarrow> ''Lifecycle'' | DeleteLifecycle \<Rightarrow> ''Lifecycle''
   | AddNotifications \<Rightarrow> ''Notifications'' | DeleteNotifications \<Rightarrow> ''Notifications''
   | AddCors \<Rightarrow> ''CORS'' | DeleteCors \<Rightarrow> ''CORS''
   | AddPolicy \<Rightarrow> ''Bucket Policy'' | DeletePolicy \<Rightarrow> ''Bucket Policy''
   | PasteConfigs \<Rightarrow> ''Overview''
   | _ \<Rightarrow> ''Preview'')"

text \<open>\<open>line.text.trim().match(/^\[(.+)\]$/)\<close>: the text between the brackets, on one line.\<close>

definition line_break :: "char \<Rightarrow> bool" where
  "line_break c \<longleftrightarrow> c = CHR 0x0A \<or> c = CHR 0x0D"

definition section_marker :: "BulkPreviewLine \<Rightarrow> string option" where
  "section_marker line =
     (let s = trim (line_text line); inner = butlast (tl s) in
      if length s \<ge> 3 \<and> hd s = CHR ''['' \<and> last s = CHR '']'' \<and> \<not> list_ex line_break inner then Some inner else None)"

type_synonym labelled_lines = "string \<times> BulkPreviewLine list"

text \<open>The state of the loop: the sections so far, the label and the lines of the current one.\<close>

type_synonym split_state = "labelled_lines list \<times> string \<times> BulkPreviewLine list"

definition flush_section :: "split_state \<Rightarrow> split_state" where
  "flush_section st = (case st of (sections, currentLabel, currentLines) \<Rightarrow>
     if currentLines = [] then st else (sections @ [(currentLabel, currentLines)], currentLabel, []))"

definition split_line :: "string \<Rightarrow> BulkPreviewLine \<Rightarrow> split_state \<Rightarrow> split_state" where
  "split_line fallbackLabel line st = (case section_marker line of
     Some inner \<Rightarrow> (case flush_section st of (sections, _, currentLines) \<Rightarrow>
       (sections, if trim inner = [] then fallbackLabel else trim inner, currentLines))
   | None \<Rightarrow> (case st of (sections, currentLabel, currentLines) \<Rightarrow> (sections, currentLabel, currentLines @ [line])))"

definition splitPreviewLinesBySection :: "BulkPreviewLine list \<Rightarrow> string \<Rightarrow> labelled_lines list" where
  "splitPreviewLinesBySection lines fallbackLabel =
     (let sections = fst (flush_section (fold (split_line fallbackLabel) lines ([], fallbackLabel, []))) in
      if sections = [] then [(fallbackLabel, [plain_line ''-''])] else sections)"

definition tone_text :: "BulkPreviewTone option \<Rightarrow> string" where
  "tone_text t = (case t of None \<Rightarrow> ''none'' | Some Added \<Rightarrow> ''added'' | Some Removed \<Rightarrow> ''removed'')"

definition serializePreviewLines :: "BulkPreviewLine list \<Rightarrow> string" where
  "serializePreviewLines lines = join newline (map (\<lambda>l. tone_text (tone l) @ ''|'' @ line_text l) lines)"

definition hasChangedPreviewTone :: "BulkPreviewLine list \<Rightarrow> bool" where
  "hasChangedPreviewTone lines = list_ex (\<lambda>l. tone l = Some Added \<or> tone l = Some Removed) lines"

definition has_error :: "BulkPreviewItem \<Rightarrow> bool" where
  "has_error item = (case item_error item of Some (c # cs) \<Rightarrow> True | _ \<Rightarrow> False)"

text \<open>The changed, unchanged and failed items.\<close>

definition summarizeBulkPreview :: "BulkPreviewItem list \<Rightarrow> nat \<times> nat \<times> nat" where
  "summarizeBulkPreview items =
     (let errors = length (filter has_error items);
          ch = length (filter (\<lambda>i. \<not> has_error i \<and> changed i) items) in
      (ch, length items - ch - errors, errors))"

definition label_key :: "string \<Rightarrow> string" where
  "label_key label = toLowerCase (trim label)"

definition lines_of_label :: "labelled_lines list \<Rightarrow> string \<Rightarrow> BulkPreviewLine list" where
  "lines_of_label sections normalized = (case find (\<lambda>(l, _). label_key l = normalized) sections of
     Some (_, ls) \<Rightarrow> ls | None \<Rightarrow> [])"

definition or_dash :: "BulkPreviewLine list \<Rightarrow> BulkPreviewLine list" where
  "or_dash lines = (if length lines > 0 then lines else [plain_line ''-''])"

definition paired_section :: "labelled_lines list \<Rightarrow> labelled_lines list \<Rightarrow> nat \<Rightarrow> string \<Rightarrow> BulkPreviewSection" where
  "paired_section beforeSections afterSections index label =
     (let normalized = label_key label;
          bef = lines_of_label beforeSections normalized; aft = lines_of_label afterSections normalized in
      \<lparr>ps_key = (if normalized = [] then ''section'' else normalized) @ ''-'' @ nat_string index, ps_label = label,
       ps_before = or_dash bef, ps_after = or_dash aft,
       ps_changed = (hasChangedPreviewTone bef \<or> hasChangedPreviewTone aft
         \<or> serializePreviewLines bef \<noteq> serializePreviewLines aft),
       ps_error = None\<rparr>)"

definition buildBulkPreviewSections :: "BulkPreviewItem \<Rightarrow> BulkOperation \<Rightarrow> BulkPreviewSection list" where
  "buildBulkPreviewSections item operation =
     (if has_error item
      then (let e = the (item_error item) in
        [\<lparr>ps_key = ''error'', ps_label = ''Error'', ps_before = [toned_line Removed True e],
          ps_after = [toned_line Added True e], ps_changed = True, ps_error = Some e\<rparr>])
      else (let fallbackLabel = sectionLabelForOperation operation;
                beforeSections = splitPreviewLinesBySection (before item) fallbackLabel;
                afterSections = splitPreviewLinesBySection (after item) fallbackLabel;
                labels = first_by label_key [] (map fst (beforeSections @ afterSections)) in
        map (\<lambda>(index, label). paired_section beforeSections afterSections index label) (enumerate 0 labels)))"

section \<open>Export\<close>

definition BulkOperation_text :: "BulkOperation \<Rightarrow> string" where
  "BulkOperation_text operation = (case operation of
     NoOperation \<Rightarrow> [] | CopyConfigs \<Rightarrow> ''copy_configs'' | PasteConfigs \<Rightarrow> ''paste_configs'' | SetQuota \<Rightarrow> ''set_quota''
   | AddPublicAccessBlock \<Rightarrow> ''add_public_access_block'' | RemovePublicAccessBlock \<Rightarrow> ''remove_public_access_block''
   | EnableVersioning \<Rightarrow> ''enable_versioning'' | DisableVersioning \<Rightarrow> ''disable_versioning''
   | AddLifecycle \<Rightarrow> ''add_lifecycle'' | DeleteLifecycle \<Rightarrow> ''delete_lifecycle''
   | AddNotifications \<Rightarrow> ''add_notifications'' | DeleteNotifications \<Rightarrow> ''delete_notifications''
   | AddCors \<Rightarrow> ''add_cors'' | DeleteCors \<Rightarrow> ''delete_cors''
   | AddPolicy \<Rightarrow> ''add_policy'' | DeletePolicy \<Rightarrow> ''delete_policy'')"

definition line_json :: "BulkPreviewLine \<Rightarrow> json" where
  "line_json l = JObj ((''text'', JStr (line_text l)) # (case tone l of None \<Rightarrow> [] | Some t \<Rightarrow> [(''tone'', JStr (tone_text (Some t)))]))"

definition exported_section :: "BulkPreviewSection \<Rightarrow> json" where
  "exported_section x = JObj [(''label'', JStr (ps_label x)), (''changed'', JBool (ps_changed x)),
     (''error'', json_of_string (ps_error x)), (''before'', JArr (map line_json (ps_before x))),
     (''after'', JArr (map line_json (ps_after x)))]"

definition exported_item :: "BulkOperation \<Rightarrow> BulkPreviewItem \<Rightarrow> json" where
  "exported_item operation item = JObj [(''bucket'', JStr (bucket item)), (''changed'', JBool (changed item)),
     (''error'', json_of_string (item_error item)),
     (''sections'', JArr (map exported_section
        (filter (\<lambda>x. ps_changed x \<or> (case ps_error x of Some (c # cs) \<Rightarrow> True | _ \<Rightarrow> False))
          (buildBulkPreviewSections item operation))))]"

definition scope_json :: "rat option \<times> string option \<Rightarrow> json" where
  "scope_json scope = JObj [(''id'', json_or_null (\<lambda>e. JNum (Fin e)) (fst scope)), (''name'', json_of_string (snd scope))]"

definition count_json :: "nat \<Rightarrow> json" where
  "count_json n = JNum (Fin (of_nat n))"

definition buildBulkPreviewExportPayload ::
  "string \<Rightarrow> BulkPreviewItem list \<Rightarrow> BulkOperation \<Rightarrow> rat option \<times> string option \<Rightarrow> string \<Rightarrow> json" where
  "buildBulkPreviewExportPayload generatedAt items operation scope scopeKey =
     (let itemsWithChanges = filter (\<lambda>i. changed i \<or> has_error i) items in
      case summarizeBulkPreview items of (ch, unch, errors) \<Rightarrow>
      JObj [(''generated_at'', JStr generatedAt), (scopeKey, scope_json scope),
       (''operation'', if BulkOperation_text operation = [] then JNull else JStr (BulkOperation_text operation)),
       (''summary'', JObj [(''total'', count_json (length items)), (''changed'', count_json ch),
          (''unchanged'', count_json unch), (''errors'', count_json errors),
          (''exported_items'', count_json (length itemsWithChanges))]),
       (''items'', JArr (map (exported_item operation) itemsWithChanges))])"

section \<open>Cutting lines\<close>

abbreviation unmarked :: "BulkPreviewLine list \<Rightarrow> bool" where
  "unmarked lines \<equiv> list_all (\<lambda>l. section_marker l = None) lines"

definition untoned :: "BulkPreviewLine list \<Rightarrow> bool" where
  "untoned lines = list_all (\<lambda>l. tone l = None) lines"

lemma hasChanged_untoned: "hasChangedPreviewTone lines = (\<not> untoned lines)"
  unfolding hasChangedPreviewTone_def untoned_def list_ex_iff list_all_iff
  by (metis BulkPreviewTone.exhaust option.distinct(1) option.exhaust_sel)

lemma fold_unmarked:
  "unmarked lines \<Longrightarrow> fold (split_line f) lines (secs, l, ls) = (secs, l, ls @ lines)"
  by (induction lines arbitrary: ls) (auto simp: split_line_def)

lemma split_unmarked:
  "unmarked lines \<Longrightarrow> splitPreviewLinesBySection lines f = [(f, or_dash lines)]"
  by (simp add: splitPreviewLinesBySection_def fold_unmarked flush_section_def or_dash_def Let_def)

lemma fold_split_untoned:
  assumes "untoned lines" and "untoned ls" and "list_all (untoned \<circ> snd) secs"
  shows "case fold (split_line f) lines (secs, l, ls) of (secs', _, ls') \<Rightarrow>
    list_all (untoned \<circ> snd) secs' \<and> untoned ls'"
  using assms
  by (induction lines arbitrary: secs l ls)
    (auto simp: split_line_def flush_section_def untoned_def split: option.splits)

lemma split_untoned:
  assumes "untoned lines"
  shows "list_all (untoned \<circ> snd) (splitPreviewLinesBySection lines f)"
  using fold_split_untoned [OF assms, of "[]" "[]" f f]
  by (auto simp: splitPreviewLinesBySection_def flush_section_def untoned_def plain_line_def Let_def split: prod.splits)

lemma lines_of_untoned: "list_all (untoned \<circ> snd) secs \<Longrightarrow> untoned (lines_of_label secs k)"
  by (induction secs) (auto simp: lines_of_label_def untoned_def)

section \<open>What an item shows\<close>

definition quiet :: "BulkPreviewItem \<Rightarrow> bool" where
  "quiet item \<longleftrightarrow> before item = after item \<and> untoned (before item)"

definition loud :: "BulkPreviewItem \<Rightarrow> bool" where
  "loud item \<longleftrightarrow> (\<exists>ls \<in> {before item, after item}. unmarked ls \<and> \<not> untoned ls)"

lemma quiet_sections:
  assumes "quiet item" and "\<not> has_error item"
  shows "\<not> list_ex ps_changed (buildBulkPreviewSections item operation)"
  using assms split_untoned [of "before item"]
  by (auto simp: buildBulkPreviewSections_def paired_section_def list_ex_iff quiet_def hasChanged_untoned lines_of_untoned Let_def)

lemma paired_of_label:
  assumes "l \<in> set (map fst (bs @ as))"
    and "\<not> untoned (lines_of_label bs (label_key l)) \<or> \<not> untoned (lines_of_label as (label_key l))"
  shows "list_ex ps_changed (map (\<lambda>(i, label). paired_section bs as i label) (enumerate 0 (first_by label_key [] (map fst (bs @ as)))))"
proof -
  let ?labels = "first_by label_key [] (map fst (bs @ as))"
  from assms(1) first_by_keys [of label_key "[]" "map fst (bs @ as)"]
  have "label_key l \<in> label_key ` set ?labels" by simp
  then obtain i where i: "i < length ?labels" "label_key (?labels ! i) = label_key l"
    by (metis (no_types, lifting) imageE in_set_conv_nth)
  then have "ps_changed (paired_section bs as i (?labels ! i))"
    using assms(2) by (auto simp: paired_section_def hasChanged_untoned Let_def)
  moreover have "paired_section bs as i (?labels ! i) = map (\<lambda>(i, label). paired_section bs as i label) (enumerate 0 ?labels) ! i"
    using i(1) by (simp add: nth_enumerate_eq)
  ultimately show ?thesis using i(1) by (metis (no_types, lifting) length_enumerate length_map list_ex_length)
qed

lemma loud_sections:
  assumes "loud item" and "\<not> has_error item"
  shows "list_ex ps_changed (buildBulkPreviewSections item operation)"
proof -
  let ?f = "sectionLabelForOperation operation"
  let ?bs = "splitPreviewLinesBySection (before item) ?f" and ?as = "splitPreviewLinesBySection (after item) ?f"
  have side: "\<not> untoned (lines_of_label (splitPreviewLinesBySection ls ?f) (label_key ?f))
      \<and> ?f \<in> set (map fst (splitPreviewLinesBySection ls ?f))" if "unmarked ls" "\<not> untoned ls" for ls
    using that by (auto simp: split_unmarked lines_of_label_def or_dash_def untoned_def)
  from assms(1) obtain ls where ls: "ls = before item \<or> ls = after item" "unmarked ls" "\<not> untoned ls"
    by (auto simp: loud_def)
  from side [OF ls(2,3)] ls(1) have "?f \<in> set (map fst (?bs @ ?as))" by auto
  from paired_of_label [OF this] side [OF ls(2,3)] ls(1) show ?thesis
    using assms(2) by (auto simp: buildBulkPreviewSections_def Let_def)
qed

definition honest :: "BulkPreviewItem \<Rightarrow> bool" where
  "honest item \<longleftrightarrow> \<not> has_error item \<and> (if changed item then loud item else quiet item)"

lemma honest_sections:
  "honest item \<Longrightarrow> list_ex ps_changed (buildBulkPreviewSections item operation) = changed item"
  using quiet_sections [of item operation] loud_sections [of item operation]
  by (auto simp: honest_def split: if_splits)

lemma has_error_preview_item [simp]: "\<not> has_error (preview_item b c x y)"
  by (simp add: has_error_def preview_item_def)

lemma honest_preview_item:
  "honest (preview_item b c x y) \<longleftrightarrow>
     (if c then (unmarked x \<and> \<not> untoned x) \<or> (unmarked y \<and> \<not> untoned y) else x = y \<and> untoned x)"
  unfolding honest_def by (simp add: loud_def quiet_def) (simp add: preview_item_def)

section \<open>The previews of the bulk operations\<close>

text \<open>No text the previews show starts a marker.\<close>

lemma unmarked_text:
  assumes "\<not> is_space c" and "c \<noteq> CHR ''[''"
  shows "section_marker \<lparr>line_text = c # s, tone = t\<rparr> = None"
proof -
  have "hd (trim (c # s)) = c"
  proof -
    have "trim (c # s) = rev (dropWhile is_space (rev s @ [c]))" using assms(1) by (simp add: trim_def)
    also have "dropWhile is_space (rev s @ [c]) = dropWhile is_space (rev s) @ [c]"
      using assms(1) by (induction "rev s") (auto simp: dropWhile_append)
    finally show ?thesis by simp
  qed
  then show ?thesis using assms(2) by (simp add: section_marker_def Let_def)
qed

lemma unmarked_line:
  assumes "s \<noteq> []" and "\<not> is_space (hd s)" and "hd s \<noteq> CHR ''[''"
  shows "section_marker (toned_line tn on s) = None" and "section_marker (plain_line s) = None"
  using unmarked_text [OF assms(2,3)] assms(1) by (cases s; simp add: toned_line_def plain_line_def)+

lemma stringify2_object: "hd (stringify2 h i (JObj r)) = CHR ''{''" "stringify2 h i (JObj r) \<noteq> []"
  by simp_all

lemma tone_lines [simp]:
  "tone (plain_line s) = None" "tone (toned_line tn on s) = (if on then Some tn else None)"
  "toned_line tn False s = plain_line s"
  by (simp_all add: plain_line_def toned_line_def)

context rule_merge
begin

lemma changes_in_range:
  "merge_all h find_match only xs (rules, cs) = (rules', cs') \<Longrightarrow>
     list_all (\<lambda>c. (rc_action c = Replace \<or> rc_action c = Add) \<and> rc_index c < length rules) cs \<Longrightarrow>
     list_all (\<lambda>c. (rc_action c = Replace \<or> rc_action c = Add) \<and> rc_index c < length rules') cs'"
proof (induction xs arbitrary: rules cs)
  case (Cons x xs)
  obtain r1 c1 where st: "merge_found h find_match only x (rules, cs) = (r1, c1)" by fastforce
  have "list_all (\<lambda>c. (rc_action c = Replace \<or> rc_action c = Add) \<and> rc_index c < length r1) c1"
    using step_cases [of only x rules cs] Cons.prems(2) st
    by cases (auto simp: list_all_iff)
  with Cons.IH [of r1 c1] Cons.prems(1) st show ?case by simp
qed auto

end

lemma untoned_rule_lines:
  "untoned (rule_lines fmt none tn marked rules) \<longleftrightarrow> (\<forall>i < length rules. \<not> marked i)"
  by (auto simp: rule_lines_def untoned_def list_all_length nth_enumerate_eq)

lemma unmarked_rule_lines:
  assumes "none \<noteq> []" "\<not> is_space (hd none)" "hd none \<noteq> CHR ''[''"
    and "\<And>r. fmt r \<noteq> [] \<and> hd (fmt r) = CHR ''{''"
  shows "unmarked (rule_lines fmt none tn marked rules)"
proof -
  have "\<not> is_space (CHR ''{'')" by (simp add: is_space_def)
  then show ?thesis
    using assms by (auto simp: rule_lines_def list_all_iff unmarked_line)
qed

lemma rule_lines_unmarked_eq:
  "(\<forall>i < length rules. \<not> m i) \<Longrightarrow> (\<forall>i < length rules. \<not> m' i) \<Longrightarrow>
     rule_lines fmt none tn m rules = rule_lines fmt none tn' m' rules"
  by (auto simp: rule_lines_def in_set_enumerate_eq)

definition braced :: "(jrec \<Rightarrow> string) \<Rightarrow> string \<Rightarrow> bool" where
  "braced fmt none \<longleftrightarrow> none \<noteq> [] \<and> \<not> is_space (hd none) \<and> hd none \<noteq> CHR ''['' \<and> (\<forall>r. fmt r \<noteq> [] \<and> hd (fmt r) = CHR ''{'')"

lemma honest_merge_item:
  assumes "braced fmt none" and "changes = [] \<longrightarrow> nxt = existing"
    and "list_all (\<lambda>c. (rc_action c = Replace \<or> rc_action c = Add) \<and> rc_index c < length nxt) changes"
  shows "honest (merge_item fmt none b existing (nxt, changes))"
proof (cases "changes = []")
  case True
  with assms(2) show ?thesis
    by (simp add: merge_item_def honest_preview_item untoned_rule_lines replaced_at_def touched_at_def
        rule_lines_unmarked_eq cong: if_cong)
next
  case False
  then obtain c cs where "changes = c # cs" by (cases changes) auto
  with assms(3) have "\<exists>i < length nxt. touched_at changes i" by (auto simp: touched_at_def)
  then show ?thesis
    using assms(1) False unmarked_rule_lines [of none fmt Added "touched_at changes" nxt]
    by (auto simp: merge_item_def honest_preview_item untoned_rule_lines braced_def)
qed

lemma enumerate_empty: "enumerate n xs = [] \<longleftrightarrow> xs = []"
  by (cases xs) auto

lemma rule_lines_plain:
  "(\<forall>i < length rules. \<not> marked i) \<Longrightarrow> rule_lines fmt none tn marked rules =
     (if rules = [] then [plain_line none] else map (\<lambda>r. plain_line (fmt r)) rules)"
  by (auto simp: rule_lines_def nth_enumerate_eq intro!: nth_equalityI)

lemma honest_delete_item:
  assumes "braced fmt none"
  shows "honest (delete_item fmt none b removed existing)"
proof -
  let ?gone = "map fst (filter (\<lambda>(i, r). removed r) (enumerate 0 existing))"
  have gone: "i \<in> set ?gone \<longleftrightarrow> i < length existing \<and> removed (existing ! i)" for i
    by (force simp: in_set_enumerate_eq)
  show ?thesis
  proof (cases "?gone = []")
    case True
    then have "map snd (filter (\<lambda>(i, r). i \<notin> set ?gone) (enumerate 0 existing)) = existing" by simp
    with True show ?thesis
      by (simp add: delete_item_def honest_preview_item Let_def rule_lines_plain untoned_def list_all_iff enumerate_empty)
  next
    case False
    then obtain i where "i \<in> set ?gone" by (metis hd_in_set)
    then have "\<not> untoned (rule_lines fmt none Removed (\<lambda>i. i \<in> set ?gone) existing)"
      unfolding untoned_rule_lines using gone by blast
    then show ?thesis
      using assms False unmarked_rule_lines [of none fmt Removed "\<lambda>i. i \<in> set ?gone" existing]
      by (simp add: delete_item_def honest_preview_item Let_def braced_def)
  qed
qed

lemma braced_formats:
  "braced (formatLifecycleRule h) ''(no rules)''" "braced (formatCorsRule h) ''(no rules)''"
  "braced (formatPolicyRule h) ''(no statements)''"
  by (simp_all add: braced_def is_space_def formatLifecycleRule_def formatCorsRule_def formatPolicyRule_def)

lemma honest_merges:
  "honest (merge_item (formatLifecycleRule h) ''(no rules)'' b ex (mergeLifecycleRules h only ex inc))"
  "honest (merge_item (formatCorsRule h) ''(no rules)'' b ex (mergeCorsRules h only ex inc))"
  "honest (merge_item (formatPolicyRule h) ''(no statements)'' b ex (mergePolicyStatements h only ex inc))"
proof -
  obtain n c where m: "mergeLifecycleRules h only ex inc = (n, c)" by fastforce
  show "honest (merge_item (formatLifecycleRule h) ''(no rules)'' b ex (mergeLifecycleRules h only ex inc))"
    unfolding m using m lifecycle.changes_in_range [of h only inc ex "[]" n c] lifecycle.unchanged_iff [of h only inc ex n]
    by (intro honest_merge_item braced_formats) (auto simp: merge_folds)
next
  obtain n c where m: "mergeCorsRules h only ex inc = (n, c)" by fastforce
  show "honest (merge_item (formatCorsRule h) ''(no rules)'' b ex (mergeCorsRules h only ex inc))"
    unfolding m using m cors.changes_in_range [of h only inc ex "[]" n c] cors.unchanged_iff [of h only inc ex n]
    by (intro honest_merge_item braced_formats) (auto simp: merge_folds)
next
  obtain n c where m: "mergePolicyStatements h only ex inc = (n, c)" by fastforce
  show "honest (merge_item (formatPolicyRule h) ''(no statements)'' b ex (mergePolicyStatements h only ex inc))"
    unfolding m using m policy.changes_in_range [of h only inc ex "[]" n c] policy.unchanged_iff [of h only inc ex n]
    by (intro honest_merge_item braced_formats) (auto simp: merge_folds)
qed

lemma honest_quota:
  assumes "buildQuotaPreview h fetch skip (Some q) b s = (Inr item, t)" and "\<not> skip"
  shows "honest item"
  using assms
  by (auto simp: buildQuotaPreview_def io_bind_Inr Let_def honest_preview_item untoned_def
      unmarked_line is_space_def)

lemma honest_versioning:
  assumes "buildVersioningPreview api d b s = (Inr item, t)"
  shows "honest item"
  using assms
  by (auto simp: buildVersioningPreview_def io_bind_Inr Let_def honest_preview_item untoned_def
      unmarked_line is_space_def)

lemma honest_public_access_block:
  assumes "buildPublicAccessBlockPreview api d ts b s = (Inr item, t)"
  shows "honest item"
proof -
  from assms obtain current target where item: "item = preview_item b (\<not> isPublicAccessBlockEquivalent current target)
      (toned_line Removed (\<not> isPublicAccessBlockEquivalent current target) (''State: '' @ formatPublicAccessBlockState current)
        # map (\<lambda>(key, label). toned_line Removed (pab_get key current \<noteq> pab_get key target)
             (label @ '': '' @ formatPublicAccessBlockFlag (pab_get key current))) PUBLIC_ACCESS_BLOCK_OPTIONS)
      (toned_line Added (\<not> isPublicAccessBlockEquivalent current target) (''State: '' @ formatPublicAccessBlockState target)
        # map (\<lambda>(key, label). toned_line Added (pab_get key current \<noteq> pab_get key target)
             (label @ '': '' @ formatPublicAccessBlockFlag (pab_get key target))) PUBLIC_ACCESS_BLOCK_OPTIONS)"
    by (auto simp: buildPublicAccessBlockPreview_def io_bind_Inr Let_def)
  have "isPublicAccessBlockEquivalent current target \<Longrightarrow> formatPublicAccessBlockState current = formatPublicAccessBlockState target"
    by (simp add: isPublicAccessBlockEquivalent_def formatPublicAccessBlockState_def)
  then show ?thesis unfolding item
    by (auto simp: honest_preview_item untoned_def PUBLIC_ACCESS_BLOCK_OPTIONS_def pab_equivalent
        unmarked_line is_space_def)
qed

lemma kept_notifications:
  assumes "deleteNotificationConfigurations h ex ids types = (kept, [])"
  shows "kept = normalizeNotificationConfigurationForBulk ex"
proof -
  have all: "kept_entries h ids types ex t = object_entries ex t" if "t \<noteq> Eventbridge" for t
  proof -
    have "removed_changes h ids types ex t = []"
      using assms array_type [OF that] by (auto simp: deleteNotificationConfigurations_assemble)
    then have none: "\<forall>x \<in> set (enumerate 0 (object_entries ex t)). \<not> notification_removed h ids types t (snd x)"
      by (auto simp: removed_changes_def filter_empty_conv)
    have "\<not> notification_removed h ids types t e" if "e \<in> set (object_entries ex t)" for e
    proof -
      from that obtain i where "i < length (object_entries ex t)" "object_entries ex t ! i = e"
        by (auto simp: in_set_conv_nth)
      then have "(i, e) \<in> set (enumerate 0 (object_entries ex t))" by (simp add: in_set_enumerate_eq)
      with none show ?thesis by fastforce
    qed
    then show ?thesis by (simp add: kept_entries_def)
  qed
  have "eventbridge_of ex = (if Eventbridge \<in> set types then None else eventbridge_of ex)"
    using assms by (auto simp: deleteNotificationConfigurations_assemble split: option.splits)
  with assms all show ?thesis
    by (auto simp: deleteNotificationConfigurations_assemble normalize_assemble intro!: assemble_cong)
qed

lemma merged_notifications:
  assumes "mergeNotificationConfigurations h ex inc = (merged, [])" and "eventbridge_of inc = None"
  shows "merged = normalizeNotificationConfigurationForBulk ex"
proof -
  have all: "fst (merged_entries h ex inc t) = object_entries ex t" if "t \<noteq> Eventbridge" for t
  proof -
    obtain rules cs where m: "merged_entries h ex inc t = (rules, cs)" by fastforce
    with assms(1) array_type [OF that] have "cs = []" by (auto simp: mergeNotificationConfigurations_assemble)
    with m show ?thesis using notification.unchanged_iff [of h False "object_entries inc t" "object_entries ex t" rules]
      by (simp add: merged_entries_def)
  qed
  with assms show ?thesis
    by (auto simp: mergeNotificationConfigurations_assemble normalize_assemble intro!: assemble_cong)
qed

lemma normalize_again:
  "normalizeNotificationConfigurationForBulk (JObj (normalizeNotificationConfigurationForBulk v))
     = normalizeNotificationConfigurationForBulk v"
  unfolding normalize_assemble [of v]
  by (rule normalize_assembled) (use eventbridge_of_object [of v] in \<open>cases "eventbridge_of v"; auto\<close>)

lemma unmarked_configuration:
  "section_marker (toned_line tn on (formatNotificationConfiguration h v)) = None"
  by (rule unmarked_line) (auto simp: formatNotificationConfiguration_def is_space_def Let_def)

lemma honest_notifications:
  assumes "buildNotificationsPreview h api opts b deleting s = (Inr item, t)"
    and "\<not> deleting \<Longrightarrow> eventbridge_of (JObj (case parsedNotificationConfiguration (opt_prepared opts) of None \<Rightarrow> [] | Some c \<Rightarrow> c)) = None"
  shows "honest item"
proof -
  let ?p = "opt_prepared opts"
  let ?res = "\<lambda>current. if deleting
     then deleteNotificationConfigurations h (JObj current)
       (case deleteNotificationIds ?p of None \<Rightarrow> [] | Some is \<Rightarrow> is)
       (case deleteNotificationTypes ?p of None \<Rightarrow> [] | Some ts \<Rightarrow> ts)
     else mergeNotificationConfigurations h (JObj current)
       (JObj (case parsedNotificationConfiguration ?p of None \<Rightarrow> [] | Some c \<Rightarrow> c))"
  from assms(1) obtain current where item: "item = preview_item b (snd (?res current) \<noteq> [])
       [toned_line Removed (snd (?res current) \<noteq> []) (formatNotificationConfiguration h (JObj current))]
       [toned_line Added (snd (?res current) \<noteq> []) (formatNotificationConfiguration h (JObj (fst (?res current))))]"
    by (auto simp: buildNotificationsPreview_def io_bind_Inr Let_def)
  have "formatNotificationConfiguration h (JObj (fst (?res current))) = formatNotificationConfiguration h (JObj current)"
    if "snd (?res current) = []"
  proof -
    obtain nxt cs where "?res current = (nxt, cs)" by fastforce
    with that have res: "?res current = (nxt, [])" by simp
    then have "nxt = normalizeNotificationConfigurationForBulk (JObj current)"
      using assms(2) by (cases deleting) (auto dest: kept_notifications merged_notifications)
    then show ?thesis by (simp add: res formatNotificationConfiguration_def normalize_again)
  qed
  then show ?thesis unfolding item
    by (auto simp: honest_preview_item untoned_def unmarked_configuration)
qed

section \<open>What is shown is what is announced\<close>

text \<open>The previews whose shown sections can differ although nothing is announced.\<close>

definition may_differ :: "bulk_options \<Rightarrow> bool" where
  "may_differ opts \<longleftrightarrow> (opt_operation opts = SetQuota \<and> opt_quotaSkipConfigured opts)
     \<or> (opt_operation opts = AddNotifications
        \<and> Option.bind (parsedNotificationConfiguration (opt_prepared opts)) (\<lambda>c. eventbridge_of (JObj c)) \<noteq> None)"

lemma honest_rules:
  "buildRuleMergePreview h api opts b k s = (Inr item, t) \<Longrightarrow> honest item"
  "buildRuleDeletePreview h api opts b k s = (Inr item, t) \<Longrightarrow> honest item"
  "buildPolicyMergePreview h api opts b s = (Inr item, t) \<Longrightarrow> honest item"
  "buildPolicyDeletePreview h api opts b s = (Inr item, t) \<Longrightarrow> honest item"
  by (auto simp: buildRuleMergePreview_def buildRuleDeletePreview_def buildPolicyMergePreview_def
      buildPolicyDeletePreview_def io_bind_Inr Let_def honest_merges honest_delete_item braced_formats split: rule_kind.splits)

lemma loud_announced:
  assumes "buildQuotaPreview h fetch skip (Some q) b s = (Inr item, t)" and "changed item"
  shows "honest item"
  using assms
  by (auto simp: buildQuotaPreview_def io_bind_Inr Let_def honest_preview_item untoned_def
      unmarked_line is_space_def split: if_splits)

lemma loud_notifications:
  assumes "buildNotificationsPreview h api opts b deleting s = (Inr item, t)" and "changed item"
  shows "honest item"
  using assms
  by (auto simp: buildNotificationsPreview_def io_bind_Inr Let_def honest_preview_item untoned_def unmarked_configuration)

lemma preview_honest:
  assumes "prepareBucketOpsBulkInput h input = Inr (opt_prepared opts)" and "opt_operation opts = in_operation input"
    and "preview_bucket h api fetch opts b s = (Inr item, t)" and "changed item \<or> \<not> may_differ opts"
  shows "honest item"
proof (cases "in_operation input")
  case SetQuota
  with prepared_fields(1) [OF assms(1)] obtain q where "parsedQuota (opt_prepared opts) = Some q" by auto
  with SetQuota assms(2-4) show ?thesis
    using honest_quota [of h fetch "opt_quotaSkipConfigured opts" q b s item t]
      loud_announced [of h fetch "opt_quotaSkipConfigured opts" q b s item t]
    by (auto simp: preview_bucket_def may_differ_def)
next
  case AddNotifications
  with prepared_fields(6) [OF assms(1)] obtain c where "parsedNotificationConfiguration (opt_prepared opts) = Some c" by auto
  with AddNotifications assms(2-4) show ?thesis
    using honest_notifications [of h api opts b False s item t] loud_notifications [of h api opts b False s item t]
    by (auto simp: preview_bucket_def may_differ_def)
qed (use assms(2,3) in \<open>auto simp: preview_bucket_def honest_preview_item untoned_def
     intro: honest_rules honest_versioning honest_public_access_block honest_notifications\<close>)

text \<open>
  C23. A preview of a bulk operation on a validated input that announces a change shows a changed section,
  and apart from a preserved quota and an EventBridge entry that is written again, one that announces no
  change shows none.
\<close>

theorem preview_changes_shown:
  assumes "prepareBucketOpsBulkInput h input = Inr (opt_prepared opts)" and "opt_operation opts = in_operation input"
    and "preview_bucket h api fetch opts b s = (Inr item, t)"
  shows "(changed item \<longrightarrow> list_ex ps_changed (buildBulkPreviewSections item operation))
    \<and> (\<not> may_differ opts \<longrightarrow> list_ex ps_changed (buildBulkPreviewSections item operation) = changed item)"
  using honest_sections [OF preview_honest [OF assms]] by blast

theorem preview_changes_shown_witness:
  "map_prod id (list_ex ps_changed) (case preview_bucket plain_host sample_api sample_fetch
      (sample_options DisableVersioning emptyPreparedInput) ''data'' sample_state of
      (Inr i, _) \<Rightarrow> (changed i, buildBulkPreviewSections i DisableVersioning)) = (True, True)"
proof -
  let ?o = "sample_options DisableVersioning emptyPreparedInput"
  let ?run = "preview_bucket plain_host sample_api sample_fetch ?o ''data'' sample_state"
  have p: "prepareBucketOpsBulkInput plain_host (sample_input DisableVersioning) = Inr (opt_prepared ?o)"
    by (simp add: prepareBucketOpsBulkInput_def sample_input_def buildBucketOpsBulkInput_def sample_options_def)
  have o: "opt_operation ?o = in_operation (sample_input DisableVersioning)"
    by (simp add: sample_input_def buildBucketOpsBulkInput_def sample_options_def)
  have c: "case ?run of (Inr i, _) \<Rightarrow> changed i | _ \<Rightarrow> False" by code_simp
  then obtain i t where r: "?run = (Inr i, t)" "changed i" by (auto split: prod.splits sum.splits)
  with preview_changes_shown [OF p o r(1), of DisableVersioning] show ?thesis by simp
qed

text \<open>
  C39. A quota that is kept because the bucket has one is announced as no change, but its section is shown as
  changed: the note on the preserved quota stands on one side only.
\<close>

theorem preserved_quota_shown_changed:
  assumes "fetch b s = (Inr current, t)" and "hasConfiguredQuota current"
  shows "\<exists>item. buildQuotaPreview h fetch True (Some q) b s = (Inr item, t)
    \<and> \<not> changed item \<and> list_ex ps_changed (buildBulkPreviewSections item SetQuota)"
proof -
  let ?size = "''Size: '' @ quota_size_text h (maxSizeBytes current)"
    and ?objs = "''Objects: '' @ quota_objects_text h (maxObjects current)"
  let ?bef = "[plain_line ?size, plain_line ?objs]"
  let ?aft = "?bef @ [plain_line ''(existing quota preserved)'']"
  let ?item = "preview_item b False ?bef ?aft"
  have run: "buildQuotaPreview h fetch True (Some q) b s = (Inr ?item, t)"
    using assms by (simp add: buildQuotaPreview_def Let_def)
  have "unmarked ?bef" "unmarked ?aft" by (simp_all add: unmarked_line is_space_def)
  then have "splitPreviewLinesBySection ?bef ''Quota'' = [(''Quota'', ?bef)]"
    "splitPreviewLinesBySection ?aft ''Quota'' = [(''Quota'', ?aft)]"
    unfolding split_unmarked [OF \<open>unmarked ?bef\<close>] split_unmarked [OF \<open>unmarked ?aft\<close>] by (simp_all add: or_dash_def)
  moreover have "length (serializePreviewLines ?bef) < length (serializePreviewLines ?aft)"
    by (simp add: serializePreviewLines_def)
  then have "serializePreviewLines ?bef \<noteq> serializePreviewLines ?aft" by (metis less_irrefl)
  ultimately have "list_ex ps_changed (buildBulkPreviewSections ?item SetQuota)"
    by (simp add: buildBulkPreviewSections_def preview_item_def sectionLabelForOperation_def has_error_def
        paired_section_def lines_of_label_def Let_def)
  with run show ?thesis by auto
qed

theorem preserved_quota_shown_changed_witness:
  "\<exists>item. buildQuotaPreview plain_host (\<lambda>b. io_return \<lparr>maxSizeBytes = Some 5, maxObjects = None\<rparr>) True
       (Some \<lparr>applySize = True, applyObjects = False, maxSizeValue = Some 1, maxSizeUnit = GiB, quota_maxSizeBytes = Some 1073741824,
          quota_maxObjects = None\<rparr>) ''a'' () = (Inr item, ())
    \<and> \<not> changed item \<and> list_ex ps_changed (buildBulkPreviewSections item SetQuota)"
  by (rule preserved_quota_shown_changed [where current = "\<lparr>maxSizeBytes = Some 5, maxObjects = None\<rparr>"])
    (simp_all add: hasConfiguredQuota_def)

end
