(* ===== verification/Paste_Sections.thy ===== *)
theory Paste_Sections
  imports Preview_Sections Paste_Properties
begin

text \<open>
  The sections of a paste's preview as \<open>bucketBulkPreviewModel.ts\<close> shows them: the lines that
  \<open>bucketOpsConfigPastePreview.ts\<close> writes under its headings come back under the same headings.
\<close>

section \<open>Sections that are read back\<close>

definition PASTE_LABELS :: "string list" where
  "PASTE_LABELS = [''Quota'', ''Versioning'', ''Object Lock'', ''Block Public Access'', ''Lifecycle'', ''CORS'',
     ''Bucket Policy'', ''Access logging'']"

text \<open>A section with its label and lines on both sides, none of them a marker, and a tone when it changes.\<close>

definition clear_section :: "string \<Rightarrow> paste_section \<Rightarrow> bool" where
  "clear_section l x \<longleftrightarrow> sec_label x = l \<and> sec_before x \<noteq> [] \<and> sec_after x \<noteq> []
     \<and> unmarked (sec_before x) \<and> unmarked (sec_after x)
     \<and> (sec_changed x \<longrightarrow> \<not> untoned (sec_before x) \<or> \<not> untoned (sec_after x))"

definition gives_clear :: "('s, paste_section option) io \<Rightarrow> string \<Rightarrow> bool" where
  "gives_clear m l \<longleftrightarrow> (\<forall>s x t. m s = (Inr (Some x), t) \<longrightarrow> clear_section l x)"

lemma gather_clear:
  assumes "list_all2 gives_clear ms ls" and "gather_sections ms s = (Inr secs, t)"
  shows "set (map sec_label secs) \<subseteq> set ls \<and> (distinct ls \<longrightarrow> distinct (map sec_label secs))
    \<and> list_all (\<lambda>x. clear_section (sec_label x) x) secs"
  using assms
proof (induction ms ls arbitrary: s t secs rule: list_all2_induct)
  case (Cons m ms l ls)
  from Cons.prems obtain r u rs where r: "m s = (Inr r, u)" "gather_sections ms u = (Inr rs, t)"
    "secs = (case r of None \<Rightarrow> [] | Some x \<Rightarrow> [x]) @ rs"
    by (auto simp: io_bind_Inr)
  have "clear_section l x" if "r = Some x" for x
    using Cons.hyps(1) r(1) that by (auto simp: gives_clear_def)
  moreover have "sec_label x = l" if "clear_section l x" for x using that by (simp add: clear_section_def)
  ultimately show ?case
    using Cons.IH [OF r(2)] r(3) by (cases r) auto
qed simp

lemma clear_text_section:
  assumes "bef \<noteq> []" "aft \<noteq> []" and "list_all (\<lambda>s. section_marker (plain_line s) = None) (bef @ aft)"
  shows "clear_section l (text_section l ch bef aft)"
proof -
  have "section_marker (toned_line tn ch s) = section_marker (plain_line s)" for tn s
    by (simp add: section_marker_def toned_line_def plain_line_def)
  then show ?thesis
    using assms by (cases bef) (auto simp: clear_section_def text_section_def list_all_iff untoned_def)
qed

lemma clear_rules_section:
  assumes "\<And>r. fmt r \<noteq> [] \<and> hd (fmt r) = CHR ''{''"
  shows "clear_section l (rules_section h l fmt current copied)"
proof -
  have "section_marker (toned_line tn on (fmt r)) = None" "section_marker (plain_line (fmt r)) = None" for tn on r
    using assms by (auto intro!: unmarked_line simp: is_space_def)
  moreover have "section_marker (plain_line ''(no rules)'') = None" by (rule unmarked_line) (simp_all add: is_space_def)
  moreover have "current \<noteq> [] \<or> copied \<noteq> []"
    if "stableStringify h (rules_value current) \<noteq> stableStringify h (rules_value copied)"
    using that by auto
  ultimately show ?thesis
    by (auto simp: clear_section_def rules_section_def list_all_iff untoned_def neq_Nil_conv Let_def)
qed

lemma gives_clear_with:
  assumes "\<And>x s r t. body x s = (Inr r, t) \<Longrightarrow> clear_section l r"
  shows "gives_clear (with_section on part body) l"
  using assms by (auto simp: gives_clear_def with_section_def io_bind_Inr split: option.splits if_splits)

lemma plain_texts:
  "section_marker (plain_line (stringify2 h [] (JObj r))) = None"
  "section_marker (plain_line (policy_text h p)) = None"
  "section_marker (plain_line (formatObjectLockSnapshot h l)) = None"
  "section_marker (plain_line (stringify2 h [] (public_access_block_json b))) = None"
  "section_marker (plain_line (stringify2 h [] (logging_snapshot_json a))) = None"
proof -
  show obj: "section_marker (plain_line (stringify2 h [] (JObj r))) = None" for r
    by (rule unmarked_line) (simp_all add: is_space_def)
  show "section_marker (plain_line (policy_text h p)) = None"
    using obj unmarked_line [of "''(no policy)''"] by (auto simp: policy_text_def is_space_def split: option.split)
  show "section_marker (plain_line (formatObjectLockSnapshot h l)) = None"
    "section_marker (plain_line (stringify2 h [] (public_access_block_json b))) = None"
    "section_marker (plain_line (stringify2 h [] (logging_snapshot_json a))) = None"
    by (simp_all only: formatObjectLockSnapshot_def object_lock_json_def public_access_block_json_def logging_snapshot_json_def obj)
qed

lemma paste_gives_clear:
  assumes "section_marker (plain_line (formatVersioningStatus (Option.bind properties versioning_status))) = None"
  shows "list_all2 gives_clear [preview_quota h fetchQuota so fs source b,
      preview_versioning fs source properties, preview_object_lock h fs source properties,
      preview_public_access_block h api fs source b, preview_lifecycle h api fs source b,
      preview_cors h api fs source b, preview_policy h api fs source b, preview_access_logging h api fs source b] PASTE_LABELS"
proof -
  have enabled: "section_marker (plain_line ''Enabled'') = None" "section_marker (plain_line ''Suspended'') = None"
    by (simp_all add: unmarked_line is_space_def)
  have formats: "formatLifecycleRule h r \<noteq> [] \<and> hd (formatLifecycleRule h r) = CHR ''{''"
    "formatCorsRule h r \<noteq> [] \<and> hd (formatCorsRule h r) = CHR ''{''" for r
    using braced_formats [of h] by (simp_all add: braced_def)
  have "section_marker (plain_line (''Size: '' @ s)) = None" "section_marker (plain_line (''Objects: '' @ s)) = None" for s
    by (simp_all add: unmarked_line is_space_def)
  with assms enabled show ?thesis
    unfolding PASTE_LABELS_def list_all2_Cons
    by (intro conjI list_all2_Nil [THEN iffD2] refl;
        simp only: preview_quota_def preview_versioning_def preview_object_lock_def preview_public_access_block_def
          preview_lifecycle_def preview_cors_def preview_policy_def preview_access_logging_def;
        intro gives_clear_with;
        auto simp: io_bind_Inr Let_def plain_texts formats simp del: append_Cons
          intro!: clear_text_section clear_rules_section)
qed

section \<open>Cutting the lines of a paste\<close>

lemma paste_labels:
  "l \<in> set PASTE_LABELS \<Longrightarrow> section_marker (plain_line (''['' @ l @ '']'')) = Some l \<and> trim l = l \<and> l \<noteq> []"
  "distinct (map label_key (''Overview'' # PASTE_LABELS))"
proof -
  have "list_all (\<lambda>l. section_marker (plain_line (''['' @ l @ '']'')) = Some l \<and> trim l = l \<and> l \<noteq> []) PASTE_LABELS"
    by code_simp
  then show "l \<in> set PASTE_LABELS \<Longrightarrow> section_marker (plain_line (''['' @ l @ '']'')) = Some l \<and> trim l = l \<and> l \<noteq> []"
    by (simp add: list_all_iff)
  show "distinct (map label_key (''Overview'' # PASTE_LABELS))" by code_simp
qed

lemma distinct_keys_subset: "distinct (map k ys) \<Longrightarrow> set xs \<subseteq> set ys \<Longrightarrow> distinct xs \<Longrightarrow> distinct (map k xs)"
  by (auto simp: distinct_map intro: inj_on_subset)

lemma fold_headed:
  assumes "list_all (\<lambda>x. sec_label x \<in> set PASTE_LABELS \<and> unmarked (lines x) \<and> lines x \<noteq> []) secs" and "ls \<noteq> []"
  shows "fst (flush_section (fold (split_line f) (concat (map (\<lambda>x. plain_line (''['' @ sec_label x @ '']'') # lines x) secs)) (done, l, ls)))
    = done @ (l, ls) # map (\<lambda>x. (sec_label x, lines x)) secs"
  using assms
proof (induction secs arbitrary: "done" l ls)
  case Nil
  then show ?case by (simp add: flush_section_def)
next
  case (Cons x secs)
  have m: "section_marker (plain_line (CHR ''['' # sec_label x @ '']'')) = Some (sec_label x)" "trim (sec_label x) = sec_label x" "sec_label x \<noteq> []"
    using Cons.prems(1) paste_labels(1) [of "sec_label x"] by auto
  then have "split_line f (plain_line (CHR ''['' # sec_label x @ '']'')) (done, l, ls) = (done @ [(l, ls)], sec_label x, [])"
    using Cons.prems(2) by (simp add: split_line_def flush_section_def)
  then show ?case
    using Cons.IH [of "lines x" "done @ [(l, ls)]" "sec_label x"] Cons.prems by (simp add: fold_unmarked)
qed

lemma split_paste_lines:
  assumes "list_all (\<lambda>x. sec_label x \<in> set PASTE_LABELS \<and> unmarked (lines x) \<and> lines x \<noteq> []) secs"
  shows "splitPreviewLinesBySection (section_lines source lines secs) f
      = (f, [plain_line (''Source bucket: '' @ source)]) # map (\<lambda>x. (sec_label x, lines x)) secs"
    and "filter (\<lambda>l. section_marker l = None) (section_lines source lines secs)
      = plain_line (''Source bucket: '' @ source) # concat (map lines secs)"
proof -
  have m: "section_marker (plain_line (''Source bucket: '' @ source)) = None"
    by (simp add: unmarked_line is_space_def)
  then have "split_line f (plain_line (''Source bucket: '' @ source)) ([], f, []) = ([], f, [plain_line (''Source bucket: '' @ source)])"
    by (simp add: split_line_def)
  then show "splitPreviewLinesBySection (section_lines source lines secs) f
      = (f, [plain_line (''Source bucket: '' @ source)]) # map (\<lambda>x. (sec_label x, lines x)) secs"
    using fold_headed [OF assms, of "[plain_line (''Source bucket: '' @ source)]" f "[]" f]
    by (simp add: splitPreviewLinesBySection_def section_lines_def Let_def)
  have "filter (\<lambda>l. section_marker l = None) (concat (map (\<lambda>x. plain_line (''['' @ sec_label x @ '']'') # lines x) secs))
      = concat (map lines secs)"
    using assms
  proof (induction secs)
    case (Cons x secs)
    then have "filter (\<lambda>l. section_marker l = None) (lines x) = lines x" by (simp add: list_all_iff)
    with Cons show ?case using paste_labels(1) [of "sec_label x"] by simp
  qed simp
  with m show "filter (\<lambda>l. section_marker l = None) (section_lines source lines secs)
      = plain_line (''Source bucket: '' @ source) # concat (map lines secs)"
    by (simp add: section_lines_def)
qed

lemma first_by_append_seen:
  "k ` set ys \<subseteq> k ` set xs \<union> set seen \<Longrightarrow> first_by k seen (xs @ ys) = first_by k seen xs"
proof (induction xs arbitrary: seen)
  case Nil
  then show ?case by (induction ys) auto
next
  case (Cons x xs)
  have "first_by k (k x # seen) (xs @ ys) = first_by k (k x # seen) xs"
    using Cons.prems by (intro Cons.IH) auto
  moreover have "first_by k seen (xs @ ys) = first_by k seen xs" if "k x \<in> set seen"
    using Cons.prems that by (intro Cons.IH) auto
  ultimately show ?case by simp
qed

lemma lines_of_own_label:
  assumes "distinct (map (label_key \<circ> fst) secs)" and "(l, ls) \<in> set secs"
  shows "lines_of_label secs (label_key l) = ls"
  using assms by (induction secs) (force simp: lines_of_label_def)+

lemma matched_sections:
  assumes "map fst bs = map fst as" and "distinct (map (label_key \<circ> fst) bs)"
    and "list_all (\<lambda>(l, ls). ls \<noteq> []) bs" and "list_all (\<lambda>(l, ls). ls \<noteq> []) as"
  defines "view \<equiv> map (\<lambda>(i, label). paired_section bs as i label) (enumerate 0 (first_by label_key [] (map fst (bs @ as))))"
  shows "map ps_label view = map fst bs" and "map ps_before view = map snd bs" and "map ps_after view = map snd as"
    and "list_ex (\<lambda>(l, ls). \<not> untoned ls) bs \<or> list_ex (\<lambda>(l, ls). \<not> untoned ls) as \<Longrightarrow> list_ex ps_changed view"
proof -
  have keys: "distinct (map label_key (map fst bs))" using assms(2) by simp
  have "first_by label_key [] (map fst bs @ map fst as) = first_by label_key [] (map fst bs)"
    by (rule first_by_append_seen) (simp add: assms(1))
  also have "\<dots> = map fst bs" by (rule first_by_id [OF keys]) simp
  finally have labels: "first_by label_key [] (map fst (bs @ as)) = map fst bs" by simp
  have "length bs = length as" using assms(1) by (metis length_map)
  moreover have "length view = length bs" by (simp only: view_def labels length_map length_enumerate)
  ultimately have len: "length bs = length as" "length view = length bs" by simp_all
  have fst_eq: "fst (as ! i) = fst (bs ! i)" if "i < length bs" for i
    using assms(1) that len(1) by (metis nth_map)
  have keys': "distinct (map (label_key \<circ> fst) as)" using keys unfolding assms(1) by simp
  have at: "ps_label (view ! i) = fst (bs ! i) \<and> ps_before (view ! i) = snd (bs ! i) \<and> ps_after (view ! i) = snd (as ! i)
      \<and> (\<not> untoned (snd (bs ! i)) \<or> \<not> untoned (snd (as ! i)) \<longrightarrow> ps_changed (view ! i))" if i: "i < length bs" for i
  proof -
    have "(fst (bs ! i), snd (bs ! i)) \<in> set bs" "(fst (bs ! i), snd (as ! i)) \<in> set as"
      using i len(1) fst_eq [OF i] by (metis nth_mem prod.collapse)+
    then have "lines_of_label bs (label_key (fst (bs ! i))) = snd (bs ! i)" "lines_of_label as (label_key (fst (bs ! i))) = snd (as ! i)"
      "snd (bs ! i) \<noteq> []" "snd (as ! i) \<noteq> []"
      using lines_of_own_label assms(2-4) keys' by (auto simp: list_all_iff)
    moreover have "view ! i = paired_section bs as i (fst (bs ! i))"
      unfolding view_def labels using i by (simp add: nth_enumerate_eq)
    ultimately show ?thesis by (auto simp: paired_section_def or_dash_def hasChanged_untoned Let_def)
  qed
  show "map ps_label view = map fst bs" "map ps_before view = map snd bs" "map ps_after view = map snd as"
    using at len by (auto intro!: nth_equalityI)
  show "list_ex ps_changed view" if "list_ex (\<lambda>(l, ls). \<not> untoned ls) bs \<or> list_ex (\<lambda>(l, ls). \<not> untoned ls) as"
    using that at len by (fastforce simp: list_ex_length case_prod_unfold)
qed

section \<open>Properties\<close>

text \<open>
  C28. Every line of a paste's preview is shown, in its order and under the section it belongs to, the
  sections have different labels, and a preview that announces a change shows a changed section, as long
  as the versioning status the server returns is not a text in brackets.
\<close>

theorem paste_sections_shown:
  assumes run: "buildBucketConfigPastePreview h api fetch so (Some c) item s = (Inr i, t)"
    and status: "\<And>p u. getBucketProperties api (destinationBucket item) s = (Inr p, u) \<Longrightarrow>
      section_marker (plain_line (formatVersioningStatus (versioning_status p))) = None"
  defines "view \<equiv> buildBulkPreviewSections i PasteConfigs"
  shows "set (map ps_label view) \<subseteq> insert ''Overview'' (set PASTE_LABELS) \<and> distinct (map (label_key \<circ> ps_label) view)
    \<and> concat (map ps_before view) = filter (\<lambda>l. section_marker l = None) (before i)
    \<and> concat (map ps_after view) = filter (\<lambda>l. section_marker l = None) (after i)
    \<and> (changed i \<longrightarrow> list_ex ps_changed view)"
proof -
  let ?b = "destinationBucket item" and ?src = "sourceConfig item" and ?fs = "features c"
  obtain p u secs where props: "io_when (?fs FVersioning \<or> ?fs FObjectLock) (getBucketProperties api ?b) s = (Inr p, u)"
    and secs: "gather_sections [preview_quota h fetch so ?fs ?src ?b, preview_versioning ?fs ?src p, preview_object_lock h ?fs ?src p,
      preview_public_access_block h api ?fs ?src ?b, preview_lifecycle h api ?fs ?src ?b, preview_cors h api ?fs ?src ?b,
      preview_policy h api ?fs ?src ?b, preview_access_logging h api ?fs ?src ?b] u = (Inr secs, t)"
    and i: "i = preview_item ?b (list_ex sec_changed secs) (section_lines (sourceBucket item) sec_before secs)
        (section_lines (sourceBucket item) sec_after secs)"
    using run unfolding buildBucketConfigPastePreview_def
    by (auto simp: io_bind_Inr Let_def simp del: gather_sections.simps)
  have "section_marker (plain_line (formatVersioningStatus (Option.bind p versioning_status))) = None"
    using props status unmarked_line(2) [of "''Disabled''"]
    by (auto simp: io_when_def io_bind_Inr formatVersioningStatus_def is_space_def split: if_splits)
  moreover have "distinct PASTE_LABELS" by (simp add: PASTE_LABELS_def)
  ultimately have clear: "set (map sec_label secs) \<subseteq> set PASTE_LABELS" "distinct (map sec_label secs)"
    "list_all (\<lambda>x. clear_section (sec_label x) x) secs"
    using gather_clear [OF paste_gives_clear secs] by blast+
  let ?f = "''Overview''" and ?line = "plain_line (''Source bucket: '' @ sourceBucket item)"
  let ?bs = "(?f, [?line]) # map (\<lambda>x. (sec_label x, sec_before x)) secs"
    and ?as = "(?f, [?line]) # map (\<lambda>x. (sec_label x, sec_after x)) secs"
  have sides: "list_all (\<lambda>x. sec_label x \<in> set PASTE_LABELS \<and> unmarked (lines x) \<and> lines x \<noteq> []) secs"
    if "lines = sec_before \<or> lines = sec_after" for lines
    using that clear(1,3) by (auto simp: list_all_iff clear_section_def)
  have before_i: "before i = section_lines (sourceBucket item) sec_before secs"
    and after_i: "after i = section_lines (sourceBucket item) sec_after secs"
    and changed_i: "changed i = list_ex sec_changed secs" and "\<not> has_error i"
    unfolding i by (simp_all add: preview_item_def has_error_def)
  then have view: "view = map (\<lambda>(i, label). paired_section ?bs ?as i label) (enumerate 0 (first_by label_key [] (map fst (?bs @ ?as))))"
    unfolding view_def buildBulkPreviewSections_def
    by (simp add: split_paste_lines(1) sides sectionLabelForOperation_def Let_def)
  have "distinct (map label_key (?f # map sec_label secs))"
    using clear(1,2) by (intro distinct_keys_subset [OF paste_labels(2)]) (auto simp: PASTE_LABELS_def)
  then have keys: "distinct (map (label_key \<circ> fst) ?bs)" by (simp add: comp_def)
  have full: "list_all (\<lambda>(l, ls). ls \<noteq> []) ?bs" "list_all (\<lambda>(l, ls). ls \<noteq> []) ?as"
    using clear(3) by (auto simp: list_all_iff clear_section_def)
  have same: "map fst ?bs = map fst ?as" by (simp add: comp_def)
  note shown = matched_sections [OF same keys full, folded view]
  have "map (label_key \<circ> ps_label) view = map (label_key \<circ> fst) ?bs"
    using shown(1) by (metis (no_types) map_map)
  with keys have d: "distinct (map (label_key \<circ> ps_label) view)" by simp
  have l: "set (map ps_label view) \<subseteq> insert ?f (set PASTE_LABELS)"
    unfolding shown(1) using clear(1) by auto
  have tones: "list_ex ps_changed view" if ch: "changed i"
  proof -
    from ch obtain x where x: "x \<in> set secs" "sec_changed x" by (auto simp: changed_i list_ex_iff)
    with clear(3) have "\<not> untoned (sec_before x) \<or> \<not> untoned (sec_after x)"
      by (auto simp: list_all_iff clear_section_def)
    with x(1) have "list_ex (\<lambda>(l, ls). \<not> untoned ls) ?bs \<or> list_ex (\<lambda>(l, ls). \<not> untoned ls) ?as"
      by (auto simp: list_ex_iff)
    then show ?thesis by (rule shown(4))
  qed
  have "concat (map ps_before view) = filter (\<lambda>l. section_marker l = None) (before i)"
    "concat (map ps_after view) = filter (\<lambda>l. section_marker l = None) (after i)"
    unfolding shown(2,3) before_i after_i split_paste_lines(2) [OF sides [OF disjI1 [OF refl]]]
      split_paste_lines(2) [OF sides [OF disjI2 [OF refl]]] by (simp_all add: comp_def)
  with d l tones show ?thesis by blast
qed

definition versioning_item :: BulkPastePlanItem where
  "versioning_item = \<lparr>sourceBucket = ''data'', destinationBucket = ''logs'',
     sourceConfig = sample_source ''data''\<rparr>"

definition versioning_clip :: BulkConfigClipboard where
  "versioning_clip = \<lparr>copiedAt = ''2026-01-01'', sourceEndpointId = 11, sourceEndpointName = None,
     features = (\<lambda>k. k = FVersioning), buckets = [sourceConfig versioning_item]\<rparr>"

theorem paste_sections_shown_witness:
  "case buildBucketConfigPastePreview plain_host sample_api sample_fetch False (Some versioning_clip) versioning_item sample_state of
     (Inr i, _) \<Rightarrow> changed i \<and> list_ex ps_changed (buildBulkPreviewSections i PasteConfigs) | _ \<Rightarrow> False"
proof -
  let ?run = "buildBucketConfigPastePreview plain_host sample_api sample_fetch False (Some versioning_clip) versioning_item sample_state"
  have c: "case ?run of (Inr i, _) \<Rightarrow> changed i | _ \<Rightarrow> False" by code_simp
  then obtain i t where r: "?run = (Inr i, t)" "changed i" by (auto split: prod.splits sum.splits)
  have "case getBucketProperties sample_api (destinationBucket versioning_item) sample_state of (Inr p, _) \<Rightarrow>
     section_marker (plain_line (formatVersioningStatus (versioning_status p))) = None | _ \<Rightarrow> True" by code_simp
  then have "section_marker (plain_line (formatVersioningStatus (versioning_status p))) = None"
    if "getBucketProperties sample_api (destinationBucket versioning_item) sample_state = (Inr p, u)" for p u
    using that by simp
  from paste_sections_shown [OF r(1) this] r show ?thesis by simp
qed

end
