(* ===== verification/Listing_Transport.thy ===== *)
theory Listing_Transport
  imports Bucket_Api
begin

text \<open>
  How a listing of buckets is asked for: \<open>frontend/src/api/bucketListingTransport.ts\<close> with the query text and
  the request body, and the calls of \<open>api/cephAdminBuckets.ts\<close> and \<open>api/storageOps.ts\<close>, which send a short
  query with GET and a long one with POST. A reader of form texts is the reference for what the server sees.
\<close>

section \<open>Form texts\<close>

text \<open>\<open>URLSearchParams.toString()\<close>: the code units 128 to 255 are two bytes of UTF-8.\<close>

definition form_kept :: "char \<Rightarrow> bool" where
  "form_kept c = (let n = (of_char c :: nat) in
     (97 \<le> n \<and> n \<le> 122) \<or> (65 \<le> n \<and> n \<le> 90) \<or> (48 \<le> n \<and> n \<le> 57) \<or> n \<in> {42, 45, 46, 95})"

definition upper_hex :: "nat \<Rightarrow> char" where
  "upper_hex k = (if k < 10 then char_of (48 + k) else char_of (55 + k))"

definition percent_byte :: "nat \<Rightarrow> string" where
  "percent_byte n = [CHR ''%'', upper_hex (n div 16), upper_hex (n mod 16)]"

definition form_char :: "char \<Rightarrow> string" where
  "form_char c =
     (let n = (of_char c :: nat) in
      if n = 32 then ''+'' else if form_kept c then [c]
      else if n < 128 then percent_byte n
      else percent_byte (192 + n div 64) @ percent_byte (128 + n mod 64))"

definition form_encode :: "string \<Rightarrow> string" where
  "form_encode s = concat (map form_char s)"

definition form_text :: "params \<Rightarrow> string" where
  "form_text ps = join ''&'' (map (\<lambda>(k, v). form_encode k @ ''='' @ form_encode v) ps)"

section \<open>The parameters of a listing\<close>

text \<open>\<open>bl_sort_desc\<close> is \<open>sort_dir === "desc"\<close> and \<open>bl_tag_match_all\<close> is \<open>ui_tag_match === "all"\<close>.\<close>

record ListCephAdminBucketsParams =
  bl_page :: "nat option"
  bl_page_size :: "nat option"
  bl_filter :: "string option"
  bl_advanced_filter :: "string option"
  bl_sort_by :: "string option"
  bl_sort_desc :: "bool option"
  bl_include :: "string list option"
  bl_with_stats :: "bool option"
  bl_ui_tag_ids :: "nat list option"
  bl_tag_match_all :: "bool option"

definition BUCKET_LISTING_POST_QUERY_THRESHOLD :: nat where
  "BUCKET_LISTING_POST_QUERY_THRESHOLD = 4000"

definition filled :: "string option \<Rightarrow> string option" where
  "filled v = (case v of Some s \<Rightarrow> if length (trim s) > 0 then Some s else None | None \<Rightarrow> None)"

definition filled_list :: "'a list option \<Rightarrow> 'a list option" where
  "filled_list v = (case v of Some xs \<Rightarrow> if length xs > 0 then Some xs else None | None \<Rightarrow> None)"

definition entry :: "string \<Rightarrow> ('a \<Rightarrow> string) \<Rightarrow> 'a option \<Rightarrow> params" where
  "entry k f v = (case v of Some x \<Rightarrow> [(k, f x)] | None \<Rightarrow> [])"

definition sort_text :: "bool \<Rightarrow> string" where
  "sort_text desc = (if desc then ''desc'' else ''asc'')"

definition bool_text :: "bool \<Rightarrow> string" where
  "bool_text b = (if b then ''true'' else ''false'')"

definition match_text :: "bool \<Rightarrow> string" where
  "match_text matchAll = (if matchAll then ''all'' else ''any'')"

definition buildBucketListingQuery :: "ListCephAdminBucketsParams option \<Rightarrow> params" where
  "buildBucketListingQuery params = (case params of None \<Rightarrow> []
   | Some p \<Rightarrow>
       entry ''page'' nat_string (bl_page p) @ entry ''page_size'' nat_string (bl_page_size p)
       @ entry ''filter'' id (filled (bl_filter p)) @ entry ''advanced_filter'' id (filled (bl_advanced_filter p))
       @ entry ''sort_by'' id (filled (bl_sort_by p)) @ entry ''sort_dir'' sort_text (bl_sort_desc p)
       @ entry ''include'' (join '','') (filled_list (bl_include p)) @ entry ''with_stats'' bool_text (bl_with_stats p)
       @ (case bl_ui_tag_ids p of None \<Rightarrow> [] | Some ids \<Rightarrow> map (\<lambda>i. (''ui_tag_ids'', nat_string i)) ids)
       @ entry ''ui_tag_match'' match_text (bl_tag_match_all p))"

definition shouldUsePostBucketListing :: "ListCephAdminBucketsParams option \<Rightarrow> bool" where
  "shouldUsePostBucketListing params =
     (length (form_text (buildBucketListingQuery params)) > BUCKET_LISTING_POST_QUERY_THRESHOLD)"

definition buildBucketListingRequestBody :: "ListCephAdminBucketsParams option \<Rightarrow> ListCephAdminBucketsParams option" where
  "buildBucketListingRequestBody params = map_option (\<lambda>p. p\<lparr>bl_filter := filled (bl_filter p),
     bl_advanced_filter := filled (bl_advanced_filter p), bl_sort_by := filled (bl_sort_by p),
     bl_include := filled_list (bl_include p), bl_ui_tag_ids := filled_list (bl_ui_tag_ids p)\<rparr>) params"

section \<open>The calls\<close>

text \<open>
  A listing response is a parameter type; \<open>get\<close> receives the path and the text of the query, \<open>post\<close> the path
  and the body.
\<close>

definition listCephAdminBuckets ::
  "(path \<Rightarrow> string \<Rightarrow> ('s, 'r) io) \<Rightarrow> (path \<Rightarrow> ListCephAdminBucketsParams option \<Rightarrow> ('s, 'r) io) \<Rightarrow> nat
   \<Rightarrow> ListCephAdminBucketsParams option \<Rightarrow> ('s, 'r) io" where
  "listCephAdminBuckets get post endpointId params =
     (if shouldUsePostBucketListing params
      then post [''ceph-admin'', ''endpoints'', nat_string endpointId, ''buckets'', ''query''] (buildBucketListingRequestBody params)
      else get [''ceph-admin'', ''endpoints'', nat_string endpointId, ''buckets''] (form_text (buildBucketListingQuery params)))"

definition listStorageOpsBuckets ::
  "(path \<Rightarrow> string \<Rightarrow> ('s, 'r) io) \<Rightarrow> (path \<Rightarrow> ListCephAdminBucketsParams option \<Rightarrow> ('s, 'r) io)
   \<Rightarrow> ListCephAdminBucketsParams option \<Rightarrow> ('s, 'r) io" where
  "listStorageOpsBuckets get post params =
     (if shouldUsePostBucketListing params
      then post [''storage-ops'', ''buckets'', ''query''] (buildBucketListingRequestBody params)
      else get [''storage-ops'', ''buckets''] (form_text (buildBucketListingQuery params)))"

definition resolveApiBaseUrl :: "string option \<Rightarrow> string" where
  "resolveApiBaseUrl configured =
     (let base = (case configured of Some b \<Rightarrow> if trim b = [] then ''/api'' else b | None \<Rightarrow> ''/api'') in
      if endsWith base ''/'' then butlast base else base)"

definition stream_url :: "string option \<Rightarrow> nat option \<Rightarrow> ListCephAdminBucketsParams option \<Rightarrow> string" where
  "stream_url configured endpoint params =
     (let queryText = form_text (buildBucketListingQuery params) in
      resolveApiBaseUrl configured
      @ (case endpoint of Some e \<Rightarrow> ''/ceph-admin/endpoints/'' @ nat_string e @ ''/buckets/stream''
         | None \<Rightarrow> ''/storage-ops/buckets/stream'')
      @ (if queryText = [] then [] else ''?'' @ queryText))"

section \<open>What the server reads\<close>

definition hex_number :: "char \<Rightarrow> nat" where
  "hex_number c = (let n = (of_char c :: nat) in if n < 58 then n - 48 else n - 55)"

fun form_decode :: "string \<Rightarrow> string" where
  "form_decode [] = []"
| "form_decode (c # cs) =
     (if c = CHR ''+'' then CHR '' '' # form_decode cs
      else if c = CHR ''%''
      then (case cs of a # b # ds \<Rightarrow>
          (let n = 16 * hex_number a + hex_number b in
           if n < 128 then char_of n # form_decode ds
           else (case ds of _ # x # y # es \<Rightarrow> char_of (64 * (n - 192) + (16 * hex_number x + hex_number y - 128)) # form_decode es
             | _ \<Rightarrow> []))
        | _ \<Rightarrow> [])
      else c # form_decode cs)"

definition form_pair :: "string \<Rightarrow> string \<times> string" where
  "form_pair s = (case indexOf s ''='' of Some i \<Rightarrow> (form_decode (take i s), form_decode (drop (i + 1) s)) | None \<Rightarrow> (form_decode s, []))"

definition read_form :: "string \<Rightarrow> params" where
  "read_form s = map form_pair (filter (\<lambda>t. t \<noteq> []) (split_on (\<lambda>c. c = CHR ''&'') s))"

lemma hex_round: "k < 16 \<Longrightarrow> hex_number (upper_hex k) = k"
  by (auto simp: hex_number_def upper_hex_def Let_def)

lemma upper_hex_char: "k < 16 \<Longrightarrow> upper_hex k \<noteq> CHR ''&'' \<and> upper_hex k \<noteq> CHR ''=''"
proof -
  have "list_all (\<lambda>k. upper_hex k \<noteq> CHR ''&'' \<and> upper_hex k \<noteq> CHR ''='') [0..<16]" by code_simp
  then show "k < 16 \<Longrightarrow> ?thesis" by (simp add: list_all_iff)
qed

lemma of_char_bound: "(of_char (c :: char) :: nat) < 256"
  using nat_of_char_less_256 by blast

lemma form_decode_char: "form_decode (form_char c @ s) = c # form_decode s"
proof -
  let ?n = "of_char c :: nat"
  have b: "?n < 256" by (rule of_char_bound)
  have byte: "16 * hex_number (upper_hex (k div 16)) + hex_number (upper_hex (k mod 16)) = k" if "k < 256" for k
    using that hex_round [of "k div 16"] hex_round [of "k mod 16"] by simp
  consider "?n = 32" | "?n \<noteq> 32" "form_kept c" | "?n \<noteq> 32" "\<not> form_kept c" "?n < 128" | "?n \<noteq> 32" "\<not> form_kept c" "?n \<ge> 128"
    by linarith
  then show ?thesis
  proof cases
    case 1
    have "c = char_of ?n" by simp
    also have "\<dots> = CHR '' ''" unfolding 1 by code_simp
    finally show ?thesis by (simp add: form_char_def)
  next
    case 2
    then have "c \<noteq> CHR ''+'' \<and> c \<noteq> CHR ''%''" by (auto simp: form_kept_def)
    with 2 show ?thesis by (simp add: form_char_def)
  next
    case 3
    then have "form_char c = percent_byte ?n" by (simp add: form_char_def Let_def)
    then show ?thesis using 3 byte [OF b] by (simp add: percent_byte_def del: of_char_eq_iff)
  next
    case 4
    define u v where "u = 192 + ?n div 64" and "v = 128 + ?n mod 64"
    have "k div 64 < 4" if "k < 256" for k :: nat using that by arith
    from this [OF b] have m: "u < 256" "v < 256" "\<not> u < 128" by (simp_all add: u_def v_def)
    have enc: "form_char c = percent_byte u @ percent_byte v" using 4 by (simp add: form_char_def u_def v_def Let_def)
    have "64 * (u - 192) + (v - 128) = ?n" by (simp add: u_def v_def)
    then have "char_of (64 * (u - 192) + (v - 128)) = c" by simp
    moreover have "form_decode (percent_byte u @ percent_byte v @ s) = char_of (64 * (u - 192) + (v - 128)) # form_decode s"
      using byte [OF m(1)] byte [OF m(2)] m(3) by (simp add: percent_byte_def Let_def)
    ultimately show ?thesis unfolding enc by simp
  qed
qed

lemma form_decode_encode: "form_decode (form_encode s @ t) = s @ form_decode t"
  by (induction s) (simp_all add: form_encode_def form_decode_char)

lemma form_char_chars: "CHR ''&'' \<notin> set (form_char c) \<and> CHR ''='' \<notin> set (form_char c)"
proof -
  have hex: "upper_hex (k div 16) \<noteq> CHR ''&'' \<and> upper_hex (k div 16) \<noteq> CHR ''=''
      \<and> upper_hex (k mod 16) \<noteq> CHR ''&'' \<and> upper_hex (k mod 16) \<noteq> CHR ''=''" if "k < 256" for k
    using that upper_hex_char [of "k div 16"] upper_hex_char [of "k mod 16"] by simp
  have "k div 64 < 64" if "k < 256" for k :: nat using that by arith
  from this [OF of_char_bound] have "192 + of_char c div 64 < (256 :: nat)" by simp
  moreover have "128 + of_char c mod 64 < (256 :: nat)" by simp
  moreover have "c \<noteq> CHR ''&'' \<and> c \<noteq> CHR ''=''" if "form_kept c" using that by (auto simp: form_kept_def)
  ultimately show ?thesis
    using hex [OF of_char_bound [of c]] hex [of "192 + of_char c div 64"] hex [of "128 + of_char c mod 64"]
    by (auto simp: form_char_def percent_byte_def Let_def)
qed

lemma form_encode_chars: "CHR ''&'' \<notin> set (form_encode s) \<and> CHR ''='' \<notin> set (form_encode s)"
  using form_char_chars by (auto simp: form_encode_def)

lemma form_pair_round: "form_pair (form_encode k @ ''='' @ form_encode v) = (k, v)"
proof -
  have "indexOf (form_encode k @ CHR ''='' # form_encode v) ''='' = Some (length (form_encode k))"
    using form_encode_chars by (intro indexOf_single_Some) simp
  then show ?thesis
    using form_decode_encode [of k "[]"] form_decode_encode [of v "[]"] by (simp add: form_pair_def)
qed

lemma read_form_text: "read_form (form_text ps) = ps"
proof (cases "ps = []")
  case False
  let ?segs = "map (\<lambda>(k, v). form_encode k @ ''='' @ form_encode v) ps"
  have "list_all (\<lambda>x. CHR ''&'' \<notin> set x) ?segs" using form_encode_chars by (auto simp: list_all_iff)
  then have "split_on (\<lambda>c. c = CHR ''&'') (form_text ps) = ?segs"
    using False by (auto simp: form_text_def intro!: split_join)
  moreover have "filter (\<lambda>t. t \<noteq> []) ?segs = ?segs" by (auto intro!: filter_True)
  moreover have "map form_pair ?segs = ps"
    using form_pair_round by (intro nth_equalityI) (auto simp: case_prod_unfold)
  ultimately show ?thesis by (simp add: read_form_def)
qed (simp add: read_form_def form_text_def)

text \<open>The parameters in a query, as an endpoint of the server declares them.\<close>

definition read_query :: "params \<Rightarrow> ListCephAdminBucketsParams" where
  "read_query ps =
     \<lparr>bl_page = map_option digits_val (map_of ps ''page''), bl_page_size = map_option digits_val (map_of ps ''page_size''),
      bl_filter = map_of ps ''filter'', bl_advanced_filter = map_of ps ''advanced_filter'', bl_sort_by = map_of ps ''sort_by'',
      bl_sort_desc = map_option (\<lambda>v. v = ''desc'') (map_of ps ''sort_dir''),
      bl_include = map_option (split_on (\<lambda>c. c = CHR '','')) (map_of ps ''include''),
      bl_with_stats = map_option (\<lambda>v. v = ''true'') (map_of ps ''with_stats''),
      bl_ui_tag_ids = filled_list (Some (map (digits_val \<circ> snd) (filter (\<lambda>(k, _). k = ''ui_tag_ids'') ps))),
      bl_tag_match_all = map_option (\<lambda>v. v = ''all'') (map_of ps ''ui_tag_match'')\<rparr>"

lemma map_of_entry: "map_of (entry k f v) k' = (if k' = k then map_option f v else None)"
  by (auto simp: entry_def split: option.split)

lemma filter_entry: "filter (\<lambda>(k, _). k = k') (entry k f v) = (if k = k' then entry k f v else [])"
  by (auto simp: entry_def split: option.split)

lemma map_of_other: "k \<noteq> k' \<Longrightarrow> map_of (map (\<lambda>i. (k, f i)) ids) k' = None"
  by (induction ids) auto

lemma join_comma: "xs \<noteq> [] \<Longrightarrow> list_all (\<lambda>x. CHR '','' \<notin> set x) xs \<Longrightarrow> split_on (\<lambda>c. c = CHR '','') (join '','' xs) = xs"
  using split_join [of xs "CHR '',''"] by simp

lemma read_query_round:
  assumes "pred_option (list_all (\<lambda>x. CHR '','' \<notin> set x)) (bl_include p)"
  shows "Some (read_query (buildBucketListingQuery (Some p))) = buildBucketListingRequestBody (Some p)"
proof -
  let ?q = "buildBucketListingQuery (Some p)"
  let ?ids = "case bl_ui_tag_ids p of None \<Rightarrow> [] | Some ids \<Rightarrow> map (\<lambda>i. (''ui_tag_ids'', nat_string i)) ids"
  have ids: "map_of ?ids k = None" if "k \<noteq> ''ui_tag_ids''" for k
    using that by (auto simp: map_of_other split: option.split)
  have keys: "map_of ?q ''page'' = map_option nat_string (bl_page p)" "map_of ?q ''page_size'' = map_option nat_string (bl_page_size p)"
    "map_of ?q ''filter'' = filled (bl_filter p)" "map_of ?q ''advanced_filter'' = filled (bl_advanced_filter p)"
    "map_of ?q ''sort_by'' = filled (bl_sort_by p)" "map_of ?q ''sort_dir'' = map_option sort_text (bl_sort_desc p)"
    "map_of ?q ''include'' = map_option (join '','') (filled_list (bl_include p))"
    "map_of ?q ''with_stats'' = map_option bool_text (bl_with_stats p)"
    "map_of ?q ''ui_tag_match'' = map_option match_text (bl_tag_match_all p)"
    by (auto simp: buildBucketListingQuery_def map_of_entry map_add_def ids option.map_id split: option.split)
  have "filter (\<lambda>(k, _). k = ''ui_tag_ids'') ?q = ?ids"
    by (auto simp: buildBucketListingQuery_def filter_entry split: option.split)
  then have "filled_list (Some (map (digits_val \<circ> snd) (filter (\<lambda>(k, _). k = ''ui_tag_ids'') ?q))) = filled_list (bl_ui_tag_ids p)"
    by (auto simp: filled_list_def comp_def nat_string_digits split: option.split)
  moreover have "map_option (split_on (\<lambda>c. c = CHR '','')) (map_option (join '','') (filled_list (bl_include p))) = filled_list (bl_include p)"
    using assms by (auto simp: filled_list_def join_comma split: option.splits)
  moreover have "map_option (\<lambda>v. v = ''desc'') (map_option sort_text d) = d" "map_option (\<lambda>v. v = ''true'') (map_option bool_text d) = d"
    "map_option (\<lambda>v. v = ''all'') (map_option match_text d) = d" for d
    by (cases d; simp add: sort_text_def bool_text_def match_text_def)+
  moreover have "map_option digits_val (map_option nat_string d) = d" for d
    by (cases d) (simp_all add: nat_string_digits)
  ultimately show ?thesis
    by (simp add: read_query_def keys buildBucketListingRequestBody_def)
qed

section \<open>Properties\<close>


definition sample_listing :: ListCephAdminBucketsParams where
  "sample_listing = \<lparr>bl_page = Some 2, bl_page_size = Some 25, bl_filter = Some ''a&b=c %'', bl_advanced_filter = Some '' '',
     bl_sort_by = Some ''name'', bl_sort_desc = Some True, bl_include = Some [''tags'', ''cors''], bl_with_stats = Some False,
     bl_ui_tag_ids = Some [3, 17], bl_tag_match_all = None\<rparr>"


end
