(* ===== verification/Listing_Projection.thy ===== *)
theory Listing_Projection
  imports List_State
begin

text \<open>
  \<open>frontend/src/features/shared/bucketOpsListingProjection.ts\<close>: what the listing of buckets asks the
  server for, from the visible columns, the sort field and the applied filter: the parts of a bucket
  (\<open>include\<close>), whether the first request needs statistics, and the columns that wait for the second one.
\<close>

section \<open>The projection\<close>

definition BUCKET_STATS_NUMERIC_FILTER_FIELDS :: "string list" where
  "BUCKET_STATS_NUMERIC_FILTER_FIELDS = [''minUsedBytes'', ''maxUsedBytes'', ''minObjects'', ''maxObjects''] @ quotaAdvancedNumericFields"

definition OWNER_USAGE_NUMERIC_FILTER_FIELDS :: "string list" where
  "OWNER_USAGE_NUMERIC_FILTER_FIELDS = [''minOwnerUsedBytes'', ''maxOwnerUsedBytes'', ''minOwnerObjects'', ''maxOwnerObjects'',
     ''minOwnerQuotaUsageSizePercent'', ''maxOwnerQuotaUsageSizePercent'', ''minOwnerQuotaUsageObjectPercent'',
     ''maxOwnerQuotaUsageObjectPercent'']"

definition OWNER_QUOTA_COLUMN_IDS :: "string list" where
  "OWNER_QUOTA_COLUMN_IDS = [''owner_quota_max_size_bytes'', ''owner_quota_max_objects'', ''owner_quota_usage_size_percent'',
     ''owner_quota_usage_object_percent'']"

definition OWNER_USAGE_COLUMN_IDS :: "string list" where
  "OWNER_USAGE_COLUMN_IDS = [''owner_used_bytes'', ''owner_object_count'', ''owner_quota_usage_size_percent'',
     ''owner_quota_usage_object_percent'']"

definition STATS_COLUMN_IDS :: "string list" where
  "STATS_COLUMN_IDS = [''used_bytes'', ''object_count'', ''quota_max_size_bytes'', ''quota_max_objects'',
     ''quota_usage_size_percent'', ''quota_usage_object_percent'', ''owner_used_bytes'', ''owner_object_count'',
     ''owner_quota_usage_size_percent'', ''owner_quota_usage_object_percent'', ''quota_status'']"

definition anyVisible :: "string list \<Rightarrow> string list \<Rightarrow> bool" where
  "anyVisible visibleColumns columnIds = list_ex (\<lambda>c. c \<in> set visibleColumns) columnIds"

definition advancedStatsAreRequired :: "AdvancedFilterState option \<Rightarrow> bool \<Rightarrow> bool" where
  "advancedStatsAreRequired advancedApplied usageFeatureEnabled = (case advancedApplied of
     None \<Rightarrow> False
   | Some a \<Rightarrow> usageFeatureEnabled \<and> list_ex (\<lambda>f. length (trim (af_numeric a f)) > 0)
       (BUCKET_STATS_NUMERIC_FILTER_FIELDS @ OWNER_USAGE_NUMERIC_FILTER_FIELDS))"

definition addInclude :: "string \<Rightarrow> string list \<Rightarrow> string list" where
  "addInclude inc params = (if inc \<in> set params then params else params @ [inc])"

definition include_params :: "string list \<Rightarrow> string list \<Rightarrow> string list" where
  "include_params featureColumnIds visibleColumns = fold addInclude
     ((if ''owner_name'' \<in> set visibleColumns then [''owner_name''] else [])
      @ (if ''owner_suspended'' \<in> set visibleColumns then [''owner_suspended''] else [])
      @ (if anyVisible visibleColumns OWNER_QUOTA_COLUMN_IDS then [''owner_quota''] else [])
      @ (if anyVisible visibleColumns OWNER_USAGE_COLUMN_IDS then [''owner_quota_usage''] else [])
      @ (if ''tags'' \<in> set visibleColumns then [''tags''] else [])
      @ filter (\<lambda>f. f \<in> set visibleColumns) featureColumnIds
      @ map fo_include (filter (\<lambda>c. fo_id c \<in> set visibleColumns) FEATURE_DETAIL_COLUMN_OPTIONS)) []"

text \<open>The owner columns that are marked as waiting one by one.\<close>

definition owner_detail_columns :: "string list" where
  "owner_detail_columns = [''owner_quota_max_size_bytes'', ''owner_quota_max_objects'', ''owner_used_bytes'',
     ''owner_object_count'', ''owner_quota_usage_size_percent'', ''owner_quota_usage_object_percent'', ''owner_suspended'']"

record listing_projection =
  lp_baseRequiresStats :: bool
  lp_detailLoadingColumnIds :: "string list"
  lp_exportWithStats :: bool
  lp_includeParams :: "string list"
  lp_requiresStats :: bool

definition buildBucketOpsListingProjection ::
  "AdvancedFilterState option \<Rightarrow> string list \<Rightarrow> bool \<Rightarrow> string \<Rightarrow> bool \<Rightarrow> string list \<Rightarrow> listing_projection" where
  "buildBucketOpsListingProjection advancedApplied featureColumnIds isStorageOps sortField usageFeatureEnabled visibleColumns =
     (let includeParams = include_params featureColumnIds visibleColumns;
          advancedStatsRequired = advancedStatsAreRequired advancedApplied usageFeatureEnabled;
          visibleStatsRequired = (usageFeatureEnabled \<and> anyVisible visibleColumns STATS_COLUMN_IDS);
          needsStats = (advancedStatsRequired \<or> visibleStatsRequired);
          sortRequiresStats = (sortField = ''used_bytes'' \<or> sortField = ''object_count'');
          baseRequiresStats = (if isStorageOps then usageFeatureEnabled \<and> (advancedStatsRequired \<or> sortRequiresStats)
            else usageFeatureEnabled) in
      \<lparr>lp_baseRequiresStats = baseRequiresStats,
       lp_detailLoadingColumnIds = fold addInclude
         ((if needsStats \<and> \<not> baseRequiresStats then STATS_COLUMN_IDS else [])
          @ filter (\<lambda>c. c \<in> set visibleColumns) owner_detail_columns) includeParams,
       lp_exportWithStats = (usageFeatureEnabled \<and> (baseRequiresStats \<or> visibleStatsRequired)),
       lp_includeParams = includeParams, lp_requiresStats = needsStats\<rparr>)"

definition isStatsSortField :: "string \<Rightarrow> bool" where
  "isStatsSortField f \<longleftrightarrow> f = ''used_bytes'' \<or> f = ''object_count''"

text \<open>\<open>needsDetails\<close> of the listing: a second request follows the first one.\<close>

definition needs_details :: "string list \<Rightarrow> bool \<Rightarrow> bool \<Rightarrow> bool" where
  "needs_details includeParams needsStats baseRequiresStats = (length includeParams > 0 \<or> (needsStats \<and> \<not> baseRequiresStats))"

section \<open>Lemmas\<close>

lemma set_addInclude [simp]: "set (fold addInclude xs ys) = set ys \<union> set xs"
  by (induction xs arbitrary: ys) (auto simp: addInclude_def)

lemma distinct_addInclude: "distinct ys \<Longrightarrow> distinct (fold addInclude xs ys)"
  by (induction xs arbitrary: ys) (auto simp: addInclude_def)

lemma stats_rules_fields:
  "r \<in> set numericRules \<Longrightarrow> requiresStats r \<Longrightarrow>
     stateField r \<in> set (BUCKET_STATS_NUMERIC_FILTER_FIELDS @ OWNER_USAGE_NUMERIC_FILTER_FIELDS)"
proof -
  have "list_all (\<lambda>r. requiresStats r \<longrightarrow>
     stateField r \<in> set (BUCKET_STATS_NUMERIC_FILTER_FIELDS @ OWNER_USAGE_NUMERIC_FILTER_FIELDS)) numericRules"
    by code_simp
  then show "r \<in> set numericRules \<Longrightarrow> requiresStats r \<Longrightarrow> ?thesis" by (simp add: list_all_iff)
qed

lemma owner_columns_included:
  assumes "c \<in> set visible"
    and "c \<in> set owner_detail_columns"
  shows "include_params feats visible \<noteq> []"
proof -
  have "''owner_quota'' \<in> set (include_params feats visible) \<or> ''owner_quota_usage'' \<in> set (include_params feats visible)
     \<or> ''owner_suspended'' \<in> set (include_params feats visible)"
    using assms by (auto simp: owner_detail_columns_def include_params_def anyVisible_def OWNER_QUOTA_COLUMN_IDS_def OWNER_USAGE_COLUMN_IDS_def)
  then show ?thesis by auto
qed

section \<open>Properties\<close>

text \<open>Some rule of the query needs statistics.\<close>

definition stats_rule_sent :: "AdvancedFilterState option \<Rightarrow> bool" where
  "stats_rule_sent adv = (case adv of None \<Rightarrow> False | Some a \<Rightarrow>
     list_ex (\<lambda>r. requiresStats r \<and> numeric_field_rule (af_numeric a (stateField r)) (apiField r) (nr_op r) \<noteq> []) numericRules)"

text \<open>
  The listing asks for what it shows and filters by: when usage is available, the first request has
  statistics if a rule of the query or the sort field needs them, a visible column of statistics is loaded
  with it or waits for the second one and is exported with statistics; the parts of every visible feature
  are asked for once, a column that waits has a second request to wait for, and without usage no statistics
  are asked for.
\<close>

theorem listing_asks_for_what_it_shows:
  fixes adv feats so srt usage visible
  defines "p \<equiv> buildBucketOpsListingProjection adv feats so srt usage visible"
  shows "(if usage
      then (stats_rule_sent adv \<or> isStatsSortField srt \<longrightarrow> lp_baseRequiresStats p)
        \<and> (\<forall>c \<in> set visible \<inter> set STATS_COLUMN_IDS.
             lp_exportWithStats p \<and> (lp_baseRequiresStats p \<or> c \<in> set (lp_detailLoadingColumnIds p)))
      else \<not> lp_baseRequiresStats p \<and> \<not> lp_requiresStats p \<and> \<not> lp_exportWithStats p)
    \<and> set feats \<inter> set visible \<subseteq> set (lp_includeParams p)
    \<and> fo_include ` {d \<in> set FEATURE_DETAIL_COLUMN_OPTIONS. fo_id d \<in> set visible} \<subseteq> set (lp_includeParams p)
    \<and> distinct (lp_includeParams p)
    \<and> (lp_detailLoadingColumnIds p \<noteq> [] \<longrightarrow> needs_details (lp_includeParams p) (lp_requiresStats p) (lp_baseRequiresStats p))"
proof -
  let ?adv = "advancedStatsAreRequired adv usage" and ?vis = "anyVisible visible STATS_COLUMN_IDS"
  have rule: "?adv" if "usage" "stats_rule_sent adv"
  proof -
    from that(2) obtain a r where r: "adv = Some a" "r \<in> set numericRules" "requiresStats r"
      "numeric_field_rule (af_numeric a (stateField r)) (apiField r) (nr_op r) \<noteq> []"
      by (auto simp: stats_rule_sent_def list_ex_iff split: option.splits)
    with stats_rules_fields [OF r(2,3)] numeric_rule_text [OF r(4)] that(1) show ?thesis
      unfolding advancedStatsAreRequired_def list_ex_iff by auto
  qed
  have off: "\<not> ?adv" if "\<not> usage" using that by (auto simp: advancedStatsAreRequired_def split: option.splits)
  have vis: "?vis" if "c \<in> set visible" "c \<in> set STATS_COLUMN_IDS" for c
    using that by (auto simp: anyVisible_def list_ex_iff)
  have waits: "c \<in> set (lp_detailLoadingColumnIds p) \<longleftrightarrow> c \<in> set (lp_includeParams p)
      \<or> lp_requiresStats p \<and> \<not> lp_baseRequiresStats p \<and> c \<in> set STATS_COLUMN_IDS
      \<or> c \<in> set visible \<and> c \<in> set owner_detail_columns" for c
    by (auto simp: p_def buildBucketOpsListingProjection_def Let_def)
  have "needs_details (lp_includeParams p) (lp_requiresStats p) (lp_baseRequiresStats p)" if "lp_detailLoadingColumnIds p \<noteq> []"
  proof -
    from that obtain c where "c \<in> set (lp_detailLoadingColumnIds p)" by (meson hd_in_set)
    then consider "lp_includeParams p \<noteq> []" | "lp_requiresStats p \<and> \<not> lp_baseRequiresStats p"
      | "include_params feats visible \<noteq> []"
      unfolding waits using owner_columns_included [of c visible feats] by fastforce
    then show ?thesis by cases (auto simp: needs_details_def p_def buildBucketOpsListingProjection_def Let_def)
  qed
  moreover have "if usage
      then (stats_rule_sent adv \<or> isStatsSortField srt \<longrightarrow> lp_baseRequiresStats p)
        \<and> (\<forall>c \<in> set visible \<inter> set STATS_COLUMN_IDS.
             lp_exportWithStats p \<and> (lp_baseRequiresStats p \<or> c \<in> set (lp_detailLoadingColumnIds p)))
      else \<not> lp_baseRequiresStats p \<and> \<not> lp_requiresStats p \<and> \<not> lp_exportWithStats p"
  proof -
    have "c \<in> set (lp_detailLoadingColumnIds p)" if "lp_requiresStats p" "\<not> lp_baseRequiresStats p" "c \<in> set STATS_COLUMN_IDS" for c
      using that by (simp add: waits)
    moreover have flags: "lp_requiresStats p = (?adv \<or> usage \<and> ?vis)"
      "lp_baseRequiresStats p = (if so then usage \<and> (?adv \<or> isStatsSortField srt) else usage)"
      "lp_exportWithStats p = (usage \<and> (lp_baseRequiresStats p \<or> usage \<and> ?vis))"
      by (simp_all add: p_def buildBucketOpsListingProjection_def isStatsSortField_def Let_def)
    ultimately show ?thesis using rule off vis by (cases usage; cases so) (simp_all, blast+)
  qed
  moreover have "lp_includeParams p = include_params feats visible"
    by (simp add: p_def buildBucketOpsListingProjection_def Let_def)
  moreover have "set feats \<inter> set visible \<subseteq> set (include_params feats visible)"
    "fo_include ` {d \<in> set FEATURE_DETAIL_COLUMN_OPTIONS. fo_id d \<in> set visible} \<subseteq> set (include_params feats visible)"
    "distinct (include_params feats visible)"
    by (auto simp: include_params_def distinct_addInclude)
  ultimately show ?thesis by simp
qed

theorem listing_asks_for_what_it_shows_witness:
  "let p = buildBucketOpsListingProjection (Some (defaultAdvancedFilter\<lparr>af_numeric := (\<lambda>f. if f = ''minObjects'' then ''3'' else [])\<rparr>))
       [''versioning''] True ''name'' True [''used_bytes'', ''versioning''] in
     lp_baseRequiresStats p \<and> lp_exportWithStats p \<and> ''versioning'' \<in> set (lp_includeParams p)"
proof -
  let ?a = "defaultAdvancedFilter\<lparr>af_numeric := (\<lambda>f. if f = ''minObjects'' then ''3'' else [])\<rparr>"
  have s: "stats_rule_sent (Some ?a)" by code_simp
  have v: "''used_bytes'' \<in> set [''used_bytes'', ''versioning''] \<inter> set STATS_COLUMN_IDS" by (simp add: STATS_COLUMN_IDS_def)
  show ?thesis
    using listing_asks_for_what_it_shows [of True "Some ?a" "''name''" "[''versioning'']" True "[''used_bytes'', ''versioning'']"] s v
    by (auto simp: Let_def)
qed

end
