(* ===== verification/Bucket_Listing.thy ===== *)
theory Bucket_Listing
  imports Listing_Transport Listing_Projection
begin

text \<open>
  The listing of buckets that the page shows: \<open>frontend/src/features/shared/useBucketOpsListing.ts\<close>. Each
  render with other parameters aborts the load before it and starts a new one, which first asks for the
  rows (over a stream of events when the filter is an advanced one, and again without it when the stream
  fails) and then, after a pause, for the details of the visible columns. A load is a process: where it
  waits is its phase, and the answers of the server, the events of the stream and the timer are steps that
  come in any order, also for loads that were aborted.
\<close>

section \<open>Requests\<close>

record PaginatedBucketsResponse =
  lr_items :: "CephAdminBucket list"
  lr_total :: nat
  lr_stats_available :: bool
  lr_stats_warning :: "string option"

text \<open>The parameters of a render. The scope is the number of an endpoint; 0 counts as none.\<close>

record listing_query =
  lq_scope :: "nat option"
  lq_page :: nat
  lq_pageSize :: nat
  lq_filterValue :: string
  lq_advancedFilterParam :: "string option"
  lq_advancedSearchEnabled :: bool
  lq_sortField :: string
  lq_descending :: bool
  lq_includeParams :: "string list"
  lq_requiresStats :: bool
  lq_baseRequiresStats :: bool
  lq_uiTagIds :: "nat list"
  lq_tagMatchAll :: bool

definition stableUiTagIds :: "nat list \<Rightarrow> nat list" where
  "stableUiTagIds ids = js_set (filter (\<lambda>i. i > 0) ids)"

definition common_params :: "listing_query \<Rightarrow> ListCephAdminBucketsParams" where
  "common_params q = \<lparr>bl_page = Some (lq_page q), bl_page_size = Some (lq_pageSize q),
     bl_filter = (if trim (lq_filterValue q) = [] then None else Some (trim (lq_filterValue q))),
     bl_advanced_filter = lq_advancedFilterParam q, bl_sort_by = Some (lq_sortField q), bl_sort_desc = Some (lq_descending q),
     bl_include = None, bl_with_stats = None,
     bl_ui_tag_ids = filled_list (Some (stableUiTagIds (lq_uiTagIds q))), bl_tag_match_all = Some (lq_tagMatchAll q)\<rparr>"

definition baseParams :: "listing_query \<Rightarrow> ListCephAdminBucketsParams" where
  "baseParams q = (common_params q)\<lparr>bl_with_stats := Some (lq_baseRequiresStats q)\<rparr>"

definition detailParams :: "listing_query \<Rightarrow> bool \<Rightarrow> ListCephAdminBucketsParams" where
  "detailParams q detailWithStats = (common_params q)\<lparr>bl_include := filled_list (Some (lq_includeParams q)),
     bl_with_stats := Some detailWithStats\<rparr>"

definition canUseAdvancedStream :: "listing_query \<Rightarrow> bool" where
  "canUseAdvancedStream q = (lq_advancedSearchEnabled q
     \<and> (case lq_advancedFilterParam q of Some a \<Rightarrow> startsWith (trim a) ''{'' | None \<Rightarrow> False)
     \<and> \<not> shouldUsePostBucketListing (Some (baseParams q)))"

definition bucketRowKey :: "js_host \<Rightarrow> CephAdminBucket \<Rightarrow> string" where
  "bucketRowKey h b = (case jprop b ''tenant'' of None \<Rightarrow> [] | Some JNull \<Rightarrow> [] | Some t \<Rightarrow> js_String h t) @ '':''
     @ (case jprop b ''name'' of None \<Rightarrow> ''undefined'' | Some n \<Rightarrow> js_String h n)"

text \<open>Each row of the first answer, or the bucket with its key in the second one, the last of several.\<close>

definition merge_details :: "js_host \<Rightarrow> CephAdminBucket list \<Rightarrow> CephAdminBucket list \<Rightarrow> CephAdminBucket list" where
  "merge_details h baseItems detailItems = map (\<lambda>b. case map_of (rev (map (\<lambda>d. (bucketRowKey h d, d)) detailItems)) (bucketRowKey h b) of
     Some d \<Rightarrow> d | None \<Rightarrow> b) baseItems"

section \<open>The hook\<close>

datatype adv_progress = INACTIVE_ADVANCED_PROGRESS | PREPARING_ADVANCED_PROGRESS | FALLBACK_ADVANCED_PROGRESS
  | Running AdvancedSearchProgress

text \<open>Where a load waits: for the stream, for the list, for the timer or for the details.\<close>

datatype load_phase = AwaitStream | AwaitList | AwaitTimer PaginatedBucketsResponse | AwaitDetails PaginatedBucketsResponse

record bucket_load =
  ld_id :: nat
  ld_query :: listing_query
  ld_scope :: nat
  ld_phase :: load_phase
  ld_aborted :: bool

text \<open>
  The state of the hook, the two references (the number of the last request, and the request whose
  controller is the current one), the parameters of the last render, and the loads on their way.
\<close>

record listing_hook =
  lh_items :: "CephAdminBucket list"
  lh_total :: nat
  lh_loading :: bool
  lh_loadingDetails :: bool
  lh_advancedProgress :: adv_progress
  lh_error :: "string option"
  lh_statsAvailable :: "bool option"
  lh_statsScopeId :: "nat option"
  lh_statsWarning :: "string option"
  lh_requestSeq :: nat
  lh_requestAbort :: "nat option"
  lh_query :: "listing_query option"
  lh_loads :: "bucket_load list"

definition fresh_listing :: listing_hook where
  "fresh_listing = \<lparr>lh_items = [], lh_total = 0, lh_loading = False, lh_loadingDetails = False,
     lh_advancedProgress = INACTIVE_ADVANCED_PROGRESS, lh_error = None, lh_statsAvailable = None, lh_statsScopeId = None,
     lh_statsWarning = None, lh_requestSeq = 0, lh_requestAbort = None, lh_query = None, lh_loads = []\<rparr>"

definition abort_request :: "listing_hook \<Rightarrow> listing_hook" where
  "abort_request st = st\<lparr>lh_loads := map (\<lambda>l. if lh_requestAbort st = Some (ld_id l) then l\<lparr>ld_aborted := True\<rparr> else l) (lh_loads st)\<rparr>"

text \<open>\<open>fetchBuckets\<close> up to its first wait.\<close>

definition fetchBuckets :: "listing_query \<Rightarrow> nat \<Rightarrow> listing_hook \<Rightarrow> listing_hook" where
  "fetchBuckets q scope st =
     (let requestId = lh_requestSeq st + 1; st1 = abort_request st;
          load = \<lparr>ld_id = requestId, ld_query = q, ld_scope = scope,
            ld_phase = (if canUseAdvancedStream q then AwaitStream else AwaitList), ld_aborted = False\<rparr>;
          st2 = st1\<lparr>lh_requestSeq := requestId, lh_requestAbort := Some requestId, lh_query := Some q,
            lh_loading := True, lh_loadingDetails := False, lh_items := [], lh_total := 0,
            lh_advancedProgress := (if canUseAdvancedStream q then PREPARING_ADVANCED_PROGRESS else INACTIVE_ADVANCED_PROGRESS),
            lh_error := None, lh_loads := load # lh_loads st1\<rparr> in
      if lq_baseRequiresStats q
      then st2\<lparr>lh_statsScopeId := Some scope, lh_statsAvailable := None, lh_statsWarning := None\<rparr> else st2)"

text \<open>The effect of a render with other parameters, and of a refresh.\<close>

definition listing_effect :: "listing_query \<Rightarrow> listing_hook \<Rightarrow> listing_hook" where
  "listing_effect q st = (case lq_scope q of
     Some (Suc n) \<Rightarrow> fetchBuckets q (Suc n) st
   | _ \<Rightarrow> (abort_request st)\<lparr>lh_requestAbort := None, lh_query := Some q, lh_items := [], lh_total := 0, lh_loading := False,
       lh_loadingDetails := False, lh_advancedProgress := INACTIVE_ADVANCED_PROGRESS, lh_statsScopeId := None,
       lh_statsAvailable := None, lh_statsWarning := None\<rparr>)"

definition unmount_listing :: "listing_hook \<Rightarrow> listing_hook" where
  "unmount_listing st = (abort_request st)\<lparr>lh_requestAbort := None\<rparr>"

section \<open>The steps of a load\<close>

definition end_load :: "bucket_load \<Rightarrow> listing_hook \<Rightarrow> listing_hook" where
  "end_load l st = st\<lparr>lh_loads := remove1 l (lh_loads st)\<rparr>"

definition wait_load :: "bucket_load \<Rightarrow> load_phase \<Rightarrow> listing_hook \<Rightarrow> listing_hook" where
  "wait_load l p st = st\<lparr>lh_loads := map (\<lambda>m. if m = l then l\<lparr>ld_phase := p\<rparr> else m) (lh_loads st)\<rparr>"

text \<open>\<open>requestId === requestSeqRef.current\<close> and not aborted.\<close>

definition still_wanted :: "bucket_load \<Rightarrow> listing_hook \<Rightarrow> bool" where
  "still_wanted l st = (\<not> ld_aborted l \<and> ld_id l = lh_requestSeq st)"

definition stream_progress :: "bucket_load \<Rightarrow> AdvancedSearchProgress \<Rightarrow> listing_hook \<Rightarrow> listing_hook" where
  "stream_progress l p st = (if still_wanted l st then st\<lparr>lh_advancedProgress := Running p\<rparr> else st)"

text \<open>\<open>cancelled\<close> is \<open>isCancelledError\<close> of what was thrown.\<close>

definition stream_fails :: "bucket_load \<Rightarrow> bool \<Rightarrow> listing_hook \<Rightarrow> listing_hook" where
  "stream_fails l cancelled st =
     (if cancelled \<or> \<not> still_wanted l st then end_load l st
      else (wait_load l AwaitList st)\<lparr>lh_advancedProgress := FALLBACK_ADVANCED_PROGRESS\<rparr>)"

definition load_fails :: "bucket_load \<Rightarrow> bool \<Rightarrow> string \<Rightarrow> listing_hook \<Rightarrow> listing_hook" where
  "load_fails l cancelled message st =
     (if cancelled \<or> \<not> still_wanted l st then end_load l st
      else (end_load l st)\<lparr>lh_error := Some message, lh_items := [], lh_total := 0, lh_loading := False,
        lh_loadingDetails := False, lh_advancedProgress := INACTIVE_ADVANCED_PROGRESS\<rparr>)"

text \<open>What an answer says about statistics.\<close>

definition report_stats :: "bool \<Rightarrow> nat \<Rightarrow> PaginatedBucketsResponse \<Rightarrow> listing_hook \<Rightarrow> listing_hook" where
  "report_stats asked scope response st =
     (if asked then st\<lparr>lh_statsScopeId := Some scope, lh_statsAvailable := Some (lr_stats_available response),
        lh_statsWarning := lr_stats_warning response\<rparr>
      else if \<not> lr_stats_available response then st\<lparr>lh_statsScopeId := Some scope, lh_statsAvailable := Some False\<rparr>
      else st)"

definition base_returns :: "bucket_load \<Rightarrow> PaginatedBucketsResponse \<Rightarrow> listing_hook \<Rightarrow> listing_hook" where
  "base_returns l response st =
     (if \<not> still_wanted l st then end_load l st
      else (let q = ld_query l;
                st1 = (report_stats (lq_baseRequiresStats q) (ld_scope l) response
                  (st\<lparr>lh_items := lr_items response, lh_total := lr_total response\<rparr>))
                  \<lparr>lh_loading := False, lh_advancedProgress := INACTIVE_ADVANCED_PROGRESS\<rparr> in
        if \<not> needs_details (lq_includeParams q) (lq_requiresStats q) (lq_baseRequiresStats q) \<or> lr_items response = []
        then end_load l st1
        else (wait_load l (AwaitTimer response) st1)\<lparr>lh_loadingDetails := True\<rparr>))"

definition timer_fires :: "bucket_load \<Rightarrow> PaginatedBucketsResponse \<Rightarrow> listing_hook \<Rightarrow> listing_hook" where
  "timer_fires l base st = (if still_wanted l st then wait_load l (AwaitDetails base) st else end_load l st)"

definition detail_stats :: "bucket_load \<Rightarrow> PaginatedBucketsResponse \<Rightarrow> bool" where
  "detail_stats l base = (lq_requiresStats (ld_query l) \<and> lr_stats_available base)"

definition details_return :: "js_host \<Rightarrow> bucket_load \<Rightarrow> PaginatedBucketsResponse \<Rightarrow> PaginatedBucketsResponse \<Rightarrow> listing_hook \<Rightarrow> listing_hook" where
  "details_return h l base response st =
     (if \<not> still_wanted l st then end_load l st
      else (end_load l (report_stats (detail_stats l base) (ld_scope l) response st))
        \<lparr>lh_items := merge_details h (lr_items base) (lr_items response), lh_loadingDetails := False\<rparr>)"

text \<open>The \<open>finally\<close> of the details before the error is handled.\<close>

definition details_fail :: "bucket_load \<Rightarrow> bool \<Rightarrow> string \<Rightarrow> listing_hook \<Rightarrow> listing_hook" where
  "details_fail l cancelled message st =
     load_fails l cancelled message (if still_wanted l st then st\<lparr>lh_loadingDetails := False\<rparr> else st)"

text \<open>
  What can happen, in any order. \<open>answers\<close> relates a scope and the parameters of a request to the answers
  the server may give, and a request is cancelled only through its signal.
\<close>

type_synonym listing_server = "nat \<Rightarrow> ListCephAdminBucketsParams \<Rightarrow> PaginatedBucketsResponse \<Rightarrow> bool"

inductive listing_step :: "js_host \<Rightarrow> listing_server \<Rightarrow> listing_hook \<Rightarrow> listing_hook \<Rightarrow> bool" for h answers where
  render: "listing_step h answers st (listing_effect q st)"
| progress: "l \<in> set (lh_loads st) \<Longrightarrow> ld_phase l = AwaitStream \<Longrightarrow> listing_step h answers st (stream_progress l p st)"
| stream_failure: "l \<in> set (lh_loads st) \<Longrightarrow> ld_phase l = AwaitStream \<Longrightarrow> (cancelled \<longrightarrow> ld_aborted l) \<Longrightarrow>
    listing_step h answers st (stream_fails l cancelled st)"
| base_answer: "l \<in> set (lh_loads st) \<Longrightarrow> ld_phase l = AwaitStream \<or> ld_phase l = AwaitList \<Longrightarrow>
    answers (ld_scope l) (baseParams (ld_query l)) r \<Longrightarrow> listing_step h answers st (base_returns l r st)"
| base_failure: "l \<in> set (lh_loads st) \<Longrightarrow> ld_phase l = AwaitList \<Longrightarrow> (cancelled \<longrightarrow> ld_aborted l) \<Longrightarrow>
    listing_step h answers st (load_fails l cancelled message st)"
| timer: "l \<in> set (lh_loads st) \<Longrightarrow> ld_phase l = AwaitTimer base \<Longrightarrow> listing_step h answers st (timer_fires l base st)"
| details_answer: "l \<in> set (lh_loads st) \<Longrightarrow> ld_phase l = AwaitDetails base \<Longrightarrow>
    answers (ld_scope l) (detailParams (ld_query l) (detail_stats l base)) r \<Longrightarrow>
    listing_step h answers st (details_return h l base r st)"
| details_failure: "l \<in> set (lh_loads st) \<Longrightarrow> ld_phase l = AwaitDetails base \<Longrightarrow> (cancelled \<longrightarrow> ld_aborted l) \<Longrightarrow>
    listing_step h answers st (details_fail l cancelled message st)"

section \<open>The invariant\<close>

definition lives :: "listing_hook \<Rightarrow> bucket_load set" where
  "lives st = {l \<in> set (lh_loads st). \<not> ld_aborted l}"

definition loads_ok :: "listing_hook \<Rightarrow> bool" where
  "loads_ok st \<longleftrightarrow> distinct (map ld_id (lh_loads st)) \<and> list_all (\<lambda>l. ld_id l \<le> lh_requestSeq st) (lh_loads st)"

text \<open>The live load is the last one and belongs to the parameters of the last render.\<close>

definition owns :: "bucket_load \<Rightarrow> listing_hook \<Rightarrow> bool" where
  "owns l st \<longleftrightarrow> ld_id l = lh_requestSeq st \<and> lh_requestAbort st = Some (ld_id l) \<and> lh_query st = Some (ld_query l)
     \<and> lq_scope (ld_query l) = Some (ld_scope l)"

definition phase_ok :: "listing_server \<Rightarrow> bucket_load \<Rightarrow> listing_hook \<Rightarrow> bool" where
  "phase_ok answers l st \<longleftrightarrow> (case (case ld_phase l of AwaitTimer b \<Rightarrow> Some b | AwaitDetails b \<Rightarrow> Some b | _ \<Rightarrow> None) of
     None \<Rightarrow> lh_loading st \<and> \<not> lh_loadingDetails st \<and> lh_items st = [] \<and> lh_total st = 0
   | Some b \<Rightarrow> \<not> lh_loading st \<and> lh_loadingDetails st \<and> lh_advancedProgress st = INACTIVE_ADVANCED_PROGRESS
       \<and> answers (ld_scope l) (baseParams (ld_query l)) b \<and> lh_items st = lr_items b \<and> lh_total st = lr_total b)"

definition idle :: "listing_hook \<Rightarrow> bool" where
  "idle st \<longleftrightarrow> \<not> lh_loading st \<and> \<not> lh_loadingDetails st \<and> lh_advancedProgress st = INACTIVE_ADVANCED_PROGRESS"

text \<open>The rows shown are an answer to the last render, with the details of another answer to it.\<close>

definition shows_answer :: "js_host \<Rightarrow> listing_server \<Rightarrow> listing_hook \<Rightarrow> bool" where
  "shows_answer h answers st \<longleftrightarrow> lh_items st = []
     \<or> (\<exists>q s b. lh_query st = Some q \<and> lq_scope q = Some s \<and> answers s (baseParams q) b \<and> lh_total st = lr_total b
         \<and> (lh_items st = lr_items b
            \<or> (\<exists>w d. answers s (detailParams q w) d \<and> lh_items st = merge_details h (lr_items b) (lr_items d))))"

definition stats_ok :: "listing_server \<Rightarrow> listing_hook \<Rightarrow> bool" where
  "stats_ok answers st \<longleftrightarrow> (\<forall>a. lh_statsAvailable st = Some a \<longrightarrow>
     (\<exists>s p r. lh_statsScopeId st = Some s \<and> answers s p r \<and> lr_stats_available r = a))"

definition listing_inv :: "js_host \<Rightarrow> listing_server \<Rightarrow> listing_hook \<Rightarrow> bool" where
  "listing_inv h answers st \<longleftrightarrow> loads_ok st \<and> shows_answer h answers st \<and> stats_ok answers st
     \<and> (lives st = {} \<and> idle st \<or> (\<exists>l. lives st = {l} \<and> owns l st \<and> phase_ok answers l st))"

lemma wanted_live:
  assumes "listing_inv h answers st" and "l \<in> set (lh_loads st)"
  shows "still_wanted l st \<longleftrightarrow> \<not> ld_aborted l"
    and "still_wanted l st \<Longrightarrow> lives st = {l} \<and> owns l st \<and> phase_ok answers l st"
proof -
  have live: "lives st = {l} \<and> owns l st \<and> phase_ok answers l st" if "\<not> ld_aborted l"
  proof -
    from that assms(2) have "l \<in> lives st" by (simp add: lives_def)
    with assms(1) show ?thesis by (auto simp: listing_inv_def)
  qed
  then show "still_wanted l st \<longleftrightarrow> \<not> ld_aborted l" by (auto simp: still_wanted_def owns_def)
  then show "still_wanted l st \<Longrightarrow> lives st = {l} \<and> owns l st \<and> phase_ok answers l st" using live by simp
qed

lemma lives_end_load:
  assumes "loads_ok st"
  shows "lives (end_load l st) = lives st - {l}"
proof -
  have "distinct (lh_loads st)" using assms by (simp add: loads_ok_def distinct_map)
  then show ?thesis by (auto simp: lives_def end_load_def)
qed

lemma ids_end_load: "loads_ok st \<Longrightarrow> loads_ok (end_load l st)"
  by (auto simp: loads_ok_def end_load_def list_all_iff distinct_map intro: inj_on_subset dest: set_remove1_subset [THEN subsetD])

lemma end_load_keeps:
  "shows_answer h answers (end_load l st) = shows_answer h answers st" "stats_ok answers (end_load l st) = stats_ok answers st"
  "idle (end_load l st) = idle st" "owns m (end_load l st) = owns m st" "phase_ok answers m (end_load l st) = phase_ok answers m st"
  by (simp_all add: end_load_def shows_answer_def stats_ok_def idle_def owns_def phase_ok_def cong: option.case_cong)

lemma end_dead_load:
  assumes "listing_inv h answers st" and "ld_aborted l"
  shows "listing_inv h answers (end_load l st)"
proof -
  have "lives st - {l} = lives st" using assms(2) by (auto simp: lives_def)
  with assms(1) show ?thesis
    using lives_end_load [of st l] ids_end_load [of st l] by (simp add: listing_inv_def end_load_keeps)
qed

lemma ids_abort: "loads_ok (abort_request st) = loads_ok st"
proof -
  have i: "ld_id (if c then l\<lparr>ld_aborted := True\<rparr> else l) = ld_id l" for c l by simp
  show ?thesis by (simp add: loads_ok_def abort_request_def comp_def i list.pred_map)
qed

lemma lives_abort:
  assumes "listing_inv h answers st"
  shows "lives (abort_request st) = {}"
proof -
  have "lh_requestAbort st = Some (ld_id l)" if "l \<in> lives st" for l
    using assms that by (auto simp: listing_inv_def owns_def)
  then show ?thesis by (auto simp: lives_def abort_request_def)
qed

lemma abort_keeps [simp]:
  "lh_requestSeq (abort_request st) = lh_requestSeq st" "lh_items (abort_request st) = lh_items st"
  "lh_statsAvailable (abort_request st) = lh_statsAvailable st" "lh_statsScopeId (abort_request st) = lh_statsScopeId st"
  by (simp_all add: abort_request_def)

lemma inv_fetch:
  assumes "listing_inv h answers st" and "lq_scope q = Some s"
  shows "listing_inv h answers (fetchBuckets q s st)"
proof -
  let ?st = "fetchBuckets q s st"
  let ?l = "\<lparr>ld_id = lh_requestSeq st + 1, ld_query = q, ld_scope = s,
            ld_phase = (if canUseAdvancedStream q then AwaitStream else AwaitList), ld_aborted = False\<rparr>"
  have loads: "lh_loads ?st = ?l # lh_loads (abort_request st)" by (simp add: fetchBuckets_def Let_def)
  have "loads_ok (abort_request st)" using assms(1) by (simp add: listing_inv_def ids_abort)
  then have ids: "loads_ok ?st" unfolding loads_ok_def loads
    by (auto simp: list_all_iff fetchBuckets_def Let_def dest: le_trans)
  have "lives ?st = {?l}" using lives_abort [OF assms(1)] by (auto simp: lives_def loads)
  moreover have "owns ?l ?st" "phase_ok answers ?l ?st" "shows_answer h answers ?st"
    using assms(2) by (simp_all add: owns_def phase_ok_def shows_answer_def fetchBuckets_def Let_def)
  moreover have "stats_ok answers ?st"
    using assms(1) by (simp add: listing_inv_def stats_ok_def fetchBuckets_def Let_def)
  ultimately show ?thesis using ids by (auto simp: listing_inv_def)
qed

lemma inv_render: "listing_inv h answers st \<Longrightarrow> listing_inv h answers (listing_effect q st)"
  using inv_fetch [of h answers st q] lives_abort [of h answers st] ids_abort [of st]
  by (auto simp: listing_effect_def listing_inv_def shows_answer_def stats_ok_def idle_def lives_def loads_ok_def split: option.split nat.split)

text \<open>A wanted load that ends leaves no live load, and one that goes on is the only one.\<close>

lemma inv_ended:
  assumes "listing_inv h answers st" and "l \<in> set (lh_loads st)" and "still_wanted l st"
    and "lh_loads st' = lh_loads (end_load l st)" and "lh_requestSeq st' = lh_requestSeq st"
    and "shows_answer h answers st'" and "stats_ok answers st'" and "idle st'"
  shows "listing_inv h answers st'"
proof -
  have ids: "loads_ok st" using assms(1) by (simp add: listing_inv_def)
  have "lives st' = {}"
    using lives_end_load [OF ids, of l] wanted_live(2) [OF assms(1-3)] by (simp add: lives_def assms(4))
  moreover have "loads_ok st'"
    using ids_end_load [OF ids, of l] by (simp add: loads_ok_def assms(4,5)) (simp add: end_load_def)
  ultimately show ?thesis using assms(6-8) by (simp add: listing_inv_def)
qed

lemma wait_loads:
  assumes "loads_ok st" and "l \<in> set (lh_loads st)" and "lives st = {l}"
  shows "loads_ok (wait_load l p st)" and "lives (wait_load l p st) = {l\<lparr>ld_phase := p\<rparr>}"
proof -
  have i: "ld_id (if m = l then l\<lparr>ld_phase := p\<rparr> else m) = ld_id m" for m by simp
  show "loads_ok (wait_load l p st)"
    using assms(1) by (simp add: loads_ok_def wait_load_def comp_def i list.pred_map)
  show "lives (wait_load l p st) = {l\<lparr>ld_phase := p\<rparr>}"
  proof -
    have "l \<in> lives st" using assms(3) by simp
    then have "\<not> ld_aborted l" by (simp add: lives_def)
    moreover have dead: "ld_aborted m" if "m \<in> set (lh_loads st)" "m \<noteq> l" for m
    proof (rule ccontr)
      assume "\<not> ld_aborted m"
      with that(1) have "m \<in> lives st" by (simp add: lives_def)
      with assms(3) that(2) show False by simp
    qed
    have "ld_aborted m' \<or> m' = l\<lparr>ld_phase := p\<rparr>" if m': "m' \<in> set (lh_loads (wait_load l p st))" for m'
    proof -
      from m' obtain m where "m \<in> set (lh_loads st)" "m' = (if m = l then l\<lparr>ld_phase := p\<rparr> else m)"
        by (auto simp: wait_load_def)
      with dead show ?thesis by (cases "m = l") auto
    qed
    moreover have "l\<lparr>ld_phase := p\<rparr> \<in> set (lh_loads (wait_load l p st))"
      using assms(2) by (simp add: wait_load_def image_iff)
    ultimately show ?thesis unfolding lives_def by auto
  qed
qed

lemma inv_waits:
  assumes "listing_inv h answers st" and "l \<in> set (lh_loads st)" and "still_wanted l st"
    and "lh_loads st' = lh_loads (wait_load l p st)" and "lh_requestSeq st' = lh_requestSeq st"
    and "lh_requestAbort st' = lh_requestAbort st" and "lh_query st' = lh_query st"
    and "shows_answer h answers st'" and "stats_ok answers st'" and "phase_ok answers (l\<lparr>ld_phase := p\<rparr>) st'"
  shows "listing_inv h answers st'"
proof -
  have ids: "loads_ok st" using assms(1) by (simp add: listing_inv_def)
  note w = wanted_live(2) [OF assms(1-3)]
  note ws = wait_loads [OF ids assms(2), of p]
  have "lives st' = {l\<lparr>ld_phase := p\<rparr>}" using ws(2) w by (simp add: lives_def assms(4))
  moreover have "loads_ok st'" using ws(1) w by (simp add: loads_ok_def assms(4,5)) (simp add: wait_load_def)
  moreover have "owns (l\<lparr>ld_phase := p\<rparr>) st'" using w assms(5-7) by (simp add: owns_def)
  ultimately show ?thesis using assms(8-10) by (auto simp: listing_inv_def)
qed

lemma report_stats_keeps [simp]:
  "lh_loads (report_stats a s r st) = lh_loads st" "lh_requestSeq (report_stats a s r st) = lh_requestSeq st"
  "lh_requestAbort (report_stats a s r st) = lh_requestAbort st" "lh_query (report_stats a s r st) = lh_query st"
  "lh_items (report_stats a s r st) = lh_items st" "lh_total (report_stats a s r st) = lh_total st"
  "lh_loading (report_stats a s r st) = lh_loading st" "lh_loadingDetails (report_stats a s r st) = lh_loadingDetails st"
  "lh_advancedProgress (report_stats a s r st) = lh_advancedProgress st"
  by (simp_all add: report_stats_def)

lemma stats_reported:
  "stats_ok answers st \<Longrightarrow> answers s p r \<Longrightarrow> stats_ok answers (report_stats a s r st)"
  by (auto simp: stats_ok_def report_stats_def split: option.splits)

lemma stats_ok_cong:
  "lh_statsAvailable st' = lh_statsAvailable st \<Longrightarrow> lh_statsScopeId st' = lh_statsScopeId st \<Longrightarrow> stats_ok answers st' = stats_ok answers st"
  by (simp add: stats_ok_def)

lemma inv_base:
  assumes inv: "listing_inv h answers st" and l: "l \<in> set (lh_loads st)" and ph: "ld_phase l = AwaitStream \<or> ld_phase l = AwaitList"
    and r: "answers (ld_scope l) (baseParams (ld_query l)) r"
  shows "listing_inv h answers (base_returns l r st)"
proof (cases "still_wanted l st")
  case False
  with wanted_live(1) [OF inv l] end_dead_load [OF inv] show ?thesis by (simp add: base_returns_def)
next
  case True
  note w = wanted_live(2) [OF inv l True]
  let ?q = "ld_query l"
  let ?st1 = "(report_stats (lq_baseRequiresStats ?q) (ld_scope l) r (st\<lparr>lh_items := lr_items r, lh_total := lr_total r\<rparr>))
      \<lparr>lh_loading := False, lh_advancedProgress := INACTIVE_ADVANCED_PROGRESS\<rparr>"
  have stats: "stats_ok answers ?st1"
    using inv stats_reported [of answers st "ld_scope l" "baseParams ?q" r] r
    by (auto simp: listing_inv_def stats_ok_def report_stats_def split: option.splits)
  have shows_it: "shows_answer h answers ?st1"
    using w r by (auto simp: shows_answer_def owns_def)
  show ?thesis
  proof (cases "\<not> needs_details (lq_includeParams ?q) (lq_requiresStats ?q) (lq_baseRequiresStats ?q) \<or> lr_items r = []")
    case True
    with w have base: "base_returns l r st = end_load l ?st1"
      using \<open>still_wanted l st\<close> by (simp add: base_returns_def Let_def)
    have "idle ?st1" using w ph by (auto simp: idle_def phase_ok_def)
    show ?thesis unfolding base
      by (rule inv_ended [OF inv l \<open>still_wanted l st\<close>]) (simp_all add: end_load_keeps stats shows_it \<open>idle ?st1\<close>, simp_all add: end_load_def)
  next
    case False
    have base: "base_returns l r st = (wait_load l (AwaitTimer r) ?st1)\<lparr>lh_loadingDetails := True\<rparr>"
      using False \<open>still_wanted l st\<close> by (simp add: base_returns_def Let_def)
    show ?thesis unfolding base
      by (rule inv_waits [OF inv l \<open>still_wanted l st\<close>, of _ "AwaitTimer r"])
         (use stats shows_it r in \<open>simp_all add: wait_load_def shows_answer_def stats_ok_def phase_ok_def\<close>)
  qed
qed

lemma inv_fails:
  assumes inv: "listing_inv h answers st" and l: "l \<in> set (lh_loads st)" and c: "cancelled \<longrightarrow> ld_aborted l"
  shows "listing_inv h answers (load_fails l cancelled message st)"
proof (cases "still_wanted l st")
  case False
  with wanted_live(1) [OF inv l] end_dead_load [OF inv] show ?thesis by (simp add: load_fails_def)
next
  case True
  with wanted_live(1) [OF inv l] c have "\<not> cancelled" by simp
  moreover have "stats_ok answers st" using inv by (simp add: listing_inv_def)
  ultimately show ?thesis
    by (intro inv_ended [OF inv l True])
      (simp_all add: load_fails_def True shows_answer_def idle_def stats_ok_def end_load_def)
qed

lemma inv_details_fail:
  assumes inv: "listing_inv h answers st" and l: "l \<in> set (lh_loads st)" and c: "cancelled \<longrightarrow> ld_aborted l"
  shows "listing_inv h answers (details_fail l cancelled message st)"
proof (cases "still_wanted l st")
  case False
  with inv_fails [OF inv l c] show ?thesis by (simp add: details_fail_def)
next
  case True
  with wanted_live(1) [OF inv l] c have "\<not> cancelled" by simp
  moreover have "stats_ok answers st" using inv by (simp add: listing_inv_def)
  ultimately show ?thesis
    using True by (intro inv_ended [OF inv l True])
      (simp_all add: details_fail_def load_fails_def still_wanted_def shows_answer_def idle_def stats_ok_def end_load_def)
qed

lemma inv_stream_fails:
  assumes inv: "listing_inv h answers st" and l: "l \<in> set (lh_loads st)" and c: "cancelled \<longrightarrow> ld_aborted l"
    and ph: "ld_phase l = AwaitStream"
  shows "listing_inv h answers (stream_fails l cancelled st)"
proof (cases "still_wanted l st")
  case False
  with wanted_live(1) [OF inv l] end_dead_load [OF inv] show ?thesis by (simp add: stream_fails_def)
next
  case True
  with wanted_live(1) [OF inv l] c have "\<not> cancelled" by simp
  with wanted_live(2) [OF inv l True] ph inv True show ?thesis
    by (intro inv_waits [OF inv l True, of _ AwaitList])
      (auto simp: stream_fails_def wait_load_def shows_answer_def stats_ok_def phase_ok_def listing_inv_def)
qed

lemma inv_timer:
  assumes inv: "listing_inv h answers st" and l: "l \<in> set (lh_loads st)" and ph: "ld_phase l = AwaitTimer b"
  shows "listing_inv h answers (timer_fires l b st)"
proof (cases "still_wanted l st")
  case False
  with wanted_live(1) [OF inv l] end_dead_load [OF inv] show ?thesis by (simp add: timer_fires_def)
next
  case True
  have "shows_answer h answers st" "stats_ok answers st" using inv by (simp_all add: listing_inv_def)
  with wanted_live(2) [OF inv l True] ph True show ?thesis
    by (intro inv_waits [OF inv l True, of _ "AwaitDetails b"])
      (simp_all add: timer_fires_def wait_load_def shows_answer_def stats_ok_def phase_ok_def)
qed

lemma inv_details:
  assumes inv: "listing_inv h answers st" and l: "l \<in> set (lh_loads st)" and ph: "ld_phase l = AwaitDetails b"
    and r: "answers (ld_scope l) (detailParams (ld_query l) (detail_stats l b)) r"
  shows "listing_inv h answers (details_return h l b r st)"
proof (cases "still_wanted l st")
  case False
  with wanted_live(1) [OF inv l] end_dead_load [OF inv] show ?thesis by (simp add: details_return_def)
next
  case True
  note w = wanted_live(2) [OF inv l True]
  let ?st = "details_return h l b r st"
  have st: "?st = (end_load l (report_stats (detail_stats l b) (ld_scope l) r st))
        \<lparr>lh_items := merge_details h (lr_items b) (lr_items r), lh_loadingDetails := False\<rparr>"
    using True by (simp add: details_return_def)
  have "stats_ok answers st" using inv by (simp add: listing_inv_def)
  from stats_reported [OF this r] have stats: "stats_ok answers ?st"
    unfolding st by (simp add: stats_ok_def end_load_def)
  have shown: "shows_answer h answers ?st"
    using w ph r unfolding st shows_answer_def
    by (intro disjI2 exI [of _ "ld_query l"] exI [of _ "ld_scope l"] exI [of _ b]) (auto simp: end_load_def owns_def phase_ok_def)
  have "idle ?st" using w ph unfolding st by (simp add: idle_def end_load_def phase_ok_def)
  with stats shown show ?thesis
    by (intro inv_ended [OF inv l True]) (simp_all add: st end_load_def)
qed

lemma inv_progress:
  assumes inv: "listing_inv h answers st" and l: "l \<in> set (lh_loads st)" and ph: "ld_phase l = AwaitStream"
  shows "listing_inv h answers (stream_progress l p st)"
proof (cases "still_wanted l st")
  case True
  note w = wanted_live(2) [OF inv l True]
  have "lives (st\<lparr>lh_advancedProgress := Running p\<rparr>) = lives st" by (simp add: lives_def)
  with w ph inv show ?thesis
    by (auto simp: stream_progress_def True listing_inv_def loads_ok_def shows_answer_def stats_ok_def owns_def phase_ok_def)
qed (use inv in \<open>simp add: stream_progress_def\<close>)

lemma listing_step_inv: "listing_step h answers st st' \<Longrightarrow> listing_inv h answers st \<Longrightarrow> listing_inv h answers st'"
  by (induction rule: listing_step.induct)
    (auto intro: inv_render inv_progress inv_stream_fails inv_base inv_fails inv_timer inv_details inv_details_fail)

lemma listing_inv_reachable:
  assumes "(listing_step h answers)\<^sup>*\<^sup>* fresh_listing st"
  shows "listing_inv h answers st"
  using assms
proof (induction rule: rtranclp_induct)
  case base
  then show ?case
    by (simp add: listing_inv_def fresh_listing_def loads_ok_def shows_answer_def stats_ok_def lives_def idle_def)
qed (rule listing_step_inv)

lemma details_keep_rows: "map (bucketRowKey h) (merge_details h base details) = map (bucketRowKey h) base"
proof -
  have "bucketRowKey h (case map_of (rev (map (\<lambda>d. (bucketRowKey h d, d)) details)) (bucketRowKey h b) of Some d \<Rightarrow> d | None \<Rightarrow> b)
      = bucketRowKey h b" for b
    by (auto split: option.split dest!: map_of_SomeD)
  then show ?thesis by (simp add: merge_details_def comp_def)
qed

section \<open>Properties\<close>

text \<open>
  C17. In every order of renders, answers, failures, stream events and timers the listing shows either
  nothing or the rows and the total the server answered to the parameters of the last render, with the same
  rows after the details have come; it waits exactly while its one live load does, so it never waits for
  ever once that load has ended; and what an aborted load still receives changes nothing.
\<close>

theorem listing_shows_last_render:
  assumes "(listing_step h answers)\<^sup>*\<^sup>* fresh_listing st"
  shows "(lh_items st = [] \<or> (\<exists>q s b. lh_query st = Some q \<and> lq_scope q = Some s \<and> answers s (baseParams q) b
         \<and> lh_total st = lr_total b \<and> map (bucketRowKey h) (lh_items st) = map (bucketRowKey h) (lr_items b)))
    \<and> length (filter (\<lambda>l. \<not> ld_aborted l) (lh_loads st)) \<le> 1
    \<and> (lh_loading st \<or> lh_loadingDetails st \<longleftrightarrow> list_ex (\<lambda>l. \<not> ld_aborted l) (lh_loads st))
    \<and> \<not> (lh_loading st \<and> lh_loadingDetails st)
    \<and> list_all (\<lambda>l. \<not> ld_aborted l \<or> (\<forall>r b c m. base_returns l r st = end_load l st \<and> details_return h l b r st = end_load l st
         \<and> load_fails l c m st = end_load l st \<and> details_fail l c m st = end_load l st \<and> stream_fails l c st = end_load l st)) (lh_loads st)"
proof -
  note inv = listing_inv_reachable [OF assms]
  have shown: "lh_items st = [] \<or> (\<exists>q s b. lh_query st = Some q \<and> lq_scope q = Some s \<and> answers s (baseParams q) b
         \<and> lh_total st = lr_total b \<and> map (bucketRowKey h) (lh_items st) = map (bucketRowKey h) (lr_items b))"
  proof -
    from inv have "shows_answer h answers st" by (simp add: listing_inv_def)
    moreover have "map (bucketRowKey h) (lh_items st) = map (bucketRowKey h) (lr_items b)"
      if "lh_items st = lr_items b \<or> (\<exists>w d. answers s (detailParams q w) d \<and> lh_items st = merge_details h (lr_items b) (lr_items d))" for q s b
      using that by (auto simp: details_keep_rows)
    ultimately show ?thesis unfolding shows_answer_def by metis
  qed
  have "distinct (lh_loads st)" using inv by (simp add: listing_inv_def loads_ok_def distinct_map)
  then have "length (filter (\<lambda>l. \<not> ld_aborted l) (lh_loads st)) = card (lives st)"
    by (metis distinct_card distinct_filter lives_def set_filter)
  moreover have "card (lives st) \<le> 1" using inv by (auto simp: listing_inv_def)
  moreover have "list_ex (\<lambda>l. \<not> ld_aborted l) (lh_loads st) \<longleftrightarrow> lives st \<noteq> {}"
    by (auto simp: lives_def list_ex_iff)
  then have "(lh_loading st \<or> lh_loadingDetails st \<longleftrightarrow> list_ex (\<lambda>l. \<not> ld_aborted l) (lh_loads st)) \<and> \<not> (lh_loading st \<and> lh_loadingDetails st)"
    using inv by (auto simp: listing_inv_def idle_def phase_ok_def split: option.splits)
  moreover have "list_all (\<lambda>l. \<not> ld_aborted l \<or> (\<forall>r b c m. base_returns l r st = end_load l st \<and> details_return h l b r st = end_load l st
         \<and> load_fails l c m st = end_load l st \<and> details_fail l c m st = end_load l st \<and> stream_fails l c st = end_load l st)) (lh_loads st)"
    by (auto simp: list_all_iff still_wanted_def base_returns_def details_return_def load_fails_def details_fail_def stream_fails_def)
  ultimately show ?thesis using shown by simp
qed

definition sample_query :: "string \<Rightarrow> listing_query" where
  "sample_query filter_text = \<lparr>lq_scope = Some 7, lq_page = 1, lq_pageSize = 25, lq_filterValue = filter_text, lq_advancedFilterParam = None,
     lq_advancedSearchEnabled = False, lq_sortField = ''name'', lq_descending = False, lq_includeParams = [], lq_requiresStats = False,
     lq_baseRequiresStats = False, lq_uiTagIds = [], lq_tagMatchAll = False\<rparr>"

definition sample_answer :: "string \<Rightarrow> PaginatedBucketsResponse" where
  "sample_answer n = \<lparr>lr_items = [[(''name'', JStr n)]], lr_total = 1, lr_stats_available = True, lr_stats_warning = None\<rparr>"

definition sample_server :: listing_server where
  "sample_server s p r \<longleftrightarrow> r = sample_answer (case bl_filter p of Some f \<Rightarrow> f | None \<Rightarrow> [])"

theorem listing_shows_last_render_witness:
  "let st = listing_effect (sample_query ''new'') (listing_effect (sample_query ''old'') fresh_listing);
       late = base_returns ((lh_loads st) ! 1) (sample_answer ''old'') st in
     lh_loading late \<and> lh_items late = [] \<and> length (lh_loads late) = 1
     \<and> lh_items (base_returns (hd (lh_loads late)) (sample_answer ''new'') late) = [[(''name'', JStr ''new'')]]"
proof -
  let ?old = "listing_effect (sample_query ''old'') fresh_listing"
  let ?st = "listing_effect (sample_query ''new'') ?old"
  have "listing_step plain_host sample_server fresh_listing ?old" "listing_step plain_host sample_server ?old ?st" by (rule render)+
  then have r: "(listing_step plain_host sample_server)\<^sup>*\<^sup>* fresh_listing ?st" by simp
  let ?l1 = "\<lparr>ld_id = 1, ld_query = sample_query ''old'', ld_scope = 7, ld_phase = AwaitList, ld_aborted = True\<rparr>"
  let ?l2 = "\<lparr>ld_id = 2, ld_query = sample_query ''new'', ld_scope = 7, ld_phase = AwaitList, ld_aborted = False\<rparr>"
  have q: "lq_scope (sample_query f) = Some (Suc 6)" "\<not> canUseAdvancedStream (sample_query f)" "\<not> lq_baseRequiresStats (sample_query f)" for f
    by (simp_all add: sample_query_def canUseAdvancedStream_def)
  have loads: "lh_loads ?st = [?l2, ?l1]" "lh_requestSeq ?st = 2" "lh_items ?st = []"
    by (simp_all add: listing_effect_def q fetchBuckets_def abort_request_def fresh_listing_def Let_def)
  from listing_shows_last_render [OF r] loads(1)
  have late: "base_returns ?l1 (sample_answer ''old'') ?st = end_load ?l1 ?st" and w: "lh_loading ?st \<or> lh_loadingDetails ?st"
    by simp_all
  have nd: "\<not> lh_loadingDetails ?st"
    by (simp add: listing_effect_def q fetchBuckets_def abort_request_def fresh_listing_def Let_def)
  have "lh_items (base_returns ?l2 (sample_answer ''new'') (end_load ?l1 ?st)) = [[(''name'', JStr ''new'')]]"
    using loads by (simp add: base_returns_def still_wanted_def end_load_def report_stats_def needs_details_def sample_answer_def
        sample_query_def Let_def)
  with late w nd loads show ?thesis by (simp add: Let_def) (simp add: end_load_def)
qed

end
