(* ===== verification/Sse_Stream.thy ===== *)
theory Sse_Stream
  imports Filter_Text Bucket_Api
begin

text \<open>
  The stream of an advanced search: \<open>frontend/src/api/sseStream.ts\<close>, which cuts the chunks of the body into
  lines and the lines into events, and the reader of \<open>frontend/src/api/sseBucketsStream.ts\<close>, which reports
  progress and keeps the result. Chunks are the decoded texts; how the bytes of the body fall into chunks is
  up to the network, and does not matter (\<open>chunks_together\<close>).
\<close>

section \<open>Events\<close>

record sse_event =
  se_event :: string
  se_data :: string

text \<open>The events handed to \<open>onEvent\<close> so far are the last field.\<close>

record sse_state =
  ss_buffer :: string
  ss_currentEvent :: string
  ss_dataLines :: "string list"
  ss_events :: "sse_event list"

definition CR :: char where "CR = CHR 0x0D"
definition LF :: char where "LF = CHR 0x0A"

definition dispatchEvent :: "sse_state \<Rightarrow> sse_state" where
  "dispatchEvent st =
     (if ss_dataLines st = [] then st\<lparr>ss_currentEvent := ''message''\<rparr>
      else st\<lparr>ss_currentEvent := ''message'', ss_dataLines := [],
              ss_events := ss_events st @ [\<lparr>se_event = ss_currentEvent st, se_data = join newline (ss_dataLines st)\<rparr>]\<rparr>)"

definition trimStart :: "string \<Rightarrow> string" where
  "trimStart s = dropWhile is_space s"

definition processLine :: "string \<Rightarrow> sse_state \<Rightarrow> sse_state" where
  "processLine line st =
     (if line = [] then dispatchEvent st
      else if startsWith line '':'' then st
      else if startsWith line ''event:''
      then (let n = trim (drop 6 line) in st\<lparr>ss_currentEvent := (if n = [] then ''message'' else n)\<rparr>)
      else if startsWith line ''data:'' then st\<lparr>ss_dataLines := ss_dataLines st @ [trimStart (drop 5 line)]\<rparr>
      else st)"

text \<open>\<open>buffer.replace(/\r\n/g, "\n")\<close>.\<close>

fun replace_crlf :: "string \<Rightarrow> string" where
  "replace_crlf [] = []"
| "replace_crlf [c] = [c]"
| "replace_crlf (c # d # cs) = (if c = CR \<and> d = LF then LF # replace_crlf cs else c # replace_crlf (d # cs))"

lemma indexOf_less: "indexOf s [c] = Some i \<Longrightarrow> i < length s"
  by (induction s arbitrary: i) (auto split: if_splits)

text \<open>The loop over the lines of the buffer.\<close>

function drain_lines :: "sse_state \<Rightarrow> sse_state" where
  "drain_lines st = (case indexOf (ss_buffer st) [LF] of
     None \<Rightarrow> st
   | Some i \<Rightarrow> drain_lines ((processLine (take i (ss_buffer st)) st)\<lparr>ss_buffer := drop (i + 1) (ss_buffer st)\<rparr>))"
  by auto
termination
  by (relation "measure (\<lambda>st. length (ss_buffer st))") (auto dest: indexOf_less)

declare drain_lines.simps [simp del]

definition read_chunk :: "string \<Rightarrow> sse_state \<Rightarrow> sse_state" where
  "read_chunk c st = drain_lines (st\<lparr>ss_buffer := replace_crlf (ss_buffer st @ c)\<rparr>)"

definition sse_start :: sse_state where
  "sse_start = \<lparr>ss_buffer = [], ss_currentEvent = ''message'', ss_dataLines = [], ss_events = []\<rparr>"

text \<open>The last chunk is what the decoder still holds when the body ends.\<close>

definition end_stream :: "string \<Rightarrow> sse_state \<Rightarrow> sse_state" where
  "end_stream rest st =
     (let st' = read_chunk rest st in
      processLine [] (if length (ss_buffer st') > 0 then processLine (ss_buffer st') st' else st'))"

definition consumeSseStream :: "string list \<Rightarrow> string \<Rightarrow> sse_event list" where
  "consumeSseStream chunks rest = ss_events (end_stream rest (fold read_chunk chunks sse_start))"

section \<open>The result of a stream\<close>

text \<open>
  \<open>None\<close> is the \<open>SyntaxError\<close> of \<open>JSON.parse\<close>. \<open>sanitize\<close> stands for \<open>sanitizeErrorMessage\<close>, a filter of texts
  by regular expressions.
\<close>

definition event_payload :: "sse_event \<Rightarrow> json option" where
  "event_payload e = (if se_data e = [] then Some (JObj []) else json_parse (se_data e))"

definition sse_error :: "js_host \<Rightarrow> (string \<Rightarrow> string \<Rightarrow> string) \<Rightarrow> json \<Rightarrow> string \<Rightarrow> string" where
  "sse_error h sanitize payload fallback =
     (let detail = (case jmember (Some payload) ''detail'' of
            Some (JStr s) \<Rightarrow> s
          | d \<Rightarrow> (case coalesce d (Some payload) of Some v \<Rightarrow> stringify h v | None \<Rightarrow> [])) in
      if payload = JNull then ''TypeError'' else sanitize (if detail = [] then fallback else detail) fallback)"

text \<open>
  The events one after another: the progress reported so far, and the result kept so far or the error
  that ended the reading.
\<close>

fun stream_events :: "js_host \<Rightarrow> (string \<Rightarrow> string \<Rightarrow> string) \<Rightarrow> string \<Rightarrow> sse_event list \<Rightarrow> json list \<times> json option
   \<Rightarrow> json list \<times> (string + json option)" where
  "stream_events h sanitize failedLabel [] (progress, result) = (progress, Inr result)"
| "stream_events h sanitize failedLabel (e # es) (progress, result) = (case event_payload e of
     None \<Rightarrow> (progress, Inl ''SyntaxError'')
   | Some payload \<Rightarrow>
       if se_event e = ''progress'' then stream_events h sanitize failedLabel es (progress @ [payload], result)
       else if se_event e = ''result'' then stream_events h sanitize failedLabel es (progress, Some payload)
       else if se_event e = ''error'' then (progress, Inl (sse_error h sanitize payload failedLabel))
       else stream_events h sanitize failedLabel es (progress, result))"

definition streamBucketsWithSse :: "js_host \<Rightarrow> (string \<Rightarrow> string \<Rightarrow> string) \<Rightarrow> string \<Rightarrow> string \<Rightarrow> string list \<Rightarrow> string
   \<Rightarrow> json list \<times> (string + json)" where
  "streamBucketsWithSse h sanitize failedLabel missing chunks rest =
     (case stream_events h sanitize failedLabel (consumeSseStream chunks rest) ([], None) of
        (progress, Inl e) \<Rightarrow> (progress, Inl e)
      | (progress, Inr result) \<Rightarrow> (progress, if truthy result then Inr (the result) else Inl missing))"

text \<open>
  Opening the stream: a session that has expired is refreshed once and the request sent again; when the
  refresh or the second request fails, the first response stands, unless the call was cancelled. A fetch
  and the refresh are parameters, as is \<open>isCancelledError\<close>.
\<close>

record stream_response =
  sr_status :: nat
  sr_contentType :: "string option"
  sr_text :: string
  sr_body :: "(string list \<times> string) option"

definition fetchStream :: "(js_error \<Rightarrow> bool) \<Rightarrow> ('s, stream_response) io \<Rightarrow> ('s, unit) io \<Rightarrow> ('s, stream_response) io" where
  "fetchStream isCancelled fetch refresh = io_bind fetch (\<lambda>response.
     if sr_status response = 401 \<or> sr_status response = 419
     then (\<lambda>s. case io_seq refresh fetch s of
        (Inl e, t) \<Rightarrow> (if isCancelled e then (Inl e, t) else (Inr response, t))
      | (Inr again, t) \<Rightarrow> (Inr again, t))
     else io_return response)"

fun contains :: "string \<Rightarrow> string \<Rightarrow> bool" where
  "contains [] p = (p = [])"
| "contains (c # cs) p = (startsWith (c # cs) p \<or> contains cs p)"

definition openSseStream :: "(string \<Rightarrow> string \<Rightarrow> string) \<Rightarrow> (js_error \<Rightarrow> bool) \<Rightarrow> string \<Rightarrow> ('s, stream_response) io \<Rightarrow> ('s, unit) io
   \<Rightarrow> ('s, string list \<times> string) io" where
  "openSseStream sanitize isCancelled failedLabel fetch refresh = io_bind (fetchStream isCancelled fetch refresh) (\<lambda>r.
     if \<not> (200 \<le> sr_status r \<and> sr_status r < 300)
     then io_throw (JsErr (sanitize (if sr_text r = [] then failedLabel @ '' with status '' @ nat_string (sr_status r) else sr_text r) failedLabel))
     else if \<not> contains (case sr_contentType r of None \<Rightarrow> [] | Some c \<Rightarrow> c) ''text/event-stream''
     then io_throw (JsErr ''Unexpected stream response format'')
     else (case sr_body r of None \<Rightarrow> io_throw (JsErr ''Streaming response body is unavailable'') | Some b \<Rightarrow> io_return b))"

section \<open>Chunks do not matter\<close>

definition sse_lines :: "string \<Rightarrow> string list" where
  "sse_lines s = split_on (\<lambda>c. c = LF) (replace_crlf s)"

lemma sse_lines_ne [simp]: "sse_lines s \<noteq> []"
  by (simp add: sse_lines_def)

lemma split_on_Cons: "\<not> p c \<Longrightarrow> split_on p (c # s) = (c # hd (split_on p s)) # tl (split_on p s)"
  by (cases "split_on p s") auto

lemma replace_crlf_Cons:
  "\<not> (c = CR \<and> s \<noteq> [] \<and> hd s = LF) \<Longrightarrow> replace_crlf (c # s) = c # replace_crlf s"
  by (cases s) auto

lemma sse_lines_Cons:
  "c \<noteq> LF \<Longrightarrow> \<not> (c = CR \<and> s \<noteq> [] \<and> hd s = LF) \<Longrightarrow> sse_lines (c # s) = (c # hd (sse_lines s)) # tl (sse_lines s)"
  by (simp add: sse_lines_def replace_crlf_Cons split_on_Cons del: split_on.simps)

lemma sse_lines_LF: "sse_lines (LF # s) = [] # sse_lines s"
proof -
  have "CR \<noteq> LF" by (simp add: CR_def LF_def)
  then have "replace_crlf (LF # s) = LF # replace_crlf s" by (intro replace_crlf_Cons) auto
  then show ?thesis by (simp add: sse_lines_def)
qed

lemma sse_lines_CRLF: "sse_lines (CR # LF # s) = [] # sse_lines s"
  by (simp add: sse_lines_def)

text \<open>The first line starts like the text, unless the text starts with a line end.\<close>

lemma hd_sse_lines:
  assumes "tl (sse_lines (d # s)) = []"
  shows "hd (sse_lines (d # s)) \<noteq> [] \<and> hd (hd (sse_lines (d # s))) = d"
proof (cases "d = LF \<or> d = CR \<and> s \<noteq> [] \<and> hd s = LF")
  case True
  then have "tl (sse_lines (d # s)) \<noteq> []"
    by (cases s) (auto simp: sse_lines_LF sse_lines_CRLF)
  with assms show ?thesis by simp
next
  case False
  then show ?thesis using sse_lines_Cons [of d s] by auto
qed

lemma sse_lines_append: "sse_lines (x @ b) = butlast (sse_lines x) @ sse_lines (last (sse_lines x) @ b)"
proof (induction x rule: replace_crlf.induct)
  case 1
  then show ?case by (simp add: sse_lines_def)
next
  case (2 c)
  show ?case
  proof (cases "c = LF")
    case True
    then show ?thesis using sse_lines_LF [of b] sse_lines_LF [of "[]"] by (simp add: sse_lines_def)
  next
    case False
    then have "sse_lines [c] = [[c]]" by (simp add: sse_lines_def)
    then show ?thesis by simp
  qed
next
  case (3 c d cs)
  let ?S = "sse_lines (d # cs)"
  consider "c = CR \<and> d = LF" | "c = LF" | "c \<noteq> LF" "\<not> (c = CR \<and> d = LF)" by blast
  then show ?case
  proof cases
    case 1
    with 3(1) show ?thesis by (simp add: sse_lines_CRLF)
  next
    case 2
    then have n: "\<not> (c = CR \<and> d = LF)" by (simp add: CR_def LF_def)
    with 2 3(2) [OF n] show ?thesis by (simp add: sse_lines_LF)
  next
    case 3
    note IH = \<open>\<not> (c = CR \<and> d = LF) \<Longrightarrow> sse_lines ((d # cs) @ b) = butlast ?S @ sse_lines (last ?S @ b)\<close> [OF 3(2)]
    have l: "sse_lines (c # d # cs) = (c # hd ?S) # tl ?S" "sse_lines (c # d # cs @ b) = (c # hd (sse_lines (d # cs @ b))) # tl (sse_lines (d # cs @ b))"
      using 3 by (auto intro!: sse_lines_Cons)
    show ?thesis
    proof (cases "tl ?S = []")
      case True
      then have S: "?S = [hd ?S]" by (metis list.collapse sse_lines_ne)
      from hd_sse_lines [OF True] have "\<not> (c = CR \<and> hd ?S @ b \<noteq> [] \<and> hd (hd ?S @ b) = LF)" using 3(2) by auto
      then have "sse_lines (c # hd ?S @ b) = (c # hd (sse_lines (hd ?S @ b))) # tl (sse_lines (hd ?S @ b))"
        by (rule sse_lines_Cons [OF 3(1)])
      moreover have "sse_lines (d # cs @ b) = sse_lines (hd ?S @ b)" using IH S by (metis append_Cons append_Nil butlast.simps(2) last.simps)
      ultimately show ?thesis using l S by (simp add: True)
    next
      case False
      then have "butlast ?S = hd ?S # butlast (tl ?S)" "last ?S = last (tl ?S)"
        by (metis butlast.simps(2) list.collapse sse_lines_ne, metis last_tl)
      with IH l False show ?thesis by simp
    qed
  qed
qed

lemma processLine_buffer: "processLine l (st\<lparr>ss_buffer := b\<rparr>) = (processLine l st)\<lparr>ss_buffer := b\<rparr>"
  by (simp add: processLine_def dispatchEvent_def Let_def)

lemma fold_processLine_buffer: "fold processLine ls (st\<lparr>ss_buffer := b\<rparr>) = (fold processLine ls st)\<lparr>ss_buffer := b\<rparr>"
  by (induction ls arbitrary: st) (simp_all add: processLine_buffer)

lemma split_at_LF:
  "indexOf s [LF] = None \<Longrightarrow> split_on (\<lambda>c. c = LF) s = [s]"
  "indexOf s [LF] = Some i \<Longrightarrow> split_on (\<lambda>c. c = LF) s = take i s # split_on (\<lambda>c. c = LF) (drop (i + 1) s)"
proof -
  show "indexOf s [LF] = None \<Longrightarrow> split_on (\<lambda>c. c = LF) s = [s]"
    by (induction s) (auto split: if_splits)
  show "indexOf s [LF] = Some i \<Longrightarrow> split_on (\<lambda>c. c = LF) s = take i s # split_on (\<lambda>c. c = LF) (drop (i + 1) s)"
    by (induction s arbitrary: i) (auto split: if_splits)
qed

lemma drain_lines_split:
  "drain_lines st = (fold processLine (butlast (split_on (\<lambda>c. c = LF) (ss_buffer st))) st)
     \<lparr>ss_buffer := last (split_on (\<lambda>c. c = LF) (ss_buffer st))\<rparr>"
proof (induction st rule: drain_lines.induct)
  case (1 st)
  show ?case
  proof (cases "indexOf (ss_buffer st) [LF]")
    case None
    then show ?thesis by (subst drain_lines.simps) (simp add: split_at_LF(1))
  next
    case (Some i)
    then show ?thesis using 1 [OF Some]
      by (subst drain_lines.simps) (simp add: split_at_LF(2) [OF Some] fold_processLine_buffer)
  qed
qed

lemma read_chunk_lines:
  "read_chunk c st = (fold processLine (butlast (sse_lines (ss_buffer st @ c))) st)\<lparr>ss_buffer := last (sse_lines (ss_buffer st @ c))\<rparr>"
  by (simp add: read_chunk_def drain_lines_split sse_lines_def fold_processLine_buffer)

lemma read_chunk_append: "read_chunk b (read_chunk a st) = read_chunk (a @ b) st"
  using sse_lines_append [of "ss_buffer st @ a" b]
  by (simp add: read_chunk_lines butlast_append fold_processLine_buffer)

lemma read_chunk_Nil: "read_chunk [] sse_start = sse_start"
  by (simp add: read_chunk_lines sse_lines_def sse_start_def)

lemma chunks_together: "fold read_chunk chunks sse_start = read_chunk (concat chunks) sse_start"
proof (induction chunks rule: rev_induct)
  case Nil
  then show ?case by (simp add: read_chunk_Nil)
qed (simp add: read_chunk_append)

lemma consume_together: "consumeSseStream chunks rest = consumeSseStream [concat chunks @ rest] []"
proof -
  have "read_chunk [] (read_chunk (concat chunks @ rest) sse_start) = read_chunk (concat chunks @ rest) sse_start"
    by (simp add: read_chunk_append)
  then show ?thesis by (simp add: consumeSseStream_def end_stream_def chunks_together read_chunk_append)
qed

section \<open>Events as the server writes them\<close>

text \<open>The argument is the end of a line.\<close>

definition server_event :: "string \<Rightarrow> sse_event \<Rightarrow> string" where
  "server_event eol e = ''event: '' @ se_event e @ eol @ ''data: '' @ se_data e @ eol @ eol"

text \<open>A name without blanks at its ends and data on one line.\<close>

definition event_ok :: "sse_event \<Rightarrow> bool" where
  "event_ok e \<longleftrightarrow> se_event e \<noteq> [] \<and> trim (se_event e) = se_event e \<and> trimStart (se_data e) = se_data e
     \<and> list_all (\<lambda>c. c \<noteq> LF \<and> c \<noteq> CR) (se_event e @ se_data e)"

lemma split_line_break: "LF \<notin> set a \<Longrightarrow> split_on (\<lambda>c. c = LF) (a @ LF # s) = a # split_on (\<lambda>c. c = LF) s"
  by (induction a) auto

lemma replace_crlf_line:
  "CR \<notin> set a \<Longrightarrow> replace_crlf (a @ LF # s) = a @ LF # replace_crlf s"
  "CR \<notin> set a \<Longrightarrow> replace_crlf (a @ CR # LF # s) = a @ LF # replace_crlf s"
proof (induction a)
  case Nil
  have "CR \<noteq> LF" by (simp add: CR_def LF_def)
  then show "replace_crlf ([] @ LF # s) = [] @ LF # replace_crlf s" "replace_crlf ([] @ CR # LF # s) = [] @ LF # replace_crlf s"
    using replace_crlf_Cons [of LF s] by auto
qed (auto simp: replace_crlf_Cons)

lemma replace_crlf_events:
  assumes "list_all event_ok es" and "eol = [LF] \<or> eol = [CR, LF]"
  shows "replace_crlf (concat (map (server_event eol) es)) = concat (map (server_event [LF]) es)"
  using assms(1)
proof (induction es)
  case (Cons e es)
  then have "CR \<notin> set (''event: '' @ se_event e)" "CR \<notin> set (''data: '' @ se_data e)"
    by (auto simp: event_ok_def list_all_iff CR_def)
  with Cons assms(2) show ?case
    using replace_crlf_line [of "''event: '' @ se_event e"] replace_crlf_line [of "''data: '' @ se_data e"] replace_crlf_line [of "[]"]
    by (auto simp: server_event_def simp del: replace_crlf.simps(3))
qed simp

lemma server_lines:
  assumes "list_all event_ok es" and "eol = [LF] \<or> eol = [CR, LF]"
  shows "sse_lines (concat (map (server_event eol) es)) = concat (map (\<lambda>e. [''event: '' @ se_event e, ''data: '' @ se_data e, []]) es) @ [[]]"
  unfolding sse_lines_def replace_crlf_events [OF assms]
  using assms(1)
proof (induction es)
  case (Cons e es)
  then have "LF \<notin> set (''event: '' @ se_event e)" "LF \<notin> set (''data: '' @ se_data e)"
    by (auto simp: event_ok_def list_all_iff LF_def)
  with Cons show ?case
    using split_line_break [of "''event: '' @ se_event e"] split_line_break [of "''data: '' @ se_data e"] split_line_break [of "[]"]
    by (simp add: server_event_def del: split_on.simps)
qed simp

lemma trim_blank: "trim (CHR '' '' # s) = trim s"
  by (simp add: trim_def is_space_def)

lemma process_server_event:
  assumes "event_ok e" and "ss_dataLines st = []"
  shows "processLine [] (processLine (''data: '' @ se_data e) (processLine (''event: '' @ se_event e) st))
    = st\<lparr>ss_currentEvent := ''message'', ss_events := ss_events st @ [e]\<rparr>"
  using assms by (simp add: processLine_def dispatchEvent_def event_ok_def trim_blank trimStart_def is_space_def Let_def)

lemma process_server_events:
  assumes "list_all event_ok es" and "ss_dataLines st = []" and "ss_currentEvent st = ''message''"
  shows "fold processLine (concat (map (\<lambda>e. [''event: '' @ se_event e, ''data: '' @ se_data e, []]) es)) st
    = st\<lparr>ss_events := ss_events st @ es\<rparr>"
  using assms
proof (induction es arbitrary: st)
  case (Cons e es)
  then have "processLine [] (processLine (''data: '' @ se_data e) (processLine (''event: '' @ se_event e) st))
    = st\<lparr>ss_currentEvent := ''message'', ss_events := ss_events st @ [e]\<rparr>"
    by (intro process_server_event) auto
  with Cons show ?case by simp
qed simp

section \<open>Properties\<close>



end
