(* ===== verification/Bucket_Export.thy ===== *)
theory Bucket_Export
  imports Preview_Sections List_State
begin

text \<open>
  \<open>frontend/src/features/shared/bucketOpsExportModel.ts\<close>: the columns of an export, one for each visible
  column of the listing, and the rows of the selected buckets as CSV or JSON. A reader of quoted CSV is
  the reference for the CSV text.
\<close>

section \<open>Columns\<close>

record BucketExportColumn =
  ec_id :: string
  ec_label :: string
  ec_getValue :: "CephAdminBucket \<Rightarrow> string"

definition export_column :: "string \<Rightarrow> string \<Rightarrow> (CephAdminBucket \<Rightarrow> string) \<Rightarrow> BucketExportColumn" where
  "export_column i l v = \<lparr>ec_id = i, ec_label = l, ec_getValue = v\<rparr>"

definition contextKindLabel :: "string option \<Rightarrow> string" where
  "contextKindLabel kind =
     (if kind = Some ''account'' then ''Account'' else if kind = Some ''connection'' then ''Connection''
      else if kind = Some ''s3_user'' then ''S3 user'' else ''-'')"

text \<open>\<open>value ?? "-"\<close> as text, and a value in a template.\<close>

definition text_or_dash :: "js_host \<Rightarrow> json option \<Rightarrow> string" where
  "text_or_dash h v = (case v of None \<Rightarrow> ''-'' | Some JNull \<Rightarrow> ''-'' | Some j \<Rightarrow> js_String h j)"

definition template_text :: "js_host \<Rightarrow> json option \<Rightarrow> string" where
  "template_text h v = (case v of None \<Rightarrow> ''undefined'' | Some j \<Rightarrow> js_String h j)"

definition formatS3Tags :: "js_host \<Rightarrow> CephAdminBucket \<Rightarrow> string" where
  "formatS3Tags h b =
     (let tags = (case jprop b ''tags'' of Some (JArr vs) \<Rightarrow> map as_rec vs | _ \<Rightarrow> []) in
      if tags = [] then ''-''
      else join '', '' (map (\<lambda>t. template_text h (jprop t ''key'') @ ''='' @ template_text h (jprop t ''value''))
        (filter (\<lambda>t. trim (string_prop t ''key'') \<noteq> []) tags)))"

definition bool_prop :: "jrec \<Rightarrow> string \<Rightarrow> bool option" where
  "bool_prop r k = (case jprop r k of Some (JBool b) \<Rightarrow> Some b | _ \<Rightarrow> None)"

definition STATIC_BUCKET_EXPORT_COLUMNS :: "js_host \<Rightarrow> BucketExportColumn list" where
  "STATIC_BUCKET_EXPORT_COLUMNS h = [
     export_column ''context_name'' ''Context'' (\<lambda>b. if getStorageOpsContextName b = [] then ''-'' else getStorageOpsContextName b),
     export_column ''endpoint_name'' ''Endpoint'' (\<lambda>b. text_or_dash h (jprop b ''endpoint_name'')),
     export_column ''context_kind'' ''Kind'' (\<lambda>b. contextKindLabel (getStorageOpsContextKind b)),
     export_column ''tenant'' ''Tenant'' (\<lambda>b. text_or_dash h (jprop b ''tenant'')),
     export_column ''owner'' ''Owner'' (\<lambda>b. text_or_dash h (jprop b ''owner'')),
     export_column ''owner_name'' ''Owner name'' (\<lambda>b. text_or_dash h (jprop b ''owner_name'')),
     export_column ''owner_suspended'' ''Owner suspended'' (\<lambda>b. formatOwnerSuspended (bool_prop b ''owner_suspended'')),
     export_column ''owner_used_bytes'' ''Owner used'' (\<lambda>b. formatBytes h (number_prop b ''owner_used_bytes'')),
     export_column ''owner_quota_max_size_bytes'' ''Owner quota'' (\<lambda>b. formatQuotaBytes h (number_prop b ''owner_quota_max_size_bytes'')),
     export_column ''owner_quota_usage_size_percent'' ''Owner quota %''
       (\<lambda>b. formatQuotaUsageValue h (number_prop b ''owner_used_bytes'') (number_prop b ''owner_quota_max_size_bytes'')),
     export_column ''owner_object_count'' ''Owner objects'' (\<lambda>b. formatNumber h (number_prop b ''owner_object_count'')),
     export_column ''owner_quota_max_objects'' ''Owner object quota'' (\<lambda>b. formatQuotaObjects h (number_prop b ''owner_quota_max_objects'')),
     export_column ''owner_quota_usage_object_percent'' ''Owner object quota %''
       (\<lambda>b. formatQuotaUsageValue h (number_prop b ''owner_object_count'') (number_prop b ''owner_quota_max_objects'')),
     export_column ''used_bytes'' ''Used'' (\<lambda>b. formatBytes h (number_prop b ''used_bytes'')),
     export_column ''quota_max_size_bytes'' ''Quota'' (\<lambda>b. formatQuotaBytes h (number_prop b ''quota_max_size_bytes'')),
     export_column ''quota_usage_size_percent'' ''Quota %''
       (\<lambda>b. formatQuotaUsageValue h (number_prop b ''used_bytes'') (number_prop b ''quota_max_size_bytes'')),
     export_column ''object_count'' ''Objects'' (\<lambda>b. formatNumber h (number_prop b ''object_count'')),
     export_column ''quota_max_objects'' ''Object quota'' (\<lambda>b. formatQuotaObjects h (number_prop b ''quota_max_objects'')),
     export_column ''quota_usage_object_percent'' ''Object quota %''
       (\<lambda>b. formatQuotaUsageValue h (number_prop b ''object_count'') (number_prop b ''quota_max_objects'')),
     export_column ''tags'' ''Tags'' (formatS3Tags h)]"

definition export_ui_tags :: "js_host \<Rightarrow> bool \<Rightarrow> CephAdminBucket \<Rightarrow> string" where
  "export_ui_tags h isStorageOps b =
     (let tags = (case jprop b ''ui_tags'' of Some (JArr vs) \<Rightarrow> map as_rec vs | _ \<Rightarrow> []) in
      if tags = [] then ''-''
      else join '', '' (map (\<lambda>t. if isStorageOps then template_text h (jprop t ''label'')
        else template_text h (jprop t ''label'') @ '' ('' @ (if jprop t ''visibility'' = Some (JStr ''shared'') then ''Shared'' else ''Private'') @ '')'') tags))"

text \<open>The column of an id, when it has one; the first match wins. A feature column is its id, key and label.\<close>

definition export_column_of :: "js_host \<Rightarrow> (string \<times> string \<times> string) list \<Rightarrow> bool \<Rightarrow> string \<Rightarrow> BucketExportColumn option" where
  "export_column_of h featureColumns isStorageOps columnId =
     (case find (\<lambda>c. ec_id c = columnId) (STATIC_BUCKET_EXPORT_COLUMNS h) of
        Some c \<Rightarrow> Some c
      | None \<Rightarrow>
          if columnId = ''ui_tags'' then Some (export_column columnId ''UI tags'' (export_ui_tags h isStorageOps))
          else if columnId = ''quota_status''
          then Some (export_column columnId ''Quota status'' (\<lambda>b. if isBucketQuotaConfigured b then ''Configured'' else ''Not set''))
          else (case find (\<lambda>c. fo_id c = columnId) FEATURE_DETAIL_COLUMN_OPTIONS of
            Some c \<Rightarrow> Some (export_column columnId (fo_label c) (\<lambda>b. formatBucketColumnDetail h b (fo_id c)))
          | None \<Rightarrow> (case map_of (rev featureColumns) columnId of
              Some (key, label) \<Rightarrow> Some (export_column columnId label
                (\<lambda>b. text_or_dash h (jmember (jmember (jprop b ''features'') key) ''state'')))
            | None \<Rightarrow> None)))"

definition buildBucketExportColumns ::
  "js_host \<Rightarrow> string list \<Rightarrow> (string \<times> string \<times> string) list \<Rightarrow> bool \<Rightarrow> bool \<Rightarrow> BucketExportColumn list" where
  "buildBucketExportColumns h columnIds featureColumns isStorageOps useExplicitBucketName =
     export_column ''name'' ''Name'' (\<lambda>b. getBucketDisplayName b useExplicitBucketName)
     # List.map_filter (export_column_of h featureColumns isStorageOps) columnIds"

section \<open>Rows\<close>

type_synonym bucket_map = "(string \<times> CephAdminBucket) list"

definition buildBucketExportRows :: "string list \<Rightarrow> bucket_map \<Rightarrow> BucketExportColumn list \<Rightarrow> string list list" where
  "buildBucketExportRows bucketNames bucketsByName columns = map (\<lambda>n. case map_of bucketsByName n of
     Some b \<Rightarrow> map (\<lambda>c. ec_getValue c b) columns | None \<Rightarrow> map (\<lambda>_. ''-'') columns) bucketNames"

definition csv_line :: "string list \<Rightarrow> string" where
  "csv_line values = join '','' (map csvEscape values)"

definition serializeBucketSelectionCsv :: "string list \<Rightarrow> bucket_map \<Rightarrow> BucketExportColumn list \<Rightarrow> string" where
  "serializeBucketSelectionCsv bucketNames bucketsByName columns =
     join newline (csv_line (map ec_label columns) # map csv_line (buildBucketExportRows bucketNames bucketsByName columns))"

text \<open>\<open>Object.fromEntries\<close>: the last value of a key, at the place of the first.\<close>

definition from_entries :: "(string \<times> json) list \<Rightarrow> jrec" where
  "from_entries es = fold (\<lambda>(k, v) r. AList.update k v r) es []"

definition buildBucketSelectionJsonPayload ::
  "string list \<Rightarrow> bucket_map \<Rightarrow> BucketExportColumn list \<Rightarrow> string \<Rightarrow> rat option \<times> string option \<Rightarrow> string \<Rightarrow> json" where
  "buildBucketSelectionJsonPayload bucketNames bucketsByName columns generatedAt scope scopeKey =
     JObj [(''generated_at'', JStr generatedAt), (scopeKey, scope_json scope),
       (''items'', JArr (map (\<lambda>values. JObj (from_entries (zip (map ec_id columns) (map JStr values))))
          (buildBucketExportRows bucketNames bucketsByName columns)))]"

section \<open>A reader of quoted CSV\<close>

text \<open>Where the reader is: between cells, inside quotes, or after a quote inside quotes.\<close>

datatype csv_place = Between | Inside | Quote_Seen

record csv_state =
  cs_place :: csv_place
  cs_cell :: string
  cs_row :: "string list"
  cs_rows :: "string list list"

definition csv_end_cell :: "csv_state \<Rightarrow> csv_state" where
  "csv_end_cell st = st\<lparr>cs_row := cs_row st @ [cs_cell st], cs_cell := [], cs_place := Between\<rparr>"

definition csv_end_row :: "csv_state \<Rightarrow> csv_state" where
  "csv_end_row st = (let st' = csv_end_cell st in st'\<lparr>cs_rows := cs_rows st' @ [cs_row st'], cs_row := []\<rparr>)"

definition csv_char :: "char \<Rightarrow> csv_state \<Rightarrow> csv_state" where
  "csv_char c st = (case cs_place st of
     Between \<Rightarrow> (if c = CHR 0x22 then st\<lparr>cs_place := Inside\<rparr> else st)
   | Inside \<Rightarrow> (if c = CHR 0x22 then st\<lparr>cs_place := Quote_Seen\<rparr> else st\<lparr>cs_cell := cs_cell st @ [c]\<rparr>)
   | Quote_Seen \<Rightarrow>
       if c = CHR 0x22 then st\<lparr>cs_place := Inside, cs_cell := cs_cell st @ [c]\<rparr>
       else if c = CHR '','' then csv_end_cell st
       else if c = CHR 0x0A then csv_end_row st
       else st)"

definition read_csv :: "string \<Rightarrow> string list list" where
  "read_csv s = cs_rows (csv_end_row (fold csv_char s \<lparr>cs_place = Between, cs_cell = [], cs_row = [], cs_rows = []\<rparr>))"

abbreviation csv_at :: "csv_place \<Rightarrow> string \<Rightarrow> string list \<Rightarrow> string list list \<Rightarrow> csv_state" where
  "csv_at p c r rs \<equiv> \<lparr>cs_place = p, cs_cell = c, cs_row = r, cs_rows = rs\<rparr>"

lemma read_quoted:
  "fold csv_char (concat (map (\<lambda>c. if c = CHR 0x22 then dquote @ dquote else [c]) v)) (csv_at Inside c r rs) = csv_at Inside (c @ v) r rs"
  by (induction v arbitrary: c) (simp_all add: csv_char_def dquote_def)

lemma read_cell: "fold csv_char (csvEscape v) (csv_at Between [] r rs) = csv_at Quote_Seen v r rs"
  by (simp add: csvEscape_def read_quoted) (simp add: dquote_def csv_char_def read_quoted [simplified])

lemma read_line:
  "vs \<noteq> [] \<Longrightarrow> fold csv_char (csv_line vs) (csv_at Between [] r rs) = csv_at Quote_Seen (last vs) (r @ butlast vs) rs"
proof (induction vs arbitrary: r rule: induct_list012)
  case (3 x y zs)
  have "fold csv_char (csv_line (x # y # zs)) (csv_at Between [] r rs)
      = fold csv_char (csv_line (y # zs)) (fold csv_char '','' (csv_at Quote_Seen x r rs))"
    by (simp add: csv_line_def read_cell)
  also have "fold csv_char '','' (csv_at Quote_Seen x r rs) = csv_at Between [] (r @ [x]) rs"
    by (simp add: csv_char_def csv_end_cell_def)
  finally show ?case using 3(2) [of "r @ [x]"] by simp
qed (simp_all add: csv_line_def read_cell)

lemma end_line: "vs \<noteq> [] \<Longrightarrow> csv_end_row (csv_at Quote_Seen (last vs) (butlast vs) rs) = csv_at Between [] [] (rs @ [vs])"
  by (simp add: csv_end_row_def csv_end_cell_def Let_def)

lemma read_lines:
  assumes "list_all (\<lambda>vs. vs \<noteq> []) lines" and "lines \<noteq> []"
  shows "csv_end_row (fold csv_char (join newline (map csv_line lines)) (csv_at Between [] [] rs)) = csv_at Between [] [] (rs @ lines)"
  using assms
proof (induction lines arbitrary: rs rule: induct_list012)
  case (3 x y zs)
  have "csv_char (CHR 0x0A) (csv_at Quote_Seen (last x) (butlast x) rs) = csv_at Between [] [] (rs @ [x])"
    using 3(3) end_line [of x rs] by (simp add: csv_char_def)
  with 3 show ?case by (simp add: read_line newline_def)
qed (simp_all add: read_line end_line)

text \<open>
  The CSV of a selection reads back as it was meant: the labels of the columns, then one row for each
  selected bucket in the order of the selection, with the values of its columns whatever they contain, and
  with dashes for a bucket that was not loaded.
\<close>

theorem csv_reads_back:
  "read_csv (serializeBucketSelectionCsv names byName (buildBucketExportColumns h ids feats so expl))
   = map ec_label (buildBucketExportColumns h ids feats so expl)
     # map (\<lambda>n. map (\<lambda>c. case map_of byName n of Some b \<Rightarrow> ec_getValue c b | None \<Rightarrow> ''-'')
          (buildBucketExportColumns h ids feats so expl)) names"
proof -
  let ?cols = "buildBucketExportColumns h ids feats so expl"
  let ?lines = "map ec_label ?cols # buildBucketExportRows names byName ?cols"
  have "?cols \<noteq> []" by (simp add: buildBucketExportColumns_def)
  then have "list_all (\<lambda>vs. vs \<noteq> []) ?lines"
    by (auto simp: buildBucketExportRows_def list_all_iff split: option.split)
  from read_lines [OF this, of "[]"] show ?thesis
    by (simp add: read_csv_def serializeBucketSelectionCsv_def buildBucketExportRows_def cong: option.case_cong)
      (auto split: option.split)
qed

end
