(* ===== verification/Selection_Export.thy ===== *)
theory Selection_Export
  imports Bucket_Export Listing_Transport Selection Bulk_Properties
begin

text \<open>
  The buckets of a selection by their names, and their export:
  \<open>frontend/src/features/shared/bucketOpsNamedBucketLoader.ts\<close> (names in chunks of 50, each asked for in
  pages), \<open>bucketOpsSelectionTargets.ts\<close>, \<open>bucketOpsSelectionExport.ts\<close>, \<open>utils/pagination.ts\<close> and the
  timestamp of \<open>utils/download.ts\<close>. The chunks run in the settled pool of \<open>Concurrency\<close>; what is modelled
  here starts from its results, one for each chunk.
\<close>

section \<open>Pages\<close>

definition pageCount :: "rat \<Rightarrow> rat \<Rightarrow> int" where
  "pageCount tot pageSize = max 1 \<lceil>max 0 tot / max 1 pageSize\<rceil>"

text \<open>The loop over the pages; \<open>None\<close> when it does not end.\<close>

partial_function (option) collect_pages ::
  "(nat \<Rightarrow> ('s, bucket_page) io) \<Rightarrow> nat \<Rightarrow> CephAdminBucket list \<Rightarrow> 's \<Rightarrow> ((js_error + CephAdminBucket list) \<times> 's) option" where
  "collect_pages loadPage page items s = (case loadPage page s of
     (Inl e, t) \<Rightarrow> Some (Inl e, t)
   | (Inr response, t) \<Rightarrow>
      (let items' = items @ pg_items response in
       if \<not> pg_has_next response then Some (Inr items', t) else collect_pages loadPage (page + 1) items' t))"

definition collectPaginatedItems :: "(nat \<Rightarrow> ('s, bucket_page) io) \<Rightarrow> 's \<Rightarrow> ((js_error + CephAdminBucket list) \<times> 's) option" where
  "collectPaginatedItems loadPage = collect_pages loadPage 1 []"

section \<open>Buckets by name\<close>

function chunks_of :: "nat \<Rightarrow> 'a list \<Rightarrow> 'a list list" where
  "chunks_of n xs = (if n = 0 \<or> xs = [] then [] else take n xs # chunks_of n (drop n xs))"
  by auto
termination by (relation "measure (\<lambda>(n, xs). length xs)") auto

declare chunks_of.simps [simp del]

definition chunkSize :: nat where
  "chunkSize = 50"

definition named_filter :: "js_host \<Rightarrow> string list \<Rightarrow> string" where
  "named_filter h queryNames = stringify h (JObj [(''match'', JStr ''any''),
     (''rules'', JArr [JObj [(''field'', JStr ''name''), (''op'', JStr ''in''), (''value'', texts_json queryNames)]])])"

text \<open>The request for a page of a chunk, and the handler of a chunk.\<close>

definition named_params :: "js_host \<Rightarrow> (string \<Rightarrow> string) \<Rightarrow> string list option \<Rightarrow> bool \<Rightarrow> string list \<Rightarrow> nat \<Rightarrow> ListCephAdminBucketsParams" where
  "named_params h queryBucketName inc withStats chunk page = \<lparr>bl_page = Some page, bl_page_size = Some 200, bl_filter = None,
     bl_advanced_filter = Some (named_filter h (js_set (map queryBucketName chunk))), bl_sort_by = None, bl_sort_desc = None,
     bl_include = filled_list inc, bl_with_stats = Some withStats, bl_ui_tag_ids = None, bl_tag_match_all = None\<rparr>"

type_synonym 's bucket_lister = "nat \<Rightarrow> ListCephAdminBucketsParams \<Rightarrow> ('s, bucket_page) io"

definition load_chunk :: "js_host \<Rightarrow> 's bucket_lister \<Rightarrow> nat \<Rightarrow> (string \<Rightarrow> string) \<Rightarrow> string list option \<Rightarrow> bool \<Rightarrow> string list
   \<Rightarrow> 's \<Rightarrow> ((js_error + CephAdminBucket list) \<times> 's) option" where
  "load_chunk h listBuckets scopeId queryBucketName inc withStats chunk =
     collectPaginatedItems (\<lambda>page. listBuckets scopeId (named_params h queryBucketName inc withStats chunk page))"

text \<open>The progress reported after each chunk of the notices: completed, total and failed names.\<close>

fun named_progress :: "nat \<Rightarrow> string list list \<Rightarrow> (nat \<times> (CephAdminBucket list, js_error) settled) list \<Rightarrow> nat \<Rightarrow> nat
   \<Rightarrow> (nat \<times> nat \<times> nat) list" where
  "named_progress tot chunks [] completed failed = []"
| "named_progress tot chunks ((index, r) # notices) completed failed =
     (let chunkLength = (if index < length chunks then length (chunks ! index) else 0);
          c = completed + chunkLength; f = (if is_rejected r then failed + chunkLength else failed) in
      (min tot c, tot, f) # named_progress tot chunks notices c f)"

definition fulfilled_values :: "('r, 'e) settled list \<Rightarrow> 'r list" where
  "fulfilled_values res = List.map_filter (\<lambda>r. case r of Fulfilled v \<Rightarrow> Some v | Rejected _ \<Rightarrow> None) res"

definition loadBucketOpsBucketsByNames ::
  "(CephAdminBucket \<Rightarrow> string) \<Rightarrow> string list \<Rightarrow> (CephAdminBucket list, js_error) settled list \<Rightarrow> js_error + bucket_map" where
  "loadBucketOpsBucketsByNames bucketKey bucketNames chunkResults =
     (if length bucketNames = 0 then Inr []
      else case find is_rejected chunkResults of
        Some (Rejected e) \<Rightarrow> Inl e
      | _ \<Rightarrow> Inr (add_buckets bucketKey (concat (fulfilled_values chunkResults)) []))"

definition selection_bucket_key :: "bool \<Rightarrow> CephAdminBucket \<Rightarrow> string" where
  "selection_bucket_key isStorageOps b =
     (if isStorageOps then string_prop b ''name'' else encodeCephAdminBucketRef (string_prop b ''name'') (tenant_prop b))"

definition query_bucket_name :: "bool \<Rightarrow> string \<Rightarrow> string" where
  "query_bucket_name isStorageOps bucketName =
     (if isStorageOps then bucketName else ref_bucketName (decodeCephAdminBucketRef bucketName))"

section \<open>The targets of a selection\<close>

record SelectionTarget =
  tg_key :: string
  tg_name :: string
  tg_tenant :: "string option"

definition compare_targets :: "js_host \<Rightarrow> SelectionTarget \<Rightarrow> SelectionTarget \<Rightarrow> int" where
  "compare_targets h left right =
     (if tg_name left \<noteq> tg_name right then localeCompare h (tg_name left) (tg_name right)
      else localeCompare h (or_empty (tg_tenant left)) (or_empty (tg_tenant right)))"

text \<open>The targets and the names that were not found.\<close>

definition resolveBucketOpsSelectionTargets ::
  "js_host \<Rightarrow> bool \<Rightarrow> (CephAdminBucket \<Rightarrow> SelectionTarget option) \<Rightarrow> nat option \<Rightarrow> string list
   \<Rightarrow> (CephAdminBucket list, js_error) settled list \<Rightarrow> js_error + (SelectionTarget list \<times> string list)" where
  "resolveBucketOpsSelectionTargets h isStorageOps resolveTarget scopeId bucketNames chunkResults =
     (if scopeId = None \<or> length bucketNames = 0 then Inr ([], bucketNames)
      else case loadBucketOpsBucketsByNames (selection_bucket_key isStorageOps) bucketNames chunkResults of
        Inl e \<Rightarrow> Inl e
      | Inr bucketsByName \<Rightarrow>
          (let found = List.map_filter (\<lambda>(k, b). map_option (\<lambda>t. (k, t)) (resolveTarget b)) bucketsByName;
               targetByKey = fold (\<lambda>(_, t) m. AList.update (tg_key t) t m) found [] in
           Inr (js_sort (compare_targets h) (map snd targetByKey), filter (\<lambda>n. n \<notin> fst ` set found) bucketNames)))"

section \<open>The export\<close>

datatype SelectionExportFormat = TextFormat | CsvFormat | JsonFormat

record selection_export_input =
  xi_bucketNames :: "string list"
  xi_exportPrefix :: string
  xi_exportScopeKey :: string
  xi_exportWithStats :: bool
  xi_featureColumns :: "(string \<times> string \<times> string) list"
  xi_filteredQuery :: ListCephAdminBucketsParams
  xi_format :: SelectionExportFormat
  xi_fullyResolved :: bool
  xi_include :: "string list"
  xi_isStorageOps :: bool
  xi_scopeDisplayName :: string
  xi_scopeId :: "nat option"
  xi_scopeName :: "string option"
  xi_total :: int
  xi_useExplicitBucketName :: bool
  xi_visibleBuckets :: "CephAdminBucket list"
  xi_visibleColumns :: "string list"

text \<open>The load of all filtered buckets, when the whole filtered result is selected.\<close>

definition export_filtered :: "'s bucket_lister \<Rightarrow> selection_export_input \<Rightarrow> nat \<Rightarrow> 's \<Rightarrow> ((js_error + bucket_map) \<times> 's) option" where
  "export_filtered listBuckets input scopeId =
     loadBucketOpsFilteredBuckets (selection_bucket_key (xi_isStorageOps input))
       (\<lambda>page. listBuckets scopeId ((xi_filteredQuery input)\<lparr>bl_include := filled_list (Some (xi_include input)),
          bl_with_stats := Some (xi_exportWithStats input), bl_page := Some page, bl_page_size := Some 200\<rparr>))
       (Some (xi_total input))"

text \<open>The visible buckets that are selected, replaced by those loaded by name.\<close>

definition selected_only :: "(CephAdminBucket \<Rightarrow> string) \<Rightarrow> string list \<Rightarrow> CephAdminBucket list \<Rightarrow> bucket_map" where
  "selected_only bucketKey names bs = add_buckets bucketKey (filter (\<lambda>b. bucketKey b \<in> set names) bs) []"

definition loadSelectionBuckets ::
  "'s bucket_lister \<Rightarrow> selection_export_input \<Rightarrow> (CephAdminBucket list, js_error) settled list \<Rightarrow> 's \<Rightarrow> ((js_error + bucket_map) \<times> 's) option" where
  "loadSelectionBuckets listBuckets input chunkResults s =
     (let names = xi_bucketNames input; key = selection_bucket_key (xi_isStorageOps input);
          visible = selected_only key names (xi_visibleBuckets input) in
      if xi_fullyResolved input
      then (case xi_scopeId input of
          None \<Rightarrow> Some (Inr [], s)
        | Some scopeId \<Rightarrow> if xi_total input \<le> 0 then Some (Inr [], s) else export_filtered listBuckets input scopeId s)
      else if xi_scopeId input = None \<or> length names = 0 then Some (Inr visible, s)
      else (case loadBucketOpsBucketsByNames key names chunkResults of
          Inl e \<Rightarrow> Some (Inl e, s)
        | Inr loaded \<Rightarrow> Some (Inr (fold (\<lambda>(k, b) m. if k \<in> set names then AList.update k b m else m) loaded visible), s)))"

record BucketOpsSelectionExportArtifact =
  xa_content :: string
  xa_filename :: string
  xa_mimeType :: string

definition formatDownloadTimestamp :: "string \<Rightarrow> string" where
  "formatDownloadTimestamp v = map (\<lambda>c. if c = CHR '':'' \<or> c = CHR ''.'' then CHR ''-'' else c) v"

definition export_filename :: "selection_export_input \<Rightarrow> string \<Rightarrow> string" where
  "export_filename input generatedAt =
     (let fallbackScopeName = (case xi_scopeId input of
            None \<Rightarrow> toLowerCase (xi_scopeDisplayName input)
          | Some i \<Rightarrow> toLowerCase (xi_scopeDisplayName input) @ ''-'' @ nat_string i);
          scopePart = sanitizeExportFilenamePart (Some (case xi_scopeName input of Some n \<Rightarrow> n | None \<Rightarrow> fallbackScopeName)) in
      xi_exportPrefix input @ ''-buckets-'' @ scopePart @ ''-'' @ formatDownloadTimestamp generatedAt)"

text \<open>\<open>generatedAt\<close> is the time as \<open>toISOString\<close> writes it.\<close>

definition prepareBucketOpsSelectionExport ::
  "js_host \<Rightarrow> 's bucket_lister \<Rightarrow> string \<Rightarrow> selection_export_input \<Rightarrow> (CephAdminBucket list, js_error) settled list \<Rightarrow> 's
   \<Rightarrow> ((js_error + BucketOpsSelectionExportArtifact) \<times> 's) option" where
  "prepareBucketOpsSelectionExport h listBuckets generatedAt input chunkResults s =
     (let name = export_filename input generatedAt in
      if xi_format input = TextFormat
      then Some (Inr \<lparr>xa_content = join newline (xi_bucketNames input), xa_filename = name @ ''.txt'',
        xa_mimeType = ''text/plain;charset=utf-8''\<rparr>, s)
      else (case loadSelectionBuckets listBuckets input chunkResults s of
          None \<Rightarrow> None
        | Some (Inl e, t) \<Rightarrow> Some (Inl e, t)
        | Some (Inr byName, t) \<Rightarrow>
            (let columns = buildBucketExportColumns h (xi_visibleColumns input) (xi_featureColumns input)
                  (xi_isStorageOps input) (xi_useExplicitBucketName input) in
             Some (Inr (if xi_format input = CsvFormat
               then \<lparr>xa_content = serializeBucketSelectionCsv (xi_bucketNames input) byName columns,
                 xa_filename = name @ ''.csv'', xa_mimeType = ''text/csv;charset=utf-8''\<rparr>
               else \<lparr>xa_content = stringify2 h [] (buildBucketSelectionJsonPayload (xi_bucketNames input) byName columns generatedAt
                   (map_option of_nat (xi_scopeId input), xi_scopeName input) (xi_exportScopeKey input)),
                 xa_filename = name @ ''.json'', xa_mimeType = ''application/json''\<rparr>), t))))"

section \<open>What is found\<close>

lemma page_appended:
  assumes "p > 0"
  shows "take ((p - 1) * 200) xs @ pg_items (page_of xs p) = take (p * 200) xs"
proof -
  have "p * 200 = (p - 1) * 200 + 200" using assms by (cases p) auto
  then show ?thesis by (simp only: take_add) (simp add: page_of_def)
qed

lemma collect_pages_all:
  assumes "\<And>p. loadPage p s = (Inr (page_of xs p), s)" and "p > 0"
  shows "collect_pages loadPage p (take ((p - 1) * 200) xs) s = Some (Inr xs, s)"
  using assms(2)
proof (induction "length xs - p * 200" arbitrary: p rule: less_induct)
  case less
  have step: "collect_pages loadPage p (take ((p - 1) * 200) xs) s =
      (if \<not> pg_has_next (page_of xs p) then Some (Inr (take (p * 200) xs), s)
       else collect_pages loadPage (p + 1) (take ((p + 1 - 1) * 200) xs) s)"
    using page_appended [OF less.prems, of xs] by (subst collect_pages.simps) (simp add: assms(1) Let_def)
  show ?case
  proof (cases "p * 200 < length xs")
    case True
    then have "collect_pages loadPage (p + 1) (take ((p + 1 - 1) * 200) xs) s = Some (Inr xs, s)"
      by (intro less.hyps) auto
    with True step show ?thesis by (simp add: page_of_def)
  next
    case False
    then show ?thesis using step by (simp add: page_of_def)
  qed
qed

lemma collect_all: "(\<And>p. loadPage p s = (Inr (page_of xs p), s)) \<Longrightarrow> collectPaginatedItems loadPage s = Some (Inr xs, s)"
  using collect_pages_all [of loadPage s xs 1] by (simp add: collectPaginatedItems_def)

lemma concat_chunks: "n > 0 \<Longrightarrow> concat (chunks_of n xs) = xs"
  by (induction n xs rule: chunks_of.induct) (subst chunks_of.simps, simp)

text \<open>The names a filter asks for, and a server that lists the buckets with such a name.\<close>

definition names_wanted :: "string \<Rightarrow> string list" where
  "names_wanted f = (case jmember (json_parse f) ''rules'' of
     Some (JArr (r # _)) \<Rightarrow> (case jmember (Some r) ''value'' of
        Some (JArr vs) \<Rightarrow> map (\<lambda>v. case v of JStr s \<Rightarrow> s | _ \<Rightarrow> []) vs | _ \<Rightarrow> [])
   | _ \<Rightarrow> [])"

definition lists_by_name :: "'s bucket_lister \<Rightarrow> nat \<Rightarrow> CephAdminBucket list \<Rightarrow> 's \<Rightarrow> bool" where
  "lists_by_name listBuckets scopeId bs s \<longleftrightarrow> (\<forall>p page f. bl_page p = Some page \<and> bl_page_size p = Some 200 \<and> bl_advanced_filter p = Some f
     \<longrightarrow> listBuckets scopeId p s = (Inr (page_of (filter (\<lambda>b. string_prop b ''name'' \<in> set (names_wanted f)) bs) page), s))"

lemma names_wanted_named: "names_wanted (named_filter h names) = names"
proof -
  have "json_parse (named_filter h names) = Some (JObj [(''match'', JStr ''any''),
     (''rules'', JArr [JObj [(''field'', JStr ''name''), (''op'', JStr ''in''), (''value'', texts_json names)]])])"
    unfolding named_filter_def by (rule json_parse_stringify) (simp add: texts_json_def list_all_iff)
  then show ?thesis by (simp add: names_wanted_def jmember_def texts_json_def comp_def)
qed

definition chunk_result :: "((js_error + 'a) \<times> 's) option \<Rightarrow> ('a, js_error) settled" where
  "chunk_result r = (case r of Some (Inr v, _) \<Rightarrow> Fulfilled v | Some (Inl e, _) \<Rightarrow> Rejected e | None \<Rightarrow> Rejected TypeErr)"

lemma load_chunk_found:
  assumes "lists_by_name listBuckets scopeId bs s"
  shows "load_chunk h listBuckets scopeId q inc w chunk s
    = Some (Inr (filter (\<lambda>b. string_prop b ''name'' \<in> q ` set chunk) bs), s)"
  unfolding load_chunk_def
proof (rule collect_all)
  show "listBuckets scopeId (named_params h q inc w chunk p) s
      = (Inr (page_of (filter (\<lambda>b. string_prop b ''name'' \<in> q ` set chunk) bs) p), s)" for p
    using assms by (simp add: lists_by_name_def named_params_def names_wanted_named)
qed

lemma find_append: "find p (xs @ ys) = (case find p xs of Some b \<Rightarrow> Some b | None \<Rightarrow> find p ys)"
  by (induction xs) auto

lemma add_buckets_map_of:
  "map_of (add_buckets key xs m) k = (case find (\<lambda>b. key b = k) (rev xs) of Some b \<Rightarrow> Some b | None \<Rightarrow> map_of m k)"
proof (induction xs arbitrary: m)
  case (Cons x xs)
  then show ?case by (simp add: add_buckets_def find_append update_conv' split: option.split)
qed (simp add: add_buckets_def)

lemma find_unique:
  assumes "distinct (map key bs)" and "set xs \<subseteq> set bs" and "\<And>b. b \<in> set bs \<Longrightarrow> key b = k \<Longrightarrow> b \<in> set xs"
  shows "find (\<lambda>b. key b = k) xs = find (\<lambda>b. key b = k) bs"
proof (cases "find (\<lambda>b. key b = k) bs")
  case None
  then have "find (\<lambda>b. key b = k) xs = None" using assms(2) by (auto simp: find_None_iff)
  with None show ?thesis by simp
next
  case (Some b)
  then have b: "b \<in> set bs" "key b = k" by (auto simp: find_Some_iff)
  have "b \<in> set xs" by (rule assms(3) [OF b])
  with b(2) obtain c where c: "find (\<lambda>b. key b = k) xs = Some c"
    by (cases "find (\<lambda>b. key b = k) xs") (auto simp: find_None_iff)
  then have "c \<in> set bs" "key c = k" using assms(2) by (auto simp: find_Some_iff)
  then have "c = b" using b assms(1) by (metis distinct_map inj_on_def)
  with c Some show ?thesis by simp
qed

lemma find_filter: "(\<And>x. p x \<Longrightarrow> q x) \<Longrightarrow> find p (filter q xs) = find p xs"
  by (induction xs) auto

lemma selected_only_map_of: "n \<in> set names \<Longrightarrow> map_of (selected_only key names bs) n = find (\<lambda>b. key b = n) (rev bs)"
  by (subst find_filter [of _ "\<lambda>b. key b \<in> set names", symmetric])
    (auto simp: selected_only_def add_buckets_map_of rev_filter split: option.split)

lemma merge_loaded_map_of:
  "distinct (map fst l) \<Longrightarrow> n \<in> set names \<Longrightarrow>
   map_of (fold (\<lambda>(k, b) m. if k \<in> set names then AList.update k b m else m) l m) n
   = (case map_of l n of Some b \<Rightarrow> Some b | None \<Rightarrow> map_of m n)"
proof (induction l arbitrary: m)
  case (Cons kb l)
  then have "map_of l (fst kb) = None" by (simp add: map_of_eq_None_iff)
  with Cons show ?case by (cases kb) (auto simp: update_conv' split: option.split)
qed simp

text \<open>The results of the chunks on a server that lists by name, and what they hold together.\<close>

definition chunk_results ::
  "js_host \<Rightarrow> 's bucket_lister \<Rightarrow> nat \<Rightarrow> (string \<Rightarrow> string) \<Rightarrow> string list option \<Rightarrow> bool \<Rightarrow> string list \<Rightarrow> 's
   \<Rightarrow> (CephAdminBucket list, js_error) settled list" where
  "chunk_results h listBuckets scopeId q inc w names s =
     map (\<lambda>chunk. chunk_result (load_chunk h listBuckets scopeId q inc w chunk s)) (chunks_of chunkSize names)"

lemma chunk_results_found:
  assumes "lists_by_name listBuckets scopeId bs s"
  shows "chunk_results h listBuckets scopeId q inc w names s
    = map (\<lambda>chunk. Fulfilled (filter (\<lambda>b. string_prop b ''name'' \<in> q ` set chunk) bs)) (chunks_of chunkSize names)"
  by (simp add: chunk_results_def chunk_result_def load_chunk_found [OF assms])

lemma fulfilled_all: "fulfilled_values (map (\<lambda>c. Fulfilled (f c)) cs) = map f cs"
  by (induction cs) (simp_all add: fulfilled_values_def)

lemma none_rejected: "find is_rejected (map (\<lambda>c. Fulfilled (f c)) cs) = None"
  by (induction cs) (simp_all add: is_rejected_def)

lemma loaded_by_name:
  assumes "lists_by_name listBuckets scopeId bs s" and "names \<noteq> []" and "distinct (map key bs)"
    and "\<And>b. b \<in> set bs \<Longrightarrow> q (key b) = string_prop b ''name''"
  obtains loaded where "loadBucketOpsBucketsByNames key names (chunk_results h listBuckets scopeId q inc w names s) = Inr loaded"
    and "distinct (map fst loaded)" and "\<And>n. n \<in> set names \<Longrightarrow> map_of loaded n = find (\<lambda>b. key b = n) bs"
proof
  let ?found = "\<lambda>chunk. filter (\<lambda>b. string_prop b ''name'' \<in> q ` set chunk) bs"
  let ?all = "concat (map ?found (chunks_of chunkSize names))"
  show "loadBucketOpsBucketsByNames key names (chunk_results h listBuckets scopeId q inc w names s) = Inr (add_buckets key ?all [])"
    using assms(2) by (simp add: loadBucketOpsBucketsByNames_def chunk_results_found [OF assms(1)] fulfilled_all none_rejected)
  show "distinct (map fst (add_buckets key ?all []))" by (rule add_buckets_keys(2)) simp
  fix n assume n: "n \<in> set names"
  then have "n \<in> set (concat (chunks_of chunkSize names))" by (simp add: concat_chunks chunkSize_def)
  then obtain chunk where chunk: "chunk \<in> set (chunks_of chunkSize names)" "n \<in> set chunk" by auto
  have "find (\<lambda>b. key b = n) (rev ?all) = find (\<lambda>b. key b = n) bs"
  proof (rule find_unique [OF assms(3)])
    show "set (rev ?all) \<subseteq> set bs" by auto
    show "b \<in> set (rev ?all)" if "b \<in> set bs" "key b = n" for b
      using that chunk assms(4) [OF that(1)] by (auto intro!: bexI [of _ chunk] image_eqI [of _ q "key b"])
  qed
  then show "map_of (add_buckets key ?all []) n = find (\<lambda>b. key b = n) bs"
    by (simp add: add_buckets_map_of split: option.split)
qed

section \<open>Properties\<close>


definition sample_lister :: "CephAdminBucket list \<Rightarrow> nat bucket_lister" where
  "sample_lister bs scopeId p s = (case (bl_page p, bl_advanced_filter p) of
     (Some page, Some f) \<Rightarrow> (Inr (page_of (filter (\<lambda>b. string_prop b ''name'' \<in> set (names_wanted f)) bs) page), s)
   | _ \<Rightarrow> (Inl (HttpError 400 []), s))"

definition sample_export_input :: "selection_export_input" where
  "sample_export_input = \<lparr>xi_bucketNames = [''b'', ''gone'', ''a''], xi_exportPrefix = ''storage-ops'', xi_exportScopeKey = ''scope'',
     xi_exportWithStats = False, xi_featureColumns = [], xi_filteredQuery = \<lparr>bl_page = None, bl_page_size = None, bl_filter = None,
       bl_advanced_filter = None, bl_sort_by = None, bl_sort_desc = None, bl_include = None, bl_with_stats = None,
       bl_ui_tag_ids = None, bl_tag_match_all = None\<rparr>, xi_format = CsvFormat, xi_fullyResolved = False, xi_include = [''tags''],
     xi_isStorageOps = True, xi_scopeDisplayName = ''Scope'', xi_scopeId = Some 1, xi_scopeName = None, xi_total = 2,
     xi_useExplicitBucketName = False, xi_visibleBuckets = [[(''name'', JStr ''a'')]], xi_visibleColumns = [''owner'']\<rparr>"

definition sample_listed :: "CephAdminBucket list" where
  "sample_listed = [[(''name'', JStr ''a''), (''owner'', JStr ''x,\"y'')], [(''name'', JStr ''b''), (''owner'', JStr ''z'')]]"


end
