(* ===== verification/Object_Upload.thy ===== *)
theory Object_Upload
  imports Bucket_Api "HOL-Library.Word"
begin

text \<open>
  The upload of an object in parts: \<open>frontend/src/features/browser/browserMultipartUpload.ts\<close>, with
  \<open>browserFetchTransferResponse.ts\<close> and \<open>normalizeEtag\<close> of \<open>browserUtils.ts\<close>. This
  theory holds the upload of a stream, where one part is sent after the other; \<open>File_Upload\<close> holds the
  upload of a file, where workers send parts at the same time. The reference is an S3 server that keeps
  the parts of one upload and may lose any request or any answer.
\<close>

section \<open>Answers\<close>

type_synonym bytes = "8 word list"

text \<open>
  \<open>tr_error\<close> is what \<open>extractBrowserErrorDetails\<close> reads in the body of an answer: a code and a message.
\<close>

record transfer_response =
  tr_status :: nat
  tr_statusText :: string
  tr_etag :: "string option"
  tr_error :: "string option \<times> string option"

definition transfer_ok :: "transfer_response \<Rightarrow> bool" where
  "transfer_ok r \<longleftrightarrow> 200 \<le> tr_status r \<and> tr_status r < 300"

definition some_text :: "string option \<Rightarrow> string" where
  "some_text v = (case v of Some s \<Rightarrow> s | None \<Rightarrow> [])"

definition formatBrowserFetchTransferError :: "transfer_response \<Rightarrow> string \<Rightarrow> string" where
  "formatBrowserFetchTransferError r fallback =
     (let code = some_text (fst (tr_error r)); detail = some_text (snd (tr_error r));
          statusLabel = ''HTTP '' @ nat_string (tr_status r) @ (if tr_statusText r = [] then [] else '' '' @ tr_statusText r);
          detailLabel = (if code \<noteq> [] \<and> detail \<noteq> [] then code @ '': '' @ detail else if detail \<noteq> [] then detail else code) in
      fallback @ '': '' @ join '' - '' (filter (\<lambda>p. p \<noteq> []) [statusLabel, detailLabel]))"

definition ensureSuccessfulBrowserTransferResponse :: "transfer_response \<Rightarrow> string \<Rightarrow> ('s, transfer_response) io" where
  "ensureSuccessfulBrowserTransferResponse r fallback =
     (if transfer_ok r then io_return r else io_throw (JsErr (formatBrowserFetchTransferError r fallback)))"

definition normalizeEtag :: "string option \<Rightarrow> string option" where
  "normalizeEtag raw = (case raw of None \<Rightarrow> None | Some [] \<Rightarrow> None | Some s \<Rightarrow> Some (filter (\<lambda>c. c \<noteq> CHR 0x22) s))"

section \<open>The calls of an upload\<close>

type_synonym presigned = "string \<times> (string \<times> string) list"

type_synonym completed_part = "nat \<times> string"

text \<open>
  The lifecycle, \<open>directFetch\<close> of a PUT (the signed URL with its headers, the body and its content type), the
  cancellation of the reader, and the signal of the caller.
\<close>

record 's upload_api =
  up_initiate :: "('s, string) io"
  up_presign :: "string \<Rightarrow> nat \<Rightarrow> ('s, presigned) io"
  up_put :: "presigned \<Rightarrow> bytes \<Rightarrow> string \<Rightarrow> ('s, transfer_response) io"
  up_complete :: "string \<Rightarrow> completed_part list \<Rightarrow> ('s, unit) io"
  up_abort :: "string \<Rightarrow> ('s, unit) io"
  up_signal :: "'s \<Rightarrow> bool"

text \<open>\<open>try ... catch\<close>, with a handler that ends by throwing again.\<close>

definition io_catch :: "('s, 'a) io \<Rightarrow> (js_error \<Rightarrow> ('s, 'a) io) \<Rightarrow> ('s, 'a) io" where
  "io_catch m handler = (\<lambda>s. case m s of (Inl e, t) \<Rightarrow> handler e t | r \<Rightarrow> r)"

definition abortStartedUpload :: "'s upload_api \<Rightarrow> string \<Rightarrow> ('s, unit) io" where
  "abortStartedUpload api uploadId =
     (if uploadId = [] then io_return () else io_catch (up_abort api uploadId) (\<lambda>_. io_return ()))"

definition MAX_PART_SIZE :: nat where
  "MAX_PART_SIZE = 5 * 1024 ^ 3"

definition part_count :: "nat \<Rightarrow> nat \<Rightarrow> nat" where
  "part_count bytes partSize = (bytes + partSize - 1) div partSize"

section \<open>The upload of a stream\<close>

text \<open>One part; \<open>contentType\<close> as given by the caller.\<close>

definition flushPart :: "'s upload_api \<Rightarrow> string option \<Rightarrow> string \<Rightarrow> nat \<Rightarrow> bytes \<Rightarrow> ('s, completed_part) io" where
  "flushPart api contentType uploadId partNumber partBytes = (\<lambda>s.
     if uploadId = [] then (Inl (JsErr ''Missing multipart upload ID.''), s)
     else if up_signal api s then (Inl (JsErr ''AbortError: Transfer cancelled''), s)
     else if partNumber > 10000 then (Inl (JsErr ''Multipart part limit exceeded.''), s)
     else io_bind (up_presign api uploadId partNumber) (\<lambda>presignedPart.
       io_bind (up_put api presignedPart partBytes (case contentType of Some (c # cs) \<Rightarrow> c # cs | _ \<Rightarrow> ''application/octet-stream''))
         (\<lambda>response. io_bind (ensureSuccessfulBrowserTransferResponse response ''Multipart upload failed'') (\<lambda>_.
            case normalizeEtag (tr_etag response) of
              Some (c # cs) \<Rightarrow> io_return (partNumber, c # cs)
            | _ \<Rightarrow> io_throw (JsErr ''Missing ETag from multipart upload.'')))) s)"

text \<open>The bytes not sent yet, the number of the next part, and the parts sent.\<close>

type_synonym stream_state = "bytes \<times> nat \<times> completed_part list"

function flush_full :: "'s upload_api \<Rightarrow> string option \<Rightarrow> nat \<Rightarrow> string \<Rightarrow> stream_state \<Rightarrow> ('s, stream_state) io" where
  "flush_full api contentType partSize uploadId (pending, partNumber, parts) =
     (if partSize = 0 \<or> length pending < partSize then io_return (pending, partNumber, parts)
      else io_bind (flushPart api contentType uploadId partNumber (take partSize pending)) (\<lambda>p.
        flush_full api contentType partSize uploadId (drop partSize pending, partNumber + 1, parts @ [p])))"
  by pat_completeness auto
termination by (relation "measure (\<lambda>(api, c, n, u, pending, k, parts). length pending)") auto

declare flush_full.simps [simp del]

text \<open>The chunks of the stream, of which one may be the failure of the reader.\<close>

fun read_stream :: "'s upload_api \<Rightarrow> string option \<Rightarrow> nat \<Rightarrow> nat \<Rightarrow> string \<Rightarrow> (js_error + bytes) list \<Rightarrow> nat \<Rightarrow> stream_state
   \<Rightarrow> ('s, nat \<times> stream_state) io" where
  "read_stream api contentType sizeBytes partSize uploadId [] receivedBytes st = io_return (receivedBytes, st)"
| "read_stream api contentType sizeBytes partSize uploadId (Inl e # chunks) receivedBytes st = io_throw e"
| "read_stream api contentType sizeBytes partSize uploadId (Inr v # chunks) receivedBytes (pending, partNumber, parts) =
     (if v = [] then read_stream api contentType sizeBytes partSize uploadId chunks receivedBytes (pending, partNumber, parts)
      else if receivedBytes + length v > sizeBytes
      then io_throw (JsErr ''Source changed during transfer (size mismatch).'')
      else io_bind (flush_full api contentType partSize uploadId (pending @ v, partNumber, parts))
        (read_stream api contentType sizeBytes partSize uploadId chunks (receivedBytes + length v)))"

definition compare_parts :: "completed_part \<Rightarrow> completed_part \<Rightarrow> int" where
  "compare_parts l r = int (fst l) - int (fst r)"

text \<open>The body of the \<open>try\<close> after the upload has been started.\<close>

definition send_stream :: "'s upload_api \<Rightarrow> string option \<Rightarrow> nat \<Rightarrow> nat \<Rightarrow> (js_error + bytes) list \<Rightarrow> string \<Rightarrow> ('s, unit) io" where
  "send_stream api contentType sizeBytes partSize chunks uploadId =
     io_bind (read_stream api contentType sizeBytes partSize uploadId chunks 0 ([], 1, [])) (\<lambda>(receivedBytes, pending, partNumber, parts).
       if receivedBytes \<noteq> sizeBytes then io_throw (JsErr ''Source changed during transfer (size mismatch).'')
       else io_bind (if length pending > 0 \<or> sizeBytes = 0
              then io_bind (flushPart api contentType uploadId partNumber pending) (\<lambda>p. io_return (parts @ [p]))
              else io_return parts)
         (\<lambda>completedParts. up_complete api uploadId (js_sort compare_parts completedParts)))"

definition uploadBrowserStreamMultipart ::
  "'s upload_api \<Rightarrow> (js_error + bytes) list \<Rightarrow> nat \<Rightarrow> string option \<Rightarrow> nat \<Rightarrow> ('s, unit) io" where
  "uploadBrowserStreamMultipart api chunks sizeBytes contentType partSize =
     (if partSize = 0 \<or> partSize > MAX_PART_SIZE \<or> part_count sizeBytes partSize > 10000
      then io_throw (JsErr ''File exceeds multipart upload limits.'')
      else io_bind (up_initiate api) (\<lambda>uploadId.
        io_catch (send_stream api contentType sizeBytes partSize chunks uploadId)
          (\<lambda>e. io_seq (abortStartedUpload api uploadId) (io_throw e))))"

section \<open>An S3 server\<close>

text \<open>
  What happens to a request: it works, it is lost, its answer is lost, or it is cancelled by the signal. The
  script says it for the next ones; after it every request works.
\<close>

datatype fate = Works | Lost_Request | Lost_Answer | Cancelled

record s3_upload =
  s3_script :: "fate list"
  s3_signal :: bool
  s3_parts :: "(nat \<times> bytes) list"
  s3_open :: bool
  s3_object :: "bytes option"

definition s3_call :: "(s3_upload, 'a) io \<Rightarrow> (s3_upload, 'a) io" where
  "s3_call op s = (case s3_script s of
     [] \<Rightarrow> op s
   | f # fs \<Rightarrow> (let s' = s\<lparr>s3_script := fs\<rparr> in case f of
       Works \<Rightarrow> op s'
     | Lost_Request \<Rightarrow> (Inl (HttpError 503 []), s')
     | Lost_Answer \<Rightarrow> (Inl (HttpError 504 []), snd (op s'))
     | Cancelled \<Rightarrow> (Inl (JsErr ''AbortError''), s'\<lparr>s3_signal := True\<rparr>)))"

text \<open>\<open>tag\<close> gives the entity tag of a content, which answers carry in quotes.\<close>

definition plain_tag :: "(bytes \<Rightarrow> string) \<Rightarrow> bytes \<Rightarrow> string" where
  "plain_tag tag b = filter (\<lambda>c. c \<noteq> CHR 0x22) (tag b)"

definition assembled :: "(bytes \<Rightarrow> string) \<Rightarrow> s3_upload \<Rightarrow> completed_part list \<Rightarrow> bytes option" where
  "assembled tag s parts =
     (if parts \<noteq> [] \<and> sorted_wrt (<) (map fst parts)
         \<and> list_all (\<lambda>(n, e). case map_of (s3_parts s) n of Some b \<Rightarrow> plain_tag tag b = e | None \<Rightarrow> False) parts
      then Some (concat (map (\<lambda>(n, _). the (map_of (s3_parts s) n)) parts)) else None)"

definition s3_put :: "(bytes \<Rightarrow> string) \<Rightarrow> presigned \<Rightarrow> bytes \<Rightarrow> string \<Rightarrow> (s3_upload, transfer_response) io" where
  "s3_put tag url b ctype s =
     (if s3_open s
      then (Inr \<lparr>tr_status = 200, tr_statusText = ''OK'', tr_etag = Some ([CHR 0x22] @ tag b @ [CHR 0x22]), tr_error = (None, None)\<rparr>,
            s\<lparr>s3_parts := AList.update (digits_val (fst url)) b (s3_parts s)\<rparr>)
      else (Inr \<lparr>tr_status = 404, tr_statusText = ''Not Found'', tr_etag = None, tr_error = (Some ''NoSuchUpload'', None)\<rparr>, s))"

definition s3_complete :: "(bytes \<Rightarrow> string) \<Rightarrow> string \<Rightarrow> completed_part list \<Rightarrow> (s3_upload, unit) io" where
  "s3_complete tag uploadId parts s = (case (s3_open s, assembled tag s parts) of
     (True, Some b) \<Rightarrow> (Inr (), s\<lparr>s3_open := False, s3_parts := [], s3_object := Some b\<rparr>)
   | _ \<Rightarrow> (Inl (HttpError 400 ''InvalidPart''), s))"

definition s3_api :: "(bytes \<Rightarrow> string) \<Rightarrow> s3_upload upload_api" where
  "s3_api tag = \<lparr>up_initiate = s3_call (\<lambda>s. (Inr ''upload'', s\<lparr>s3_open := True, s3_parts := []\<rparr>)),
     up_presign = (\<lambda>uploadId n. s3_call (io_return (nat_string n, []))),
     up_put = (\<lambda>url b ctype. s3_call (s3_put tag url b ctype)),
     up_complete = (\<lambda>uploadId parts. s3_call (s3_complete tag uploadId parts)),
     up_abort = (\<lambda>uploadId. s3_call (\<lambda>s. (Inr (), s\<lparr>s3_open := False, s3_parts := []\<rparr>))),
     up_signal = s3_signal\<rparr>"

section \<open>The parts on the server\<close>

text \<open>The parts sent so far are kept by the server under 1, 2, and so on.\<close>

definition holds :: "(bytes \<Rightarrow> string) \<Rightarrow> bytes list \<Rightarrow> completed_part list \<Rightarrow> s3_upload \<Rightarrow> bool" where
  "holds tag bs parts s \<longleftrightarrow> s3_open s \<and> parts = map (\<lambda>(i, b). (Suc i, plain_tag tag b)) (enumerate 0 bs)
     \<and> (\<forall>i < length bs. map_of (s3_parts s) (Suc i) = Some (bs ! i))"

lemma s3_call_Inr:
  assumes "s3_call op s = (Inr x, t)"
  obtains fs where "op (s\<lparr>s3_script := fs\<rparr>) = (Inr x, t)"
proof (cases "s3_script s")
  case Nil
  then have "s\<lparr>s3_script := []\<rparr> = s" by simp
  moreover have "op s = (Inr x, t)" using assms Nil by (simp add: s3_call_def)
  ultimately show thesis using that [of "[]"] by metis
next
  case (Cons f fs)
  then show thesis using assms that [of fs] by (cases f) (auto simp: s3_call_def Let_def)
qed

lemma s3_call_works: "s3_script s = [] \<Longrightarrow> s3_call op s = op s"
  by (simp add: s3_call_def)

text \<open>A computation that never touches the object.\<close>

definition keeps_object :: "(s3_upload, 'a) io \<Rightarrow> bool" where
  "keeps_object m \<longleftrightarrow> (\<forall>s. s3_object (snd (m s)) = s3_object s)"

lemma keeps_object_ops:
  "keeps_object (io_return x)" "keeps_object (io_throw e)"
  "keeps_object op \<Longrightarrow> keeps_object (s3_call op)"
  "keeps_object m \<Longrightarrow> (\<And>x. keeps_object (f x)) \<Longrightarrow> keeps_object (io_bind m f)"
  "keeps_object m \<Longrightarrow> (\<And>e. keeps_object (g e)) \<Longrightarrow> keeps_object (io_catch m g)"
proof -
  show "keeps_object (s3_call op)" if "keeps_object op"
    using that by (simp add: keeps_object_def s3_call_def Let_def split: list.split fate.split)
  show "keeps_object (io_bind m f)" if "keeps_object m" "\<And>x. keeps_object (f x)"
    unfolding keeps_object_def io_bind_def
  proof
    fix s
    show "s3_object (snd (case m s of (Inl e, t) \<Rightarrow> (Inl e, t) | (Inr x, t) \<Rightarrow> f x t)) = s3_object s"
      using that by (cases "m s"; cases "fst (m s)") (auto simp: keeps_object_def split: prod.splits sum.splits, (metis snd_conv)+)
  qed
  show "keeps_object (io_catch m g)" if "keeps_object m" "\<And>e. keeps_object (g e)"
    unfolding keeps_object_def io_catch_def
  proof
    fix s
    show "s3_object (snd (case m s of (Inl e, t) \<Rightarrow> g e t | r \<Rightarrow> r)) = s3_object s"
      using that by (cases "m s"; cases "fst (m s)") (auto simp: keeps_object_def split: prod.splits sum.splits, (metis snd_conv)+)
  qed
qed (simp_all add: keeps_object_def)

lemma api_keeps_object:
  "keeps_object (up_initiate (s3_api tag))" "keeps_object (up_presign (s3_api tag) u n)"
  "keeps_object (up_put (s3_api tag) url b c)" "keeps_object (up_abort (s3_api tag) u)"
  unfolding s3_api_def upload_api.simps
  by (intro keeps_object_ops; simp add: keeps_object_def s3_put_def)+

lemma flushPart_keeps: "keeps_object (flushPart (s3_api tag) c u n b)"
proof -
  have "keeps_object (io_bind (up_presign (s3_api tag) u n) (\<lambda>presignedPart.
       io_bind (up_put (s3_api tag) presignedPart b ct)
         (\<lambda>response. io_bind (ensureSuccessfulBrowserTransferResponse response ''Multipart upload failed'') (\<lambda>_.
            case normalizeEtag (tr_etag response) of
              Some (c # cs) \<Rightarrow> io_return (n, c # cs)
            | _ \<Rightarrow> io_throw (JsErr ''Missing ETag from multipart upload.'')))))" (is "keeps_object ?m") for ct
    by (intro keeps_object_ops api_keeps_object)
      (auto simp: ensureSuccessfulBrowserTransferResponse_def keeps_object_ops split: option.split list.split)
  then show ?thesis by (simp add: keeps_object_def flushPart_def)
qed

lemma flush_full_keeps: "keeps_object (flush_full (s3_api tag) c ps u st)"
proof (induction "s3_api tag" c ps u st rule: flush_full.induct)
  case (1 c ps u pending k parts)
  then show ?case by (subst flush_full.simps) (auto intro: keeps_object_ops flushPart_keeps)
qed

lemma read_stream_keeps: "keeps_object (read_stream (s3_api tag) c n ps u chunks received st)"
  by (induction "s3_api tag" c n ps u chunks received st rule: read_stream.induct)
    (auto intro!: keeps_object_ops flush_full_keeps)

lemma plain_tag_quoted: "normalizeEtag (Some (CHR 0x22 # tag b @ [CHR 0x22])) = Some (plain_tag tag b)"
  by (simp add: normalizeEtag_def plain_tag_def)

lemma holds_script [simp]: "holds tag bs parts (s\<lparr>s3_script := fs\<rparr>) = holds tag bs parts s"
  by (simp add: holds_def)

lemma holds_snoc:
  assumes "holds tag bs parts s"
  shows "holds tag (bs @ [b]) (parts @ [(Suc (length bs), plain_tag tag b)])
    (s\<lparr>s3_parts := AList.update (Suc (length bs)) b (s3_parts s)\<rparr>)"
  using assms by (auto simp: holds_def nth_append less_Suc_eq update_conv' enumerate_append_eq)

lemma flushPart_sends:
  assumes "flushPart (s3_api tag) c u n b s = (Inr p, t)" and "holds tag bs parts s" and "n = Suc (length bs)"
  shows "holds tag (bs @ [b]) (parts @ [p]) t"
proof -
  let ?rest = "\<lambda>ct presignedPart. io_bind (up_put (s3_api tag) presignedPart b ct)
         (\<lambda>response. io_bind (ensureSuccessfulBrowserTransferResponse response ''Multipart upload failed'') (\<lambda>_.
            case normalizeEtag (tr_etag response) of
              Some (c # cs) \<Rightarrow> io_return (n, c # cs)
            | _ \<Rightarrow> io_throw (JsErr ''Missing ETag from multipart upload.'')))"
  obtain ct where "io_bind (up_presign (s3_api tag) u n) (?rest ct) s = (Inr p, t)"
    using assms(1) by (auto simp: flushPart_def split: if_splits)
  then obtain url v where url: "up_presign (s3_api tag) u n s = (Inr url, v)" and rest: "?rest ct url v = (Inr p, t)"
    by (auto simp: io_bind_Inr)
  from url have v: "url = (nat_string n, [])" "holds tag bs parts v"
    using assms(2) by (auto simp: s3_api_def elim!: s3_call_Inr)
  from rest obtain r w where put: "up_put (s3_api tag) url b ct v = (Inr r, w)"
    and fin: "(case normalizeEtag (tr_etag r) of Some (c # cs) \<Rightarrow> io_return (n, c # cs)
            | _ \<Rightarrow> io_throw (JsErr ''Missing ETag from multipart upload.'')) w = (Inr p, t)"
    by (auto simp: io_bind_Inr ensureSuccessfulBrowserTransferResponse_def split: if_splits)
  obtain fs where "s3_put tag url b ct (v\<lparr>s3_script := fs\<rparr>) = (Inr r, w)"
    using put by (auto simp: s3_api_def elim!: s3_call_Inr)
  moreover have "s3_open v" using v(2) by (simp add: holds_def)
  ultimately have r: "tr_etag r = Some (CHR 0x22 # tag b @ [CHR 0x22])"
    and w: "w = v\<lparr>s3_script := fs, s3_parts := AList.update n b (s3_parts v)\<rparr>"
    using v(1) by (auto simp: s3_put_def nat_string_digits)
  have "p = (n, plain_tag tag b)" "t = w"
    using fin by (auto simp: r plain_tag_quoted split: list.splits)
  then show ?thesis using holds_snoc [of tag bs parts "v\<lparr>s3_script := fs\<rparr>" b] v(2) assms(3) by (simp add: w)
qed

lemma flush_full_sends:
  assumes "flush_full (s3_api tag) c ps u (pending, k, parts) s = (Inr (pending', k', parts'), t)"
    and "holds tag bs parts s" and "k = Suc (length bs)"
  shows "\<exists>bs'. holds tag (bs @ bs') parts' t \<and> k' = Suc (length (bs @ bs')) \<and> concat bs' @ pending' = pending"
  using assms
proof (induction "length pending" arbitrary: pending k parts s bs rule: less_induct)
  case less
  show ?case
  proof (cases "ps = 0 \<or> length pending < ps")
    case True
    with less.prems show ?thesis by (subst (asm) flush_full.simps) (auto intro: exI [of _ "[]"])
  next
    case False
    then obtain p v where p: "flushPart (s3_api tag) c u k (take ps pending) s = (Inr p, v)"
      and rest: "flush_full (s3_api tag) c ps u (drop ps pending, k + 1, parts @ [p]) v = (Inr (pending', k', parts'), t)"
      using less.prems(1) by (subst (asm) flush_full.simps) (auto simp: io_bind_Inr)
    have "holds tag (bs @ [take ps pending]) (parts @ [p]) v" by (rule flushPart_sends [OF p less.prems(2,3)])
    then obtain bs' where "holds tag ((bs @ [take ps pending]) @ bs') parts' t" "k' = Suc (length ((bs @ [take ps pending]) @ bs'))"
        "concat bs' @ pending' = drop ps pending"
      using less.hyps [OF _ rest] False less.prems(3) by fastforce
    then show ?thesis by (intro exI [of _ "take ps pending # bs'"]) auto
  qed
qed

lemma read_stream_sends:
  assumes "read_stream (s3_api tag) c n ps u chunks received (pending, k, parts) s = (Inr (received', pending', k', parts'), t)"
    and "holds tag bs parts s" and "k = Suc (length bs)"
  shows "\<exists>vs bs'. chunks = map Inr vs \<and> holds tag (bs @ bs') parts' t \<and> k' = Suc (length (bs @ bs'))
    \<and> concat bs' @ pending' = pending @ concat vs \<and> received' = received + length (concat vs)"
  using assms
proof (induction chunks arbitrary: received pending k parts s bs)
  case Nil
  then show ?case by (auto intro: exI [of _ "[]"])
next
  case (Cons chunk chunks)
  then obtain v where chunk: "chunk = Inr v" by (cases chunk) auto
  show ?case
  proof (cases "v = []")
    case True
    with Cons chunk obtain vs bs' where "chunks = map Inr vs" "holds tag (bs @ bs') parts' t" "k' = Suc (length (bs @ bs'))"
        "concat bs' @ pending' = pending @ concat vs" "received' = received + length (concat vs)"
      by fastforce
    with chunk True show ?thesis by (intro exI [of _ "[] # vs"] exI [of _ bs']) simp
  next
    case False
    then obtain pd k1 ps1 w where full: "flush_full (s3_api tag) c ps u (pending @ v, k, parts) s = (Inr (pd, k1, ps1), w)"
      and rest: "read_stream (s3_api tag) c n ps u chunks (received + length v) (pd, k1, ps1) w = (Inr (received', pending', k', parts'), t)"
      using Cons.prems(1) chunk by (auto simp: io_bind_Inr split: if_splits)
    obtain bs1 where b1: "holds tag (bs @ bs1) ps1 w" "k1 = Suc (length (bs @ bs1))" "concat bs1 @ pd = pending @ v"
      using flush_full_sends [OF full Cons.prems(2,3)] by blast
    from Cons.IH [OF rest b1(1,2)] obtain vs bs2 where "chunks = map Inr vs" "holds tag ((bs @ bs1) @ bs2) parts' t"
        "k' = Suc (length ((bs @ bs1) @ bs2))" "concat bs2 @ pending' = pd @ concat vs"
        "received' = received + length v + length (concat vs)" by blast
    with chunk b1(3) show ?thesis
      by - (rule exI [of _ "v # vs"], rule exI [of _ "bs1 @ bs2"], simp flip: append_assoc, simp)
  qed
qed

lemma holds_sorted:
  assumes "holds tag bs parts s"
  shows "sorted_wrt (<) (map fst parts)" "js_sort compare_parts parts = parts"
proof -
  have "map fst parts = map Suc [0..<length bs]"
    using assms by (auto simp: holds_def nth_enumerate_eq intro!: nth_equalityI)
  then show *: "sorted_wrt (<) (map fst parts)"
    by (simp add: sorted_wrt_map)
  have "sorted_wrt (\<lambda>a b. compare_parts a b \<le> 0) parts"
    using * by (auto simp: sorted_wrt_map compare_parts_def elim: sorted_wrt_mono_rel [rotated])
  then show "js_sort compare_parts parts = parts" by (rule js_sort_sorted)
qed

lemma holds_assembled:
  assumes "holds tag bs parts s" and "assembled tag s parts = Some b"
  shows "b = concat bs"
proof -
  have "map (\<lambda>(n, _). the (map_of (s3_parts s) n)) parts = bs"
    using assms(1) by (auto simp: holds_def nth_enumerate_eq intro!: nth_equalityI)
  then show ?thesis using assms(2) by (simp add: assembled_def split: if_splits)
qed

lemma complete_result:
  assumes "up_complete (s3_api tag) u parts s = (r, t)" and "holds tag bs parts s"
  shows "(r = Inr () \<longrightarrow> s3_object t = Some (concat bs)) \<and> (s3_object t = s3_object s \<or> s3_object t = Some (concat bs))"
proof -
  have one: "(q = Inr () \<longrightarrow> s3_object v = Some (concat bs)) \<and> (s3_object v = s3_object s \<or> s3_object v = Some (concat bs))"
    if "s3_complete tag u parts (s\<lparr>s3_script := fs\<rparr>) = (q, v)" for q v fs
    using that holds_assembled [of tag bs parts "s\<lparr>s3_script := fs\<rparr>"] assms(2)
    by (auto simp: s3_complete_def split: bool.splits option.splits)
  show ?thesis
  proof (cases "s3_script s")
    case Nil
    then have "s\<lparr>s3_script := []\<rparr> = s" by simp
    with one [of "[]" r t] assms(1) Nil show ?thesis by (simp add: s3_api_def s3_call_works)
  next
    case (Cons f fs)
    with assms(1) one [of fs] show ?thesis
      by (cases f; cases "s3_complete tag u parts (s\<lparr>s3_script := fs\<rparr>)") (auto simp: s3_api_def s3_call_def Let_def)
  qed
qed

text \<open>What the end of an upload must say: the object is the whole content, or nothing has changed.\<close>

definition whole_content :: "(js_error + bytes) list \<Rightarrow> nat \<Rightarrow> bytes option \<Rightarrow> bool" where
  "whole_content chunks sizeBytes obj \<longleftrightarrow> (\<exists>vs. chunks = map Inr vs \<and> length (concat vs) = sizeBytes \<and> obj = Some (concat vs))"

lemma send_stream_result:
  assumes "send_stream (s3_api tag) c n ps chunks u s = (r, t)" and "holds tag [] [] s"
  shows "(r = Inr () \<longrightarrow> whole_content chunks n (s3_object t)) \<and> (s3_object t = s3_object s \<or> whole_content chunks n (s3_object t))"
proof -
  let ?read = "read_stream (s3_api tag) c n ps u chunks 0 ([], 1, [])"
  obtain q v where read: "?read s = (q, v)" by (cases "?read s")
  have v: "s3_object v = s3_object s" using read_stream_keeps [of tag c n ps u chunks 0 "([], 1, [])"] read by (auto simp: keeps_object_def dest: spec [of _ s])
  show ?thesis
  proof (cases q)
    case (Inl e)
    with assms(1) read v show ?thesis by (auto simp: send_stream_def io_bind_apply)
  next
    case (Inr x)
    obtain received pending k parts where x: "x = (received, pending, k, parts)" by (cases x)
    obtain vs bs where bs: "chunks = map Inr vs" "holds tag bs parts v" "k = Suc (length bs)"
        "concat bs @ pending = concat vs" "received = length (concat vs)"
      using read_stream_sends [OF read [unfolded Inr x] assms(2)] by auto
    let ?last = "if length pending > 0 \<or> n = 0 then io_bind (flushPart (s3_api tag) c u k pending) (\<lambda>p. io_return (parts @ [p])) else io_return parts"
    obtain q' w where last: "?last v = (q', w)" by (cases "?last v")
    have "keeps_object ?last" by (auto intro!: keeps_object_ops flushPart_keeps)
    then have "s3_object (snd (?last v)) = s3_object v" unfolding keeps_object_def by (rule spec)
    then have w: "s3_object w = s3_object s" unfolding last using v by simp
    have body: "send_stream (s3_api tag) c n ps chunks u s = (if received \<noteq> n
        then (Inl (JsErr ''Source changed during transfer (size mismatch).''), v)
        else case q' of Inl e \<Rightarrow> (Inl e, w) | Inr ps' \<Rightarrow> up_complete (s3_api tag) u (js_sort compare_parts ps') w)"
      using read Inr x last by (simp add: send_stream_def io_bind_apply split: sum.split)
    show ?thesis
    proof (cases "received = n \<and> (\<exists>ps'. q' = Inr ps')")
      case False
      then have "s3_object t = s3_object s \<and> r \<noteq> Inr ()"
        using assms(1) body v w by (cases q') (auto split: if_splits)
      then show ?thesis by simp
    next
      case True
      then obtain ps' where ps': "q' = Inr ps'" "received = n" by auto
      obtain bs' where bs': "holds tag bs' ps' w" "concat bs' = concat vs"
      proof (cases "length pending > 0 \<or> n = 0")
        case True
        then obtain p where p: "flushPart (s3_api tag) c u k pending v = (Inr p, w)" "ps' = parts @ [p]"
          using last ps' by (auto simp: io_bind_Inr)
        show thesis using that [of "bs @ [pending]"] flushPart_sends [OF p(1) bs(2,3)] p(2) bs(4) by simp
      next
        case False
        then show thesis using that [of bs] last ps' bs by auto
      qed
      have "up_complete (s3_api tag) u (js_sort compare_parts ps') w = (r, t)"
        using assms(1) body ps' by simp
      then have "up_complete (s3_api tag) u ps' w = (r, t)" by (simp add: holds_sorted(2) [OF bs'(1)])
      from complete_result [OF this bs'(1)] w bs' bs(1,5) ps'(2) show ?thesis
        by (auto simp: whole_content_def)
    qed
  qed
qed

section \<open>An upload that works\<close>

definition ready :: "s3_upload \<Rightarrow> bool" where
  "ready s \<longleftrightarrow> s3_script s = [] \<and> \<not> s3_signal s \<and> s3_open s"

lemma flushPart_works:
  assumes "ready s" and "u \<noteq> []" and "n \<le> 10000" and "plain_tag tag b \<noteq> []"
  shows "\<exists>p t. flushPart (s3_api tag) c u n b s = (Inr p, t) \<and> ready t"
proof -
  have "up_put (s3_api tag) (nat_string n, []) b ct s = (Inr \<lparr>tr_status = 200, tr_statusText = ''OK'',
      tr_etag = Some ([CHR 0x22] @ tag b @ [CHR 0x22]), tr_error = (None, None)\<rparr>, s\<lparr>s3_parts := AList.update n b (s3_parts s)\<rparr>)" for ct
    using assms(1) by (simp add: s3_api_def s3_call_works ready_def s3_put_def nat_string_digits)
  moreover have "up_presign (s3_api tag) u n s = (Inr (nat_string n, []), s)" "\<not> up_signal (s3_api tag) s"
    using assms(1) by (simp_all add: s3_api_def s3_call_works ready_def)
  moreover obtain d ds where "plain_tag tag b = d # ds" using assms(4) by (cases "plain_tag tag b") auto
  ultimately show ?thesis
    using assms by (auto simp: flushPart_def io_bind_apply ensureSuccessfulBrowserTransferResponse_def transfer_ok_def
      plain_tag_quoted ready_def)
qed

lemma flush_full_works:
  assumes "ready s" and "u \<noteq> []" and "\<And>b. plain_tag tag b \<noteq> []" and "ps > 0" and "k > 0"
    and "(k - 1) * ps + length pending \<le> 10000 * ps"
  shows "\<exists>pending' k' parts' t. flush_full (s3_api tag) c ps u (pending, k, parts) s = (Inr (pending', k', parts'), t)
    \<and> ready t \<and> k' > 0 \<and> (k' - 1) * ps + length pending' = (k - 1) * ps + length pending"
  using assms(1,5,6)
proof (induction "length pending" arbitrary: pending k parts s rule: less_induct)
  case less
  show ?case
  proof (cases "length pending < ps")
    case True
    with less.prems show ?thesis by (subst flush_full.simps) auto
  next
    case False
    have next_k: "(k - 1) * ps + length pending = k * ps + length (drop ps pending)"
      using False less.prems(2) by (cases k) auto
    then have "k * ps \<le> 10000 * ps" using less.prems(3) by linarith
    then have "k \<le> 10000" using assms(4) mult_le_cancel2 by blast
    then obtain p v where p: "flushPart (s3_api tag) c u k (take ps pending) s = (Inr p, v)" "ready v"
      using flushPart_works [OF less.prems(1) assms(2) _ assms(3)] by blast
    have "length (drop ps pending) < length pending" "(k + 1 - 1) * ps + length (drop ps pending) \<le> 10000 * ps"
      using False assms(4) less.prems(3) next_k by auto
    from less.hyps [OF this(1) p(2) _ this(2), of "parts @ [p]"] show ?thesis
      using False p(1) next_k assms(4) by (subst flush_full.simps) (auto simp: io_bind_apply)
  qed
qed

lemma read_stream_works:
  assumes "u \<noteq> []" and "\<And>b. plain_tag tag b \<noteq> []" and "ps > 0" and "n \<le> 10000 * ps"
    and "ready s" and "k > 0" and "(k - 1) * ps + length pending = received" and "received + length (concat vs) = n"
  shows "\<exists>pending' k' parts' t. read_stream (s3_api tag) c n ps u (map Inr vs) received (pending, k, parts) s
      = (Inr (n, pending', k', parts'), t) \<and> ready t \<and> k' > 0 \<and> (k' - 1) * ps + length pending' = n"
  using assms(5-8)
proof (induction vs arbitrary: received pending k parts s)
  case Nil
  then show ?case by auto
next
  case (Cons v vs)
  show ?case
  proof (cases "v = []")
    case True
    with Cons show ?thesis by simp
  next
    case False
    have "(k - 1) * ps + length (pending @ v) \<le> 10000 * ps" using Cons.prems(3,4) assms(4) by simp
    then obtain pd k1 ps1 w where full: "flush_full (s3_api tag) c ps u (pending @ v, k, parts) s = (Inr (pd, k1, ps1), w)"
        "ready w" "k1 > 0" "(k1 - 1) * ps + length pd = received + length v"
      using flush_full_works [OF Cons.prems(1) assms(1-3) Cons.prems(2), of "pending @ v" c parts] Cons.prems(3) by auto
    from Cons.IH [OF full(2,3,4), of ps1] Cons.prems(4) False show ?thesis
      by (auto simp: io_bind_apply full(1))
  qed
qed

lemma complete_works:
  assumes "ready s" and "holds tag bs parts s" and "parts \<noteq> []"
  shows "\<exists>t. up_complete (s3_api tag) u parts s = (Inr (), t)"
proof -
  have "list_all (\<lambda>(n, e). case map_of (s3_parts s) n of Some b \<Rightarrow> plain_tag tag b = e | None \<Rightarrow> False) parts"
    using assms(2) by (auto simp: holds_def list_all_iff in_set_enumerate_eq)
  then obtain b where "assembled tag s parts = Some b"
    using assms(3) holds_sorted(1) [OF assms(2)] by (auto simp: assembled_def)
  then show ?thesis using assms(1) by (auto simp: s3_api_def s3_call_works ready_def s3_complete_def)
qed

lemma send_stream_works:
  assumes "ready s" and "u \<noteq> []" and "\<And>b. plain_tag tag b \<noteq> []" and "ps > 0" and "n \<le> 10000 * ps" and "length (concat vs) = n"
    and "holds tag [] [] s"
  shows "\<exists>t. send_stream (s3_api tag) c n ps (map Inr vs) u s = (Inr (), t)"
proof -
  obtain pending k parts v where read: "read_stream (s3_api tag) c n ps u (map Inr vs) 0 ([], 1, []) s = (Inr (n, pending, k, parts), v)"
      "ready v" "k > 0" "(k - 1) * ps + length pending = n"
    using read_stream_works [OF assms(2,3,4,5,1), of 1 "[]" 0 vs c "[]"] assms(6) by auto
  obtain bs where bs: "holds tag bs parts v" "k = Suc (length bs)" "concat bs @ pending = concat vs"
    using read_stream_sends [OF read(1) assms(7)] by (auto dest: map_injective)
  show ?thesis
  proof (cases "length pending > 0 \<or> n = 0")
    case True
    have "k \<le> 10000"
    proof (rule ccontr)
      assume "\<not> k \<le> 10000"
      then have "10000 * ps \<le> (k - 1) * ps" by (intro mult_le_mono1) simp
      then have "length pending = 0" "n > 0" using read(4) assms(4,5) by linarith+
      with True show False by simp
    qed
    then obtain p w where p: "flushPart (s3_api tag) c u k pending v = (Inr p, w)" "ready w"
      using flushPart_works [OF read(2) assms(2) _ assms(3)] by blast
    have "holds tag (bs @ [pending]) (parts @ [p]) w" by (rule flushPart_sends [OF p(1) bs(1,2)])
    from complete_works [OF p(2) this] holds_sorted(2) [OF this] True read(1) p(1) show ?thesis
      by (auto simp: send_stream_def io_bind_apply)
  next
    case False
    have "bs \<noteq> []"
    proof
      assume "bs = []"
      with False bs(3) have "concat vs = []" by simp
      with False assms(6) show False by (simp del: concat_eq_Nil_conv)
    qed
    then have "parts \<noteq> []" using bs(1) by (cases bs) (auto simp: holds_def)
    from complete_works [OF read(2) bs(1) this] holds_sorted(2) [OF bs(1)] False read(1) show ?thesis
      by (auto simp: send_stream_def io_bind_apply)
  qed
qed

section \<open>Properties\<close>

lemma part_count_bound: "0 < ps \<Longrightarrow> part_count n ps \<le> 10000 \<Longrightarrow> n \<le> 10000 * ps"
proof -
  assume "0 < ps" and "part_count n ps \<le> 10000"
  then have "n + ps - 1 < 10001 * ps" by (simp add: part_count_def less_eq_div_iff_mult_less_eq flip: less_Suc_eq_le) 
      (metis div_less_iff_less_mult numeral_eq_Suc)
  then show "n \<le> 10000 * ps" by simp
qed

lemma stream_upload_result:
  assumes "uploadBrowserStreamMultipart (s3_api tag) chunks sizeBytes contentType partSize s = (r, t)"
  shows "(r = Inr () \<longrightarrow> whole_content chunks sizeBytes (s3_object t))
    \<and> (s3_object t = s3_object s \<or> whole_content chunks sizeBytes (s3_object t))"
proof (cases "partSize = 0 \<or> partSize > MAX_PART_SIZE \<or> part_count sizeBytes partSize > 10000")
  case True
  with assms show ?thesis by (auto simp: uploadBrowserStreamMultipart_def)
next
  case False
  let ?api = "s3_api tag"
  obtain q v where init: "up_initiate ?api s = (q, v)" by (cases "up_initiate ?api s")
  have v: "s3_object v = s3_object s" using api_keeps_object(1) [of tag] init by (metis keeps_object_def snd_conv)
  show ?thesis
  proof (cases q)
    case (Inl e)
    with assms False init v show ?thesis
      by (auto simp: uploadBrowserStreamMultipart_def io_bind_apply)
  next
    case (Inr u)
    have u: "holds tag [] [] v" using init Inr by (auto simp: s3_api_def holds_def elim!: s3_call_Inr)
    obtain q' w where send: "send_stream ?api contentType sizeBytes partSize chunks u v = (q', w)"
      by (cases "send_stream ?api contentType sizeBytes partSize chunks u v")
    have run: "(case q' of Inr x \<Rightarrow> (Inr x, w) | Inl e \<Rightarrow> io_seq (abortStartedUpload ?api u) (io_throw e) w) = (r, t)"
      using assms False init Inr send
      by (simp add: uploadBrowserStreamMultipart_def io_bind_apply io_catch_def split: sum.splits)
    have t: "s3_object t = s3_object w \<and> (r = Inr () \<longrightarrow> q' = Inr ())"
    proof (cases q')
      case (Inl e)
      have "keeps_object (io_seq (abortStartedUpload ?api u) (io_throw e))"
        unfolding io_seq_def abortStartedUpload_def by (auto intro!: keeps_object_ops api_keeps_object)
      then have "s3_object t = s3_object w" using run Inl by (metis keeps_object_def snd_conv old.sum.simps(5))
      moreover have "r \<noteq> Inr ()" using run Inl by (auto simp: io_seq_def io_bind_Inr)
      ultimately show ?thesis by simp
    qed (use run in simp)
    then show ?thesis using send_stream_result [OF send u] v by auto
  qed
qed

lemma stream_upload_works:
  assumes "s3_script s = []" and "\<not> s3_signal s" and "\<And>b. plain_tag tag b \<noteq> []" and "whole_content chunks sizeBytes obj"
    and "0 < partSize" and "partSize \<le> MAX_PART_SIZE" and "part_count sizeBytes partSize \<le> 10000"
  shows "\<exists>t. uploadBrowserStreamMultipart (s3_api tag) chunks sizeBytes contentType partSize s = (Inr (), t)"
proof -
  let ?v = "s\<lparr>s3_open := True, s3_parts := []\<rparr>"
  obtain vs where vs: "chunks = map Inr vs" "length (concat vs) = sizeBytes" using assms(4) by (auto simp: whole_content_def)
  have "ready ?v" "holds tag [] [] ?v" using assms(1,2) by (simp_all add: ready_def holds_def)
  then have "\<exists>w. send_stream (s3_api tag) contentType sizeBytes partSize chunks ''upload'' ?v = (Inr (), w)"
    unfolding vs(1) using assms(3,5,7) vs(2) part_count_bound [of partSize sizeBytes]
    by (intro send_stream_works) auto
  then show ?thesis using assms(1,5,6,7)
    by (auto simp: uploadBrowserStreamMultipart_def io_bind_apply io_catch_def s3_api_def s3_call_works)
qed

text \<open>
  C9. The upload of a stream is all or nothing, whatever requests and answers are lost and whenever it is
  cancelled: when it returns, the object is the whole content of the stream, of the announced size and
  however it was cut into chunks; when it throws, the object is what it was, or the whole content if the
  answer to the last request was lost. Nothing lost and the sizes right, it returns.
\<close>

theorem stream_upload_all_or_nothing:
  assumes "uploadBrowserStreamMultipart (s3_api tag) chunks sizeBytes contentType partSize s = (r, t)"
  shows "(r = Inr () \<longrightarrow> whole_content chunks sizeBytes (s3_object t))
    \<and> (s3_object t = s3_object s \<or> whole_content chunks sizeBytes (s3_object t))
    \<and> (s3_script s = [] \<and> \<not> s3_signal s \<and> (\<forall>b. plain_tag tag b \<noteq> []) \<and> whole_content chunks sizeBytes (Some (concat (map projr chunks)))
         \<and> 0 < partSize \<and> partSize \<le> MAX_PART_SIZE \<and> part_count sizeBytes partSize \<le> 10000 \<longrightarrow> r = Inr ())"
proof (intro conjI impI)
  show "r = Inr ()" if "s3_script s = [] \<and> \<not> s3_signal s \<and> (\<forall>b. plain_tag tag b \<noteq> [])
      \<and> whole_content chunks sizeBytes (Some (concat (map projr chunks)))
      \<and> 0 < partSize \<and> partSize \<le> MAX_PART_SIZE \<and> part_count sizeBytes partSize \<le> 10000"
    using stream_upload_works [where s = s and tag = tag and contentType = contentType] that assms by (metis prod.inject)
qed (use stream_upload_result [OF assms] in simp_all)

theorem stream_upload_all_or_nothing_witness:
  "case uploadBrowserStreamMultipart (s3_api (\<lambda>_. ''e'')) [Inr [1, 2], Inr [], Inr [3]] 3 None 2
      \<lparr>s3_script = [], s3_signal = False, s3_parts = [], s3_open = False, s3_object = None\<rparr> of
     (r, t) \<Rightarrow> r = Inr () \<and> s3_object t = Some [1, 2, 3]"
proof -
  let ?s = "\<lparr>s3_script = [], s3_signal = False, s3_parts = [], s3_open = False, s3_object = None\<rparr>"
  obtain r t where run: "uploadBrowserStreamMultipart (s3_api (\<lambda>_. ''e'')) [Inr [1, 2], Inr [], Inr [3]] 3 None 2 ?s = (r, t)"
    by (cases "uploadBrowserStreamMultipart (s3_api (\<lambda>_. ''e'')) [Inr [1, 2], Inr [], Inr [3]] 3 None 2 ?s")
  have "whole_content [Inr [1, 2], Inr [], Inr [3]] 3 (Some [1, 2, 3])"
    unfolding whole_content_def by (rule exI [of _ "[[1, 2], [], [3]]"]) simp
  then have "r = Inr ()" using stream_upload_all_or_nothing [OF run]
    by (simp add: plain_tag_def MAX_PART_SIZE_def part_count_def)
  with stream_upload_all_or_nothing [OF run] run show ?thesis
    by (auto simp: whole_content_def Cons_eq_map_conv)
qed

end
