(* ===== verification/File_Upload.thy ===== *)
theory File_Upload
  imports Json_Roundtrip Object_Upload "HOL-Library.Multiset"
begin

text \<open>
  The upload of a file in parts by several workers: \<open>uploadBrowserFileMultipart\<close> of
  \<open>frontend/src/features/browser/browserMultipartUpload.ts\<close>. A run is a sequence of steps in any order: the
  answers of the server to each worker, their failures, and the cancellation of the caller. What the server
  keeps of the parts is recorded beside the state of the code.
\<close>

section \<open>Parts and progress\<close>

definition part_start :: "nat \<Rightarrow> nat \<Rightarrow> nat" where
  "part_start partSize index = index * partSize"

definition part_end :: "bytes \<Rightarrow> nat \<Rightarrow> nat \<Rightarrow> nat" where
  "part_end file partSize index = min (part_start partSize index + partSize) (length file)"

definition part_size :: "bytes \<Rightarrow> nat \<Rightarrow> nat \<Rightarrow> nat" where
  "part_size file partSize index = part_end file partSize index - part_start partSize index"

definition file_slice :: "bytes \<Rightarrow> nat \<Rightarrow> nat \<Rightarrow> bytes" where
  "file_slice file partSize index = take (part_size file partSize index) (drop (part_start partSize index) file)"

text \<open>A worker waits for a signed URL or for the answer to its PUT, or its loop has ended.\<close>

datatype part_worker = Signing nat | Sending nat | Stopped

datatype upload_phase = Starting | Uploading | Completing | Aborting js_error | Returned | Threw js_error

datatype upload_call = Initiate | Complete "completed_part list" | Abort

text \<open>
  The variables of the function, its two signals, and what the outside has seen: the calls of the lifecycle,
  the progress, and for each part that was sent the bytes and the tag the server answered with.
\<close>

record file_upload =
  fu_phase :: upload_phase
  fu_uploadId :: string
  fu_cursor :: nat
  fu_workers :: "part_worker list"
  fu_completed :: "completed_part list"
  fu_failure :: "js_error option"
  fu_stopped :: bool
  fu_cancelled :: bool
  fu_partProgress :: "(nat \<times> nat) list"
  fu_progress :: "int list"
  fu_calls :: "upload_call list"
  fu_stored :: "(nat \<times> bytes \<times> string) list"

definition recordProgress :: "bytes \<Rightarrow> nat \<Rightarrow> nat \<Rightarrow> nat \<Rightarrow> file_upload \<Rightarrow> file_upload" where
  "recordProgress file partNumber loadedBytes currentPartSize st =
     (let pp = AList.update partNumber (min loadedBytes currentPartSize) (fu_partProgress st);
          loaded = sum_list (map snd pp) in
      st\<lparr>fu_partProgress := pp, fu_progress := fu_progress st
        @ [if length file = 0 then 0 else min 99 \<lfloor>rat_of_nat loaded / rat_of_nat (length file) * 100 + 1/2\<rfloor>]\<rparr>)"

section \<open>The code between two waits\<close>

text \<open>The head of a worker's loop.\<close>

definition take_part :: "bytes \<Rightarrow> nat \<Rightarrow> nat \<Rightarrow> file_upload \<Rightarrow> file_upload" where
  "take_part file partSize w st =
     (let index = fu_cursor st in
      if \<not> fu_stopped st \<and> index < part_count (length file) partSize
      then recordProgress file (index + 1) 0 (part_size file partSize index)
        (st\<lparr>fu_cursor := index + 1, fu_workers := (fu_workers st)[w := Signing index]\<rparr>)
      else st\<lparr>fu_workers := (fu_workers st)[w := Stopped]\<rparr>)"

text \<open>The \<open>catch\<close> of a part, then the head of the loop.\<close>

definition part_fails :: "bytes \<Rightarrow> nat \<Rightarrow> nat \<Rightarrow> js_error \<Rightarrow> file_upload \<Rightarrow> file_upload" where
  "part_fails file partSize w e st = take_part file partSize w
     (st\<lparr>fu_failure := (case fu_failure st of None \<Rightarrow> Some e | f \<Rightarrow> f), fu_stopped := True\<rparr>)"

definition part_signed :: "bytes \<Rightarrow> nat \<Rightarrow> nat \<Rightarrow> nat \<Rightarrow> file_upload \<Rightarrow> file_upload" where
  "part_signed file partSize w index st =
     (if fu_stopped st then part_fails file partSize w (JsErr ''AbortError'') st
      else st\<lparr>fu_workers := (fu_workers st)[w := Sending index]\<rparr>)"

text \<open>An answer with its status and its tag; a successful one means that the server has stored the part.\<close>

definition part_answered :: "bytes \<Rightarrow> nat \<Rightarrow> nat \<Rightarrow> nat \<Rightarrow> transfer_response \<Rightarrow> file_upload \<Rightarrow> file_upload" where
  "part_answered file partSize w index response st =
     (if \<not> transfer_ok response
      then part_fails file partSize w (JsErr (formatBrowserFetchTransferError response ''Multipart upload failed'')) st
      else case normalizeEtag (tr_etag response) of
        Some (c # cs) \<Rightarrow> take_part file partSize w
          (recordProgress file (index + 1) (part_size file partSize index) (part_size file partSize index)
            (st\<lparr>fu_completed := fu_completed st @ [(index + 1, c # cs)],
               fu_stored := (index + 1, file_slice file partSize index, c # cs) # fu_stored st\<rparr>))
      | _ \<Rightarrow> part_fails file partSize w (JsErr ''Missing ETag from multipart upload.'') st)"

definition abort_started :: "js_error \<Rightarrow> file_upload \<Rightarrow> file_upload" where
  "abort_started e st = (if fu_uploadId st = [] then st\<lparr>fu_phase := Threw e\<rparr>
     else st\<lparr>fu_phase := Aborting e, fu_calls := fu_calls st @ [Abort]\<rparr>)"

text \<open>After \<open>Promise.all\<close>.\<close>

definition parts_joined :: "file_upload \<Rightarrow> file_upload" where
  "parts_joined st = (case fu_failure st of
     Some e \<Rightarrow> abort_started e st
   | None \<Rightarrow> if fu_cancelled st then abort_started (JsErr ''AbortError: Upload interrupted'') st
       else st\<lparr>fu_phase := Completing, fu_progress := fu_progress st @ [95],
         fu_calls := fu_calls st @ [Complete (js_sort compare_parts (fu_completed st))]\<rparr>)"

definition upload_initiated :: "bytes \<Rightarrow> nat \<Rightarrow> nat \<Rightarrow> string \<Rightarrow> file_upload \<Rightarrow> file_upload" where
  "upload_initiated file partSize workers_wanted uploadId st =
     (let slots = min workers_wanted (part_count (length file) partSize) in
      fold (take_part file partSize) [0..<slots]
        (st\<lparr>fu_phase := Uploading, fu_uploadId := uploadId, fu_workers := replicate slots Stopped\<rparr>))"

text \<open>The call, up to its first wait. A file with bytes and parts of size 0 has infinitely many.\<close>

definition uploadBrowserFileMultipart :: "bytes \<Rightarrow> nat \<Rightarrow> bool \<Rightarrow> file_upload" where
  "uploadBrowserFileMultipart file partSize cancelled =
     (let st = \<lparr>fu_phase = Starting, fu_uploadId = [], fu_cursor = 0, fu_workers = [], fu_completed = [], fu_failure = None,
            fu_stopped = cancelled, fu_cancelled = cancelled, fu_partProgress = [], fu_progress = [], fu_calls = [], fu_stored = []\<rparr> in
      if (partSize = 0 \<and> length file > 0) \<or> part_count (length file) partSize > 10000 \<or> partSize > MAX_PART_SIZE
      then st\<lparr>fu_phase := Threw (JsErr ''File exceeds multipart upload limits.'')\<rparr>
      else if cancelled then st\<lparr>fu_phase := Threw (JsErr ''AbortError'')\<rparr>
      else st\<lparr>fu_calls := [Initiate]\<rparr>)"

inductive file_step :: "bytes \<Rightarrow> nat \<Rightarrow> nat \<Rightarrow> file_upload \<Rightarrow> file_upload \<Rightarrow> bool" for content partSize workers_wanted where
  initiated: "fu_phase st = Starting \<Longrightarrow> file_step content partSize workers_wanted st (upload_initiated content partSize workers_wanted u st)"
| not_initiated: "fu_phase st = Starting \<Longrightarrow> file_step content partSize workers_wanted st (abort_started e st)"
| signed: "fu_phase st = Uploading \<Longrightarrow> w < length (fu_workers st) \<Longrightarrow> fu_workers st ! w = Signing i \<Longrightarrow>
    file_step content partSize workers_wanted st (part_signed content partSize w i st)"
| not_signed: "fu_phase st = Uploading \<Longrightarrow> w < length (fu_workers st) \<Longrightarrow> fu_workers st ! w = Signing i \<Longrightarrow>
    file_step content partSize workers_wanted st (part_fails content partSize w e st)"
| answered: "fu_phase st = Uploading \<Longrightarrow> w < length (fu_workers st) \<Longrightarrow> fu_workers st ! w = Sending i \<Longrightarrow>
    file_step content partSize workers_wanted st (part_answered content partSize w i response st)"
| not_answered: "fu_phase st = Uploading \<Longrightarrow> w < length (fu_workers st) \<Longrightarrow> fu_workers st ! w = Sending i \<Longrightarrow>
    file_step content partSize workers_wanted st (part_fails content partSize w e st)"
| joined: "fu_phase st = Uploading \<Longrightarrow> list_all (\<lambda>x. x = Stopped) (fu_workers st) \<Longrightarrow>
    file_step content partSize workers_wanted st (parts_joined st)"
| completed: "fu_phase st = Completing \<Longrightarrow>
    file_step content partSize workers_wanted st (st\<lparr>fu_phase := Returned, fu_progress := fu_progress st @ [100]\<rparr>)"
| not_completed: "fu_phase st = Completing \<Longrightarrow> file_step content partSize workers_wanted st (abort_started e st)"
| aborted: "fu_phase st = Aborting e \<Longrightarrow> file_step content partSize workers_wanted st (st\<lparr>fu_phase := Threw e\<rparr>)"
| cancel: "\<forall>e. fu_phase st \<noteq> Threw e \<Longrightarrow> fu_phase st \<noteq> Returned \<Longrightarrow>
    file_step content partSize workers_wanted st (st\<lparr>fu_cancelled := True, fu_stopped := True\<rparr>)"

section \<open>The file in parts\<close>

lemma file_slice_take: "file_slice file ps i = take ps (drop (i * ps) file)"
  by (simp add: file_slice_def part_size_def part_end_def part_start_def min_def)

lemma slices_take: "concat (map (file_slice file ps) [0..<k]) = take (k * ps) file"
proof (induction k)
  case (Suc k)
  have "take (k * ps + ps) file = take (k * ps) file @ take ps (drop (k * ps) file)" by (rule take_add)
  with Suc show ?case by (simp add: file_slice_take add.commute)
qed simp

lemma slices_whole:
  assumes "ps > 0 \<or> file = []"
  shows "concat (map (file_slice file ps) [0..<part_count (length file) ps]) = file"
proof -
  have "length file \<le> part_count (length file) ps * ps"
    using assms dividend_less_div_times [of ps "length file + ps - 1"] by (auto simp: part_count_def)
  then show ?thesis by (simp add: slices_take)
qed

section \<open>The invariant\<close>

text \<open>The numbers of the parts a worker waits for, as a multiset.\<close>

definition part_of :: "part_worker \<Rightarrow> nat multiset" where
  "part_of x = (case x of Signing i \<Rightarrow> {#Suc i#} | Sending i \<Rightarrow> {#Suc i#} | Stopped \<Rightarrow> {#})"

definition flying :: "part_worker list \<Rightarrow> nat multiset" where
  "flying ws = sum_list (map part_of ws)"

definition accounted :: "file_upload \<Rightarrow> part_worker list \<Rightarrow> nat multiset" where
  "accounted st ws = mset (map fst (fu_completed st)) + flying ws"

definition parts_ok :: "bytes \<Rightarrow> nat \<Rightarrow> file_upload \<Rightarrow> part_worker list \<Rightarrow> bool" where
  "parts_ok file ps st ws \<longleftrightarrow> fu_cursor st \<le> part_count (length file) ps
     \<and> accounted st ws \<subseteq># mset [1..<Suc (fu_cursor st)]
     \<and> (fu_failure st = None \<longrightarrow> accounted st ws = mset [1..<Suc (fu_cursor st)])
     \<and> list_all (\<lambda>(m, e). map_of (fu_stored st) m = Some (file_slice file ps (m - 1), e)) (fu_completed st)
     \<and> (fu_failure st \<noteq> None \<longrightarrow> fu_stopped st) \<and> (fu_cancelled st \<longrightarrow> fu_stopped st)
     \<and> (fu_stopped st \<longrightarrow> fu_failure st \<noteq> None \<or> fu_cancelled st)"

definition loops_ok :: "bytes \<Rightarrow> nat \<Rightarrow> file_upload \<Rightarrow> bool" where
  "loops_ok file ps st \<longleftrightarrow> (Stopped \<in> set (fu_workers st) \<and> \<not> fu_stopped st \<longrightarrow> fu_cursor st = part_count (length file) ps)"

definition keeps_parts :: "bytes \<Rightarrow> nat \<Rightarrow> file_upload \<Rightarrow> file_upload \<Rightarrow> bool" where
  "keeps_parts file ps st st' \<longleftrightarrow> parts_ok file ps st' (fu_workers st') \<and> loops_ok file ps st'
     \<and> length (fu_workers st') = length (fu_workers st)"

lemma flying_update: "w < length ws \<Longrightarrow> flying (ws[w := x]) = part_of x + flying (ws[w := Stopped])"
proof (induction ws arbitrary: w)
  case (Cons y ws)
  then show ?case by (cases w) (auto simp: flying_def part_of_def)
qed simp

lemma flying_at:
  assumes "w < length ws"
  shows "flying ws = part_of (ws ! w) + flying (ws[w := Stopped])"
  by (rule flying_update [OF assms, of "ws ! w", unfolded list_update_id])

lemma take_part_fields [simp]:
  "fu_phase (take_part file ps w st) = fu_phase st" "fu_uploadId (take_part file ps w st) = fu_uploadId st"
  "fu_completed (take_part file ps w st) = fu_completed st" "fu_failure (take_part file ps w st) = fu_failure st"
  "fu_stopped (take_part file ps w st) = fu_stopped st" "fu_cancelled (take_part file ps w st) = fu_cancelled st"
  "fu_calls (take_part file ps w st) = fu_calls st" "fu_stored (take_part file ps w st) = fu_stored st"
  by (simp_all add: take_part_def recordProgress_def Let_def)

lemma take_part_works:
  assumes "parts_ok file ps st ((fu_workers st)[w := Stopped])" and "w < length (fu_workers st)"
    and "\<And>v. v < length (fu_workers st) \<Longrightarrow> v \<noteq> w \<Longrightarrow> fu_workers st ! v = Stopped \<Longrightarrow> \<not> fu_stopped st
      \<Longrightarrow> fu_cursor st = part_count (length file) ps"
  shows "keeps_parts file ps st (take_part file ps w st)"
proof (cases "\<not> fu_stopped st \<and> fu_cursor st < part_count (length file) ps")
  case True
  define st' where "st' = take_part file ps w st"
  have st': "fu_workers st' = (fu_workers st)[w := Signing (fu_cursor st)]" "fu_cursor st' = Suc (fu_cursor st)"
    using True by (simp_all add: st'_def take_part_def recordProgress_def Let_def)
  have "accounted st' (fu_workers st') = add_mset (Suc (fu_cursor st)) (accounted st ((fu_workers st)[w := Stopped]))"
    unfolding st' accounted_def flying_update [OF assms(2), of "Signing (fu_cursor st)"] by (simp add: st'_def part_of_def)
  then have "parts_ok file ps st' (fu_workers st')"
    using assms(1) True st' by (simp add: parts_ok_def st'_def)
  moreover have "Stopped \<notin> set (fu_workers st')"
  proof
    assume "Stopped \<in> set (fu_workers st')"
    then obtain v where "v < length (fu_workers st)" "v \<noteq> w" "fu_workers st ! v = Stopped"
      using st' assms(2) by (auto simp: in_set_conv_nth nth_list_update split: if_splits)
    with assms(3) True show False by simp
  qed
  ultimately show ?thesis using st' by (simp add: keeps_parts_def loops_ok_def st'_def)
next
  case False
  then have "take_part file ps w st = st\<lparr>fu_workers := (fu_workers st)[w := Stopped]\<rparr>"
    by (auto simp: take_part_def Let_def)
  with False assms(1) show ?thesis
    by (auto simp: keeps_parts_def parts_ok_def loops_ok_def accounted_def)
qed

lemma part_fails_works:
  assumes "parts_ok file ps st (fu_workers st)" and "loops_ok file ps st" and "w < length (fu_workers st)"
  shows "keeps_parts file ps st (part_fails file ps w e st)"
proof -
  let ?st = "st\<lparr>fu_failure := (case fu_failure st of None \<Rightarrow> Some e | f \<Rightarrow> f), fu_stopped := True\<rparr>"
  have "accounted ?st ((fu_workers st)[w := Stopped]) \<subseteq># accounted st (fu_workers st)"
    using flying_at [OF assms(3)] by (simp add: accounted_def)
  then have "parts_ok file ps ?st ((fu_workers ?st)[w := Stopped])"
    using assms(1) by (auto simp: parts_ok_def split: option.splits intro: subset_mset.order_trans)
  then show ?thesis using take_part_works [where st = ?st and w = w] assms(3) by (simp add: keeps_parts_def part_fails_def)
qed

lemma part_signed_works:
  assumes "parts_ok file ps st (fu_workers st)" and "loops_ok file ps st" and "w < length (fu_workers st)" and "fu_workers st ! w = Signing i"
  shows "keeps_parts file ps st (part_signed file ps w i st)"
proof (cases "fu_stopped st")
  case True
  then show ?thesis using part_fails_works [OF assms(1-3)] by (simp add: part_signed_def)
next
  case False
  have "flying ((fu_workers st)[w := Sending i]) = flying (fu_workers st)"
    using flying_at [OF assms(3)] flying_update [OF assms(3), of "Sending i"] assms(4) by (simp add: part_of_def)
  then show ?thesis using assms(1,2,3) False
    by (auto simp: keeps_parts_def part_signed_def parts_ok_def loops_ok_def accounted_def dest: set_update_subset_insert [THEN subsetD])
qed

lemma recordProgress_fields [simp]:
  "fu_phase (recordProgress file n l c st) = fu_phase st" "fu_uploadId (recordProgress file n l c st) = fu_uploadId st"
  "fu_cursor (recordProgress file n l c st) = fu_cursor st" "fu_workers (recordProgress file n l c st) = fu_workers st"
  "fu_completed (recordProgress file n l c st) = fu_completed st" "fu_failure (recordProgress file n l c st) = fu_failure st"
  "fu_stopped (recordProgress file n l c st) = fu_stopped st" "fu_cancelled (recordProgress file n l c st) = fu_cancelled st"
  "fu_calls (recordProgress file n l c st) = fu_calls st" "fu_stored (recordProgress file n l c st) = fu_stored st"
  by (simp_all add: recordProgress_def Let_def)

lemma part_answered_works:
  assumes "parts_ok file ps st (fu_workers st)" and "loops_ok file ps st" and "w < length (fu_workers st)" and "fu_workers st ! w = Sending i"
  shows "keeps_parts file ps st (part_answered file ps w i r st)"
proof (cases "transfer_ok r \<and> (\<exists>c cs. normalizeEtag (tr_etag r) = Some (c # cs))")
  case False
  then have "\<exists>e. part_answered file ps w i r st = part_fails file ps w e st"
    by (auto simp: part_answered_def split: option.split list.split)
  then show ?thesis using part_fails_works [OF assms(1-3)] by auto
next
  case True
  then obtain c cs where e: "transfer_ok r" "normalizeEtag (tr_etag r) = Some (c # cs)" by auto
  let ?st = "recordProgress file (i + 1) (part_size file ps i) (part_size file ps i)
      (st\<lparr>fu_completed := fu_completed st @ [(i + 1, c # cs)], fu_stored := (i + 1, file_slice file ps i, c # cs) # fu_stored st\<rparr>)"
  have acc: "accounted ?st ((fu_workers st)[w := Stopped]) = accounted st (fu_workers st)"
    using flying_at [OF assms(3)] assms(4) by (simp add: accounted_def part_of_def)
  have "Suc i \<notin> fst ` set (fu_completed st)"
  proof
    assume "Suc i \<in> fst ` set (fu_completed st)"
    then have "count (accounted st (fu_workers st)) (Suc i) \<ge> 2"
      using flying_at [OF assms(3)] assms(4) by (auto simp: accounted_def part_of_def Suc_le_eq count_greater_zero_iff simp flip: set_mset_mset)
    moreover have "count (accounted st (fu_workers st)) (Suc i) \<le> count (mset [1..<Suc (fu_cursor st)]) (Suc i)"
      using assms(1) by (simp add: parts_ok_def subseteq_mset_def)
    moreover have "count (mset [1..<Suc (fu_cursor st)]) (Suc i) \<le> 1" by (metis distinct_count_atmost_1 distinct_upt le_refl zero_le)
    ultimately show False by simp
  qed
  then have "list_all (\<lambda>(m, e). map_of (fu_stored ?st) m = Some (file_slice file ps (m - 1), e)) (fu_completed ?st)"
    using assms(1) by (auto simp: parts_ok_def list_all_iff rev_image_eqI)
  then have "parts_ok file ps ?st ((fu_workers ?st)[w := Stopped])"
    using assms(1) acc by (simp add: parts_ok_def)
  moreover have "fu_cursor ?st = part_count (length file) ps" if "v < length (fu_workers ?st)" "v \<noteq> w" "fu_workers ?st ! v = Stopped" "\<not> fu_stopped ?st" for v
    using assms(2) that by (auto simp: loops_ok_def in_set_conv_nth)
  ultimately show ?thesis using take_part_works [where st = ?st and w = w] assms(3) e by (simp add: keeps_parts_def part_answered_def)
qed

lemma fold_take_part_fields [simp]:
  "fu_phase (fold (take_part file ps) ws st) = fu_phase st" "fu_uploadId (fold (take_part file ps) ws st) = fu_uploadId st"
  "fu_completed (fold (take_part file ps) ws st) = fu_completed st" "fu_failure (fold (take_part file ps) ws st) = fu_failure st"
  "fu_stopped (fold (take_part file ps) ws st) = fu_stopped st" "fu_cancelled (fold (take_part file ps) ws st) = fu_cancelled st"
  "fu_calls (fold (take_part file ps) ws st) = fu_calls st" "fu_stored (fold (take_part file ps) ws st) = fu_stored st"
  by (induction ws arbitrary: st) simp_all

lemma take_part_moves:
  "fu_cursor (take_part file ps w st) = (if \<not> fu_stopped st \<and> fu_cursor st < part_count (length file) ps then Suc (fu_cursor st) else fu_cursor st)"
  "fu_workers (take_part file ps w st) = (fu_workers st)[w := if \<not> fu_stopped st \<and> fu_cursor st < part_count (length file) ps
     then Signing (fu_cursor st) else Stopped]"
  by (simp_all add: take_part_def recordProgress_def Let_def)

lemma fold_take_part:
  assumes "fu_cursor st = 0" and "fu_workers st = replicate slots Stopped" and "slots \<le> part_count (length file) ps" and "k \<le> slots"
  shows "fu_cursor (fold (take_part file ps) [0..<k] st) = (if fu_stopped st then 0 else k)
    \<and> fu_workers (fold (take_part file ps) [0..<k] st)
      = (if fu_stopped st then replicate slots Stopped else map Signing [0..<k] @ replicate (slots - k) Stopped)"
  using assms(4)
proof (induction k)
  case (Suc k)
  have "replicate (slots - k) Stopped = Stopped # replicate (slots - Suc k) Stopped"
    using Suc.prems by (metis Suc_diff_le diff_Suc_Suc replicate_Suc Suc_le_lessD Suc_diff_Suc)
  moreover have "(replicate slots Stopped)[k := Stopped] = replicate slots Stopped"
    using Suc.prems by (metis Suc_le_lessD list_update_id nth_replicate)
  ultimately show ?case using Suc assms(1-3)
    by (auto simp: take_part_moves list_update_append)
qed (use assms in simp)

lemma flying_signing: "flying (map Signing is) = mset (map Suc is)"
  by (induction "is") (simp_all add: flying_def part_of_def)

lemma flying_stopped: "list_all (\<lambda>x. x = Stopped) ws \<Longrightarrow> flying ws = {#}"
  by (induction ws) (simp_all add: flying_def part_of_def)

text \<open>The parts named by the last request are all the parts, and what the server holds of them is the file.\<close>

definition whole_file :: "bytes \<Rightarrow> nat \<Rightarrow> file_upload \<Rightarrow> completed_part list \<Rightarrow> bool" where
  "whole_file file ps st parts \<longleftrightarrow> map fst parts = [1..<Suc (part_count (length file) ps)]
     \<and> list_all (\<lambda>(m, e). \<exists>b. map_of (fu_stored st) m = Some (b, e)) parts
     \<and> concat (map (\<lambda>(m, e). fst (the (map_of (fu_stored st) m))) parts) = file"

definition file_inv :: "bytes \<Rightarrow> nat \<Rightarrow> nat \<Rightarrow> file_upload \<Rightarrow> bool" where
  "file_inv file ps wanted st \<longleftrightarrow> (case fu_phase st of
     Starting \<Rightarrow> fu_calls st = [Initiate] \<and> fu_uploadId st = [] \<and> fu_cursor st = 0 \<and> fu_completed st = [] \<and> fu_failure st = None
       \<and> fu_stopped st = fu_cancelled st
   | Uploading \<Rightarrow> fu_calls st = [Initiate] \<and> parts_ok file ps st (fu_workers st) \<and> loops_ok file ps st
       \<and> length (fu_workers st) = min wanted (part_count (length file) ps)
   | Aborting e \<Rightarrow> fu_uploadId st \<noteq> [] \<and> (fu_calls st = [Initiate, Abort] \<or> (\<exists>parts. fu_calls st = [Initiate, Complete parts, Abort] \<and> whole_file file ps st parts))
   | Threw e \<Rightarrow> (if fu_uploadId st = [] then fu_calls st = [] \<or> fu_calls st = [Initiate] \<or> (\<exists>parts. fu_calls st = [Initiate, Complete parts] \<and> whole_file file ps st parts)
       else fu_calls st = [Initiate, Abort] \<or> (\<exists>parts. fu_calls st = [Initiate, Complete parts, Abort] \<and> whole_file file ps st parts))
   | _ \<Rightarrow> \<exists>parts. fu_calls st = [Initiate, Complete parts] \<and> whole_file file ps st parts)"

lemma initiated_inv:
  assumes "file_inv file ps wanted st" and "fu_phase st = Starting"
  shows "file_inv file ps wanted (upload_initiated file ps wanted u st)"
proof -
  let ?slots = "min wanted (part_count (length file) ps)"
  let ?st = "st\<lparr>fu_phase := Uploading, fu_uploadId := u, fu_workers := replicate ?slots Stopped\<rparr>"
  let ?st' = "fold (take_part file ps) [0..<?slots] ?st"
  have start: "fu_calls st = [Initiate]" "fu_cursor st = 0" "fu_completed st = []" "fu_failure st = None" "fu_stopped st = fu_cancelled st"
    using assms by (auto simp: file_inv_def)
  have fold: "fu_cursor ?st' = (if fu_stopped st then 0 else ?slots)"
      "fu_workers ?st' = (if fu_stopped st then replicate ?slots Stopped else map Signing [0..<?slots])"
    using fold_take_part [where st = ?st and slots = ?slots and k = ?slots and ps = ps] start(2) by simp_all
  have "accounted ?st' (fu_workers ?st') = mset [1..<Suc (fu_cursor ?st')]"
    unfolding fold accounted_def using start(3)
    by (auto simp: flying_signing map_Suc_upt flying_stopped list_all_iff simp del: upt_Suc)
  then have "parts_ok file ps ?st' (fu_workers ?st')"
    using start fold(1) by (auto simp: parts_ok_def)
  moreover have "loops_ok file ps ?st'" by (auto simp: loops_ok_def fold)
  moreover have "length (fu_workers ?st') = ?slots" by (simp add: fold)
  ultimately show ?thesis using start(1) by (simp add: file_inv_def upload_initiated_def Let_def)
qed

lemma sorted_completed:
  assumes "mset (map fst parts) = mset [1..<Suc n]"
  shows "map fst (js_sort compare_parts parts) = [1..<Suc n]"
proof (rule properties_for_sort [symmetric, THEN trans])
  show "mset (map fst (js_sort compare_parts parts)) = mset [1..<Suc n]"
    using assms by (simp only: mset_map mset_js_sort)
  have "sorted_wrt (\<lambda>a b. compare_parts a b \<le> 0) (js_sort compare_parts parts)"
    by (rule sorted_js_sort) (auto simp: total_cmp_def compare_parts_def)
  then show "sorted (map fst (js_sort compare_parts parts))"
    by (auto simp: sorted_wrt_map compare_parts_def elim: sorted_wrt_mono_rel [rotated])
qed (simp add: sorted_sort_id del: upt_Suc)

lemma completed_whole:
  assumes "parts_ok file ps st ws" and "accounted st ws = mset (map fst (fu_completed st))"
    and "fu_failure st = None" and "fu_cursor st = part_count (length file) ps" and "ps > 0 \<or> file = []"
  shows "whole_file file ps st (js_sort compare_parts (fu_completed st))"
proof -
  let ?parts = "js_sort compare_parts (fu_completed st)"
  have fsts: "map fst ?parts = [1..<Suc (part_count (length file) ps)]"
    using assms(1-4) by (intro sorted_completed) (simp add: parts_ok_def)
  have all: "map_of (fu_stored st) m = Some (file_slice file ps (m - 1), e)" if "(m, e) \<in> set ?parts" for m e
    using assms(1) that by (auto simp: parts_ok_def list_all_iff)
  have "map (\<lambda>(m, e). fst (the (map_of (fu_stored st) m))) ?parts = map (\<lambda>(m, e). file_slice file ps (m - 1)) ?parts"
    using all by auto
  also have "\<dots> = map (\<lambda>m. file_slice file ps (m - 1)) (map fst ?parts)" by (simp add: comp_def case_prod_unfold)
  also have "\<dots> = map (file_slice file ps) [0..<part_count (length file) ps]"
    unfolding fsts One_nat_def map_Suc_upt [symmetric] by (simp add: comp_def)
  finally show ?thesis using fsts all slices_whole [OF assms(5)] by (auto simp: whole_file_def list_all_iff)
qed

lemma aborted_inv:
  assumes "fu_calls st = [Initiate] \<or> (\<exists>parts. fu_calls st = [Initiate, Complete parts] \<and> whole_file file ps st parts)"
  shows "file_inv file ps wanted (abort_started e st)"
  using assms by (auto simp: file_inv_def abort_started_def whole_file_def)

lemma joined_inv:
  assumes "file_inv file ps wanted st" and "fu_phase st = Uploading" and "list_all (\<lambda>x. x = Stopped) (fu_workers st)"
    and "wanted > 0" and "ps > 0 \<or> file = []"
  shows "file_inv file ps wanted (parts_joined st)"
proof -
  have ok: "fu_calls st = [Initiate]" "parts_ok file ps st (fu_workers st)" "loops_ok file ps st"
      "length (fu_workers st) = min wanted (part_count (length file) ps)"
    using assms(1,2) by (simp_all add: file_inv_def)
  show ?thesis
  proof (cases "fu_failure st = None \<and> \<not> fu_cancelled st")
    case True
    have "fu_cursor st = part_count (length file) ps"
    proof (cases "fu_workers st")
      case Nil
      then have "part_count (length file) ps = 0" using ok(4) assms(4) by (simp add: min_def split: if_splits)
      then show ?thesis using ok(2) by (simp add: parts_ok_def)
    next
      case (Cons x ws)
      then show ?thesis using ok(2,3) True assms(3) by (auto simp: parts_ok_def loops_ok_def)
    qed
    then have "whole_file file ps st (js_sort compare_parts (fu_completed st))"
      using ok(2) True assms(3,5) by (intro completed_whole [where ws = "fu_workers st"]) (simp_all add: accounted_def flying_stopped)
    with True ok(1) show ?thesis by (auto simp: parts_joined_def file_inv_def whole_file_def)
  next
    case False
    then have "\<exists>e. parts_joined st = abort_started e st" by (auto simp: parts_joined_def split: option.split)
    then show ?thesis using aborted_inv [where st = st] ok(1) by auto
  qed
qed

lemma keeps_uploading:
  assumes "file_inv file ps wanted st" and "fu_phase st = Uploading" and "keeps_parts file ps st st'"
    and "fu_phase st' = fu_phase st" and "fu_calls st' = fu_calls st"
  shows "file_inv file ps wanted st'"
  using assms by (simp add: file_inv_def keeps_parts_def)

lemma part_moves_fields [simp]:
  "fu_phase (part_fails file ps w e st) = fu_phase st" "fu_calls (part_fails file ps w e st) = fu_calls st"
  "fu_phase (part_signed file ps w i st) = fu_phase st" "fu_calls (part_signed file ps w i st) = fu_calls st"
  "fu_phase (part_answered file ps w i r st) = fu_phase st" "fu_calls (part_answered file ps w i r st) = fu_calls st"
  by (simp_all add: part_fails_def part_signed_def part_answered_def split: option.split list.split)

lemma cancel_inv:
  assumes "file_inv file ps wanted st" and "\<forall>e. fu_phase st \<noteq> Threw e" and "fu_phase st \<noteq> Returned"
  shows "file_inv file ps wanted (st\<lparr>fu_cancelled := True, fu_stopped := True\<rparr>)"
  using assms by (auto simp: file_inv_def parts_ok_def loops_ok_def accounted_def whole_file_def split: upload_phase.splits)

lemma file_step_inv:
  assumes "file_step file ps wanted st st'" and "file_inv file ps wanted st" and "wanted > 0" and "ps > 0 \<or> file = []"
  shows "file_inv file ps wanted st'"
proof -
  have ok: "parts_ok file ps st (fu_workers st)" "loops_ok file ps st" if "fu_phase st = Uploading"
    using assms(2) that by (simp_all add: file_inv_def)
  note keep = keeps_uploading [OF assms(2)]
  show ?thesis
    using assms(1)
  proof cases
    case (initiated u)
    then show ?thesis using initiated_inv [OF assms(2)] by simp
  next
    case (not_initiated e)
    then have "fu_calls st = [Initiate]" using assms(2) by (simp add: file_inv_def)
    then show ?thesis using not_initiated aborted_inv [where st = st] by simp
  next
    case (signed w i)
    show ?thesis unfolding signed(1)
      by (rule keep [OF signed(2) part_signed_works [OF ok [OF signed(2)] signed(3,4)]]) simp_all
  next
    case (not_signed w i e)
    show ?thesis unfolding not_signed(1)
      by (rule keep [OF not_signed(2) part_fails_works [OF ok [OF not_signed(2)] not_signed(3)]]) simp_all
  next
    case (answered w i r)
    show ?thesis unfolding answered(1)
      by (rule keep [OF answered(2) part_answered_works [OF ok [OF answered(2)] answered(3,4)]]) simp_all
  next
    case (not_answered w i e)
    show ?thesis unfolding not_answered(1)
      by (rule keep [OF not_answered(2) part_fails_works [OF ok [OF not_answered(2)] not_answered(3)]]) simp_all
  next
    case joined
    show ?thesis unfolding joined(1) by (rule joined_inv [OF assms(2) joined(2,3) assms(3,4)])
  next
    case completed
    then show ?thesis using assms(2) by (auto simp: file_inv_def whole_file_def)
  next
    case (not_completed e)
    then have "\<exists>parts. fu_calls st = [Initiate, Complete parts] \<and> whole_file file ps st parts" using assms(2) by (simp add: file_inv_def)
    then show ?thesis using not_completed aborted_inv [where st = st] by simp
  next
    case (aborted e)
    then show ?thesis using assms(2) by (auto simp: file_inv_def whole_file_def)
  next
    case cancel
    then show ?thesis using cancel_inv [OF assms(2)] by simp
  qed
qed

lemma file_reachable_inv:
  assumes "(file_step file ps wanted)\<^sup>*\<^sup>* (uploadBrowserFileMultipart file ps cancelled) st" and "wanted > 0"
  shows "file_inv file ps wanted st"
proof (cases "(ps = 0 \<and> length file > 0) \<or> part_count (length file) ps > 10000 \<or> ps > MAX_PART_SIZE \<or> cancelled")
  case True
  then have start: "\<exists>e. fu_phase (uploadBrowserFileMultipart file ps cancelled) = Threw e" "fu_calls (uploadBrowserFileMultipart file ps cancelled) = []"
      "fu_uploadId (uploadBrowserFileMultipart file ps cancelled) = []"
    by (auto simp: uploadBrowserFileMultipart_def Let_def)
  have "st = uploadBrowserFileMultipart file ps cancelled"
    using assms(1)
  proof (induction rule: rtranclp_induct)
    case (step y z)
    from step(2) start(1) step(3) show ?case by cases auto
  qed simp
  with start show ?thesis by (auto simp: file_inv_def)
next
  case False
  from assms(1) show ?thesis
  proof (induction rule: rtranclp_induct)
    case base
    from False show ?case by (simp add: file_inv_def uploadBrowserFileMultipart_def Let_def)
  next
    case (step y z)
    then show ?case using file_step_inv [OF step(2,3) assms(2)] False by auto
  qed
qed

section \<open>A run that returns\<close>

definition waits :: "part_worker \<Rightarrow> nat" where
  "waits x = (case x of Signing i \<Rightarrow> 2 | Sending i \<Rightarrow> 1 | Stopped \<Rightarrow> 0)"

definition work_left :: "bytes \<Rightarrow> nat \<Rightarrow> file_upload \<Rightarrow> nat" where
  "work_left file ps st = 3 * (part_count (length file) ps - fu_cursor st) + sum_list (map waits (fu_workers st))"

lemma waits_update: "w < length ws \<Longrightarrow> sum_list (map waits (ws[w := x])) + waits (ws ! w) = sum_list (map waits ws) + waits x"
  by (induction ws arbitrary: w) (auto split: nat.split simp: nth_Cons)

definition good :: "file_upload \<Rightarrow> bool" where
  "good st \<longleftrightarrow> fu_phase st = Uploading \<and> \<not> fu_stopped st \<and> fu_failure st = None \<and> \<not> fu_cancelled st"

lemma take_part_left:
  assumes "good st" and "w < length (fu_workers st)"
  shows "work_left file ps (take_part file ps w st) + waits (fu_workers st ! w) \<le> work_left file ps st"
proof -
  have "sum_list (map waits (fu_workers (take_part file ps w st))) + waits (fu_workers st ! w)
      = sum_list (map waits (fu_workers st)) + (if fu_cursor st < part_count (length file) ps then 2 else 0)"
    using waits_update [OF assms(2)] assms(1) by (simp add: take_part_moves good_def waits_def)
  then show ?thesis using assms(1) by (auto simp: work_left_def take_part_moves good_def)
qed

lemma good_step:
  assumes "good st" and "\<not> list_all (\<lambda>x. x = Stopped) (fu_workers st)"
  shows "\<exists>st'. file_step file ps wanted st st' \<and> good st' \<and> work_left file ps st' < work_left file ps st"
proof -
  obtain w where w: "w < length (fu_workers st)" "fu_workers st ! w \<noteq> Stopped"
    using assms(2) by (auto simp: list_all_length)
  have phase: "fu_phase st = Uploading" using assms(1) by (simp add: good_def)
  show ?thesis
  proof (cases "fu_workers st ! w")
    case (Signing i)
    have "work_left file ps (part_signed file ps w i st) < work_left file ps st"
      using waits_update [OF w(1), of "Sending i"] Signing assms(1)
      by (simp add: work_left_def part_signed_def good_def waits_def)
    moreover have "good (part_signed file ps w i st)" using assms(1) by (simp add: good_def part_signed_def)
    ultimately show ?thesis using file_step.signed [OF phase w(1) Signing] by blast
  next
    case (Sending i)
    let ?r = "\<lparr>tr_status = 200, tr_statusText = [], tr_etag = Some ''e'', tr_error = (None, None)\<rparr>"
    let ?st = "recordProgress file (i + 1) (part_size file ps i) (part_size file ps i)
      (st\<lparr>fu_completed := fu_completed st @ [(i + 1, ''e'')], fu_stored := (i + 1, file_slice file ps i, ''e'') # fu_stored st\<rparr>)"
    have "part_answered file ps w i ?r st = take_part file ps w ?st"
      by (simp add: part_answered_def transfer_ok_def normalizeEtag_def)
    moreover have "good ?st" using assms(1) by (simp add: good_def)
    then have "work_left file ps (take_part file ps w ?st) + waits (fu_workers ?st ! w) \<le> work_left file ps ?st"
      by (rule take_part_left) (use w(1) in simp)
    then have "work_left file ps (take_part file ps w ?st) < work_left file ps ?st" using Sending by (simp add: waits_def)
    moreover have "good (take_part file ps w ?st)" using \<open>good ?st\<close> by (simp add: good_def)
    moreover have "work_left file ps ?st = work_left file ps st" by (simp add: work_left_def)
    moreover have "file_step file ps wanted st (part_answered file ps w i ?r st)" by (rule file_step.answered [OF phase w(1) Sending])
    ultimately show ?thesis by (intro exI [of _ "part_answered file ps w i ?r st"]) simp
  qed (use w in simp)
qed

lemma good_run: "good st \<Longrightarrow> \<exists>st'. (file_step file ps wanted)\<^sup>*\<^sup>* st st' \<and> fu_phase st' = Returned"
proof (induction "work_left file ps st" arbitrary: st rule: less_induct)
  case less
  show ?case
  proof (cases "list_all (\<lambda>x. x = Stopped) (fu_workers st)")
    case True
    let ?final = "(parts_joined st)\<lparr>fu_phase := Returned, fu_progress := fu_progress (parts_joined st) @ [100]\<rparr>"
    have "file_step file ps wanted st (parts_joined st)" using less.prems True by (intro file_step.joined) (simp add: good_def)
    moreover have "file_step file ps wanted (parts_joined st) ?final"
      using less.prems by (intro file_step.completed) (simp add: good_def parts_joined_def)
    ultimately have "(file_step file ps wanted)\<^sup>*\<^sup>* st ?final" by (meson converse_rtranclp_into_rtranclp rtranclp.rtrancl_refl)
    then show ?thesis by (intro exI [of _ ?final]) simp
  next
    case False
    then obtain st' where "file_step file ps wanted st st'" "good st'" "work_left file ps st' < work_left file ps st"
      using good_step [OF less.prems] by blast
    with less.hyps [of st'] show ?thesis by (meson converse_rtranclp_into_rtranclp)
  qed
qed

section \<open>Properties\<close>

text \<open>
  C10. A file is uploaded whole or not at all, in every order of the answers, failures and cancellation: the
  request that completes the upload is sent at most once, after every part has been stored and with the tag
  the server gave to it, and the parts it names are the file; and a function that throws after the upload
  was started asks the server to abort it, once.
\<close>

theorem file_upload_whole:
  assumes "(file_step file partSize workers_wanted)\<^sup>*\<^sup>* (uploadBrowserFileMultipart file partSize cancelled) st" and "workers_wanted > 0"
  shows "(fu_phase st = Returned \<longrightarrow> (\<exists>parts. fu_calls st = [Initiate, Complete parts]))
    \<and> (\<forall>parts. Complete parts \<in> set (fu_calls st) \<longrightarrow> map fst parts = [1..<Suc (part_count (length file) partSize)]
         \<and> list_all (\<lambda>(m, e). \<exists>b. map_of (fu_stored st) m = Some (b, e)) parts
         \<and> concat (map (\<lambda>(m, e). fst (the (map_of (fu_stored st) m))) parts) = file)
    \<and> length (filter (\<lambda>c. c \<noteq> Initiate \<and> c \<noteq> Abort) (fu_calls st)) \<le> 1
    \<and> (\<forall>e. fu_phase st = Threw e \<and> fu_uploadId st \<noteq> [] \<longrightarrow> length (filter (\<lambda>c. c = Abort) (fu_calls st)) = 1)
    \<and> (fu_phase st = Uploading \<longrightarrow> length (filter (\<lambda>x. x \<noteq> Stopped) (fu_workers st)) \<le> workers_wanted)
    \<and> (good st \<longrightarrow> (\<exists>st'. (file_step file partSize workers_wanted)\<^sup>*\<^sup>* st st' \<and> fu_phase st' = Returned))"
proof -
  have "fu_phase st = Uploading \<longrightarrow> length (filter (\<lambda>x. x \<noteq> Stopped) (fu_workers st)) \<le> workers_wanted"
    using file_reachable_inv [OF assms] by (auto simp: file_inv_def intro!: order_trans [OF length_filter_le])
  then show ?thesis using file_reachable_inv [OF assms] good_run
    by (auto simp: file_inv_def whole_file_def split: upload_phase.splits if_splits)
qed

theorem file_upload_whole_witness:
  "\<exists>st. (file_step [1, 2, 3] 2 4)\<^sup>*\<^sup>* (uploadBrowserFileMultipart [1, 2, 3] 2 False) st \<and> fu_phase st = Returned
     \<and> (\<exists>e f. fu_calls st = [Initiate, Complete [(1, e), (2, f)]])"
proof -
  let ?file = "[1, 2, 3] :: bytes" and ?step = "file_step [1, 2, 3] 2 4"
  let ?first = "uploadBrowserFileMultipart ?file 2 False" and ?begun = "upload_initiated ?file 2 4 ''u'' (uploadBrowserFileMultipart [1, 2, 3] 2 False)"
  have begun: "?step\<^sup>*\<^sup>* ?first ?begun"
    by (intro r_into_rtranclp file_step.initiated) (simp add: uploadBrowserFileMultipart_def part_count_def MAX_PART_SIZE_def)
  have "good ?begun"
    by (simp add: good_def upload_initiated_def uploadBrowserFileMultipart_def part_count_def MAX_PART_SIZE_def Let_def)
  with file_upload_whole [OF begun zero_less_numeral] obtain st where st: "?step\<^sup>*\<^sup>* ?begun st" "fu_phase st = Returned" by auto
  with begun have run: "?step\<^sup>*\<^sup>* ?first st" by auto
  obtain parts where parts: "fu_calls st = [Initiate, Complete parts]" using file_upload_whole [OF run zero_less_numeral] st(2) by blast
  then have "map fst parts = [1..<Suc (part_count (length ?file) 2)]" using file_upload_whole [OF run zero_less_numeral] by (simp del: upt_Suc)
  then have "map fst parts = [1, 2]" by (simp add: part_count_def upt_rec)
  then have "\<exists>e f. parts = [(1, e), (2, f)]" by (auto simp: map_eq_Cons_conv)
  with run st(2) parts show ?thesis by auto
qed

end
