(* ===== verification/Object_Transfer.thy ===== *)
theory Object_Transfer
  imports Object_Upload
begin

text \<open>
  The copy and the move of one object between two contexts:
  \<open>frontend/src/features/browser/browserClipboardTransfer.ts\<close>, with the choice of the size of a part in
  \<open>useBrowserClipboard.ts\<close>. The reference is a source whose download may be cut short or altered and a
  destination that may lose any request or any answer.
\<close>

section \<open>The transfer\<close>

datatype ClipboardTransferMode = DirectTransfer | ProxyTransfer

record object_ref =
  or_selector :: "string option"
  or_bucket :: string
  or_key :: string
  or_sseCustomerKey :: "string option"

record 's transfer_api =
  tx_resolveMode :: "string option \<Rightarrow> string \<Rightarrow> ('s, ClipboardTransferMode) io"
  tx_downloadBlob :: "object_ref \<Rightarrow> ClipboardTransferMode \<Rightarrow> ('s, bytes) io"
  tx_downloadStream :: "object_ref \<Rightarrow> ClipboardTransferMode \<Rightarrow> ('s, (js_error + bytes) list) io"
  tx_uploadBlob :: "object_ref \<Rightarrow> ClipboardTransferMode \<Rightarrow> bytes \<Rightarrow> string option \<Rightarrow> ('s, unit) io"
  tx_uploadMultipartStream :: "object_ref \<Rightarrow> (js_error + bytes) list \<Rightarrow> nat \<Rightarrow> string option \<Rightarrow> ('s, unit) io"
  tx_verifyObject :: "object_ref \<Rightarrow> ('s, nat) io"
  tx_deleteObject :: "object_ref \<Rightarrow> ('s, unit) io"

definition MULTIPART_THRESHOLD :: nat where
  "MULTIPART_THRESHOLD = 25 * 1024 * 1024"

definition PART_SIZE :: nat where
  "PART_SIZE = 8 * 1024 * 1024"

text \<open>\<open>multipartThresholdBytes\<close> is \<open>MULTIPART_THRESHOLD\<close> where it is not given.\<close>

definition transferClipboardObjectBetweenContexts ::
  "'s transfer_api \<Rightarrow> object_ref \<Rightarrow> object_ref \<Rightarrow> nat \<Rightarrow> string option \<Rightarrow> bool \<Rightarrow> nat \<Rightarrow> ('s, unit) io" where
  "transferClipboardObjectBetweenContexts api source destination sizeBytes contentType move threshold =
     io_bind (tx_resolveMode api (or_selector source) (or_bucket source)) (\<lambda>sourceMode.
     io_bind (tx_resolveMode api (or_selector destination) (or_bucket destination)) (\<lambda>destinationMode.
     io_seq
       (if destinationMode = DirectTransfer \<and> sizeBytes \<ge> threshold
        then io_bind (tx_downloadStream api source sourceMode) (\<lambda>stream.
          tx_uploadMultipartStream api destination stream sizeBytes contentType)
        else io_bind (tx_downloadBlob api source sourceMode) (\<lambda>blob.
          tx_uploadBlob api destination destinationMode blob contentType))
       (if \<not> move then io_return ()
        else io_bind (tx_verifyObject api destination) (\<lambda>verified.
          if verified \<noteq> sizeBytes then io_throw (JsErr (''Copy verification failed for '' @ or_key destination @ '' (size mismatch).''))
          else tx_deleteObject api source))))"

text \<open>The size of the parts of an object, in whole MiB when 8 MiB are not enough.\<close>

definition upload_part_size :: "nat \<Rightarrow> nat" where
  "upload_part_size sizeBytes = max PART_SIZE ((sizeBytes + 10000 * 1048576 - 1) div (10000 * 1048576) * 1048576)"

lemma upload_part_size_fits:
  assumes "sizeBytes \<le> 10000 * MAX_PART_SIZE"
  shows "0 < upload_part_size sizeBytes" "upload_part_size sizeBytes \<le> MAX_PART_SIZE" "part_count sizeBytes (upload_part_size sizeBytes) \<le> 10000"
proof -
  let ?k = "(sizeBytes + 10000 * 1048576 - 1) div (10000 * 1048576)"
  have "sizeBytes + 10000 * 1048576 - 1 < 5121 * (10000 * 1048576)" using assms by (simp add: MAX_PART_SIZE_def)
  then have "?k \<le> 5120" by (simp add: div_less_iff_less_mult flip: less_Suc_eq_le)
  then show "upload_part_size sizeBytes \<le> MAX_PART_SIZE" by (simp add: upload_part_size_def PART_SIZE_def MAX_PART_SIZE_def)
  show pos: "0 < upload_part_size sizeBytes" by (simp add: upload_part_size_def PART_SIZE_def)
  have "sizeBytes \<le> ?k * (10000 * 1048576)"
    using dividend_less_div_times [of "10000 * 1048576 :: nat" "sizeBytes + 10000 * 1048576 - 1"] by simp
  also have "\<dots> \<le> upload_part_size sizeBytes * 10000" by (simp add: upload_part_size_def)
  finally have "sizeBytes + upload_part_size sizeBytes - 1 < 10001 * upload_part_size sizeBytes" using pos by simp
  then show "part_count sizeBytes (upload_part_size sizeBytes) \<le> 10000"
    using pos by (simp add: part_count_def div_less_iff_less_mult flip: less_Suc_eq_le)
qed

section \<open>Two places\<close>

record two_places =
  tp_source :: "bytes option"
  tp_dest :: s3_upload

definition at_dest :: "(s3_upload, 'a) io \<Rightarrow> (two_places, 'a) io" where
  "at_dest m s = (case m (tp_dest s) of (r, d) \<Rightarrow> (r, s\<lparr>tp_dest := d\<rparr>))"

text \<open>
  \<open>blob_of\<close> and \<open>chunks_of_content\<close> say what the network makes of the content of the source; the fates of the
  script are those of every request, the deletion of the source included.
\<close>

definition delete_source :: "(two_places, unit) io" where
  "delete_source s = (let gone = s\<lparr>tp_source := None\<rparr> in case s3_script (tp_dest s) of
     [] \<Rightarrow> (Inr (), gone)
   | f # fs \<Rightarrow> (let next = (\<lambda>u. u\<lparr>tp_dest := (tp_dest s)\<lparr>s3_script := fs\<rparr>\<rparr>) in case f of
       Works \<Rightarrow> (Inr (), next gone) | Lost_Answer \<Rightarrow> (Inl (HttpError 504 []), next gone) | _ \<Rightarrow> (Inl (HttpError 503 []), next s)))"

definition places_api ::
  "(bytes \<Rightarrow> string) \<Rightarrow> ClipboardTransferMode \<Rightarrow> (bytes \<Rightarrow> bytes) \<Rightarrow> (bytes \<Rightarrow> (js_error + bytes) list) \<Rightarrow> two_places transfer_api" where
  "places_api tag mode blob_of chunks_of_content = \<lparr>
     tx_resolveMode = (\<lambda>_ _. at_dest (s3_call (io_return mode))),
     tx_downloadBlob = (\<lambda>_ _ s. at_dest (s3_call (case tp_source s of Some c \<Rightarrow> io_return (blob_of c) | None \<Rightarrow> io_throw (HttpError 404 []))) s),
     tx_downloadStream = (\<lambda>_ _ s. at_dest (s3_call (case tp_source s of Some c \<Rightarrow> io_return (chunks_of_content c) | None \<Rightarrow> io_throw (HttpError 404 []))) s),
     tx_uploadBlob = (\<lambda>_ _ b _. at_dest (s3_call (\<lambda>d. (Inr (), d\<lparr>s3_object := Some b\<rparr>)))),
     tx_uploadMultipartStream = (\<lambda>_ chunks n ctype. at_dest (uploadBrowserStreamMultipart (s3_api tag) chunks n ctype (upload_part_size n))),
     tx_verifyObject = (\<lambda>_. at_dest (s3_call (\<lambda>d. case s3_object d of Some b \<Rightarrow> (Inr (length b), d) | None \<Rightarrow> (Inl (HttpError 404 []), d)))),
     tx_deleteObject = (\<lambda>_. delete_source)\<rparr>"

lemma at_dest_run: "at_dest m s = (r, t) \<Longrightarrow> tp_source t = tp_source s \<and> m (tp_dest s) = (r, tp_dest t)"
  by (auto simp: at_dest_def split: prod.splits)

text \<open>What the network may have made of a content.\<close>

definition delivered :: "(bytes \<Rightarrow> bytes) \<Rightarrow> (bytes \<Rightarrow> (js_error + bytes) list) \<Rightarrow> bytes \<Rightarrow> bytes \<Rightarrow> bool" where
  "delivered blob_of chunks_of_content c b \<longleftrightarrow> b = blob_of c \<or> (\<exists>vs. chunks_of_content c = map Inr vs \<and> b = concat vs)"

lemma sent_delivered:
  assumes "(if mode = DirectTransfer \<and> sizeBytes \<ge> threshold
        then io_bind (tx_downloadStream (places_api tag mode blob_of pieces) source sourceMode) (\<lambda>stream.
          tx_uploadMultipartStream (places_api tag mode blob_of pieces) destination stream sizeBytes contentType)
        else io_bind (tx_downloadBlob (places_api tag mode blob_of pieces) source sourceMode) (\<lambda>blob.
          tx_uploadBlob (places_api tag mode blob_of pieces) destination mode blob contentType)) s = (r, t)"
  shows "tp_source t = tp_source s \<and> (r = Inr () \<longrightarrow> (\<exists>c b. tp_source s = Some c \<and> delivered blob_of pieces c b \<and> s3_object (tp_dest t) = Some b))"
proof (cases "mode = DirectTransfer \<and> sizeBytes \<ge> threshold")
  case True
  obtain q u where down: "tx_downloadStream (places_api tag mode blob_of pieces) source sourceMode s = (q, u)"
    by (cases "tx_downloadStream (places_api tag mode blob_of pieces) source sourceMode s")
  note d = at_dest_run [OF down [unfolded places_api_def transfer_api.simps]]
  show ?thesis
  proof (cases q)
    case (Inl e)
    with assms True down d show ?thesis by (auto simp: io_bind_apply)
  next
    case (Inr stream)
    then obtain c where c: "tp_source s = Some c" "stream = pieces c" using d by (cases "tp_source s") (auto elim!: s3_call_Inr)
    have "tx_uploadMultipartStream (places_api tag mode blob_of pieces) destination stream sizeBytes contentType u = (r, t)"
      using assms True down Inr by (simp add: io_bind_apply)
    note up = at_dest_run [OF this [unfolded places_api_def transfer_api.simps]]
    from stream_upload_result [OF conjunct2 [OF up]] up d c show ?thesis
      by (auto simp: whole_content_def delivered_def)
  qed
next
  case False
  obtain q u where down: "tx_downloadBlob (places_api tag mode blob_of pieces) source sourceMode s = (q, u)"
    by (cases "tx_downloadBlob (places_api tag mode blob_of pieces) source sourceMode s")
  note d = at_dest_run [OF down [unfolded places_api_def transfer_api.simps]]
  show ?thesis
  proof (cases q)
    case (Inl e)
    with assms False down d show ?thesis by (auto simp: io_bind_apply)
  next
    case (Inr blob)
    then obtain c where c: "tp_source s = Some c" "blob = blob_of c" using d by (cases "tp_source s") (auto elim!: s3_call_Inr)
    have "tx_uploadBlob (places_api tag mode blob_of pieces) destination mode blob contentType u = (r, t)"
      using assms False down Inr by (simp add: io_bind_apply)
    note up = at_dest_run [OF this [unfolded places_api_def transfer_api.simps]]
    have "s3_object (tp_dest t) = Some blob" if "r = Inr ()"
      using up that by (auto elim!: s3_call_Inr dest!: arg_cong [of _ _ s3_object])
    with up d c show ?thesis by (auto simp: delivered_def)
  qed
qed

text \<open>The end of a move: the check of the size and the deletion of the source.\<close>

lemma end_of_move:
  assumes "io_bind (tx_verifyObject (places_api tag mode blob_of pieces) destination) (\<lambda>verified.
          if verified \<noteq> sizeBytes then io_throw e else tx_deleteObject (places_api tag mode blob_of pieces) source) s = (r, t)"
  shows "s3_object (tp_dest t) = s3_object (tp_dest s) \<and> (tp_source t = tp_source s \<and> r \<noteq> Inr ()
    \<or> tp_source t = None \<and> (\<exists>b. s3_object (tp_dest s) = Some b \<and> length b = sizeBytes))"
proof -
  let ?check = "\<lambda>d. case s3_object d of Some b \<Rightarrow> (Inr (length b), d) | None \<Rightarrow> (Inl (HttpError 404 []), d)"
  obtain q u where verify: "at_dest (s3_call ?check) s = (q, u)" by (cases "at_dest (s3_call ?check) s")
  note v = at_dest_run [OF verify]
  have "keeps_object (s3_call ?check)"
    by (rule keeps_object_ops(3)) (auto simp: keeps_object_def split: option.split)
  then have "s3_object (snd (s3_call ?check (tp_dest s))) = s3_object (tp_dest s)" unfolding keeps_object_def by (rule spec)
  then have u: "s3_object (tp_dest u) = s3_object (tp_dest s)" unfolding conjunct2 [OF v] by simp
  show ?thesis
  proof (cases "q = Inr sizeBytes")
    case False
    then have "t = u \<and> r \<noteq> Inr ()"
      using assms verify by (cases q) (auto simp: places_api_def io_bind_apply split: if_splits)
    with u v show ?thesis by auto
  next
    case True
    then obtain b where b: "s3_object (tp_dest s) = Some b" "length b = sizeBytes"
      using v by (auto elim!: s3_call_Inr split: option.splits)
    have "delete_source u = (r, t)" using assms verify True by (simp add: places_api_def io_bind_apply)
    then have "s3_object (tp_dest t) = s3_object (tp_dest u) \<and> (tp_source t = None \<or> tp_source t = tp_source u \<and> r \<noteq> Inr ())"
      by (auto simp: delete_source_def Let_def split: list.splits fate.splits)
    with u v b show ?thesis by auto
  qed
qed

section \<open>Properties\<close>


definition sample_places :: two_places where
  "sample_places = \<lparr>tp_source = Some [1, 2, 3],
     tp_dest = \<lparr>s3_script = [], s3_signal = False, s3_parts = [], s3_open = False, s3_object = None\<rparr>\<rparr>"

definition sample_ref :: "string \<Rightarrow> object_ref" where
  "sample_ref b = \<lparr>or_selector = None, or_bucket = b, or_key = ''k'', or_sseCustomerKey = None\<rparr>"

definition sample_move :: "(js_error + unit) \<times> two_places" where
  "sample_move = transferClipboardObjectBetweenContexts
     (places_api (\<lambda>_. ''e'') DirectTransfer id (\<lambda>c. [Inr (take 1 c), Inr (drop 1 c)])) (sample_ref ''a'') (sample_ref ''b'') 3 None True 5 sample_places"


end
