(* ===== verification/Restore_Plan.thy ===== *)
theory Restore_Plan
  imports Json_Roundtrip Bucket_Api
begin

text \<open>
  The plan that restores objects of a versioned bucket to a date, or that brings back deleted ones:
  \<open>frontend/src/features/browser/browserBulkRestorePlan.ts\<close>. The reference is a versioned bucket; the plan is
  right when carrying it out gives each selected object the content it had at the date.
\<close>

section \<open>Versions\<close>

record BrowserObjectVersion =
  ov_key :: string
  ov_versionId :: "string option"
  ov_isLatest :: bool
  ov_isDeleteMarker :: bool
  ov_lastModified :: "string option"

record VersionListing =
  vl_versions :: "BrowserObjectVersion list"
  vl_deleteMarkers :: "BrowserObjectVersion list"

datatype item_type = FolderItem | FileItem

record restore_item =
  ri_key :: string
  ri_type :: item_type

definition normalizePrefix :: "string \<Rightarrow> string" where
  "normalizePrefix v = (if v = [] then [] else if endsWith v ''/'' then v else v @ ''/'')"

text \<open>\<open>date_of\<close> is \<open>new Date(text).getTime()\<close>, with \<open>None\<close> for \<open>NaN\<close>.\<close>

type_synonym date_reader = "string \<Rightarrow> int option"

definition has_date :: "BrowserObjectVersion \<Rightarrow> bool" where
  "has_date e = (case ov_lastModified e of Some (c # cs) \<Rightarrow> True | _ \<Rightarrow> False)"

definition entryTime :: "date_reader \<Rightarrow> BrowserObjectVersion \<Rightarrow> int" where
  "entryTime date_of e = (if \<not> has_date e then 0 else case date_of (the (ov_lastModified e)) of Some t \<Rightarrow> t | None \<Rightarrow> 0)"

definition by_date_desc :: "date_reader \<Rightarrow> BrowserObjectVersion \<Rightarrow> BrowserObjectVersion \<Rightarrow> int" where
  "by_date_desc date_of a b = entryTime date_of b - entryTime date_of a"

definition sortedByDateDesc :: "date_reader \<Rightarrow> BrowserObjectVersion list \<Rightarrow> BrowserObjectVersion list" where
  "sortedByDateDesc date_of entries = js_sort (by_date_desc date_of) entries"

definition versionAtOrBefore :: "date_reader \<Rightarrow> BrowserObjectVersion list \<Rightarrow> int \<Rightarrow> BrowserObjectVersion option" where
  "versionAtOrBefore date_of entries targetTime =
     find (\<lambda>e. has_date e \<and> entryTime date_of e \<le> targetTime) (sortedByDateDesc date_of entries)"

definition latestRestorableVersion :: "date_reader \<Rightarrow> BrowserObjectVersion list \<Rightarrow> BrowserObjectVersion option" where
  "latestRestorableVersion date_of entries =
     find (\<lambda>e. \<not> ov_isDeleteMarker e \<and> (case ov_versionId e of Some v \<Rightarrow> length v > 0 | None \<Rightarrow> False)) (sortedByDateDesc date_of entries)"

section \<open>The plan\<close>

record restore_plan =
  rp_restoreCandidates :: "(string \<times> string) list"
  rp_presentAtDate :: "string list"
  rp_unchangedKeys :: "string list"
  rp_deleteCandidates :: "string list"

definition js_set_add :: "'a \<Rightarrow> 'a list \<Rightarrow> 'a list" where
  "js_set_add x xs = (if x \<in> set xs then xs else xs @ [x])"

definition classifyVersions ::
  "date_reader \<Rightarrow> string \<Rightarrow> BrowserObjectVersion list \<Rightarrow> bool \<Rightarrow> int \<Rightarrow> restore_plan \<Rightarrow> restore_plan" where
  "classifyVersions date_of key entries restoreLatestDeleted targetTime plan =
     (let latest = find ov_isLatest entries in
      if restoreLatestDeleted
      then (case (latest, latestRestorableVersion date_of entries) of
          (Some l, Some r) \<Rightarrow> (case ov_versionId r of
              Some v \<Rightarrow> if ov_isDeleteMarker l \<and> v \<noteq> [] then plan\<lparr>rp_restoreCandidates := AList.update key v (rp_restoreCandidates plan)\<rparr> else plan
            | None \<Rightarrow> plan)
        | _ \<Rightarrow> plan)
      else (case versionAtOrBefore date_of entries targetTime of
          None \<Rightarrow> plan
        | Some m \<Rightarrow> (case ov_versionId m of
            Some (c # cs) \<Rightarrow>
              if ov_isDeleteMarker m then plan
              else (let plan' = (if (\<exists>l. latest = Some l \<and> \<not> ov_isDeleteMarker l \<and> ov_versionId l = ov_versionId m)
                      then plan\<lparr>rp_unchangedKeys := js_set_add key (rp_unchangedKeys plan)\<rparr>
                      else plan\<lparr>rp_restoreCandidates := AList.update key (c # cs) (rp_restoreCandidates plan)\<rparr>) in
                    plan'\<lparr>rp_presentAtDate := js_set_add key (rp_presentAtDate plan')\<rparr>)
          | _ \<Rightarrow> plan)))"

record restore_options =
  ro_restoreLatestDeleted :: bool
  ro_targetTime :: int
  ro_deleteMissing :: bool

record 's restore_api =
  ra_listVersionsForKey :: "string \<Rightarrow> ('s, VersionListing) io"
  ra_listVersionsForPrefix :: "string \<Rightarrow> ('s, VersionListing) io"
  ra_listObjectsForPrefix :: "string \<Rightarrow> ('s, string list) io"

definition all_entries :: "VersionListing \<Rightarrow> BrowserObjectVersion list" where
  "all_entries l = vl_versions l @ vl_deleteMarkers l"

definition plan_file :: "date_reader \<Rightarrow> restore_options \<Rightarrow> 's restore_api \<Rightarrow> string \<Rightarrow> restore_plan \<Rightarrow> ('s, restore_plan) io" where
  "plan_file date_of opts api key plan = io_bind (ra_listVersionsForKey api key) (\<lambda>l.
     let plan' = classifyVersions date_of key (all_entries l) (ro_restoreLatestDeleted opts) (ro_targetTime opts) plan in
     io_return (if \<not> ro_restoreLatestDeleted opts \<and> ro_deleteMissing opts \<and> key \<notin> set (rp_presentAtDate plan')
       then plan'\<lparr>rp_deleteCandidates := js_set_add key (rp_deleteCandidates plan')\<rparr> else plan'))"

text \<open>The versions by key, in the order in which the keys come.\<close>

definition versions_by_key :: "BrowserObjectVersion list \<Rightarrow> (string \<times> BrowserObjectVersion list) list" where
  "versions_by_key entries = fold (\<lambda>e m. AList.update (ov_key e)
     ((case map_of m (ov_key e) of Some es \<Rightarrow> es | None \<Rightarrow> []) @ [e]) m) entries []"

definition plan_folder :: "date_reader \<Rightarrow> restore_options \<Rightarrow> 's restore_api \<Rightarrow> string \<Rightarrow> restore_plan \<Rightarrow> ('s, restore_plan) io" where
  "plan_folder date_of opts api folderKey plan =
     (let prefix = normalizePrefix folderKey in
      io_bind (ra_listVersionsForPrefix api prefix) (\<lambda>l.
        let plan' = fold (\<lambda>(key, entries). classifyVersions date_of key entries (ro_restoreLatestDeleted opts) (ro_targetTime opts))
              (versions_by_key (all_entries l)) plan in
        if \<not> ro_restoreLatestDeleted opts \<and> ro_deleteMissing opts
        then io_bind (ra_listObjectsForPrefix api prefix) (\<lambda>keys.
          io_return (plan'\<lparr>rp_deleteCandidates := fold (\<lambda>k ds. if k \<in> set (rp_presentAtDate plan') then ds else js_set_add k ds)
            keys (rp_deleteCandidates plan')\<rparr>))
        else io_return plan'))"

fun io_fold :: "('a \<Rightarrow> 'b \<Rightarrow> ('s, 'b) io) \<Rightarrow> 'a list \<Rightarrow> 'b \<Rightarrow> ('s, 'b) io" where
  "io_fold f [] b = io_return b"
| "io_fold f (x # xs) b = io_bind (f x b) (io_fold f xs)"

definition start_plan :: restore_plan where
  "start_plan = \<lparr>rp_restoreCandidates = [], rp_presentAtDate = [], rp_unchangedKeys = [], rp_deleteCandidates = []\<rparr>"

definition buildBulkRestorePlan :: "date_reader \<Rightarrow> restore_options \<Rightarrow> 's restore_api \<Rightarrow> restore_item list \<Rightarrow> ('s, restore_plan) io" where
  "buildBulkRestorePlan date_of opts api items =
     io_bind (io_fold (plan_file date_of opts api) (map ri_key (filter (\<lambda>i. ri_type i = FileItem) items)) start_plan)
       (io_fold (plan_folder date_of opts api) (map ri_key (filter (\<lambda>i. ri_type i = FolderItem) items)))"


section \<open>A versioned bucket\<close>

text \<open>
  The reference: the versions of each key, newest first. A version without content is a delete marker. \<open>date_text\<close>
  is the text of a time in a listing.
\<close>

record stored_version =
  sv_id :: string
  sv_time :: int
  sv_content :: "nat option"

record versioned =
  vb_keys :: "string list"
  vb_at :: "string \<Rightarrow> stored_version list"

definition listed_version :: "(int \<Rightarrow> string) \<Rightarrow> string \<Rightarrow> bool \<Rightarrow> stored_version \<Rightarrow> BrowserObjectVersion" where
  "listed_version date_text k latest v = \<lparr>ov_key = k, ov_versionId = Some (sv_id v), ov_isLatest = latest,
     ov_isDeleteMarker = (sv_content v = None), ov_lastModified = Some (date_text (sv_time v))\<rparr>"

fun entries_of :: "(int \<Rightarrow> string) \<Rightarrow> string \<Rightarrow> stored_version list \<Rightarrow> BrowserObjectVersion list" where
  "entries_of date_text k [] = []"
| "entries_of date_text k (v # vs) = listed_version date_text k True v # map (listed_version date_text k False) vs"

definition listing_of :: "(int \<Rightarrow> string) \<Rightarrow> versioned \<Rightarrow> string list \<Rightarrow> VersionListing" where
  "listing_of date_text st ks = (let es = concat (map (\<lambda>k. entries_of date_text k (vb_at st k)) ks) in
     \<lparr>vl_versions = filter (\<lambda>e. \<not> ov_isDeleteMarker e) es, vl_deleteMarkers = filter ov_isDeleteMarker es\<rparr>)"

definition current :: "versioned \<Rightarrow> string \<Rightarrow> nat option" where
  "current st k = (case vb_at st k of [] \<Rightarrow> None | v # vs \<Rightarrow> sv_content v)"

definition content_at :: "versioned \<Rightarrow> int \<Rightarrow> string \<Rightarrow> nat option" where
  "content_at st t k = (case find (\<lambda>v. sv_time v \<le> t) (vb_at st k) of None \<Rightarrow> None | Some v \<Rightarrow> sv_content v)"

definition version_content :: "versioned \<Rightarrow> string \<Rightarrow> string \<Rightarrow> nat option" where
  "version_content st k v = (case find (\<lambda>x. sv_id x = v) (vb_at st k) of None \<Rightarrow> None | Some x \<Rightarrow> sv_content x)"

definition newest_content :: "versioned \<Rightarrow> string \<Rightarrow> nat option" where
  "newest_content st k = (case find (\<lambda>v. sv_content v \<noteq> None) (vb_at st k) of None \<Rightarrow> None | Some v \<Rightarrow> sv_content v)"

definition versions_api :: "(int \<Rightarrow> string) \<Rightarrow> versioned restore_api" where
  "versions_api date_text = \<lparr>
     ra_listVersionsForKey = (\<lambda>k st. (Inr (listing_of date_text st [k]), st)),
     ra_listVersionsForPrefix = (\<lambda>p st. (Inr (listing_of date_text st (filter (\<lambda>k. startsWith k p) (vb_keys st))), st)),
     ra_listObjectsForPrefix = (\<lambda>p st. (Inr (filter (\<lambda>k. startsWith k p \<and> current st k \<noteq> None) (vb_keys st)), st))\<rparr>"

definition good_bucket :: "versioned \<Rightarrow> bool" where
  "good_bucket st \<longleftrightarrow> distinct (vb_keys st) \<and> (\<forall>k. vb_at st k \<noteq> [] \<longrightarrow> k \<in> set (vb_keys st)) \<and>
     (\<forall>k. distinct (map sv_id (vb_at st k)) \<and> [] \<notin> set (map sv_id (vb_at st k)) \<and>
       sorted_wrt (\<lambda>a b. sv_time b < sv_time a) (vb_at st k))"

definition dates_read :: "date_reader \<Rightarrow> (int \<Rightarrow> string) \<Rightarrow> bool" where
  "dates_read date_of date_text \<longleftrightarrow> (\<forall>t. date_text t \<noteq> [] \<and> date_of (date_text t) = Some t)"

text \<open>Carrying out a plan: a restore copies a version over the object, a delete removes it.\<close>

definition carry_out :: "versioned \<Rightarrow> restore_plan \<Rightarrow> string \<Rightarrow> nat option" where
  "carry_out st plan = fold (\<lambda>k m. m(k := None)) (rp_deleteCandidates plan)
     (fold (\<lambda>(k, v) m. m(k := version_content st k v)) (rp_restoreCandidates plan) (current st))"

definition selected_key :: "restore_item list \<Rightarrow> string \<Rightarrow> bool" where
  "selected_key items k \<longleftrightarrow> (\<exists>i \<in> set items. ri_type i = FileItem \<and> ri_key i = k
     \<or> ri_type i = FolderItem \<and> startsWith k (normalizePrefix (ri_key i)))"

text \<open>What the user asked for.\<close>

definition restored_content :: "restore_options \<Rightarrow> versioned \<Rightarrow> string \<Rightarrow> nat option" where
  "restored_content opts st k =
     (if ro_restoreLatestDeleted opts then (case current st k of Some c \<Rightarrow> Some c | None \<Rightarrow> newest_content st k)
      else (case content_at st (ro_targetTime opts) k of Some c \<Rightarrow> Some c
        | None \<Rightarrow> if ro_deleteMissing opts then None else current st k))"

section \<open>The verdict on a key\<close>

datatype verdict = Leave | Unchanged | Restore string

definition current_is :: "BrowserObjectVersion list \<Rightarrow> BrowserObjectVersion \<Rightarrow> bool" where
  "current_is entries m \<longleftrightarrow> (\<exists>l. find ov_isLatest entries = Some l \<and> \<not> ov_isDeleteMarker l \<and> ov_versionId l = ov_versionId m)"

definition verdict_of :: "date_reader \<Rightarrow> restore_options \<Rightarrow> BrowserObjectVersion list \<Rightarrow> verdict" where
  "verdict_of date_of opts entries = (if ro_restoreLatestDeleted opts
     then (case find ov_isLatest entries of None \<Rightarrow> Leave | Some l \<Rightarrow>
       if ov_isDeleteMarker l then (case Option.bind (latestRestorableVersion date_of entries) ov_versionId of
           Some (c # cs) \<Rightarrow> Restore (c # cs) | _ \<Rightarrow> Leave) else Leave)
     else (case versionAtOrBefore date_of entries (ro_targetTime opts) of None \<Rightarrow> Leave | Some m \<Rightarrow>
       (case ov_versionId m of Some (c # cs) \<Rightarrow>
           if ov_isDeleteMarker m then Leave else if current_is entries m then Unchanged else Restore (c # cs)
         | _ \<Rightarrow> Leave)))"

definition mark :: "restore_options \<Rightarrow> string \<Rightarrow> verdict \<Rightarrow> restore_plan \<Rightarrow> restore_plan" where
  "mark opts key v plan = (case v of Leave \<Rightarrow> plan
     | Unchanged \<Rightarrow> plan\<lparr>rp_unchangedKeys := js_set_add key (rp_unchangedKeys plan), rp_presentAtDate := js_set_add key (rp_presentAtDate plan)\<rparr>
     | Restore x \<Rightarrow> if ro_restoreLatestDeleted opts then plan\<lparr>rp_restoreCandidates := AList.update key x (rp_restoreCandidates plan)\<rparr>
        else plan\<lparr>rp_restoreCandidates := AList.update key x (rp_restoreCandidates plan), rp_presentAtDate := js_set_add key (rp_presentAtDate plan)\<rparr>)"

lemma classify_mark_deleted:
  assumes "ro_restoreLatestDeleted opts"
  shows "classifyVersions date_of key entries True t plan = mark opts key (verdict_of date_of opts entries) plan"
proof (cases "find ov_isLatest entries")
  case (Some l)
  then show ?thesis
    using assms by (cases "latestRestorableVersion date_of entries")
      (auto simp: classifyVersions_def verdict_of_def mark_def split: option.split list.split)
qed (simp add: classifyVersions_def verdict_of_def mark_def assms)

lemma classify_mark_date:
  assumes "\<not> ro_restoreLatestDeleted opts"
  shows "classifyVersions date_of key entries False (ro_targetTime opts) plan = mark opts key (verdict_of date_of opts entries) plan"
proof (cases "versionAtOrBefore date_of entries (ro_targetTime opts)")
  case (Some m)
  show ?thesis
  proof (cases "ov_versionId m")
    case (Some x)
    then show ?thesis using \<open>versionAtOrBefore date_of entries (ro_targetTime opts) = Some m\<close> assms
      by (cases x) (auto simp: classifyVersions_def verdict_of_def mark_def current_is_def Let_def)
  qed (simp add: classifyVersions_def verdict_of_def mark_def assms Some)
qed (simp add: classifyVersions_def verdict_of_def mark_def assms)

lemma classify_mark:
  "classifyVersions date_of key entries (ro_restoreLatestDeleted opts) (ro_targetTime opts) plan = mark opts key (verdict_of date_of opts entries) plan"
  using classify_mark_deleted classify_mark_date by (cases "ro_restoreLatestDeleted opts") auto

lemma entry_times:
  assumes "dates_read date_of date_text"
  shows "map (entryTime date_of) (entries_of date_text k svs) = map sv_time svs"
proof -
  have t: "entryTime date_of (listed_version date_text k b v) = sv_time v" for b v
    using assms by (auto simp: entryTime_def has_date_def listed_version_def dates_read_def split: list.splits)
  show ?thesis by (cases svs) (simp_all add: t comp_def)
qed

lemma sortedByDateDesc_entries:
  assumes "dates_read date_of date_text" and "sorted_wrt (\<lambda>a b. sv_time b < sv_time a) svs"
    and "mset es = mset (entries_of date_text k svs)"
  shows "sortedByDateDesc date_of es = entries_of date_text k svs"
proof -
  let ?R = "\<lambda>a b. by_date_desc date_of a b \<le> 0" and ?es = "entries_of date_text k svs"
  have times: "sorted_wrt (\<lambda>a b. b < a) (map (entryTime date_of) ?es)"
    using assms(2) by (simp add: entry_times [OF assms(1)] sorted_wrt_map)
  then have "distinct (map (entryTime date_of) ?es)"
    using sorted_wrt_rev [of "(<)" "map (entryTime date_of) ?es"] strict_sorted_iff distinct_rev by metis
  then have inj: "inj_on (entryTime date_of) (set ?es)" by (simp add: distinct_map)
  show ?thesis unfolding sortedByDateDesc_def
  proof (rule sorted_unique)
    show "sorted_wrt ?R (js_sort (by_date_desc date_of) es)"
      by (rule sorted_js_sort) (auto simp: total_cmp_def by_date_desc_def)
    show "sorted_wrt ?R ?es" using times unfolding sorted_wrt_map
      by (rule sorted_wrt_mono_rel [rotated]) (simp add: by_date_desc_def)
    show "mset (js_sort (by_date_desc date_of) es) = mset ?es" using assms(3) by simp
    fix a b assume "a \<in> set (js_sort (by_date_desc date_of) es)" "b \<in> set (js_sort (by_date_desc date_of) es)" "?R a b" "?R b a"
    then show "a = b" using inj mset_eq_setD [OF assms(3)] by (auto simp: by_date_desc_def inj_on_def)
  qed
qed

text \<open>The verdict over the versions as the bucket holds them.\<close>

definition verdict_at :: "restore_options \<Rightarrow> stored_version list \<Rightarrow> verdict" where
  "verdict_at opts svs = (if ro_restoreLatestDeleted opts
     then (case svs of [] \<Rightarrow> Leave | v # _ \<Rightarrow> if sv_content v \<noteq> None then Leave
       else (case find (\<lambda>v. sv_content v \<noteq> None) svs of None \<Rightarrow> Leave | Some r \<Rightarrow> Restore (sv_id r)))
     else (case find (\<lambda>v. sv_time v \<le> ro_targetTime opts) svs of None \<Rightarrow> Leave | Some m \<Rightarrow>
       if sv_content m = None then Leave else if m = hd svs then Unchanged else Restore (sv_id m)))"

lemma find_map_opt: "find P (map f xs) = map_option f (find (P \<circ> f) xs)"
  by (induction xs) auto

lemma find_the_one:
  assumes "x \<in> set xs" and "P x" and "\<And>y. y \<in> set xs \<Longrightarrow> P y \<Longrightarrow> y = x"
  shows "find P xs = Some x"
proof -
  obtain y where y: "find P xs = Some y" using assms(1,2) by (cases "find P xs") (auto simp: find_None_iff)
  then have "y \<in> set xs" "P y" by (auto simp: find_Some_iff)
  then show ?thesis using y assms(3) by simp
qed

lemma entries_latest:
  assumes "mset es = mset (entries_of date_text k svs)"
  shows "find ov_isLatest es = (case svs of [] \<Rightarrow> None | v # _ \<Rightarrow> Some (listed_version date_text k True v))"
proof (cases svs)
  case (Cons v vs)
  have st: "set es = set (entries_of date_text k svs)" using assms by (metis set_mset_mset)
  have "find ov_isLatest es = Some (listed_version date_text k True v)"
    by (rule find_the_one) (auto simp: st Cons listed_version_def)
  then show ?thesis using Cons by simp
qed (use assms in simp)

lemma find_entries:
  assumes "\<And>b v. P (listed_version date_text k b v) = Q v"
  shows "find P (entries_of date_text k svs) = (case find Q svs of None \<Rightarrow> None
     | Some m \<Rightarrow> Some (listed_version date_text k (Q (hd svs)) m))"
proof (cases svs)
  case (Cons v vs)
  have "(P \<circ> listed_version date_text k False) = Q" by (rule ext) (simp only: comp_apply assms)
  then have "find P (map (listed_version date_text k False) vs) = map_option (listed_version date_text k False) (find Q vs)"
    unfolding find_map_opt by simp
  then show ?thesis unfolding Cons using assms [of True v]
    by (cases "Q v"; cases "find Q vs") simp_all
qed simp

lemma id_inj: "distinct (map sv_id svs) \<Longrightarrow> a \<in> set svs \<Longrightarrow> b \<in> set svs \<Longrightarrow> sv_id a = sv_id b \<longleftrightarrow> a = b"
  by (metis distinct_map inj_on_eq_iff)

lemma verdict_of_entries:
  assumes r: "dates_read date_of date_text" and m: "mset es = mset (entries_of date_text k svs)"
    and o: "sorted_wrt (\<lambda>a b. sv_time b < sv_time a) svs" and d: "distinct (map sv_id svs)" "[] \<notin> set (map sv_id svs)"
  shows "verdict_of date_of opts es = verdict_at opts svs"
proof (cases "ro_restoreLatestDeleted opts")
  case True
  have ids: "\<And>v. v \<in> set svs \<Longrightarrow> sv_id v \<noteq> []" using d(2) by (metis image_eqI list.set_map)
  have "latestRestorableVersion date_of es = (case find (\<lambda>v. sv_content v \<noteq> None \<and> sv_id v \<noteq> []) svs of None \<Rightarrow> None
     | Some m \<Rightarrow> Some (listed_version date_text k (sv_content (hd svs) \<noteq> None \<and> sv_id (hd svs) \<noteq> []) m))"
    unfolding latestRestorableVersion_def sortedByDateDesc_entries [OF r o m]
    by (rule find_entries) (simp add: listed_version_def)
  moreover have "find (\<lambda>v. sv_content v \<noteq> None \<and> sv_id v \<noteq> []) svs = find (\<lambda>v. sv_content v \<noteq> None) svs"
    using ids by (intro find_cong) auto
  moreover have "sv_id x \<noteq> []" if "find (\<lambda>v. sv_content v \<noteq> None) svs = Some x" for x
    using that ids by (auto simp: find_Some_iff)
  ultimately show ?thesis using True entries_latest [OF m]
    by (auto simp: verdict_of_def verdict_at_def listed_version_def split: list.splits option.splits)
next
  case False
  have ids: "\<And>v. v \<in> set svs \<Longrightarrow> sv_id v \<noteq> []" using d(2) by (metis image_eqI list.set_map)
  have "versionAtOrBefore date_of es (ro_targetTime opts) = (case find (\<lambda>v. sv_time v \<le> ro_targetTime opts) svs of None \<Rightarrow> None
     | Some m \<Rightarrow> Some (listed_version date_text k (sv_time (hd svs) \<le> ro_targetTime opts) m))"
    unfolding versionAtOrBefore_def sortedByDateDesc_entries [OF r o m]
    by (rule find_entries) (use r in \<open>auto simp: listed_version_def entryTime_def has_date_def dates_read_def split: list.splits\<close>)
  note m' = this
  show ?thesis
  proof (cases "find (\<lambda>v. sv_time v \<le> ro_targetTime opts) svs")
    case (Some x)
    then have x: "x \<in> set svs" by (auto simp: find_Some_iff)
    then obtain v vs where svs: "svs = v # vs" by (cases svs) auto
    obtain c cs where c: "sv_id x = c # cs" using ids [OF x] by (cases "sv_id x") auto
    have "sv_id v = c # cs \<longleftrightarrow> v = x" using id_inj [OF d(1), of v x] x svs c by simp
    moreover have "current_is es (listed_version date_text k b x) \<longleftrightarrow> sv_content v \<noteq> None \<and> sv_id v = sv_id x" for b
      unfolding current_is_def entries_latest [OF m] by (simp add: svs listed_version_def)
    ultimately show ?thesis using False m' unfolding Some verdict_of_def verdict_at_def
      by (auto simp: listed_version_def c svs)
  qed (use False m' in \<open>simp add: verdict_of_def verdict_at_def\<close>)
qed


section \<open>What the plan records\<close>

text \<open>The plan records the verdicts \<open>V\<close> of the keys \<open>P\<close>, and the deletions \<open>D\<close>.\<close>

definition plan_shows :: "restore_options \<Rightarrow> (string \<Rightarrow> verdict) \<Rightarrow> string set \<Rightarrow> string set \<Rightarrow> restore_plan \<Rightarrow> bool" where
  "plan_shows opts V P D plan \<longleftrightarrow> distinct (map fst (rp_restoreCandidates plan)) \<and>
     (\<forall>k. map_of (rp_restoreCandidates plan) k = (if k \<in> P then case V k of Restore v \<Rightarrow> Some v | _ \<Rightarrow> None else None)) \<and>
     set (rp_unchangedKeys plan) = {k \<in> P. V k = Unchanged} \<and>
     set (rp_presentAtDate plan) = {k \<in> P. V k \<noteq> Leave \<and> \<not> ro_restoreLatestDeleted opts} \<and>
     set (rp_deleteCandidates plan) = D"

lemma set_js_set_add [simp]: "set (js_set_add x xs) = insert x (set xs)"
  by (auto simp: js_set_add_def)

lemma plan_shows_mark:
  assumes "plan_shows opts V P D plan" and "V k = v" and "\<not> (ro_restoreLatestDeleted opts \<and> v = Unchanged)"
  shows "plan_shows opts V (insert k P) D (mark opts k v plan)"
  using assms
  by (cases v) (auto simp: plan_shows_def mark_def update_conv' distinct_update)

lemma plan_shows_cong:
  assumes "plan_shows opts V P D plan" and "\<And>k. V k \<noteq> Leave \<Longrightarrow> k \<in> P \<longleftrightarrow> k \<in> P'" and "D = D'"
  shows "plan_shows opts V P' D' plan"
proof -
  have "(if k \<in> P then case V k of Restore v \<Rightarrow> Some v | _ \<Rightarrow> None else None) =
      (if k \<in> P' then case V k of Restore v \<Rightarrow> Some v | _ \<Rightarrow> None else None)" for k
    using assms(2) [of k] by (cases "V k") auto
  moreover have "{k \<in> P. V k = Unchanged} = {k \<in> P'. V k = Unchanged}"
    "{k \<in> P. V k \<noteq> Leave \<and> \<not> ro_restoreLatestDeleted opts} = {k \<in> P'. V k \<noteq> Leave \<and> \<not> ro_restoreLatestDeleted opts}"
    using assms(2) by auto
  ultimately show ?thesis using assms(1,3) by (simp add: plan_shows_def)
qed

lemma verdict_at_mode: "ro_restoreLatestDeleted opts \<Longrightarrow> verdict_at opts svs \<noteq> Unchanged"
  by (auto simp: verdict_at_def split: list.split option.split)

definition verdict_in :: "restore_options \<Rightarrow> versioned \<Rightarrow> string \<Rightarrow> verdict" where
  "verdict_in opts st k = verdict_at opts (vb_at st k)"

lemma plan_shows_classify:
  assumes "good_bucket st" and "dates_read date_of date_text"
    and "mset es = mset (entries_of date_text k (vb_at st k))" and "plan_shows opts (verdict_in opts st) P D plan"
  shows "plan_shows opts (verdict_in opts st) (insert k P) D
     (classifyVersions date_of k es (ro_restoreLatestDeleted opts) (ro_targetTime opts) plan)"
proof -
  have "verdict_of date_of opts es = verdict_in opts st k"
    using verdict_of_entries [OF assms(2,3)] assms(1) by (simp add: good_bucket_def verdict_in_def)
  then show ?thesis unfolding classify_mark
    by (intro plan_shows_mark assms(4)) (auto simp: verdict_in_def verdict_at_mode)
qed

lemma mset_all_entries: "mset (all_entries (listing_of date_text st ks)) = mset (concat (map (\<lambda>k. entries_of date_text k (vb_at st k)) ks))"
  by (simp add: all_entries_def listing_of_def Let_def add.commute flip: mset_filter)
    (metis mset_filter multiset_partition add.commute)

definition deletes_missing :: "restore_options \<Rightarrow> bool" where
  "deletes_missing opts \<longleftrightarrow> \<not> ro_restoreLatestDeleted opts \<and> ro_deleteMissing opts"

lemma plan_file_shows:
  assumes "good_bucket st" and "dates_read date_of date_text" and p: "plan_shows opts (verdict_in opts st) P D plan"
  shows "\<exists>plan'. plan_file date_of opts (versions_api date_text) k plan st = (Inr plan', st) \<and>
     plan_shows opts (verdict_in opts st) (insert k P) (D \<union> {x. x = k \<and> deletes_missing opts \<and> verdict_in opts st k = Leave}) plan'"
proof -
  let ?es = "all_entries (listing_of date_text st [k])"
  define q where "q = classifyVersions date_of k ?es (ro_restoreLatestDeleted opts) (ro_targetTime opts) plan"
  have q: "plan_shows opts (verdict_in opts st) (insert k P) D q"
    unfolding q_def by (rule plan_shows_classify [OF assms(1,2) _ p]) (simp add: mset_all_entries)
  then have "k \<notin> set (rp_presentAtDate q) \<longleftrightarrow> ro_restoreLatestDeleted opts \<or> verdict_in opts st k = Leave"
    by (auto simp: plan_shows_def)
  moreover have "plan_file date_of opts (versions_api date_text) k plan st =
      (Inr (if deletes_missing opts \<and> k \<notin> set (rp_presentAtDate q) then q\<lparr>rp_deleteCandidates := js_set_add k (rp_deleteCandidates q)\<rparr> else q), st)"
    unfolding q_def by (simp add: plan_file_def versions_api_def io_bind_apply Let_def deletes_missing_def)
  moreover have "plan_shows opts (verdict_in opts st) (insert k P) (insert k D) (q\<lparr>rp_deleteCandidates := js_set_add k (rp_deleteCandidates q)\<rparr>)"
    using q by (simp add: plan_shows_def)
  ultimately show ?thesis using q
    by (cases "deletes_missing opts"; cases "verdict_in opts st k = Leave") (auto simp: deletes_missing_def)
qed

lemma versions_by_key_spec:
  "distinct (map fst (versions_by_key es)) \<and>
   (\<forall>k. map_of (versions_by_key es) k = (if k \<in> ov_key ` set es then Some (filter (\<lambda>e. ov_key e = k) es) else None))"
proof (induction es rule: rev_induct)
  case (snoc e es)
  let ?m = "versions_by_key es"
  have step: "versions_by_key (es @ [e]) = AList.update (ov_key e) ((case map_of ?m (ov_key e) of Some xs \<Rightarrow> xs | None \<Rightarrow> []) @ [e]) ?m"
    by (simp add: versions_by_key_def)
  have "filter (\<lambda>x. ov_key x = ov_key e) es = []" if "ov_key e \<notin> ov_key ` set es"
    using that by (auto simp: filter_empty_conv image_iff)
  then show ?case using snoc.IH unfolding step
    by (auto simp: update_conv' distinct_update split: option.split)
qed (simp add: versions_by_key_def)

lemma filter_entries: "filter (\<lambda>e. ov_key e = k) (entries_of date_text x svs) = (if x = k then entries_of date_text x svs else [])"
  by (cases svs) (auto simp: listed_version_def filter_empty_conv)

lemma filter_concat_entries:
  "distinct ks \<Longrightarrow> filter (\<lambda>e. ov_key e = k) (concat (map (\<lambda>k. entries_of date_text k (vb_at st k)) ks)) =
     (if k \<in> set ks then entries_of date_text k (vb_at st k) else [])"
  by (induction ks) (auto simp: filter_entries)

lemma fold_classify:
  assumes "good_bucket st" and "dates_read date_of date_text"
    and "\<forall>(k, es) \<in> set m. mset es = mset (entries_of date_text k (vb_at st k))"
    and "plan_shows opts (verdict_in opts st) P D plan"
  shows "plan_shows opts (verdict_in opts st) (fst ` set m \<union> P) D
    (fold (\<lambda>(key, entries). classifyVersions date_of key entries (ro_restoreLatestDeleted opts) (ro_targetTime opts)) m plan)"
  using assms(3,4)
proof (induction m arbitrary: P plan)
  case (Cons x m)
  then have "plan_shows opts (verdict_in opts st) (insert (fst x) P) D
      (classifyVersions date_of (fst x) (snd x) (ro_restoreLatestDeleted opts) (ro_targetTime opts) plan)"
    by (intro plan_shows_classify [OF assms(1,2)]) auto
  from Cons.IH [OF _ this] Cons.prems(1) show ?case by (simp add: case_prod_unfold Un_commute)
qed simp

definition folder_deletes :: "restore_options \<Rightarrow> versioned \<Rightarrow> string \<Rightarrow> string set" where
  "folder_deletes opts st p = {k. deletes_missing opts \<and> startsWith k p \<and> current st k \<noteq> None \<and> verdict_in opts st k = Leave}"

lemma fold_deletes:
  "set (fold (\<lambda>k ds. if k \<in> S then ds else js_set_add k ds) ks ds) = set ds \<union> {k \<in> set ks. k \<notin> S}"
  by (induction ks arbitrary: ds) auto

lemma leave_no_versions: "vb_at st k = [] \<Longrightarrow> verdict_in opts st k = Leave"
  by (simp add: verdict_in_def verdict_at_def)

lemma keys_of_entries: "ov_key ` set (entries_of date_text k svs) = (if svs = [] then {} else {k})"
  by (cases svs) (auto simp: listed_version_def image_iff)

lemma keys_of_listing:
  "ov_key ` set (concat (map (\<lambda>k. entries_of date_text k (vb_at st k)) ks)) = {k \<in> set ks. vb_at st k \<noteq> []}"
  by (induction ks) (auto simp: image_Un keys_of_entries)

lemma folder_classified:
  assumes g: "good_bucket st" and r: "dates_read date_of date_text" and p: "plan_shows opts (verdict_in opts st) P D plan"
  shows "plan_shows opts (verdict_in opts st) ({k. startsWith k pre} \<union> P) D
    (fold (\<lambda>(key, entries). classifyVersions date_of key entries (ro_restoreLatestDeleted opts) (ro_targetTime opts))
      (versions_by_key (all_entries (listing_of date_text st (filter (\<lambda>k. startsWith k pre) (vb_keys st))))) plan)"
proof -
  define ks es where "ks = filter (\<lambda>k. startsWith k pre) (vb_keys st)" and "es = all_entries (listing_of date_text st ks)"
  let ?c = "concat (map (\<lambda>k. entries_of date_text k (vb_at st k)) ks)" and ?m = "versions_by_key es"
  have ks: "distinct ks" using g by (simp add: ks_def good_bucket_def)
  have c: "mset es = mset ?c" unfolding es_def by (rule mset_all_entries)
  have f: "mset (filter (\<lambda>e. ov_key e = k) es) = mset (if k \<in> set ks then entries_of date_text k (vb_at st k) else [])" for k
    by (simp only: mset_filter c flip: filter_concat_entries [OF ks])
  have keys: "ov_key ` set es = {k \<in> set ks. vb_at st k \<noteq> []}"
    using mset_eq_setD [OF c] keys_of_listing by simp
  have m: "k \<in> {k \<in> set ks. vb_at st k \<noteq> []}" "xs = filter (\<lambda>e. ov_key e = k) es" if "(k, xs) \<in> set ?m" for k xs
  proof -
    have "map_of ?m k = Some xs" using map_of_is_SomeI [OF conjunct1 [OF versions_by_key_spec] that] .
    moreover have "map_of ?m k = (if k \<in> ov_key ` set es then Some (filter (\<lambda>e. ov_key e = k) es) else None)"
      by (rule spec [OF conjunct2 [OF versions_by_key_spec]])
    ultimately show "k \<in> {k \<in> set ks. vb_at st k \<noteq> []}" "xs = filter (\<lambda>e. ov_key e = k) es"
      unfolding keys by (simp_all split: if_splits)
  qed
  have "\<forall>(k, xs) \<in> set ?m. mset xs = mset (entries_of date_text k (vb_at st k))"
    using m f by fastforce
  from fold_classify [OF g r this p] show ?thesis unfolding ks_def [symmetric] es_def [symmetric]
  proof (rule plan_shows_cong)
    fix k assume "verdict_in opts st k \<noteq> Leave"
    then have "vb_at st k \<noteq> []" using leave_no_versions by blast
    moreover have "k \<in> set (vb_keys st)" using g calculation by (simp add: good_bucket_def)
    moreover have "k \<in> fst ` set ?m \<longleftrightarrow> k \<in> ov_key ` set es"
      using versions_by_key_spec [of es] by (metis map_of_eq_None_iff option.distinct(1))
    ultimately show "k \<in> fst ` set ?m \<union> P \<longleftrightarrow> k \<in> {k. startsWith k pre} \<union> P"
      unfolding keys by (auto simp: ks_def)
  qed simp
qed

lemma plan_folder_shows:
  assumes g: "good_bucket st" and r: "dates_read date_of date_text" and p: "plan_shows opts (verdict_in opts st) P D plan"
  shows "\<exists>plan'. plan_folder date_of opts (versions_api date_text) f plan st = (Inr plan', st) \<and>
     plan_shows opts (verdict_in opts st) ({k. startsWith k (normalizePrefix f)} \<union> P) (D \<union> folder_deletes opts st (normalizePrefix f)) plan'"
proof -
  let ?pre = "normalizePrefix f"
  define q where "q = fold (\<lambda>(key, entries). classifyVersions date_of key entries (ro_restoreLatestDeleted opts) (ro_targetTime opts))
      (versions_by_key (all_entries (listing_of date_text st (filter (\<lambda>k. startsWith k ?pre) (vb_keys st))))) plan"
  define ds where "ds = fold (\<lambda>k ds. if k \<in> set (rp_presentAtDate q) then ds else js_set_add k ds)
      (filter (\<lambda>k. startsWith k ?pre \<and> current st k \<noteq> None) (vb_keys st)) (rp_deleteCandidates q)"
  have q: "plan_shows opts (verdict_in opts st) ({k. startsWith k ?pre} \<union> P) D q"
    unfolding q_def by (rule folder_classified [OF g r p])
  have run: "plan_folder date_of opts (versions_api date_text) f plan st =
      (Inr (if deletes_missing opts then q\<lparr>rp_deleteCandidates := ds\<rparr> else q), st)"
    unfolding q_def ds_def by (simp add: plan_folder_def versions_api_def io_bind_apply Let_def deletes_missing_def)
  show ?thesis
  proof (cases "deletes_missing opts")
    case True
    have "set ds = D \<union> {k \<in> set (vb_keys st). startsWith k ?pre \<and> current st k \<noteq> None \<and> verdict_in opts st k = Leave}"
      unfolding ds_def fold_deletes using q True by (auto simp: plan_shows_def deletes_missing_def)
    also have "\<dots> = D \<union> folder_deletes opts st ?pre"
      using g True by (auto simp: folder_deletes_def good_bucket_def current_def split: list.splits)
    finally show ?thesis using q True unfolding run by (simp add: plan_shows_def)
  qed (use q in \<open>simp add: run folder_deletes_def\<close>)
qed

lemma io_fold_inv:
  assumes "\<And>x Y b. I Y b \<Longrightarrow> x \<in> set xs \<Longrightarrow> \<exists>b'. f x b s = (Inr b', s) \<and> I (insert x Y) b'" and "I Y b"
  shows "\<exists>b'. io_fold f xs b s = (Inr b', s) \<and> I (set xs \<union> Y) b'"
  using assms
proof (induction xs arbitrary: Y b)
  case (Cons x xs)
  from Cons.prems(1) [OF Cons.prems(2), of x] obtain c where c: "f x b s = (Inr c, s)" "I (insert x Y) c" by auto
  from Cons.IH [OF Cons.prems(1) c(2)] obtain d where "io_fold f xs c s = (Inr d, s)" "I (set xs \<union> insert x Y) d" by auto
  with c(1) show ?case by (auto simp: io_bind_apply)
qed simp

definition deleted_keys :: "restore_options \<Rightarrow> versioned \<Rightarrow> string set \<Rightarrow> string set \<Rightarrow> string set" where
  "deleted_keys opts st F G = {k \<in> F. deletes_missing opts \<and> verdict_in opts st k = Leave} \<union> (\<Union>f \<in> G. folder_deletes opts st (normalizePrefix f))"

lemma plan_shows_all:
  assumes g: "good_bucket st" and r: "dates_read date_of date_text"
  shows "\<exists>plan. buildBulkRestorePlan date_of opts (versions_api date_text) items st = (Inr plan, st) \<and>
     plan_shows opts (verdict_in opts st) {k. selected_key items k}
       (deleted_keys opts st (ri_key ` {i \<in> set items. ri_type i = FileItem}) (ri_key ` {i \<in> set items. ri_type i = FolderItem})) plan"
proof -
  let ?files = "map ri_key (filter (\<lambda>i. ri_type i = FileItem) items)"
    and ?folders = "map ri_key (filter (\<lambda>i. ri_type i = FolderItem) items)"
    and ?api = "versions_api date_text" and ?V = "verdict_in opts st"
  define I where "I = (\<lambda>F. plan_shows opts ?V F (deleted_keys opts st F {}))"
  define J where "J = (\<lambda>G. plan_shows opts ?V ((\<Union>f \<in> G. {k. startsWith k (normalizePrefix f)}) \<union> set ?files) (deleted_keys opts st (set ?files) G))"
  have "\<exists>p. io_fold (plan_file date_of opts ?api) ?files start_plan st = (Inr p, st) \<and> I (set ?files \<union> {}) p"
  proof (rule io_fold_inv [where I = I])
    fix x Y b assume "I Y b"
    then show "\<exists>b'. plan_file date_of opts ?api x b st = (Inr b', st) \<and> I (insert x Y) b'"
      using plan_file_shows [OF g r, of opts Y "deleted_keys opts st Y {}" b x]
      by (auto simp: I_def deleted_keys_def elim!: plan_shows_cong)
  qed (simp add: I_def plan_shows_def start_plan_def deleted_keys_def)
  then obtain p where p: "io_fold (plan_file date_of opts ?api) ?files start_plan st = (Inr p, st)" "J {} p"
    by (auto simp: I_def J_def)
  have "\<exists>q. io_fold (plan_folder date_of opts ?api) ?folders p st = (Inr q, st) \<and> J (set ?folders \<union> {}) q"
  proof (rule io_fold_inv [where I = J])
    fix x Y b assume "J Y b"
    from plan_folder_shows [OF g r this [unfolded J_def], of x] obtain c where
      "plan_folder date_of opts ?api x b st = (Inr c, st)" "plan_shows opts ?V
        ({k. startsWith k (normalizePrefix x)} \<union> ((\<Union>f \<in> Y. {k. startsWith k (normalizePrefix f)}) \<union> set ?files))
        (deleted_keys opts st (set ?files) Y \<union> folder_deletes opts st (normalizePrefix x)) c" by blast
    moreover have "deleted_keys opts st (set ?files) Y \<union> folder_deletes opts st (normalizePrefix x) = deleted_keys opts st (set ?files) (insert x Y)"
      by (simp add: deleted_keys_def Un_ac)
    ultimately show "\<exists>b'. plan_folder date_of opts ?api x b st = (Inr b', st) \<and> J (insert x Y) b'"
      by (simp add: J_def Un_ac)
  qed (rule p(2))
  then obtain q where q: "io_fold (plan_folder date_of opts ?api) ?folders p st = (Inr q, st)" "J (set ?folders) q" by auto
  have "J (set ?folders) q \<Longrightarrow> plan_shows opts ?V {k. selected_key items k}
       (deleted_keys opts st (ri_key ` {i \<in> set items. ri_type i = FileItem}) (ri_key ` {i \<in> set items. ri_type i = FolderItem})) q"
    unfolding J_def
    by (erule plan_shows_cong) (auto simp: selected_key_def)
  then show ?thesis using p(1) q by (auto simp: buildBulkRestorePlan_def io_bind_apply)
qed

section \<open>Carrying out the plan\<close>

lemma fold_restores:
  "distinct (map fst rs) \<Longrightarrow> fold (\<lambda>(k, v) m. m(k := c k v)) rs m k = (case map_of rs k of Some v \<Rightarrow> c k v | None \<Rightarrow> m k)"
proof (induction rs arbitrary: m)
  case (Cons r rs)
  then have "map_of rs (fst r) = None" by (simp add: map_of_eq_None_iff)
  with Cons show ?case by (auto simp: case_prod_unfold split: option.split)
qed simp

lemma fold_removals: "fold (\<lambda>k m. m(k := None)) ds m k = (if k \<in> set ds then None else m k)"
  by (induction ds arbitrary: m) auto

lemma find_id: "distinct (map sv_id svs) \<Longrightarrow> x \<in> set svs \<Longrightarrow> find (\<lambda>v. sv_id v = sv_id x) svs = Some x"
  by (rule find_the_one) (auto simp: id_inj)

text \<open>The content a verdict leads to.\<close>

definition content_for :: "versioned \<Rightarrow> string \<Rightarrow> verdict \<Rightarrow> nat option" where
  "content_for st k v = (case v of Restore x \<Rightarrow> version_content st k x | _ \<Rightarrow> current st k)"

lemma content_for_verdict:
  assumes "good_bucket st"
  shows "content_for st k (verdict_in opts st k) = (if verdict_in opts st k = Leave then current st k else restored_content opts st k)
    \<and> (verdict_in opts st k = Leave \<longrightarrow> restored_content opts st k = (if deletes_missing opts then None else current st k))"
proof -
  have d: "distinct (map sv_id (vb_at st k))" using assms by (simp add: good_bucket_def)
  have v: "version_content st k (sv_id x) = sv_content x" if "find P (vb_at st k) = Some x" for P x
  proof -
    have "x \<in> set (vb_at st k)" using that by (auto simp: find_Some_iff)
    then show ?thesis by (simp add: version_content_def find_id [OF d])
  qed
  show ?thesis
  proof (cases "ro_restoreLatestDeleted opts")
    case True
    then have m: "\<not> deletes_missing opts" by (simp add: deletes_missing_def)
    show ?thesis
    proof (cases "current st k")
      case (Some c)
      then have "verdict_in opts st k = Leave" using True
        by (cases "vb_at st k") (simp_all add: current_def verdict_in_def verdict_at_def)
      with Some True m show ?thesis by (simp add: content_for_def restored_content_def)
    next
      case None
      let ?f = "find (\<lambda>v. sv_content v \<noteq> None) (vb_at st k)"
      have vd: "verdict_in opts st k = (case ?f of None \<Rightarrow> Leave | Some r \<Rightarrow> Restore (sv_id r))"
        using None True by (cases "vb_at st k") (simp_all add: current_def verdict_in_def verdict_at_def)
      show ?thesis using None True m v
        by (cases ?f) (simp_all only: vd option.case verdict.simps if_False if_True content_for_def restored_content_def newest_content_def simp_thms)
    qed
  next
    case False
    show ?thesis
    proof (cases "find (\<lambda>v. sv_time v \<le> ro_targetTime opts) (vb_at st k)")
      case None
      then show ?thesis using False by (simp add: content_for_def verdict_in_def verdict_at_def restored_content_def
          deletes_missing_def content_at_def)
    next
      case (Some x)
      then have at: "content_at st (ro_targetTime opts) k = sv_content x" by (simp add: content_at_def)
      have hd: "current st k = sv_content x" if "x = hd (vb_at st k)"
        using that Some by (cases "vb_at st k") (auto simp: current_def)
      have vd: "verdict_in opts st k = (if sv_content x = None then Leave else if x = hd (vb_at st k) then Unchanged else Restore (sv_id x))"
        using False Some by (simp add: verdict_in_def verdict_at_def)
      show ?thesis
      proof (cases "sv_content x")
        case None
        then show ?thesis using False by (simp add: vd content_for_def restored_content_def at deletes_missing_def)
      next
        case (Some c)
        then show ?thesis using False hd v [OF \<open>find _ _ = Some x\<close>] unfolding vd
          by (cases "x = hd (vb_at st k)") (simp_all add: content_for_def restored_content_def at)
      qed
    qed
  qed
qed

lemma carry_out_at:
  assumes "plan_shows opts (verdict_in opts st) P D plan"
  shows "carry_out st plan k = (if k \<in> D then None else if k \<in> P then content_for st k (verdict_in opts st k) else current st k)"
proof -
  have "carry_out st plan k = (if k \<in> D then None else case map_of (rp_restoreCandidates plan) k of
      Some v \<Rightarrow> version_content st k v | None \<Rightarrow> current st k)"
    using assms unfolding carry_out_def fold_removals by (simp add: plan_shows_def fold_restores)
  then show ?thesis using assms by (auto simp: plan_shows_def content_for_def split: verdict.split)
qed

lemma carry_out_selected:
  assumes g: "good_bucket st"
    and p: "plan_shows opts (verdict_in opts st) {k. selected_key items k}
       (deleted_keys opts st (ri_key ` {i \<in> set items. ri_type i = FileItem}) (ri_key ` {i \<in> set items. ri_type i = FolderItem})) plan"
  shows "carry_out st plan k = (if selected_key items k then restored_content opts st k else current st k)"
proof -
  let ?D = "deleted_keys opts st (ri_key ` {i \<in> set items. ri_type i = FileItem}) (ri_key ` {i \<in> set items. ri_type i = FolderItem})"
  have D: "deletes_missing opts" "verdict_in opts st k = Leave" "selected_key items k" if "k \<in> ?D"
    using that by (auto simp: deleted_keys_def folder_deletes_def selected_key_def)
  have notD: "current st k = None" if "k \<notin> ?D" "selected_key items k" "deletes_missing opts" "verdict_in opts st k = Leave"
    using that by (auto simp: deleted_keys_def folder_deletes_def selected_key_def)
  note v = content_for_verdict [OF g, of k opts]
  show ?thesis
  proof (cases "k \<in> ?D")
    case True
    then show ?thesis using D v unfolding carry_out_at [OF p] by simp
  next
    case False
    then show ?thesis using notD v unfolding carry_out_at [OF p]
      by (cases "verdict_in opts st k = Leave"; cases "deletes_missing opts") simp_all
  qed
qed

lemma plan_parts_disjoint:
  assumes "plan_shows opts (verdict_in opts st) P (deleted_keys opts st F G) plan"
  shows "fst ` set (rp_restoreCandidates plan) \<inter> set (rp_deleteCandidates plan) = {}"
    and "set (rp_unchangedKeys plan) \<inter> (fst ` set (rp_restoreCandidates plan) \<union> set (rp_deleteCandidates plan)) = {}"
proof -
  have r: "\<exists>x. verdict_in opts st k = Restore x" if "k \<in> fst ` set (rp_restoreCandidates plan)" for k
  proof -
    have "map_of (rp_restoreCandidates plan) k \<noteq> None" using that by (simp add: map_of_eq_None_iff)
    then show ?thesis using assms by (auto simp: plan_shows_def split: if_splits verdict.splits)
  qed
  have d: "verdict_in opts st k = Leave" if "k \<in> set (rp_deleteCandidates plan)" for k
    using that assms by (auto simp: plan_shows_def deleted_keys_def folder_deletes_def)
  have u: "verdict_in opts st k = Unchanged" if "k \<in> set (rp_unchangedKeys plan)" for k
    using that assms by (simp add: plan_shows_def)
  show "fst ` set (rp_restoreCandidates plan) \<inter> set (rp_deleteCandidates plan) = {}"
  proof (rule equals0I, elim IntE)
    fix k assume "k \<in> fst ` set (rp_restoreCandidates plan)" "k \<in> set (rp_deleteCandidates plan)"
    then show False using r [of k] d [of k] by simp
  qed
  show "set (rp_unchangedKeys plan) \<inter> (fst ` set (rp_restoreCandidates plan) \<union> set (rp_deleteCandidates plan)) = {}"
  proof (rule equals0I, elim IntE UnE)
    fix k assume "k \<in> set (rp_unchangedKeys plan)" "k \<in> fst ` set (rp_restoreCandidates plan)"
    then show False using r [of k] u [of k] by simp
  next
    fix k assume "k \<in> set (rp_unchangedKeys plan)" "k \<in> set (rp_deleteCandidates plan)"
    then show False using d [of k] u [of k] by simp
  qed
qed


text \<open>A bucket with an object that changed, one that was deleted and one that is newer than the date.\<close>

definition sample_bucket :: versioned where
  "sample_bucket = \<lparr>vb_keys = [''d/a'', ''d/b'', ''d/c'', ''e''],
     vb_at = (\<lambda>k. if k = ''d/a'' then [\<lparr>sv_id = ''2'', sv_time = 20, sv_content = Some 12\<rparr>, \<lparr>sv_id = ''1'', sv_time = 10, sv_content = Some 11\<rparr>]
       else if k = ''d/b'' then [\<lparr>sv_id = ''2'', sv_time = 20, sv_content = None\<rparr>, \<lparr>sv_id = ''1'', sv_time = 10, sv_content = Some 21\<rparr>]
       else if k = ''d/c'' then [\<lparr>sv_id = ''1'', sv_time = 20, sv_content = Some 31\<rparr>]
       else if k = ''e'' then [\<lparr>sv_id = ''1'', sv_time = 20, sv_content = Some 41\<rparr>] else [])\<rparr>"

text \<open>A text for each time, read back by the reader.\<close>

definition sample_text :: "int \<Rightarrow> string" where
  "sample_text t = (if t < 0 then CHR ''-'' # replicate (nat (- t)) CHR ''1'' else CHR ''+'' # replicate (nat t) CHR ''1'')"

definition sample_date :: date_reader where
  "sample_date s = (case s of [] \<Rightarrow> None | c # cs \<Rightarrow> Some (if c = CHR ''-'' then - int (length cs) else int (length cs)))"

lemma sample_dates: "dates_read sample_date sample_text"
  by (simp add: dates_read_def sample_date_def sample_text_def)

lemma sample_good: "good_bucket sample_bucket"
  by (simp add: good_bucket_def sample_bucket_def)

definition sample_restore :: restore_options where
  "sample_restore = \<lparr>ro_restoreLatestDeleted = False, ro_targetTime = 15, ro_deleteMissing = True\<rparr>"

definition sample_items :: "restore_item list" where
  "sample_items = [\<lparr>ri_key = ''d'', ri_type = FolderItem\<rparr>]"

lemma sample_target:
  "map (\<lambda>k. if selected_key sample_items k then restored_content sample_restore sample_bucket k else current sample_bucket k)
     [''d/a'', ''d/b'', ''d/c'', ''e''] = [Some 11, Some 21, None, Some 41]"
  by code_simp


end
