(* ===== verification/Folder_Archive.thy ===== *)
theory Folder_Archive
  imports Restore_Plan
begin

text \<open>
  The archive of a selection of objects and folders: the objects it names
  (\<open>frontend/src/features/browser/browserSelectionManifest.ts\<close>) and the plan that gives each a path in the
  archive or excludes it (\<open>browserFolderDownload.ts\<close>). The reference is a program that unpacks an archive
  without any care, on a file system that ignores case and strips dots and spaces at the end of names.
\<close>

section \<open>The objects of a selection\<close>

text \<open>An object has at least the fields below; a size may be missing from an item.\<close>

record archive_object =
  ao_key :: string
  ao_size :: js_number

record archive_item =
  ai_key :: string
  ai_name :: string
  ai_type :: item_type
  ai_isDeleted :: bool
  ai_sizeBytes :: "js_number option"

definition folder_prefixes :: "archive_item list \<Rightarrow> string list" where
  "folder_prefixes items = sort (map (\<lambda>i. if endsWith (ai_key i) ''/'' then ai_key i else ai_key i @ ''/'')
     (filter (\<lambda>i. ai_type i = FolderItem \<and> \<not> ai_isDeleted i) items))"

definition manifest_roots :: "string list \<Rightarrow> string list" where
  "manifest_roots folders = map snd (filter (\<lambda>(index, prefix). \<not> (\<exists>parent \<in> set (take index folders). startsWith prefix parent))
     (enumerate 0 folders))"

fun manifest_files :: "string list \<Rightarrow> archive_item list \<Rightarrow> (string \<times> archive_object) list \<Rightarrow> js_error + (string \<times> archive_object) list" where
  "manifest_files roots [] objects = Inr objects"
| "manifest_files roots (i # items) objects =
     (if ai_type i \<noteq> FileItem \<or> ai_isDeleted i \<or> (\<exists>prefix \<in> set roots. startsWith (ai_key i) prefix) then manifest_files roots items objects
      else case ai_sizeBytes i of
        None \<Rightarrow> Inl (JsErr (''Size unavailable for '' @ ai_name i @ ''. Refresh the listing first.''))
      | Some n \<Rightarrow> manifest_files roots items (AList.update (ai_key i) \<lparr>ao_key = ai_key i, ao_size = n\<rparr> objects))"

text \<open>\<open>list\<close> lists the objects under a prefix, \<open>aborted\<close> is the signal.\<close>

fun manifest_folders :: "(string \<Rightarrow> ('s, archive_object list) io) \<Rightarrow> ('s \<Rightarrow> bool) \<Rightarrow> string list \<Rightarrow> (string \<times> archive_object) list
   \<Rightarrow> ('s, (string \<times> archive_object) list) io" where
  "manifest_folders list aborted [] objects = (\<lambda>s. if aborted s then (Inl (JsErr ''AbortError''), s) else (Inr objects, s))"
| "manifest_folders list aborted (prefix # roots) objects = (\<lambda>s.
     if aborted s then (Inl (JsErr ''AbortError''), s)
     else io_bind (list prefix) (\<lambda>found. manifest_folders list aborted roots
       (fold (\<lambda>ob. AList.update (ao_key ob) ob) found objects)) s)"

definition buildBrowserSelectionManifest :: "(string \<Rightarrow> ('s, archive_object list) io) \<Rightarrow> ('s \<Rightarrow> bool) \<Rightarrow> archive_item list \<Rightarrow> ('s, archive_object list) io" where
  "buildBrowserSelectionManifest list aborted items =
     (let roots = manifest_roots (folder_prefixes items) in
      case manifest_files roots items [] of
        Inl e \<Rightarrow> io_throw e
      | Inr objects \<Rightarrow> io_bind (manifest_folders list aborted roots objects) (\<lambda>objects. io_return (map snd objects)))"

section \<open>The plan of an archive\<close>

record archive_target =
  at_detailId :: string
  at_key :: string
  at_relativeKey :: string
  at_sizeBytes :: rat

record folder_plan =
  fp_targets :: "archive_target list"
  fp_excluded :: "(string \<times> string) list"
  fp_seen :: "string list"
  fp_names :: "string list"
  fp_directories :: "string list"

definition relative_key :: "string \<Rightarrow> string \<Rightarrow> string" where
  "relative_key folderPrefix key = (if startsWith key folderPrefix then drop (length folderPrefix) key else [])"

abbreviation at_slash :: "char \<Rightarrow> bool" where
  "at_slash c \<equiv> c = CHR ''/''"

definition unsafe_segment :: "string \<Rightarrow> bool" where
  "unsafe_segment part \<longleftrightarrow> part = [] \<or> part = ''.'' \<or> part = ''..'' \<or> last part = CHR ''.'' \<or> last part = CHR '' ''"

definition unsafe_path :: "string \<Rightarrow> bool" where
  "unsafe_path rel \<longleftrightarrow> rel = [] \<or> (\<exists>c \<in> set rel. c = CHR 0x5C \<or> c = CHR '':'' \<or> (of_char c :: nat) < 32)
     \<or> (\<exists>part \<in> set (split_on at_slash rel). unsafe_segment part)"

text \<open>On the alphabet of the model \<open>normalize("NFC")\<close> changes nothing.\<close>

definition canonical_path :: "string \<Rightarrow> string" where
  "canonical_path rel = toLowerCase rel"

definition path_ancestors :: "string \<Rightarrow> string list" where
  "path_ancestors path = (let parts = split_on at_slash path in map (\<lambda>index. join ''/'' (take (index + 1) parts)) [0..<length parts - 1])"

definition exclusion_reason :: "folder_plan \<Rightarrow> string \<Rightarrow> js_number \<Rightarrow> string" where
  "exclusion_reason plan rel n =
     (let path = canonical_path rel in
      if unsafe_path rel then ''Unsafe or ambiguous archive path''
      else if path \<in> set (fp_names plan) \<or> path \<in> set (fp_directories plan) \<or> (\<exists>parent \<in> set (path_ancestors path). parent \<in> set (fp_names plan))
      then ''Archive path collision''
      else case n of Fin q \<Rightarrow> if q < 0 then ''Object size is unavailable'' else [] | _ \<Rightarrow> ''Object size is unavailable'')"

definition fin_value :: "js_number \<Rightarrow> rat" where
  "fin_value n = (case n of Fin q \<Rightarrow> q | _ \<Rightarrow> 0)"

definition plan_object :: "string \<Rightarrow> (nat \<Rightarrow> string) \<Rightarrow> archive_object \<Rightarrow> folder_plan \<Rightarrow> folder_plan" where
  "plan_object folderPrefix makeDetailId ob plan =
     (if ao_key ob \<in> set (fp_seen plan) then plan
      else let plan = plan\<lparr>fp_seen := fp_seen plan @ [ao_key ob]\<rparr>; rel = relative_key folderPrefix (ao_key ob) in
        if ao_key ob = folderPrefix \<or> (endsWith rel ''/'' \<and> ao_size ob = Fin 0) then plan
        else let reason = exclusion_reason plan rel (ao_size ob) in
          if reason \<noteq> [] then plan\<lparr>fp_excluded := fp_excluded plan @ [(ao_key ob, reason)]\<rparr>
          else plan\<lparr>fp_names := js_set_add (canonical_path rel) (fp_names plan),
            fp_directories := fold js_set_add (path_ancestors (canonical_path rel)) (fp_directories plan),
            fp_targets := fp_targets plan @ [\<lparr>at_detailId = makeDetailId (length (fp_targets plan)), at_key = ao_key ob,
              at_relativeKey = rel, at_sizeBytes = fin_value (ao_size ob)\<rparr>]\<rparr>)"

definition no_objects :: folder_plan where
  "no_objects = \<lparr>fp_targets = [], fp_excluded = [], fp_seen = [], fp_names = [], fp_directories = []\<rparr>"

definition buildBrowserFolderDownloadPlan :: "archive_object list \<Rightarrow> string \<Rightarrow> (nat \<Rightarrow> string) \<Rightarrow> folder_plan" where
  "buildBrowserFolderDownloadPlan objects folderPrefix makeDetailId = fold (plan_object folderPrefix makeDetailId) objects no_objects"

definition total_bytes :: "folder_plan \<Rightarrow> rat" where
  "total_bytes plan = sum_list (map at_sizeBytes (fp_targets plan))"

section \<open>Unpacking\<close>

text \<open>
  A careless program: both slashes separate, \<open>.\<close> and empty names are skipped, \<open>..\<close> leaves the directory, and
  the file system ignores case and what Windows strips. It stops when a path leaves the root, names a drive,
  goes through a file, or names something that exists.
\<close>

datatype 'c node = Directory | File 'c

definition any_slash :: "char \<Rightarrow> bool" where
  "any_slash c \<longleftrightarrow> c = CHR ''/'' \<or> c = CHR 0x5C"

definition disk_name :: "string \<Rightarrow> string" where
  "disk_name part = toLowerCase (rev (dropWhile (\<lambda>c. c = CHR ''.'' \<or> c = CHR '' '') (rev part)))"

fun resolve_path :: "string list \<Rightarrow> string list \<Rightarrow> string list option" where
  "resolve_path stack [] = Some stack"
| "resolve_path stack (part # parts) =
     (if part = [] \<or> part = ''.'' then resolve_path stack parts
      else if part = ''..'' then (if stack = [] then None else resolve_path (butlast stack) parts)
      else if CHR '':'' \<in> set part then None
      else resolve_path (stack @ [disk_name part]) parts)"

definition parents :: "string list \<Rightarrow> string list list" where
  "parents path = map (\<lambda>n. take (Suc n) path) [0..<length path - 1]"

definition unpack_one :: "string \<Rightarrow> 'c \<Rightarrow> (string list \<Rightarrow> 'c node option) \<Rightarrow> (string list \<Rightarrow> 'c node option) option" where
  "unpack_one name content fs = (case resolve_path [] (split_on any_slash name) of
     None \<Rightarrow> None
   | Some path \<Rightarrow>
       if path = [] \<or> fs path \<noteq> None \<or> (\<exists>p \<in> set (parents path). \<exists>c. fs p = Some (File c)) then None
       else Some ((fold (\<lambda>p m. m(p \<mapsto> Directory)) (parents path) fs)(path \<mapsto> File content)))"

fun unpack :: "(string \<times> 'c) list \<Rightarrow> (string list \<Rightarrow> 'c node option) \<Rightarrow> (string list \<Rightarrow> 'c node option) option" where
  "unpack [] fs = Some fs"
| "unpack ((name, content) # rest) fs = Option.bind (unpack_one name content fs) (unpack rest)"

section \<open>Safe paths\<close>

lemma split_on_cong: "(\<And>c. c \<in> set s \<Longrightarrow> p c = q c) \<Longrightarrow> split_on p s = split_on q s"
  by (induction s) auto

lemma split_on_map: "(\<And>c. p (f c) = p c) \<Longrightarrow> split_on p (map f s) = map (map f) (split_on p s)"
  by (induction s) (auto split: list.split)

lemma split_on_parts: "part \<in> set (split_on p s) \<Longrightarrow> c \<in> set part \<Longrightarrow> c \<in> set s \<and> \<not> p c"
proof -
  have "\<forall>part \<in> set (split_on p s). \<forall>c \<in> set part. c \<in> set s \<and> \<not> p c"
  proof (induction s)
    case (Cons a s)
    obtain w ws where "split_on p s = w # ws" by (cases "split_on p s") auto
    with Cons show ?case by auto
  qed simp
  then show "part \<in> set (split_on p s) \<Longrightarrow> c \<in> set part \<Longrightarrow> c \<in> set s \<and> \<not> p c" by blast
qed

lemma join_split: "join ''/'' (split_on at_slash s) = s"
proof (induction s)
  case (Cons a s)
  obtain w ws where "split_on at_slash s = w # ws" by (cases "split_on at_slash s") auto
  with Cons show ?case by (cases ws) auto
qed simp

lemma split_at_inj: "split_on at_slash a = split_on at_slash b \<longleftrightarrow> a = b"
  by (metis join_split)

lemma at_slash_lower: "at_slash (lower_char c) = at_slash c"
proof -
  have "(of_char (lower_char c) :: nat) = 47 \<longleftrightarrow> (of_char c :: nat) = 47"
    by (simp add: lower_char_image Let_def)
  moreover have "at_slash x \<longleftrightarrow> (of_char x :: nat) = 47" for x
    using of_char_eq_iff [where 'a = nat, of x "CHR ''/''"] by simp
  ultimately show ?thesis by simp
qed

definition place :: "string \<Rightarrow> string list" where
  "place rel = split_on at_slash (canonical_path rel)"

lemma place_parts: "place rel = map toLowerCase (split_on at_slash rel)"
  unfolding place_def canonical_path_def toLowerCase_def [abs_def] by (rule split_on_map) (rule at_slash_lower)

lemma resolve_safe:
  "(\<And>part. part \<in> set parts \<Longrightarrow> \<not> unsafe_segment part \<and> CHR '':'' \<notin> set part) \<Longrightarrow>
   resolve_path stack parts = Some (stack @ map toLowerCase parts)"
proof (induction parts arbitrary: stack)
  case (Cons part parts)
  then have "\<not> unsafe_segment part" by simp
  then have "disk_name part = toLowerCase part"
    by (cases part rule: rev_cases) (simp_all add: disk_name_def unsafe_segment_def)
  with Cons show ?case by (auto simp: unsafe_segment_def)
qed simp

lemma resolve_safe_path:
  assumes "\<not> unsafe_path rel"
  shows "resolve_path [] (split_on any_slash rel) = Some (place rel)"
proof -
  have "split_on any_slash rel = split_on at_slash rel"
    using assms by (intro split_on_cong) (auto simp: unsafe_path_def any_slash_def)
  moreover have "\<not> unsafe_segment part \<and> CHR '':'' \<notin> set part" if "part \<in> set (split_on at_slash rel)" for part
    using that assms split_on_parts [OF that, of "CHR '':''"] by (auto simp: unsafe_path_def)
  ultimately show ?thesis by (simp add: resolve_safe place_parts)
qed

lemma ancestors_parents: "split_on at_slash ` set (path_ancestors path) = set (parents (split_on at_slash path))"
proof -
  let ?ps = "split_on at_slash path"
  have "split_on at_slash (join ''/'' (take (Suc n) ?ps)) = take (Suc n) ?ps" for n
    by (rule split_join) (auto simp: list_all_iff dest: in_set_takeD split_on_parts)
  then show ?thesis by (auto simp: path_ancestors_def parents_def Let_def image_image)
qed

section \<open>The plan unpacks\<close>

lemma fold_directories: "fold (\<lambda>p m. m(p \<mapsto> Directory)) ps fs q = (if q \<in> set ps then Some Directory else fs q)"
  by (induction ps arbitrary: fs) auto

lemma unpack_append: "unpack (xs @ ys) fs = Option.bind (unpack xs fs) (unpack ys)"
proof (induction xs arbitrary: fs)
  case (Cons x xs)
  then show ?case by (cases x; cases "unpack_one (fst x) (snd x) fs") auto
qed simp

lemma parents_shorter: "p \<in> set (parents path) \<Longrightarrow> p \<noteq> path"
  by (auto simp: parents_def dest!: arg_cong [of _ _ length])

lemma set_fold_add: "set (fold js_set_add xs ys) = set xs \<union> set ys"
  by (induction xs arbitrary: ys) auto

definition entry_of :: "(string \<Rightarrow> 'c) \<Rightarrow> archive_target \<Rightarrow> string \<times> 'c" where
  "entry_of content t = (at_relativeKey t, content (at_key t))"

definition unpacked :: "(string \<Rightarrow> 'c) \<Rightarrow> folder_plan \<Rightarrow> (string list \<Rightarrow> 'c node option) \<Rightarrow> bool" where
  "unpacked content plan fs \<longleftrightarrow> unpack (map (entry_of content) (fp_targets plan)) Map.empty = Some fs
     \<and> (\<forall>p c. fs p = Some (File c) \<longleftrightarrow> (\<exists>t \<in> set (fp_targets plan). p = place (at_relativeKey t) \<and> c = content (at_key t)))
     \<and> split_on at_slash ` set (fp_names plan) = {p. \<exists>c. fs p = Some (File c)}
     \<and> split_on at_slash ` set (fp_directories plan) = {p. fs p = Some Directory}"

lemma unpack_one_safe:
  assumes "\<not> unsafe_path rel" and "fs (place rel) = None" and "\<And>p c. p \<in> set (parents (place rel)) \<Longrightarrow> fs p \<noteq> Some (File c)"
  shows "unpack_one rel c fs = Some ((fold (\<lambda>p m. m(p \<mapsto> Directory)) (parents (place rel)) fs)(place rel \<mapsto> File c))"
  using assms by (auto simp: unpack_one_def resolve_safe_path) (simp add: place_def)

lemma free_place:
  assumes "unpacked content plan fs" and "exclusion_reason plan rel n = []"
  shows "\<not> unsafe_path rel" "fs (place rel) = None" "\<And>p c. p \<in> set (parents (place rel)) \<Longrightarrow> fs p \<noteq> Some (File c)"
proof -
  let ?path = "canonical_path rel"
  have r: "\<not> unsafe_path rel" "?path \<notin> set (fp_names plan)" "?path \<notin> set (fp_directories plan)"
    "set (path_ancestors ?path) \<inter> set (fp_names plan) = {}"
    using assms(2) by (auto simp: exclusion_reason_def Let_def split: if_splits)
  show "\<not> unsafe_path rel" by (rule r(1))
  have names: "split_on at_slash ` set (fp_names plan) = {p. \<exists>c. fs p = Some (File c)}"
    and dirs: "split_on at_slash ` set (fp_directories plan) = {p. fs p = Some Directory}"
    using assms(1) by (simp_all add: unpacked_def)
  have "place rel \<notin> split_on at_slash ` set (fp_names plan)" "place rel \<notin> split_on at_slash ` set (fp_directories plan)"
    using r(2,3) by (auto simp: place_def split_at_inj)
  then show "fs (place rel) = None" unfolding names dirs by (cases "fs (place rel)") (auto intro: node.exhaust)
  fix p c assume "p \<in> set (parents (place rel))"
  then obtain a where "a \<in> set (path_ancestors ?path)" "p = split_on at_slash a"
    unfolding place_def ancestors_parents [symmetric] by auto
  then have "p \<notin> split_on at_slash ` set (fp_names plan)" using r(4) by (auto simp: split_at_inj)
  then show "fs p \<noteq> Some (File c)" unfolding names by auto
qed

text \<open>A target is added.\<close>

definition add_target :: "(nat \<Rightarrow> string) \<Rightarrow> string \<Rightarrow> string \<Rightarrow> rat \<Rightarrow> folder_plan \<Rightarrow> folder_plan" where
  "add_target makeDetailId k rel n plan = plan\<lparr>fp_names := js_set_add (canonical_path rel) (fp_names plan),
     fp_directories := fold js_set_add (path_ancestors (canonical_path rel)) (fp_directories plan),
     fp_targets := fp_targets plan @ [\<lparr>at_detailId = makeDetailId (length (fp_targets plan)), at_key = k, at_relativeKey = rel, at_sizeBytes = n\<rparr>]\<rparr>"

lemma plan_object_cases:
  "plan_object folderPrefix makeDetailId ob plan =
     (if ao_key ob \<in> set (fp_seen plan) then plan
      else let plan = plan\<lparr>fp_seen := fp_seen plan @ [ao_key ob]\<rparr>; rel = relative_key folderPrefix (ao_key ob);
               reason = exclusion_reason plan rel (ao_size ob) in
        if ao_key ob = folderPrefix \<or> (endsWith rel ''/'' \<and> ao_size ob = Fin 0) then plan
        else if reason \<noteq> [] then plan\<lparr>fp_excluded := fp_excluded plan @ [(ao_key ob, reason)]\<rparr>
        else add_target makeDetailId (ao_key ob) rel (fin_value (ao_size ob)) plan)"
  by (simp add: plan_object_def add_target_def Let_def)

lemma add_target_unpacked:
  assumes u: "unpacked content plan fs" and r: "exclusion_reason plan rel n = []"
  shows "\<exists>fs. unpacked content (add_target makeDetailId k rel q plan) fs"
proof -
  note free = free_place [OF u r]
  let ?ps = "parents (place rel)"
  define fs' where "fs' = (fold (\<lambda>p m. m(p \<mapsto> Directory)) ?ps fs)(place rel \<mapsto> File (content k))"
  have at: "fs' p = (if p = place rel then Some (File (content k)) else if p \<in> set ?ps then Some Directory else fs p)" for p
    by (simp add: fs'_def fold_directories)
  have self: "place rel \<notin> set ?ps" using parents_shorter by blast
  have files: "fs' p = Some (File c) \<longleftrightarrow> fs p = Some (File c) \<or> p = place rel \<and> c = content k" for p c
    using free(2,3) self by (auto simp: at)
  have dirs: "{p. fs' p = Some Directory} = {p. fs p = Some Directory} \<union> set ?ps"
    using free(2) self by (auto simp: at)
  have "unpack_one rel (content k) fs = Some fs'"
    unfolding fs'_def by (rule unpack_one_safe) (use free in auto)
  then have "unpack (map (entry_of content) (fp_targets (add_target makeDetailId k rel q plan))) Map.empty = Some fs'"
    using u by (simp add: unpacked_def add_target_def unpack_append entry_of_def)
  moreover have "split_on at_slash ` set (path_ancestors (canonical_path rel)) = set ?ps"
    unfolding ancestors_parents place_def ..
  ultimately show ?thesis using u
    by (intro exI [of _ fs']) (auto simp: unpacked_def add_target_def files dirs set_fold_add image_Un place_def)
qed

lemma plan_object_unpacked:
  assumes "unpacked content plan fs"
  shows "\<exists>fs. unpacked content (plan_object folderPrefix makeDetailId ob plan) fs"
proof -
  have same: "unpacked content (plan\<lparr>fp_seen := a\<rparr>) fs" "unpacked content (plan\<lparr>fp_seen := a, fp_excluded := b\<rparr>) fs" for a b
    using assms by (simp_all add: unpacked_def)
  let ?p = "plan\<lparr>fp_seen := fp_seen plan @ [ao_key ob]\<rparr>" and ?rel = "relative_key folderPrefix (ao_key ob)"
  let ?reason = "exclusion_reason ?p ?rel (ao_size ob)"
  consider "ao_key ob \<in> set (fp_seen plan) \<or> ao_key ob = folderPrefix \<or> endsWith ?rel ''/'' \<and> ao_size ob = Fin 0 \<or> ?reason \<noteq> []"
    | "ao_key ob \<notin> set (fp_seen plan)" "\<not> (ao_key ob = folderPrefix \<or> endsWith ?rel ''/'' \<and> ao_size ob = Fin 0)" "?reason = []"
    by blast
  then show ?thesis
  proof cases
    case 1
    then have "unpacked content (plan_object folderPrefix makeDetailId ob plan) fs"
      using assms same unfolding plan_object_cases Let_def by (simp cong: if_cong) blast
    then show ?thesis by blast
  next
    case 2
    then have "plan_object folderPrefix makeDetailId ob plan = add_target makeDetailId (ao_key ob) ?rel (fin_value (ao_size ob)) ?p"
      unfolding plan_object_cases Let_def by (simp only: if_False not_False_eq_True simp_thms)
    with add_target_unpacked [OF same(1) 2(3)] show ?thesis by simp
  qed
qed

lemma plan_unpacked: "\<exists>fs. unpacked content (buildBrowserFolderDownloadPlan objects folderPrefix makeDetailId) fs"
proof -
  have "\<exists>fs. unpacked content (fold (plan_object folderPrefix makeDetailId) objects plan) fs" if "unpacked content plan fs" for plan fs
    using that
  proof (induction objects arbitrary: plan fs)
    case (Cons ob objects)
    from plan_object_unpacked [OF Cons.prems] obtain g where "unpacked content (plan_object folderPrefix makeDetailId ob plan) g" by blast
    from Cons.IH [OF this] show ?case by simp
  qed auto
  moreover have "unpacked content no_objects Map.empty" by (simp add: unpacked_def no_objects_def)
  ultimately show ?thesis unfolding buildBrowserFolderDownloadPlan_def by blast
qed

text \<open>Each object is archived, excluded or skipped.\<close>

definition folder_marker :: "string \<Rightarrow> archive_object \<Rightarrow> bool" where
  "folder_marker folderPrefix ob \<longleftrightarrow> ao_key ob = folderPrefix \<or> endsWith (relative_key folderPrefix (ao_key ob)) ''/'' \<and> ao_size ob = Fin 0"

definition plan_keys :: "folder_plan \<Rightarrow> string list" where
  "plan_keys plan = map at_key (fp_targets plan) @ map fst (fp_excluded plan)"

lemma plan_accounts:
  assumes "distinct (map ao_key objects)" and "set (fp_seen plan) \<inter> set (map ao_key objects) = {}"
  shows "mset (plan_keys (fold (plan_object folderPrefix makeDetailId) objects plan)) =
     mset (plan_keys plan) + mset (map ao_key (filter (\<lambda>ob. \<not> folder_marker folderPrefix ob) objects))"
  using assms
proof (induction objects arbitrary: plan)
  case (Cons ob objects)
  let ?q = "plan_object folderPrefix makeDetailId ob plan"
  have "set (fp_seen ?q) = insert (ao_key ob) (set (fp_seen plan))"
    and q: "mset (plan_keys ?q) = mset (plan_keys plan) + (if folder_marker folderPrefix ob then {#} else {#ao_key ob#})"
    using Cons.prems(2) by (auto simp: plan_object_cases plan_keys_def folder_marker_def add_target_def Let_def)
  with Cons.prems have "set (fp_seen ?q) \<inter> set (map ao_key objects) = {}" by auto
  from Cons.IH [OF _ this] Cons.prems(1) q show ?case by simp
qed simp

section \<open>The manifest is the selection\<close>

lemma startsWith_trans: "startsWith a b \<Longrightarrow> startsWith b c \<Longrightarrow> startsWith a c"
  by (auto simp: startsWith_iff)

lemma roots_cover:
  assumes "f \<in> set folders"
  shows "\<exists>r \<in> set (manifest_roots folders). startsWith f r"
proof -
  have "i < length folders \<Longrightarrow> \<exists>r \<in> set (manifest_roots folders). startsWith (folders ! i) r" for i
  proof (induction i rule: less_induct)
    case (less i)
    show ?case
    proof (cases "\<exists>parent \<in> set (take i folders). startsWith (folders ! i) parent")
      case True
      then obtain j where j: "j < i" "startsWith (folders ! i) (folders ! j)" by (auto simp: in_set_conv_nth)
      from less.IH [OF j(1)] j less.prems show ?thesis by (auto intro: startsWith_trans)
    next
      case False
      then have "folders ! i \<in> set (manifest_roots folders)"
        using less.prems by (force simp: manifest_roots_def in_set_enumerate_eq)
      then show ?thesis by (auto simp: startsWith_iff)
    qed
  qed
  then show ?thesis using assms by (auto simp: in_set_conv_nth)
qed

lemma roots_sub: "set (manifest_roots folders) \<subseteq> set folders"
  by (auto simp: manifest_roots_def in_set_enumerate_eq)

lemma under_roots: "(\<exists>r \<in> set (manifest_roots folders). startsWith k r) \<longleftrightarrow> (\<exists>f \<in> set folders. startsWith k f)"
  using roots_cover roots_sub by (meson startsWith_trans subset_iff)

definition keyed :: "(string \<times> archive_object) list \<Rightarrow> bool" where
  "keyed m \<longleftrightarrow> distinct (map fst m) \<and> (\<forall>k ob. map_of m k = Some ob \<longrightarrow> ao_key ob = k)"

lemma keyed_update: "keyed m \<Longrightarrow> keyed (AList.update (ao_key ob) ob m)"
  by (auto simp: keyed_def distinct_update update_conv')

lemma keyed_fold:
  "keyed m \<Longrightarrow> keyed (fold (\<lambda>ob. AList.update (ao_key ob) ob) obs m)
     \<and> fst ` set (fold (\<lambda>ob. AList.update (ao_key ob) ob) obs m) = ao_key ` set obs \<union> fst ` set m"
  by (induction obs arbitrary: m) (auto simp: keyed_update dom_update)

lemma keyed_values: "keyed m \<Longrightarrow> map ao_key (map snd m) = map fst m"
  by (auto simp: keyed_def)

text \<open>The files that are not under a selected folder.\<close>

definition loose_files :: "string list \<Rightarrow> archive_item list \<Rightarrow> archive_item list" where
  "loose_files roots items = filter (\<lambda>i. ai_type i = FileItem \<and> \<not> ai_isDeleted i \<and> \<not> (\<exists>r \<in> set roots. startsWith (ai_key i) r)) items"

lemma manifest_files_result:
  assumes "keyed m"
  shows "(\<exists>i \<in> set (loose_files roots items). ai_sizeBytes i = None) \<and> (\<exists>e. manifest_files roots items m = Inl e) \<or>
    (\<exists>m'. manifest_files roots items m = Inr m' \<and> keyed m' \<and> fst ` set m' = ai_key ` set (loose_files roots items) \<union> fst ` set m)"
  using assms
proof (induction items arbitrary: m)
  case (Cons i items)
  show ?case
  proof (cases "ai_type i \<noteq> FileItem \<or> ai_isDeleted i \<or> (\<exists>r \<in> set roots. startsWith (ai_key i) r)")
    case True
    then have "loose_files roots (i # items) = loose_files roots items" "manifest_files roots (i # items) m = manifest_files roots items m"
      by (auto simp: loose_files_def)
    with Cons.IH [OF Cons.prems] show ?thesis by simp
  next
    case False
    then have l: "loose_files roots (i # items) = i # loose_files roots items" by (simp add: loose_files_def)
    show ?thesis
    proof (cases "ai_sizeBytes i")
      case None
      with False l show ?thesis by auto
    next
      case (Some n)
      let ?m = "AList.update (ai_key i) \<lparr>ao_key = ai_key i, ao_size = n\<rparr> m"
      have "keyed ?m" using keyed_update [OF Cons.prems, of "\<lparr>ao_key = ai_key i, ao_size = n\<rparr>"] by simp
      moreover have "manifest_files roots (i # items) m = manifest_files roots items ?m" using False Some by simp
      ultimately show ?thesis using Cons.IH [of ?m] l by (auto simp: dom_update)
    qed
  qed
qed (simp add: loose_files_def)

text \<open>The server lists its objects and keeps them.\<close>

definition list_under :: "string \<Rightarrow> (archive_object list, archive_object list) io" where
  "list_under prefix obs = (Inr (filter (\<lambda>ob. startsWith (ao_key ob) prefix) obs), obs)"

lemma manifest_folders_result:
  assumes "keyed m"
  shows "\<exists>m'. manifest_folders list_under (\<lambda>_. False) roots m obs = (Inr m', obs) \<and> keyed m' \<and>
    fst ` set m' = ao_key ` {ob \<in> set obs. \<exists>r \<in> set roots. startsWith (ao_key ob) r} \<union> fst ` set m"
  using assms
proof (induction roots arbitrary: m)
  case (Cons r roots)
  let ?found = "filter (\<lambda>ob. startsWith (ao_key ob) r) obs"
  note f = keyed_fold [OF Cons.prems, of ?found]
  have un: "{ob \<in> set obs. \<exists>x \<in> set (r # roots). startsWith (ao_key ob) x} =
      {ob \<in> set obs. \<exists>x \<in> set roots. startsWith (ao_key ob) x} \<union> {x \<in> set obs. startsWith (ao_key x) r}" by auto
  from Cons.IH [OF conjunct1 [OF f]] f show ?case
    unfolding un image_Un by (auto simp: list_under_def io_bind_apply)
qed auto

lemma manifest_result:
  assumes "\<forall>i \<in> set items. ai_type i = FileItem \<longrightarrow> \<not> ai_isDeleted i \<longrightarrow> ai_sizeBytes i \<noteq> None"
  shows "\<exists>objects. buildBrowserSelectionManifest list_under (\<lambda>_. False) items obs = (Inr objects, obs)
     \<and> distinct (map ao_key objects)
     \<and> set (map ao_key objects) = ao_key ` {ob \<in> set obs. \<exists>r \<in> set (folder_prefixes items). startsWith (ao_key ob) r}
         \<union> ai_key ` {i \<in> set items. ai_type i = FileItem \<and> \<not> ai_isDeleted i \<and> \<not> (\<exists>r \<in> set (folder_prefixes items). startsWith (ai_key i) r)}"
proof -
  let ?roots = "manifest_roots (folder_prefixes items)"
  have "keyed []" by (simp add: keyed_def)
  from manifest_files_result [OF this, of ?roots items] assms obtain m where
    m: "manifest_files ?roots items [] = Inr m" "keyed m" "fst ` set m = ai_key ` set (loose_files ?roots items)"
    by (auto simp: loose_files_def)
  from manifest_folders_result [OF m(2), of ?roots obs] obtain m' where
    m': "manifest_folders list_under (\<lambda>_. False) ?roots m obs = (Inr m', obs)" "keyed m'"
    "fst ` set m' = ao_key ` {ob \<in> set obs. \<exists>r \<in> set ?roots. startsWith (ao_key ob) r} \<union> fst ` set m" by blast
  have "set (map ao_key (map snd m')) = fst ` set m'" unfolding keyed_values [OF m'(2)] by simp
  also have "\<dots> = ao_key ` {ob \<in> set obs. \<exists>r \<in> set (folder_prefixes items). startsWith (ao_key ob) r}
         \<union> ai_key ` {i \<in> set items. ai_type i = FileItem \<and> \<not> ai_isDeleted i \<and> \<not> (\<exists>r \<in> set (folder_prefixes items). startsWith (ai_key i) r)}"
    unfolding m'(3) m(3) loose_files_def under_roots by auto
  finally have keys: "set (map ao_key (map snd m')) = \<dots>" .
  have "distinct (map ao_key (map snd m'))" unfolding keyed_values [OF m'(2)] using m'(2) by (simp add: keyed_def)
  moreover have "buildBrowserSelectionManifest list_under (\<lambda>_. False) items obs = (Inr (map snd m'), obs)"
    using m(1) m'(1) by (simp add: buildBrowserSelectionManifest_def Let_def io_bind_apply)
  ultimately show ?thesis using keys by blast
qed

section \<open>Properties\<close>


text \<open>A folder with its marker, two names that collide without case, and a path that would leave the archive.\<close>

definition sample_selection :: "archive_item list" where
  "sample_selection = [\<lparr>ai_key = ''d'', ai_name = ''d'', ai_type = FolderItem, ai_isDeleted = False, ai_sizeBytes = None\<rparr>,
     \<lparr>ai_key = ''e'', ai_name = ''e'', ai_type = FileItem, ai_isDeleted = False, ai_sizeBytes = Some (Fin 1)\<rparr>,
     \<lparr>ai_key = ''d/a'', ai_name = ''a'', ai_type = FileItem, ai_isDeleted = False, ai_sizeBytes = Some (Fin 2)\<rparr>]"

definition sample_objects :: "archive_object list" where
  "sample_objects = map (\<lambda>(k, n). \<lparr>ao_key = k, ao_size = Fin n\<rparr>) [(''d/'', 0), (''d/a'', 2), (''d/A'', 3), (''d/../x'', 4), (''f'', 5)]"

lemma sample_keys:
  "ao_key ` {ob \<in> set sample_objects. \<exists>r \<in> set (folder_prefixes sample_selection). startsWith (ao_key ob) r}
     \<union> ai_key ` {i \<in> set sample_selection. ai_type i = FileItem \<and> \<not> ai_isDeleted i \<and> \<not> (\<exists>r \<in> set (folder_prefixes sample_selection). startsWith (ai_key i) r)}
   = {''d/'', ''d/a'', ''d/A'', ''d/../x'', ''e''}"
  unfolding set_filter [symmetric] set_map [symmetric]
  by (auto simp: sample_objects_def sample_selection_def folder_prefixes_def endsWith_def)


end
