(* ===== verification/Archive_Download.thy ===== *)
theory Archive_Download
  imports Folder_Archive Object_Upload Concurrency
begin

text \<open>
  The download of the files of an archive in memory by several workers: \<open>downloadBrowserFolderArchive\<close> of
  \<open>frontend/src/features/browser/browserFolderDownload.ts\<close>, for an output in memory. A run is a sequence of
  steps in any order: a worker takes the next target, the answer to a download arrives, it fails, the user
  cancels, and the packaging of the archive ends.
\<close>

section \<open>The state of a download\<close>

datatype download_worker = Free | Downloading nat | Over

datatype detail_status = DetailDownloading | DetailDone | DetailCancelled | DetailFailed

text \<open>What the function returned, with the archive handed to the browser.\<close>

datatype archive_phase = Fetching | Packaging | Ended_With bool "(string \<times> bytes) list option" | Raised js_error

text \<open>
  The calls of \<open>onDetailChange\<close> name the target by its index instead of its \<open>detailId\<close>. \<open>ar_skipped\<close> are the
  targets a worker took after the cancellation.
\<close>

record archive_run =
  ar_phase :: archive_phase
  ar_cursor :: nat
  ar_workers :: "download_worker list"
  ar_retained :: nat
  ar_files :: "(string \<times> bytes) list"
  ar_succeeded :: nat
  ar_completed :: nat
  ar_downloaded :: rat
  ar_failedKeys :: "string list"
  ar_aborted :: bool
  ar_signal :: bool
  ar_details :: "(nat \<times> detail_status) list"
  ar_progress :: "int list"
  ar_skipped :: "nat list"

definition entry_name :: "bool \<Rightarrow> string \<Rightarrow> archive_target \<Rightarrow> string" where
  "entry_name includeRootFolder folderLabel t = (if includeRootFolder then folderLabel @ ''/'' @ at_relativeKey t else at_relativeKey t)"

text \<open>\<open>Math.round\<close> is the floor of the value plus one half.\<close>

definition updateTransferProgress :: "nat \<Rightarrow> rat \<Rightarrow> archive_run \<Rightarrow> archive_run" where
  "updateTransferProgress totalCount totalBytes st =
     (let base = (if totalBytes > 0 then ar_downloaded st / totalBytes else rat_of_nat (ar_completed st) / rat_of_nat totalCount) in
      st\<lparr>ar_progress := ar_progress st @ [min 80 \<lfloor>base * 80 + 1/2\<rfloor>]\<rparr>)"

section \<open>The handler of a target\<close>

text \<open>The head of the loop of a worker and the handler up to its wait.\<close>

definition take_target :: "archive_target list \<Rightarrow> nat \<Rightarrow> archive_run \<Rightarrow> archive_run" where
  "take_target targets w st =
     (if ar_aborted st \<or> ar_cursor st \<ge> length targets then st\<lparr>ar_workers := (ar_workers st)[w := Over]\<rparr>
      else let index = ar_cursor st; st = st\<lparr>ar_cursor := index + 1\<rparr> in
        if ar_signal st then st\<lparr>ar_aborted := True, ar_skipped := ar_skipped st @ [index]\<rparr>
        else st\<lparr>ar_details := ar_details st @ [(index, DetailDownloading)], ar_workers := (ar_workers st)[w := Downloading index]\<rparr>)"

text \<open>The \<open>finally\<close> of a target.\<close>

definition target_settled :: "archive_target list \<Rightarrow> rat \<Rightarrow> nat \<Rightarrow> nat \<Rightarrow> archive_run \<Rightarrow> archive_run" where
  "target_settled targets totalBytes w index st = updateTransferProgress (length targets) totalBytes
     (st\<lparr>ar_completed := ar_completed st + 1, ar_downloaded := ar_downloaded st + at_sizeBytes (targets ! index),
        ar_workers := (ar_workers st)[w := Free]\<rparr>)"

definition target_fails :: "archive_target list \<Rightarrow> rat \<Rightarrow> nat \<Rightarrow> nat \<Rightarrow> bool \<Rightarrow> archive_run \<Rightarrow> archive_run" where
  "target_fails targets totalBytes w index isAbort st = target_settled targets totalBytes w index
     (if isAbort \<or> ar_signal st
      then st\<lparr>ar_details := ar_details st @ [(index, DetailCancelled)], ar_aborted := True, ar_signal := True\<rparr>
      else st\<lparr>ar_details := ar_details st @ [(index, DetailFailed)], ar_failedKeys := ar_failedKeys st @ [at_key (targets ! index)]\<rparr>)"

definition blob_arrived :: "(archive_target \<Rightarrow> string) \<Rightarrow> archive_target list \<Rightarrow> rat \<Rightarrow> nat \<Rightarrow> nat \<Rightarrow> nat \<Rightarrow> bytes \<Rightarrow> archive_run \<Rightarrow> archive_run" where
  "blob_arrived name targets totalBytes memoryLimit w index blob st =
     (if ar_retained st + length blob \<ge> memoryLimit \<and> ar_retained st + length blob > 0
      then target_fails targets totalBytes w index False st
      else target_settled targets totalBytes w index
        (st\<lparr>ar_retained := ar_retained st + length blob, ar_files := AList.update (name (targets ! index)) blob (ar_files st),
           ar_succeeded := ar_succeeded st + 1, ar_details := ar_details st @ [(index, DetailDone)]\<rparr>))"

section \<open>The function\<close>

text \<open>After the pool.\<close>

definition downloads_joined :: "archive_run \<Rightarrow> archive_run" where
  "downloads_joined st =
     (if ar_aborted st \<or> ar_signal st then st\<lparr>ar_phase := Ended_With True None\<rparr>
      else if ar_succeeded st = 0 then st\<lparr>ar_phase := Ended_With False None\<rparr>
      else st\<lparr>ar_phase := Packaging\<rparr>)"

text \<open>The callback of the packaging, which throws once the signal is set, and its end.\<close>

definition packaging_progress :: "rat \<Rightarrow> archive_run \<Rightarrow> archive_run" where
  "packaging_progress percent st =
     (if ar_signal st then st\<lparr>ar_phase := Raised (JsErr ''AbortError'')\<rparr>
      else st\<lparr>ar_progress := ar_progress st @ [min 99 (80 + \<lfloor>percent * 1/5 + 1/2\<rfloor>)]\<rparr>)"

definition archive_packaged :: "archive_run \<Rightarrow> archive_run" where
  "archive_packaged st =
     (if ar_signal st then st\<lparr>ar_phase := Ended_With True None\<rparr>
      else st\<lparr>ar_progress := ar_progress st @ [100], ar_phase := Ended_With False (Some (ar_files st))\<rparr>)"

definition downloadBrowserFolderArchive :: "archive_target list \<Rightarrow> rat \<Rightarrow> nat \<Rightarrow> js_number \<Rightarrow> bool \<Rightarrow> archive_run" where
  "downloadBrowserFolderArchive targets totalBytes memoryLimit parallelism signalled =
     \<lparr>ar_phase = (if totalBytes \<ge> rat_of_nat memoryLimit \<and> totalBytes > 0 then Raised (JsErr ''This archive exceeds the configured in-memory limit.'') else Fetching),
      ar_cursor = 0, ar_workers = replicate (worker_count parallelism (length targets)) Free, ar_retained = 0, ar_files = [],
      ar_succeeded = 0, ar_completed = 0, ar_downloaded = 0, ar_failedKeys = [], ar_aborted = False, ar_signal = signalled,
      ar_details = [], ar_progress = [], ar_skipped = []\<rparr>"

text \<open>\<open>served\<close> says what the server may answer for a target.\<close>

inductive archive_step :: "(archive_target \<Rightarrow> string) \<Rightarrow> archive_target list \<Rightarrow> rat \<Rightarrow> nat \<Rightarrow> (archive_target \<Rightarrow> bytes \<Rightarrow> bool) \<Rightarrow> archive_run \<Rightarrow> archive_run \<Rightarrow> bool"
  for name targets totalBytes memoryLimit served where
  taken: "ar_phase st = Fetching \<Longrightarrow> w < length (ar_workers st) \<Longrightarrow> ar_workers st ! w = Free \<Longrightarrow>
    archive_step name targets totalBytes memoryLimit served st (take_target targets w st)"
| arrived: "ar_phase st = Fetching \<Longrightarrow> w < length (ar_workers st) \<Longrightarrow> ar_workers st ! w = Downloading i \<Longrightarrow> served (targets ! i) blob \<Longrightarrow>
    archive_step name targets totalBytes memoryLimit served st (blob_arrived name targets totalBytes memoryLimit w i blob st)"
| failed: "ar_phase st = Fetching \<Longrightarrow> w < length (ar_workers st) \<Longrightarrow> ar_workers st ! w = Downloading i \<Longrightarrow>
    archive_step name targets totalBytes memoryLimit served st (target_fails targets totalBytes w i isAbort st)"
| joined: "ar_phase st = Fetching \<Longrightarrow> list_all (\<lambda>x. x = Over) (ar_workers st) \<Longrightarrow>
    archive_step name targets totalBytes memoryLimit served st (downloads_joined st)"
| packing: "ar_phase st = Packaging \<Longrightarrow> archive_step name targets totalBytes memoryLimit served st (packaging_progress percent st)"
| packed: "ar_phase st = Packaging \<Longrightarrow> archive_step name targets totalBytes memoryLimit served st (archive_packaged st)"
| packing_fails: "ar_phase st = Packaging \<Longrightarrow> archive_step name targets totalBytes memoryLimit served st (st\<lparr>ar_phase := Raised e\<rparr>)"
| cancelled: "archive_step name targets totalBytes memoryLimit served st (st\<lparr>ar_signal := True\<rparr>)"

section \<open>The invariant\<close>

definition taken_by :: "download_worker \<Rightarrow> nat multiset" where
  "taken_by x = (case x of Downloading i \<Rightarrow> {#i#} | _ \<Rightarrow> {#})"

definition underway :: "download_worker list \<Rightarrow> nat multiset" where
  "underway ws = sum_list (map taken_by ws)"

definition with_status :: "detail_status \<Rightarrow> (nat \<times> detail_status) list \<Rightarrow> nat list" where
  "with_status x details = map fst (filter (\<lambda>(_, y). y = x) details)"

definition run_accounts :: "archive_run \<Rightarrow> download_worker list \<Rightarrow> nat multiset" where
  "run_accounts st ws = underway ws + mset (with_status DetailDone (ar_details st)) + mset (with_status DetailFailed (ar_details st))
     + mset (with_status DetailCancelled (ar_details st)) + mset (ar_skipped st)"

definition blob_bytes :: "(string \<times> bytes) list \<Rightarrow> nat" where
  "blob_bytes files = sum_list (map (length \<circ> snd) files)"

definition run_inv :: "(archive_target \<Rightarrow> string) \<Rightarrow> archive_target list \<Rightarrow> nat \<Rightarrow> (archive_target \<Rightarrow> bytes \<Rightarrow> bool) \<Rightarrow> nat \<Rightarrow> archive_run \<Rightarrow> bool" where
  "run_inv name targets memoryLimit served slots st \<longleftrightarrow>
     length (ar_workers st) = slots \<and> ar_cursor st \<le> length targets
     \<and> run_accounts st (ar_workers st) = mset [0..<ar_cursor st]
     \<and> map fst (ar_files st) = map (\<lambda>i. name (targets ! i)) (with_status DetailDone (ar_details st))
     \<and> list_all2 (\<lambda>i f. served (targets ! i) (snd f)) (with_status DetailDone (ar_details st)) (ar_files st)
     \<and> ar_failedKeys st = map (\<lambda>i. at_key (targets ! i)) (with_status DetailFailed (ar_details st))
     \<and> ar_succeeded st = length (ar_files st)
     \<and> ar_retained st = blob_bytes (ar_files st)
     \<and> (ar_retained st = 0 \<or> ar_retained st < memoryLimit)
     \<and> (\<not> ar_aborted st \<longrightarrow> ar_skipped st = [] \<and> with_status DetailCancelled (ar_details st) = [])
     \<and> (Over \<in> set (ar_workers st) \<longrightarrow> ar_aborted st \<or> ar_cursor st = length targets)"

lemma underway_update: "w < length ws \<Longrightarrow> underway (ws[w := x]) + taken_by (ws ! w) = underway ws + taken_by x"
proof (induction ws arbitrary: w)
  case (Cons y ws)
  then show ?case by (cases w) (auto simp: underway_def ac_simps)
qed simp

lemma underway_le: "w < length ws \<Longrightarrow> ws ! w = Downloading i \<Longrightarrow> i \<in># underway ws"
  using underway_update [of w ws Over] by (auto simp: taken_by_def dest: arg_cong [of _ _ "\<lambda>m. i \<in># m"])

lemma underway_free: "w < length ws \<Longrightarrow> ws ! w = Free \<Longrightarrow> underway (ws[w := x]) = underway ws + taken_by x"
  using underway_update [of w ws x] by (simp add: taken_by_def)

lemma underway_settled: "w < length ws \<Longrightarrow> ws ! w = Downloading i \<Longrightarrow> add_mset i (underway (ws[w := Free])) = underway ws"
  using underway_update [of w ws Free] by (simp add: taken_by_def)

lemma with_status_snoc [simp]: "with_status x (ds @ [(i, y)]) = with_status x ds @ (if y = x then [i] else [])"
  by (simp add: with_status_def)

lemma settled_fields [simp]:
  "ar_phase (target_settled targets totalBytes w i st) = ar_phase st" "ar_cursor (target_settled targets totalBytes w i st) = ar_cursor st"
  "ar_workers (target_settled targets totalBytes w i st) = (ar_workers st)[w := Free]" "ar_retained (target_settled targets totalBytes w i st) = ar_retained st"
  "ar_files (target_settled targets totalBytes w i st) = ar_files st" "ar_succeeded (target_settled targets totalBytes w i st) = ar_succeeded st"
  "ar_failedKeys (target_settled targets totalBytes w i st) = ar_failedKeys st" "ar_aborted (target_settled targets totalBytes w i st) = ar_aborted st"
  "ar_details (target_settled targets totalBytes w i st) = ar_details st" "ar_skipped (target_settled targets totalBytes w i st) = ar_skipped st"
  "ar_signal (target_settled targets totalBytes w i st) = ar_signal st"
  by (simp_all add: target_settled_def updateTransferProgress_def Let_def)

text \<open>The invariant reads these fields only.\<close>

lemma run_inv_fields:
  assumes "run_inv name targets limit served slots st" and "ar_workers t = ar_workers st" and "ar_cursor t = ar_cursor st"
    and "ar_details t = ar_details st" and "ar_skipped t = ar_skipped st" and "ar_files t = ar_files st" and "ar_failedKeys t = ar_failedKeys st"
    and "ar_succeeded t = ar_succeeded st" and "ar_retained t = ar_retained st" and "ar_aborted t = ar_aborted st"
  shows "run_inv name targets limit served slots t"
  using assms(1) unfolding run_inv_def run_accounts_def assms(2-) .

lemma Over_update: "Over \<in> set (ws[w := x]) \<Longrightarrow> x \<noteq> Over \<Longrightarrow> Over \<in> set ws"
  using set_update_subset_insert [of ws w x] by auto

lemma take_target_inv:
  assumes i: "run_inv name targets limit served slots st" and w: "w < length (ar_workers st)" "ar_workers st ! w = Free"
  shows "run_inv name targets limit served slots (take_target targets w st)"
proof -
  note u = underway_free [OF w]
  have acc: "mset [0..<ar_cursor st] = run_accounts st (ar_workers st)" using i by (simp add: run_inv_def)
  consider "ar_aborted st \<or> ar_cursor st \<ge> length targets" | "\<not> ar_aborted st" "ar_cursor st < length targets" "ar_signal st"
    | "\<not> ar_aborted st" "ar_cursor st < length targets" "\<not> ar_signal st" by linarith
  then show ?thesis
  proof cases
    case 1
    then have "take_target targets w st = st\<lparr>ar_workers := (ar_workers st)[w := Over]\<rparr>" by (simp add: take_target_def)
    with 1 i u [of Over] show ?thesis by (auto simp: run_inv_def run_accounts_def taken_by_def acc simp del: mset_upt)
  next
    case 2
    then have t: "take_target targets w st = st\<lparr>ar_cursor := ar_cursor st + 1, ar_aborted := True, ar_skipped := ar_skipped st @ [ar_cursor st]\<rparr>"
      by (simp add: take_target_def Let_def)
    show ?thesis using 2 i unfolding t by (auto simp: run_inv_def run_accounts_def acc simp del: mset_upt)
  next
    case 3
    then have t: "take_target targets w st = st\<lparr>ar_cursor := ar_cursor st + 1, ar_details := ar_details st @ [(ar_cursor st, DetailDownloading)],
        ar_workers := (ar_workers st)[w := Downloading (ar_cursor st)]\<rparr>"
      by (simp add: take_target_def Let_def)
    show ?thesis using 3 i u [of "Downloading (ar_cursor st)"] unfolding t
      by (auto simp: run_inv_def run_accounts_def taken_by_def acc simp del: mset_upt dest: Over_update)
  qed
qed

text \<open>An entry of the log that settles the target of a worker keeps the account.\<close>

lemma settle_accounts:
  assumes "run_accounts st (ar_workers st) = m" and w: "w < length (ar_workers st)" "ar_workers st ! w = Downloading k"
    and "ar_details t = ar_details st @ [(k, y)]" and "y \<noteq> DetailDownloading" and "ar_skipped t = ar_skipped st"
  shows "run_accounts t ((ar_workers st)[w := Free]) = m"
  unfolding assms(1) [symmetric] run_accounts_def underway_settled [OF w, symmetric]
  using assms(4-6) by (cases y) simp_all

lemma target_fails_inv:
  assumes i: "run_inv name targets limit served slots st" and w: "w < length (ar_workers st)" "ar_workers st ! w = Downloading k"
  shows "run_inv name targets limit served slots (target_fails targets totalBytes w k isAbort st)"
proof -
  have acc: "run_accounts st (ar_workers st) = mset [0..<ar_cursor st]" using i by (simp add: run_inv_def)
  define t where "t = (if isAbort \<or> ar_signal st
      then st\<lparr>ar_details := ar_details st @ [(k, DetailCancelled)], ar_aborted := True, ar_signal := True\<rparr>
      else st\<lparr>ar_details := ar_details st @ [(k, DetailFailed)], ar_failedKeys := ar_failedKeys st @ [at_key (targets ! k)]\<rparr>)"
  have r: "target_fails targets totalBytes w k isAbort st = target_settled targets totalBytes w k t"
    by (simp add: target_fails_def t_def)
  have "run_accounts t ((ar_workers st)[w := Free]) = mset [0..<ar_cursor st]"
    by (rule settle_accounts [OF acc w, of _ "if isAbort \<or> ar_signal st then DetailCancelled else DetailFailed"]) (simp_all add: t_def)
  then have "run_accounts (target_settled targets totalBytes w k t) ((ar_workers st)[w := Free]) = mset [0..<ar_cursor st]"
    by (simp only: run_accounts_def settled_fields)
  moreover have same: "ar_workers t = ar_workers st" "ar_cursor t = ar_cursor st" "ar_retained t = ar_retained st" "ar_files t = ar_files st"
    "ar_succeeded t = ar_succeeded st" "ar_skipped t = ar_skipped st" "with_status DetailDone (ar_details t) = with_status DetailDone (ar_details st)"
    by (simp_all add: t_def)
  moreover have "ar_failedKeys t = map (\<lambda>i. at_key (targets ! i)) (with_status DetailFailed (ar_details t))"
    using i by (simp add: run_inv_def t_def)
  moreover have "\<not> ar_aborted t \<longrightarrow> ar_skipped st = [] \<and> with_status DetailCancelled (ar_details t) = []"
    using i by (simp add: run_inv_def t_def)
  moreover have "Over \<in> set ((ar_workers st)[w := Free]) \<longrightarrow> ar_aborted t \<or> ar_cursor st = length targets"
    using i Over_update [of "ar_workers st" w Free] by (auto simp: run_inv_def t_def)
  ultimately show ?thesis using i unfolding r run_inv_def settled_fields same length_list_update by blast
qed

lemma distinct_of_sub:
  assumes "mset xs \<subseteq># mset ys" and "distinct ys"
  shows "distinct xs"
proof -
  obtain zs where "mset ys = mset (xs @ zs)" using assms(1) by (metis ex_mset mset_append mset_subset_eq_exists_conv)
  then show ?thesis using assms(2) mset_eq_imp_distinct_iff by fastforce
qed

lemma underway_not_done:
  assumes "run_inv name targets limit served slots st" and "w < length (ar_workers st)" "ar_workers st ! w = Downloading k"
  shows "k \<notin> set (with_status DetailDone (ar_details st))" "k < length targets" "distinct (with_status DetailDone (ar_details st))" "set (with_status DetailDone (ar_details st)) \<subseteq> {..<length targets}"
proof -
  have acc: "underway (ar_workers st) + mset (with_status DetailDone (ar_details st)) + mset (with_status DetailFailed (ar_details st))
     + mset (with_status DetailCancelled (ar_details st)) + mset (ar_skipped st) = mset [0..<ar_cursor st]" and c: "ar_cursor st \<le> length targets"
    using assms(1) by (simp_all add: run_inv_def run_accounts_def)
  have k: "k \<in># underway (ar_workers st)" by (rule underway_le [OF assms(2,3)])
  have sub: "underway (ar_workers st) + mset (with_status DetailDone (ar_details st)) \<subseteq># mset [0..<ar_cursor st]"
    unfolding acc [symmetric] by (simp add: add.assoc)
  have one: "count (mset [0..<ar_cursor st]) x \<le> 1" for x
    using distinct_count_atmost_1 [of "[0..<ar_cursor st]"] by (metis distinct_upt le_refl zero_le)
  show "k \<notin> set (with_status DetailDone (ar_details st))"
  proof
    assume "k \<in> set (with_status DetailDone (ar_details st))"
    then have "count (mset (with_status DetailDone (ar_details st))) k \<ge> 1" "count (underway (ar_workers st)) k \<ge> 1" using k by (simp_all add: Suc_le_eq)
    then have "count (underway (ar_workers st) + mset (with_status DetailDone (ar_details st))) k \<ge> 2" unfolding count_union by linarith
    then show False using mset_subset_eq_count [OF sub, of k] one [of k] by linarith
  qed
  have "k \<in># mset [0..<ar_cursor st]" using k mset_subset_eqD [OF sub, of k] by simp
  then show "k < length targets" using c by simp
  have "mset (with_status DetailDone (ar_details st)) \<subseteq># mset [0..<ar_cursor st]" using sub by (metis mset_subset_eq_add_right subset_mset.order_trans)
  then show "distinct (with_status DetailDone (ar_details st))" 
    by (rule distinct_of_sub) simp
  have "set (with_status DetailDone (ar_details st)) \<subseteq> set [0..<ar_cursor st]" using set_mset_mono [OF \<open>mset (with_status DetailDone (ar_details st)) \<subseteq># _\<close>] by simp
  then show "set (with_status DetailDone (ar_details st)) \<subseteq> {..<length targets}" using c by auto
qed

lemma update_fresh: "k \<notin> set (map fst m) \<Longrightarrow> AList.update k v m = m @ [(k, v)]"
  by (induction m) auto

lemma blob_arrived_inv:
  assumes i: "run_inv name targets limit served slots st" and w: "w < length (ar_workers st)" "ar_workers st ! w = Downloading k"
    and d: "distinct (map name targets)" and s: "served (targets ! k) blob"
  shows "run_inv name targets limit served slots (blob_arrived name targets totalBytes limit w k blob st)"
proof (cases "ar_retained st + length blob \<ge> limit \<and> ar_retained st + length blob > 0")
  case True
  then show ?thesis using target_fails_inv [OF i w] by (simp add: blob_arrived_def)
next
  case False
  note u = underway_not_done [OF i w]
  have acc: "run_accounts st (ar_workers st) = mset [0..<ar_cursor st]" using i by (simp add: run_inv_def)
  have names: "map fst (ar_files st) = map (\<lambda>i. name (targets ! i)) (with_status DetailDone (ar_details st))"
    using i by (simp add: run_inv_def)
  have "name (targets ! k) \<notin> set (map fst (ar_files st))"
  proof
    assume "name (targets ! k) \<in> set (map fst (ar_files st))"
    then obtain j where j: "j \<in> set (with_status DetailDone (ar_details st))" "name (targets ! j) = name (targets ! k)"
      unfolding names by auto
    then have "j < length targets" using u(4) by auto
    then have "j = k" using j(2) d u(2) by (simp add: distinct_conv_nth) (metis nth_map length_map)
    with j(1) u(1) show False by simp
  qed
  note fresh = update_fresh [OF this, of blob]
  define t where "t = st\<lparr>ar_retained := ar_retained st + length blob, ar_files := ar_files st @ [(name (targets ! k), blob)],
           ar_succeeded := ar_succeeded st + 1, ar_details := ar_details st @ [(k, DetailDone)]\<rparr>"
  have r: "blob_arrived name targets totalBytes limit w k blob st = target_settled targets totalBytes w k t"
    using False unfolding blob_arrived_def t_def fresh by auto
  have "run_accounts t ((ar_workers st)[w := Free]) = mset [0..<ar_cursor st]"
    by (rule settle_accounts [OF acc w, of _ DetailDone]) (simp_all add: t_def)
  then have "run_accounts (target_settled targets totalBytes w k t) ((ar_workers st)[w := Free]) = mset [0..<ar_cursor st]"
    by (simp only: run_accounts_def settled_fields)
  moreover have same: "ar_workers t = ar_workers st" "ar_cursor t = ar_cursor st" "ar_failedKeys t = ar_failedKeys st"
    "ar_skipped t = ar_skipped st" "ar_aborted t = ar_aborted st" "with_status DetailFailed (ar_details t) = with_status DetailFailed (ar_details st)"
    "with_status DetailCancelled (ar_details t) = with_status DetailCancelled (ar_details st)"
    by (simp_all add: t_def)
  moreover have "map fst (ar_files t) = map (\<lambda>i. name (targets ! i)) (with_status DetailDone (ar_details t))"
    "list_all2 (\<lambda>i f. served (targets ! i) (snd f)) (with_status DetailDone (ar_details t)) (ar_files t)"
    using i s by (auto simp: run_inv_def t_def intro!: list_all2_appendI)
  moreover have "ar_succeeded t = length (ar_files t)" "ar_retained t = blob_bytes (ar_files t)"
    "ar_retained t = 0 \<or> ar_retained t < limit"
    using i False by (auto simp: run_inv_def t_def blob_bytes_def)
  moreover have "Over \<in> set ((ar_workers st)[w := Free]) \<longrightarrow> ar_aborted st \<or> ar_cursor st = length targets"
    using i Over_update [of "ar_workers st" w Free] by (auto simp: run_inv_def)
  ultimately show ?thesis using i unfolding r run_inv_def settled_fields same length_list_update by blast
qed

lemma archive_step_inv:
  assumes "archive_step name targets totalBytes limit served st st'" and "distinct (map name targets)"
    and i: "run_inv name targets limit served slots st"
  shows "run_inv name targets limit served slots st'"
  using assms(1)
proof cases
  case (taken w)
  then show ?thesis using take_target_inv [OF i] by simp
next
  case (arrived w k blob)
  then show ?thesis using blob_arrived_inv [OF i _ _ assms(2)] by simp
next
  case (failed w k isAbort)
  then show ?thesis using target_fails_inv [OF i] by simp
qed (use run_inv_fields [OF i] in \<open>simp_all add: downloads_joined_def packaging_progress_def archive_packaged_def\<close>)

lemma underway_replicate: "underway (replicate n Free) = {#}"
  by (induction n) (simp_all add: underway_def taken_by_def)

lemma start_archive_inv:
  "run_inv name targets limit served (worker_count parallelism (length targets)) (downloadBrowserFolderArchive targets totalBytes limit parallelism signalled)"
  by (simp add: run_inv_def downloadBrowserFolderArchive_def run_accounts_def underway_replicate with_status_def blob_bytes_def)

section \<open>The end of a run\<close>

text \<open>What the phases after the pool say.\<close>

definition pool_over :: "archive_run \<Rightarrow> bool" where
  "pool_over st \<longleftrightarrow> \<not> ar_aborted st \<and> list_all (\<lambda>x. x = Over) (ar_workers st)"

definition phase_inv :: "archive_run \<Rightarrow> bool" where
  "phase_inv st \<longleftrightarrow> (case ar_phase st of
     Packaging \<Rightarrow> pool_over st \<and> ar_succeeded st \<noteq> 0
   | Ended_With True archive \<Rightarrow> archive = None
   | Ended_With False archive \<Rightarrow> pool_over st \<and> archive = (if ar_succeeded st = 0 then None else Some (ar_files st))
   | _ \<Rightarrow> True)"

lemma take_target_phase [simp]: "ar_phase (take_target targets w st) = ar_phase st"
  by (simp add: take_target_def Let_def)

lemma blob_arrived_phase [simp]:
  "ar_phase (blob_arrived name targets totalBytes limit w k blob st) = ar_phase st"
  "ar_phase (target_fails targets totalBytes w k isAbort st) = ar_phase st"
  by (simp_all add: blob_arrived_def target_fails_def)

lemma phase_inv_step: "archive_step name targets totalBytes limit served st st' \<Longrightarrow> phase_inv st \<Longrightarrow> phase_inv st'"
  by (erule archive_step.cases)
    (auto simp: phase_inv_def pool_over_def downloads_joined_def packaging_progress_def archive_packaged_def split: archive_phase.splits bool.splits)

lemma archive_runs_inv:
  assumes "(archive_step name targets totalBytes limit served)\<^sup>*\<^sup>* (downloadBrowserFolderArchive targets totalBytes limit parallelism signalled) st"
    and "distinct (map name targets)"
  shows "run_inv name targets limit served (worker_count parallelism (length targets)) st \<and> phase_inv st"
  using assms(1)
proof (induction rule: rtranclp_induct)
  case base
  then show ?case using start_archive_inv by (simp add: phase_inv_def downloadBrowserFolderArchive_def)
next
  case (step st st')
  then show ?case using archive_step_inv [OF step(2) assms(2)] phase_inv_step by blast
qed

lemma pool_over_all:
  assumes "run_inv name targets limit served (worker_count parallelism (length targets)) st" and "pool_over st"
  shows "mset (with_status DetailDone (ar_details st) @ with_status DetailFailed (ar_details st)) = mset [0..<length targets]"
proof -
  have ws: "\<forall>x \<in> set (ar_workers st). x = Over" using assms(2) by (simp add: pool_over_def list_all_iff)
  have "underway ws = {#}" if "\<forall>x \<in> set ws. x = Over" for ws
    using that by (induction ws) (simp_all add: underway_def taken_by_def)
  moreover have "ar_cursor st = length targets"
  proof (cases "ar_workers st")
    case Nil
    then have "worker_count parallelism (length targets) = 0" using assms(1) by (simp add: run_inv_def)
    then have "length targets = 0" by (auto simp: worker_count_def normalizeConcurrencyLimit_def min_def split: js_number.splits if_splits)
    then show ?thesis using assms(1) by (simp add: run_inv_def)
  next
    case (Cons x xs)
    then have "Over \<in> set (ar_workers st)" using ws by simp
    then show ?thesis using assms by (simp add: run_inv_def pool_over_def)
  qed
  moreover have "run_accounts st (ar_workers st) = mset [0..<ar_cursor st]" "ar_skipped st = []" "with_status DetailCancelled (ar_details st) = []"
    using assms by (simp_all add: run_inv_def pool_over_def)
  ultimately show ?thesis using ws by (simp add: run_accounts_def)
qed

text \<open>The steps a run has left when every download fails.\<close>

definition worker_steps :: "download_worker \<Rightarrow> nat" where
  "worker_steps x = (case x of Free \<Rightarrow> 1 | Downloading _ \<Rightarrow> 2 | Over \<Rightarrow> 0)"

definition steps_left :: "archive_target list \<Rightarrow> archive_run \<Rightarrow> nat" where
  "steps_left targets st = 2 * (length targets - ar_cursor st) + sum_list (map worker_steps (ar_workers st))"

lemma worker_steps_update:
  "w < length ws \<Longrightarrow> sum_list (map worker_steps (ws[w := x])) + worker_steps (ws ! w) = sum_list (map worker_steps ws) + worker_steps x"
proof (induction ws arbitrary: w)
  case (Cons y ws)
  then show ?case by (cases w) auto
qed simp

definition run_over :: "archive_run \<Rightarrow> bool" where
  "run_over st \<longleftrightarrow> (\<exists>cancelled archive. ar_phase st = Ended_With cancelled archive) \<or> (\<exists>e. ar_phase st = Raised e)"

lemma fetching_ends:
  "ar_phase st = Fetching \<Longrightarrow> \<exists>t. (archive_step name targets totalBytes limit served)\<^sup>*\<^sup>* st t \<and> ar_phase t = Fetching \<and> list_all (\<lambda>x. x = Over) (ar_workers t)"
proof (induction "steps_left targets st" arbitrary: st rule: less_induct)
  case less
  show ?case
  proof (cases "list_all (\<lambda>x. x = Over) (ar_workers st)")
    case True
    with less.prems show ?thesis by blast
  next
    case False
    then obtain w where w: "w < length (ar_workers st)" "ar_workers st ! w \<noteq> Over" by (auto simp: list_all_length)
    note u = worker_steps_update [OF w(1)]
    have "\<exists>t. archive_step name targets totalBytes limit served st t \<and> steps_left targets t < steps_left targets st \<and> ar_phase t = Fetching"
    proof (cases "ar_workers st ! w")
      case Free
      have "steps_left targets (take_target targets w st) < steps_left targets st"
        using u [of Over] u [of "Downloading (ar_cursor st)"] Free by (auto simp: take_target_def Let_def steps_left_def worker_steps_def)
      with archive_step.taken [OF less.prems w(1) Free] less.prems show ?thesis by (intro exI [of _ "take_target targets w st"]) simp
    next
      case (Downloading k)
      have "steps_left targets (target_fails targets totalBytes w k False st) < steps_left targets st"
        using u [of Free] Downloading by (simp add: target_fails_def steps_left_def worker_steps_def)
      with archive_step.failed [OF less.prems w(1) Downloading] less.prems show ?thesis
        by (intro exI [of _ "target_fails targets totalBytes w k False st"]) simp
    qed (use w in simp)
    then obtain t where t: "archive_step name targets totalBytes limit served st t" "steps_left targets t < steps_left targets st" "ar_phase t = Fetching"
      by blast
    from less.hyps [OF t(2,3)] t(1) show ?thesis by (meson converse_rtranclp_into_rtranclp)
  qed
qed

lemma packaging_ends: "ar_phase st = Packaging \<Longrightarrow> \<exists>t. archive_step name targets totalBytes limit served st t \<and> run_over t"
  using archive_step.packed [of st] by (intro exI [of _ "archive_packaged st"]) (auto simp: run_over_def archive_packaged_def)

lemma archive_can_end: "\<exists>t. (archive_step name targets totalBytes limit served)\<^sup>*\<^sup>* st t \<and> run_over t"
proof -
  have joined: "\<exists>t. (archive_step name targets totalBytes limit served)\<^sup>*\<^sup>* st t \<and> run_over t"
    if "ar_phase st = Fetching" "list_all (\<lambda>x. x = Over) (ar_workers st)" for st
  proof -
    have s: "archive_step name targets totalBytes limit served st (downloads_joined st)" by (rule archive_step.joined [OF that])
    show ?thesis
    proof (cases "ar_phase (downloads_joined st) = Packaging")
      case True
      from packaging_ends [OF this] s show ?thesis by (meson converse_rtranclp_into_rtranclp r_into_rtranclp)
    next
      case False
      then have "run_over (downloads_joined st)" by (auto simp: run_over_def downloads_joined_def split: if_splits)
      with s show ?thesis by blast
    qed
  qed
  show ?thesis
  proof (cases "ar_phase st")
    case Fetching
    from fetching_ends [OF this] obtain t where
      "(archive_step name targets totalBytes limit served)\<^sup>*\<^sup>* st t" "ar_phase t = Fetching" "list_all (\<lambda>x. x = Over) (ar_workers t)" by blast
    with joined [of t] show ?thesis by (meson rtranclp_trans)
  next
    case Packaging
    from packaging_ends [OF this] show ?thesis by blast
  qed (auto simp: run_over_def)
qed

section \<open>The paths of a plan\<close>

definition plan_paths_ok :: "folder_plan \<Rightarrow> bool" where
  "plan_paths_ok plan \<longleftrightarrow> distinct (map at_relativeKey (fp_targets plan))
     \<and> (\<forall>t \<in> set (fp_targets plan). canonical_path (at_relativeKey t) \<in> set (fp_names plan))"

lemma plan_object_paths: "plan_paths_ok plan \<Longrightarrow> plan_paths_ok (plan_object folderPrefix makeDetailId ob plan)"
proof -
  assume ok: "plan_paths_ok plan"
  have "exclusion_reason (plan\<lparr>fp_seen := a\<rparr>) rel n = [] \<Longrightarrow> rel \<notin> at_relativeKey ` set (fp_targets plan)" for a rel n
    using ok by (auto simp: exclusion_reason_def plan_paths_ok_def Let_def split: if_splits)
  then show ?thesis using ok
    by (auto simp: plan_object_cases add_target_def plan_paths_ok_def Let_def)
qed

lemma plan_paths_distinct: "distinct (map at_relativeKey (fp_targets (buildBrowserFolderDownloadPlan objects folderPrefix makeDetailId)))"
proof -
  have "plan_paths_ok plan \<Longrightarrow> plan_paths_ok (fold (plan_object folderPrefix makeDetailId) objects plan)" for plan
    by (induction objects arbitrary: plan) (simp_all add: plan_object_paths)
  moreover have "plan_paths_ok no_objects" by (simp add: plan_paths_ok_def no_objects_def)
  ultimately show ?thesis by (simp add: plan_paths_ok_def buildBrowserFolderDownloadPlan_def)
qed

lemma entry_names_distinct:
  "distinct (map at_relativeKey targets) \<Longrightarrow> distinct (map (entry_name includeRoot label) targets)"
  by (auto simp: distinct_map inj_on_def entry_name_def)

section \<open>Properties\<close>

definition downloads_underway :: "archive_run \<Rightarrow> nat" where
  "downloads_underway st = length (filter (\<lambda>x. x \<noteq> Free \<and> x \<noteq> Over) (ar_workers st))"

text \<open>
  C14. The download of an archive in memory accounts for every file, stays within its limits and can always end. In
  every order of answers, failures and cancellation: no more downloads are on their way than the parallelism allows;
  the files kept are smaller together than the limit on the memory, or empty; when the function returns without
  cancellation every file of the plan is either in the archive once, at its path and with what the server sent, or in
  the list of failures once, and the archive is handed over exactly when it has a file; when it reports a
  cancellation nothing is handed over.
\<close>

theorem archive_download_accounts:
  assumes "targets = fp_targets (buildBrowserFolderDownloadPlan objects folderPrefix makeDetailId)" and "name = entry_name includeRoot label"
    and "(archive_step name targets totalBytes limit served)\<^sup>*\<^sup>* (downloadBrowserFolderArchive targets totalBytes limit parallelism signalled) st"
  shows "downloads_underway st \<le> normalizeConcurrencyLimit parallelism
    \<and> (blob_bytes (ar_files st) = 0 \<or> blob_bytes (ar_files st) < limit)
    \<and> (\<forall>archive. ar_phase st = Ended_With False archive \<longrightarrow> (\<exists>got lost. mset (got @ lost) = mset [0..<length targets]
        \<and> map fst (ar_files st) = map (\<lambda>i. name (targets ! i)) got \<and> list_all2 (\<lambda>i f. served (targets ! i) (snd f)) got (ar_files st)
        \<and> ar_failedKeys st = map (\<lambda>i. at_key (targets ! i)) lost \<and> archive = (if got = [] then None else Some (ar_files st))))
    \<and> (\<forall>archive. ar_phase st = Ended_With True archive \<longrightarrow> archive = None)
    \<and> (\<exists>t. (archive_step name targets totalBytes limit served)\<^sup>*\<^sup>* st t \<and> run_over t)"
proof -
  have "distinct (map name targets)" unfolding assms(1,2) by (intro entry_names_distinct plan_paths_distinct)
  from archive_runs_inv [OF assms(3) this] have i: "run_inv name targets limit served (worker_count parallelism (length targets)) st"
    and p: "phase_inv st" by simp_all
  have "length (ar_workers st) \<le> normalizeConcurrencyLimit parallelism" using i by (simp add: run_inv_def worker_count_def)
  then have "downloads_underway st \<le> normalizeConcurrencyLimit parallelism"
    unfolding downloads_underway_def by (rule le_trans [OF length_filter_le])
  moreover have "blob_bytes (ar_files st) = 0 \<or> blob_bytes (ar_files st) < limit" using i by (auto simp: run_inv_def)
  moreover have "\<exists>got lost. mset (got @ lost) = mset [0..<length targets]
        \<and> map fst (ar_files st) = map (\<lambda>i. name (targets ! i)) got \<and> list_all2 (\<lambda>i f. served (targets ! i) (snd f)) got (ar_files st)
        \<and> ar_failedKeys st = map (\<lambda>i. at_key (targets ! i)) lost \<and> archive = (if got = [] then None else Some (ar_files st))"
    if "ar_phase st = Ended_With False archive" for archive
  proof (intro exI conjI)
    have o: "pool_over st" and a: "archive = (if ar_succeeded st = 0 then None else Some (ar_files st))"
      using p that by (simp_all add: phase_inv_def)
    show "mset (with_status DetailDone (ar_details st) @ with_status DetailFailed (ar_details st)) = mset [0..<length targets]"
      by (rule pool_over_all [OF i o])
    show names: "map fst (ar_files st) = map (\<lambda>i. name (targets ! i)) (with_status DetailDone (ar_details st))"
      "list_all2 (\<lambda>i f. served (targets ! i) (snd f)) (with_status DetailDone (ar_details st)) (ar_files st)"
      "ar_failedKeys st = map (\<lambda>i. at_key (targets ! i)) (with_status DetailFailed (ar_details st))"
      using i by (simp_all add: run_inv_def)
    have "ar_succeeded st = length (with_status DetailDone (ar_details st))" using i names(2) by (simp add: run_inv_def list_all2_lengthD)
    then show "archive = (if with_status DetailDone (ar_details st) = [] then None else Some (ar_files st))" using a by simp
  qed
  moreover have "archive = None" if "ar_phase st = Ended_With True archive" for archive using p that by (simp add: phase_inv_def)
  ultimately show ?thesis using archive_can_end by blast
qed

text \<open>One file, whose download is answered.\<close>

definition one_file_plan :: folder_plan where
  "one_file_plan = buildBrowserFolderDownloadPlan [\<lparr>ao_key = ''a'', ao_size = Fin 2\<rparr>] [] nat_string"

definition one_file_start :: archive_run where
  "one_file_start = downloadBrowserFolderArchive (fp_targets one_file_plan) 2 10 (Fin 1) False"

definition one_file_end :: archive_run where
  "one_file_end = archive_packaged (downloads_joined (take_target (fp_targets one_file_plan) 0
     (blob_arrived (entry_name False []) (fp_targets one_file_plan) 2 10 0 0 [1, 2] (take_target (fp_targets one_file_plan) 0 one_file_start))))"

lemma one_file_targets: "fp_targets one_file_plan = [\<lparr>at_detailId = ''0'', at_key = ''a'', at_relativeKey = ''a'', at_sizeBytes = 2\<rparr>]"
  by code_simp

lemma one_file_run:
  "(archive_step (entry_name False []) (fp_targets one_file_plan) 2 10 (\<lambda>t b. b = [1, 2]))\<^sup>*\<^sup>* one_file_start one_file_end"
proof -
  let ?T = "fp_targets one_file_plan" and ?n = "entry_name False []"
  let ?s1 = "take_target ?T 0 one_file_start"
  let ?s2 = "blob_arrived ?n ?T 2 10 0 0 [1, 2] ?s1"
  let ?s3 = "take_target ?T 0 ?s2"
  have w: "ar_workers one_file_start = [Free]" "ar_workers ?s1 = [Downloading 0]" "ar_workers ?s2 = [Free]" "ar_workers ?s3 = [Over]"
    and p: "ar_phase one_file_start = Fetching" "ar_phase (downloads_joined ?s3) = Packaging"
    unfolding one_file_targets one_file_start_def by code_simp+
  let ?step = "archive_step ?n ?T 2 10 (\<lambda>t b. b = [1, 2])"
  have s1: "?step one_file_start ?s1" by (rule archive_step.taken) (simp_all add: w p)
  have s2: "?step ?s1 ?s2" by (rule archive_step.arrived) (simp_all add: w p)
  have s3: "?step ?s2 ?s3" by (rule archive_step.taken) (simp_all add: w p)
  have s4: "?step ?s3 (downloads_joined ?s3)" by (rule archive_step.joined) (simp_all add: w p)
  have s5: "?step (downloads_joined ?s3) one_file_end" unfolding one_file_end_def by (rule archive_step.packed) (rule p)
  show ?thesis
    by (rule converse_rtranclp_into_rtranclp [where r = ?step, OF s1], rule converse_rtranclp_into_rtranclp [where r = ?step, OF s2],
      rule converse_rtranclp_into_rtranclp [where r = ?step, OF s3], rule converse_rtranclp_into_rtranclp [where r = ?step, OF s4], rule r_into_rtranclp [where r = ?step, OF s5])
qed

theorem archive_download_accounts_witness:
  "ar_phase one_file_end = Ended_With False (Some (ar_files one_file_end)) \<and> map fst (ar_files one_file_end) = [''a'']"
proof -
  have ended: "ar_phase one_file_end = Ended_With False (Some (ar_files one_file_end))"
    unfolding one_file_end_def one_file_start_def one_file_targets by code_simp
  from archive_download_accounts [OF one_file_plan_def [THEN arg_cong, of fp_targets] refl one_file_run [unfolded one_file_start_def]] ended
  obtain got lost where g: "mset (got @ lost) = mset [0..<length (fp_targets one_file_plan)]" "got \<noteq> []"
    "map fst (ar_files one_file_end) = map (\<lambda>i. entry_name False [] (fp_targets one_file_plan ! i)) got" by force
  then have "mset got + mset lost = {#0#}" by (simp add: one_file_targets)
  then have "mset got = {#0#}" using g(2) by (metis union_is_single mset_zero_iff)
  then have "got = [0]" by simp
  with g(3) ended show ?thesis by (simp add: one_file_targets entry_name_def)
qed

end
