(* ===== verification/Spec2Isabelle.thy ===== *)
theory Spec2Isabelle
  imports Json_Roundtrip Config_Merge Notification_Merge Bulk_Model Bucket_Presentation Bulk_Input
    Concurrency Bucket_Api Bulk_Apply Bulk_Preview Bucket_Store Demo_Server Bulk_Properties
    Paste_Plan Config_Copy Config_Paste Paste_Preview Paste_Properties Clipboard Http_Client Auth_Refresh Filter_Properties
    List_State Selection Preview_Sections Paste_Sections Bucket_Listing Sse_Stream Selection_Export
    File_Upload Object_Transfer Restore_Plan Archive_Download
begin

text \<open>
  The bulk operations on buckets of BucketReef, an administration interface for S3 storage. The
  sources are TypeScript, under \<open>frontend/src\<close>; the modelled part is the pipeline that takes what an
  administrator types into the bulk form, validates it, shows a preview for every selected bucket
  and applies the change through the HTTP API; the one that copies the configuration of buckets and
  pastes it on others; the HTTP client both of them call; the filters
  of the listing the buckets are selected from, with the state of that listing; and, of the browser of
  objects, the uploads, the transfer between contexts, the restore of versions and the archive of a selection.

  \<^bold>\<open>The parts and how they interact.\<close> The form (\<open>features/shared/bucketOpsBulkInput.ts\<close>) reads texts
  with the JSON readers (\<open>features/cephAdmin/bucketJsonParsers.ts\<close>) and yields a validated input. The
  preview (\<open>bucketOpsBulkPreview.ts\<close>) and the operation (\<open>bucketOpsBulkApply.ts\<close>) both read a bucket's
  current configuration through \<open>bucketOpsApi.ts\<close> and \<open>api/cephAdminBucketDetails.ts\<close>, work out the
  next one with the merges of \<open>bucketConfigMerge.ts\<close> and \<open>bucketJsonParsers.ts\<close> and the helpers of
  \<open>bucketBulkOperationsModel.ts\<close>; the operation writes it when it differs. Both run over the selected
  buckets in the worker pool of \<open>utils/concurrency.ts\<close>. The server is behind the HTTP client; the
  sources contain one server, the static demo (\<open>demo/buckets.ts\<close> and its helpers).

  A copy (\<open>bucketOpsConfigCopy.ts\<close>) reads the chosen parts of the selected buckets into a clipboard,
  which \<open>bucketBulkOperationsModel.ts\<close> keeps in the session through \<open>utils/clientStorage.ts\<close>. The plan
  of a paste (\<open>bucketBulkPasteModel.ts\<close>) pairs sources with destinations; its preview
  (\<open>bucketOpsConfigPastePreview.ts\<close>) and the paste (\<open>bucketOpsConfigPaste.ts\<close>) compare each part with
  the destination and the paste writes those that differ, in a fixed order. Every call goes through
  \<open>api/client.ts\<close>, which refreshes an expired session once and repeats the request; tabs agree on who
  refreshes through a lease in the storage of the browser (\<open>api/authRefreshCoordinator.ts\<close>).

  The listing is filtered by a search, tags, the advanced filter (\<open>bucketOpsAdvancedFilterModel.ts\<close>,
  \<open>quotaAdvancedFilterModel.ts\<close>) and its detailed filters (\<open>cephAdmin/filtering/bucketAdvancedFilter.ts\<close>);
  they become one query. The page shows an item for each active filter, which removes it
  (\<open>bucketOpsFilterSummary.ts\<close>, \<open>useBucketOpsFilterController.ts\<close>). The state of the listing is kept in the local
  storage for each endpoint and restored when the endpoint changes (\<open>bucketOpsListState.ts\<close>,
  \<open>useBucketOpsListState.ts\<close>). The buckets selected in it (\<open>bucketOpsSelectionModel.ts\<close>,
  \<open>useBucketOpsSelection.ts\<close>), also all results of a query page by page (\<open>bucketOpsFilteredBucketLoader.ts\<close>),
  are the targets of the operations. The rows themselves come from \<open>useBucketOpsListing.ts\<close>, which asks for what
  \<open>bucketOpsListingProjection.ts\<close> says through \<open>api/bucketListingTransport.ts\<close> or the event stream of
  \<open>api/sseStream.ts\<close>; a selection is exported by \<open>bucketOpsSelectionExport.ts\<close>, and a preview is shown in the
  sections of \<open>bucketBulkPreviewModel.ts\<close>.

  In the browser of objects (\<open>features/browser\<close>) an upload sends the parts of a stream one after the other or
  those of a file by several workers (\<open>browserMultipartUpload.ts\<close>); a copy or a move between two contexts
  (\<open>browserClipboardTransfer.ts\<close>) downloads an object and sends it on, in parts when it is large; a restore
  (\<open>browserBulkRestorePlan.ts\<close>) works out from the versions of a selection what to copy back and what to
  delete; and the download of a selection lists its objects (\<open>browserSelectionManifest.ts\<close>) and gives each a
  path in an archive or a reason why it has none (\<open>browserFolderDownload.ts\<close>).

  \<^bold>\<open>The theories.\<close>
  \<^item> \<open>Js_Prelude\<close>: the fragment of ECMAScript the sources use (values, strings, arrays, sorting)
    and the lemmas every component shares. \<open>Json_Text\<close>: \<open>JSON.stringify\<close>, \<open>JSON.parse\<close> and \<open>Number\<close>;
    the parser has fuel, the length of the text plus one, which \<open>Json_Roundtrip\<close> proves enough.
  \<^item> \<open>Json_Parsers\<close>, \<open>Json_Roundtrip\<close>, \<open>Notification_Merge\<close>: \<open>bucketJsonParsers.ts\<close>. Canonical text
    reads back and does not depend on the order of keys; the form readers accept what they say;
    merging notifications is idempotent and deleting them is exact.
  \<^item> \<open>Config_Merge\<close>: \<open>bucketConfigMerge.ts\<close>. The three merges are instances of one loop; its laws are
    proved once in the locales \<open>rule_merge\<close> and \<open>two_key_merge\<close> and interpreted on the lifecycle, CORS
    and policy merges (and on the notification merge).
  \<^item> \<open>Bulk_Model\<close>, \<open>Bucket_Presentation\<close>, \<open>Bulk_Input\<close>: the operations, snapshots, quota input, flags,
    formatting, references and validation.
  \<^item> \<open>Concurrency\<close>: the worker pools as inductive step relations over every interleaving of the
    workers, with their invariant, termination and progress.
  \<^item> \<open>Bucket_Api\<close>, \<open>Bulk_Apply\<close>, \<open>Bulk_Preview\<close>: the calls as functions on the state of the server,
    one definition for each branch of the operation and for each builder of the preview.
  \<^item> \<open>Bucket_Store\<close>: the contract with the server as the locale \<open>bucket_store\<close>, the specification
    \<open>next_view\<close> of what an operation makes of one configuration, and the refinement of \<open>next_view\<close> by
    the operation; \<open>quota_store\<close> extends it with the quota. \<open>Demo_Server\<close>: the demo server, and the
    interpretation of \<open>quota_store\<close> on it.
  \<^item> \<open>Bulk_Properties\<close>: the properties of previews, operations, batches and quotas.
  \<^item> \<open>Paste_Plan\<close>: the plan of a paste and the mapping the user edits. A plan is sound, and the mapping
    offered never forces a choice.
  \<^item> \<open>Config_Copy\<close>, \<open>Config_Paste\<close>, \<open>Paste_Preview\<close>: the copy, the paste and its preview, each part one
    definition; the specification \<open>pasted_view\<close> of what a paste makes of a configuration, as a list of
    steps on the view, and the lemmas that the parts implement them in any \<open>bucket_store\<close>.
    \<open>Paste_Properties\<close>: a copy then a paste, a paste then a paste, a preview then a paste, whole plans
    and quotas on the demo server.
  \<^item> \<open>Clipboard\<close>: the stored clipboard. What is saved is loaded again, and what is loaded from any stored
    text is well formed.
  \<^item> \<open>Http_Client\<close>: the request, its refresh and its repetition as a function on the state of the tab.
    \<open>Auth_Refresh\<close>: the coordination of the tabs without the lock manager, as a timed step relation.
  \<^item> \<open>Filter_Text\<close>, \<open>Filter_Details\<close>, \<open>Advanced_Filter\<close>: the text filters, the detailed filters and the
    advanced filter with its query and its stored form. The rules and the summary of the detailed
    filters are two readings of one table of rows, and what relates them is proved for a row; dropping
    what an endpoint does not support does not change the query.
  \<^item> \<open>Filter_Summary\<close>, \<open>Filter_Properties\<close>: the items of the active filters and the operations on them.
    Removing an item removes that one only, removing all leaves no query, and what a stored filter
    must hold for the page to show it.
  \<^item> \<open>List_State\<close>: the columns, the stored states and the hook; a render with its effects is one function
    of the rendered state, the options and the storage. A stored state is loaded again, what is
    restored is well formed, and a change of endpoint does not mix the states of two endpoints.
  \<^item> \<open>Selection\<close>: the keys, counts and targets of the selection, the loop over the pages of a query, and
    the hook with its loads on their way, as a step relation. The targets are the selected buckets
    whatever page is shown, and only a load for the query shown changes the selection.
  \<^item> \<open>Preview_Sections\<close>, \<open>Paste_Sections\<close>: the sections in which previews are shown and their export. An
    announced change is shown as one, and no line of a paste's preview is lost.
  \<^item> \<open>Listing_Projection\<close>, \<open>Listing_Transport\<close>, \<open>Sse_Stream\<close>, \<open>Bucket_Listing\<close>: what the listing asks for, how it
    is sent, the reader of event streams, and the hook whose loads are processes of a step relation. What is
    shown is asked for; GET and POST carry the same; events survive any cut of their text; and the rows
    shown are answers to the last render.
  \<^item> \<open>Bucket_Export\<close>, \<open>Selection_Export\<close>: the columns and rows of an export, the buckets loaded by name in
    chunks and pages, and the file. The CSV reads back as one row for each selected bucket.
  \<^item> \<open>Object_Upload\<close>, \<open>File_Upload\<close>, \<open>Object_Transfer\<close>: the upload of a stream against an S3 server that may lose
    any request or answer, the upload of a file as a step relation over its workers, and the transfer between
    two contexts on top of the first. An upload is all or nothing, and a move deletes its source only when the
    copy is there.
  \<^item> \<open>Restore_Plan\<close>: the plan of a restore over a versioned bucket, which is a list of versions for each key,
    newest first. Carrying out the plan gives the selected keys what was asked for and leaves the others.
  \<^item> \<open>Folder_Archive\<close>: the objects of a selection, the plan of the archive and a program that unpacks it without
    care. The archive holds the selection and unpacks inside its directory, each file at its own path.
    \<open>Archive_Download\<close>: the workers that download the files of an archive in memory, as a step relation. Every
    file is archived or reported, within the limits on the memory and the parallelism.

  \<^bold>\<open>What is abstracted.\<close> Strings are lists of code units 0 to 255; numbers are exact rationals with
  the non-finite values, so the rounding of doubles is not modelled (the sources multiply and
  divide by powers of 1024); collation and the text of numbers belong to the host and are
  parameters. A path is the list of its decoded segments. For the bucket operations the HTTP client is
  the record \<open>http_client\<close> of the calls they make, and the handlers of the demo server for other routes
  are parameters. In \<open>Http_Client\<close> the network, the cookies and what other tabs do are the record
  \<open>client_env\<close>: an outcome of \<open>fetch\<close> is an answer, or a failure that is a timeout or not; a query is
  the list of its entries. In \<open>Auth_Refresh\<close> time is in milliseconds and \<open>late\<close> bounds the delay of a
  timer; exclusion needs \<open>late\<close> below 1975, the slack the code leaves between the timeout of a refresh
  and the end of its lease. The calendar, for the dates of a clipboard, is a parameter. Objects are
  lists of their own keys: the names of \<open>Object.prototype\<close> are outside the model. The pool's handlers
  are any outcomes; the effect of a batch on the server is stated for buckets served one after the
  other, in any order. The detailed filters and the numeric fields of the advanced filter are functions of
  their keys, and the state of a feature is the stored value, which may be no text. The order of the
  entries in the stored states of the listings is not modelled. An effect of the hook of the listing
  runs when its dependencies changed, in the order of the source; its timer is a step of its own. The
  loop over the pages has no fuel: it is a partial function, proved to end on a server that lists its
  results in pages of 200. The effects of the hook of the selection are taken with the render that
  causes them. The decoder of bytes and the sanitizer of error messages are parameters of the streams; the
  clean-up of the listing when the page is left is a definition but no step. In the uploads the code and the
  message that \<open>extractBrowserErrorDetails\<close> reads in a body are fields of the answer, the fates of the requests
  are a script of the reference server, and a signal is a field of its state; the reader of dates and the
  identifiers of the details of a download are parameters. Times in a versioned bucket decrease strictly from a
  version to the one before; on the alphabet of the model the normal form NFC of a text is the text.

  \<^bold>\<open>What is not modelled.\<close> The React views and the hooks but for those named above (of the copy hook
  only the reader of quotas, of the filter controller not the drawer), the other surfaces (the rest of the browser,
  portal, manager, administration) and the Python service; the projections that only the drawer and the
  panels read, the storage operations mode of the bucket API and the other routes of the demo server. Of the HTTP client: form data and binary bodies, the combination
  of abort signals, and the lock manager of the browser, whose exclusion is that of the browser.
\<close>

end
